(* ===== verification/Prelude.thy ===== *)
theory Prelude
  imports Main "HOL-Library.Word"
begin

text \<open>
  Shared ground of the development: Go errors as values, the result type of every
  fallible function, calls on an abstract environment as state transformers, and the
  generic lemmas on lists, sums and bytes that the components use.
\<close>

section \<open>Errors and results\<close>

text \<open>
  A Go \<open>error\<close> is a value. \<open>Errorf m\<close> is \<open>fmt.Errorf\<close> or \<open>errors.New\<close> with the fixed
  part of the message, \<open>Wrap m e\<close> is \<open>fmt.Errorf("m: %v", e)\<close>: it carries the text of
  \<open>e\<close> and loses its identity. The others are the errors the code tests for: the two
  file-system classes (\<open>os.IsNotExist\<close>, \<open>os.IsExist\<close>), a missing link
  (\<open>netlink.LinkNotFoundError\<close>, turned into \<open>ip.ErrLinkNotFound\<close>), an iptables exit with its
  status and its not-exist flag, and any other error of the environment, by a number. \<open>Panic\<close> is a
  run-time panic (an index out of range, a nil dereference): it is no error value, so \<open>if err != nil\<close>
  never sees it and it ends every caller.
\<close>

datatype error =
    Errorf string
  | Wrap string error
  | ErrNotExist
  | ErrExist
  | ErrLinkNotFound
  | IptablesError nat bool
  | EnvError nat
  | Panic string

definition is_panic :: "error \<Rightarrow> bool" where
  "is_panic e = (case e of Panic _ \<Rightarrow> True | _ \<Rightarrow> False)"

lemma is_panic_simps [simp]:
  "is_panic (Panic s)" "\<not> is_panic (Errorf m)" "\<not> is_panic (Wrap m e)" "\<not> is_panic ErrNotExist"
  "\<not> is_panic ErrExist" "\<not> is_panic ErrLinkNotFound" "\<not> is_panic (IptablesError n b)" "\<not> is_panic (EnvError n)"
  by (simp_all add: is_panic_def)

type_synonym 'a res = "error + 'a"

definition is_ok :: "'a res \<Rightarrow> bool" where
  "is_ok r = (case r of Inl _ \<Rightarrow> False | Inr _ \<Rightarrow> True)"

lemma is_ok_simps [simp]: "is_ok (Inr x)" "\<not> is_ok (Inl e)"
  by (simp_all add: is_ok_def)

definition bind_res :: "'a res \<Rightarrow> ('a \<Rightarrow> 'b res) \<Rightarrow> 'b res" where
  "bind_res r f = (case r of Inl e \<Rightarrow> Inl e | Inr x \<Rightarrow> f x)"

lemma bind_res_simps [simp]:
  "bind_res (Inl e) f = Inl e"
  "bind_res (Inr x) f = f x"
  by (simp_all add: bind_res_def)

lemma bind_res_Inr: "bind_res r f = Inr y \<longleftrightarrow> (\<exists>x. r = Inr x \<and> f x = Inr y)"
  by (cases r) simp_all

text \<open>A loop over a slice that stops at the first error and collects the results.\<close>

fun map_res :: "('a \<Rightarrow> 'b res) \<Rightarrow> 'a list \<Rightarrow> 'b list res" where
  "map_res f [] = Inr []"
| "map_res f (x # xs) = bind_res (f x) (\<lambda>y. bind_res (map_res f xs) (\<lambda>ys. Inr (y # ys)))"

lemma map_res_Inr_iff:
  "map_res f xs = Inr ys \<longleftrightarrow> list_all2 (\<lambda>x y. f x = Inr y) xs ys"
  by (induction xs arbitrary: ys) (auto simp: bind_res_Inr list_all2_Cons1)

fun_cases map_res_NilE: "map_res f [] = Inr ys"
  and map_res_ConsE: "map_res f (x # xs) = Inr ys"

lemma map_res_length: "map_res f xs = Inr ys \<Longrightarrow> length ys = length xs"
  by (simp add: map_res_Inr_iff list_all2_lengthD)

lemma map_res_nth:
  "map_res f xs = Inr ys \<Longrightarrow> i < length xs \<Longrightarrow> f (xs ! i) = Inr (ys ! i)"
  using list_all2_nthD [of "\<lambda>x y. f x = Inr y" xs ys i] by (simp add: map_res_Inr_iff)

section \<open>Calls on an environment\<close>

text \<open>
  Calls of the kernel, of a daemon or of the file system are parameters of the model. Each
  takes the state \<open>'w\<close> of the environment and returns a result and the new state.
\<close>

type_synonym ('w, 'a) io = "'w \<Rightarrow> 'a res \<times> 'w"

definition ret :: "'a \<Rightarrow> ('w, 'a) io" where
  "ret x w = (Inr x, w)"

definition fail :: "error \<Rightarrow> ('w, 'a) io" where
  "fail e w = (Inl e, w)"

text \<open>\<open>x, err := m; if err != nil { return err }; f x\<close>\<close>

definition bind_io :: "('w, 'a) io \<Rightarrow> ('a \<Rightarrow> ('w, 'b) io) \<Rightarrow> ('w, 'b) io" where
  "bind_io m f w = (case m w of (Inl e, w') \<Rightarrow> (Inl e, w') | (Inr x, w') \<Rightarrow> f x w')"

text \<open>\<open>x, err := m\<close> with both outcomes handled by the code that follows.\<close>

definition attempt :: "('w, 'a) io \<Rightarrow> ('a res \<Rightarrow> ('w, 'b) io) \<Rightarrow> ('w, 'b) io" where
  "attempt m f w =
     (case m w of
        (Inl e, w') \<Rightarrow> if is_panic e then (Inl e, w') else f (Inl e) w'
      | (Inr x, w') \<Rightarrow> f (Inr x) w')"

text \<open>\<open>if err != nil { return fmt.Errorf("msg: %v", err) }\<close>\<close>

definition wrap_io :: "string \<Rightarrow> ('w, 'a) io \<Rightarrow> ('w, 'a) io" where
  "wrap_io msg m w =
     (case m w of
        (Inl e, w') \<Rightarrow> (Inl (if is_panic e then e else Wrap msg e), w')
      | (Inr x, w') \<Rightarrow> (Inr x, w'))"

text \<open>A loop whose body may return an error, which ends the loop.\<close>

fun each_io :: "('a \<Rightarrow> ('w, unit) io) \<Rightarrow> 'a list \<Rightarrow> ('w, unit) io" where
  "each_io f [] = ret ()"
| "each_io f (x # xs) = bind_io (f x) (\<lambda>_. each_io f xs)"

named_theorems io_defs

lemmas [io_defs] = ret_def fail_def bind_io_def attempt_def wrap_io_def

lemma bind_io_ok: "m w = (Inr x, w') \<Longrightarrow> bind_io m f w = f x w'"
  by (simp add: bind_io_def)

lemma bind_io_err: "m w = (Inl e, w') \<Longrightarrow> bind_io m f w = (Inl e, w')"
  by (simp add: bind_io_def)

lemma bind_io_InrE:
  assumes "bind_io m f w = (Inr y, w'')"
  obtains x w' where "m w = (Inr x, w')" "f x w' = (Inr y, w'')"
  using assms by (auto simp: bind_io_def split: prod.splits sum.splits)

lemma wrap_io_InrE:
  assumes "wrap_io msg m w = (Inr y, w')"
  shows "m w = (Inr y, w')"
  using assms by (auto simp: wrap_io_def split: prod.splits sum.splits)

section \<open>Lists\<close>

lemma nth_butlast_last: "xs \<noteq> [] \<Longrightarrow> butlast xs @ [last xs] = xs"
  by simp

lemma find_Some_iff_first:
  "find P xs = Some x \<longleftrightarrow> (\<exists>i<length xs. P (xs ! i) \<and> x = xs ! i \<and> (\<forall>j<i. \<not> P (xs ! j)))"
  by (rule find_Some_iff)

lemma list_ex_find: "list_ex P xs \<longleftrightarrow> find P xs \<noteq> None"
  by (induction xs) auto

end
