(* ===== verification/Go_Net.thy ===== *)
theory Go_Net
  imports Prelude
begin

unbundle bit_operations_syntax

text \<open>
  The part of Go's \<open>net\<close> package the repository uses on binary addresses: \<open>net.IP\<close>,
  \<open>net.IPMask\<close> and \<open>net.IPNet\<close> as byte slices. The nil slice is the empty list; the code only
  compares addresses with nil that come from the decoder, from \<open>To4\<close>, \<open>To16\<close>, \<open>Mask\<close> or
  \<open>ParseIP\<close>, none of which returns an empty slice that is not nil.
\<close>

section \<open>Addresses\<close>

type_synonym byte = "8 word"
type_synonym ip = "byte list"
type_synonym ipmask = "byte list"

record ipnet =
  net_ip :: ip
  net_mask :: ipmask

definition v4InV6Prefix :: "byte list" where
  "v4InV6Prefix = [0, 0, 0, 0, 0, 0, 0, 0, 0, 0, 0xff, 0xff]"

definition To4 :: "ip \<Rightarrow> ip" where
  "To4 a = (if length a = 4 then a
            else if length a = 16 \<and> take 12 a = v4InV6Prefix then drop 12 a
            else [])"

definition To16 :: "ip \<Rightarrow> ip" where
  "To16 a = (if length a = 4 then v4InV6Prefix @ a
             else if length a = 16 then a
             else [])"

text \<open>\<open>IP.Equal\<close>: an IPv4 address and its IPv6-mapped form are equal.\<close>

definition ip_equal :: "ip \<Rightarrow> ip \<Rightarrow> bool" where
  "ip_equal a b =
     (if length a = length b then a = b
      else if length a = 4 \<and> length b = 16 then take 12 b = v4InV6Prefix \<and> a = drop 12 b
      else if length a = 16 \<and> length b = 4 then take 12 a = v4InV6Prefix \<and> drop 12 a = b
      else False)"

definition allFF :: "byte list \<Rightarrow> bool" where
  "allFF = list_all (\<lambda>b. b = 0xff)"

definition ip_and :: "byte list \<Rightarrow> byte list \<Rightarrow> byte list" where
  "ip_and = map2 (\<lambda>a m. a AND m)"

text \<open>\<open>IP.Mask\<close>\<close>

definition ip_mask :: "ip \<Rightarrow> ipmask \<Rightarrow> ip" where
  "ip_mask a0 m0 =
     (let m = (if length m0 = 16 \<and> length a0 = 4 \<and> allFF (take 12 m0) then drop 12 m0 else m0);
          a = (if length m = 4 \<and> length a0 = 16 \<and> take 12 a0 = v4InV6Prefix then drop 12 a0 else a0)
      in if length a \<noteq> length m then [] else ip_and a m)"

text \<open>\<open>networkNumberAndMask\<close> and \<open>IPNet.Contains\<close>\<close>

definition network_number_and_mask :: "ipnet \<Rightarrow> ip \<times> ipmask" where
  "network_number_and_mask n =
     (let a = (if To4 (net_ip n) \<noteq> [] then To4 (net_ip n) else net_ip n); m = net_mask n
      in if To4 (net_ip n) = [] \<and> length (net_ip n) \<noteq> 16 then ([], [])
         else if length m = 4 then (if length a \<noteq> 4 then ([], []) else (a, m))
         else if length m = 16 then (a, if length a = 4 then drop 12 m else m)
         else ([], []))"

definition ipnet_contains :: "ipnet \<Rightarrow> ip \<Rightarrow> bool" where
  "ipnet_contains n a0 =
     (let (nn, m) = network_number_and_mask n;
          a = (if To4 a0 \<noteq> [] then To4 a0 else a0)
      in length a = length nn \<and> ip_and nn m = ip_and a m)"

section \<open>Masks\<close>

text \<open>The bits of a byte and of a mask, most significant first.\<close>

definition byte_bits :: "byte \<Rightarrow> bool list" where
  "byte_bits v = map (bit v) [7, 6, 5, 4, 3, 2, 1, 0]"

definition mask_bits :: "ipmask \<Rightarrow> bool list" where
  "mask_bits m = concat (map byte_bits m)"

text \<open>
  \<open>simpleMaskLength\<close>: the number of leading one bits, or \<open>-1\<close> when a one bit follows a zero
  bit; \<open>IPMask.Size\<close> turns the latter into \<open>(0, 0)\<close>.
\<close>

definition simple_mask_length :: "ipmask \<Rightarrow> int" where
  "simple_mask_length m =
     (if list_all Not (dropWhile id (mask_bits m)) then int (length (takeWhile id (mask_bits m))) else -1)"

definition mask_size :: "ipmask \<Rightarrow> int \<times> int" where
  "mask_size m = (let ones = simple_mask_length m
                  in if ones = -1 then (0, 0) else (ones, int (length m) * 8))"

text \<open>\<open>net.CIDRMask(ones, bits)\<close>\<close>

fun cidr_mask_bytes :: "nat \<Rightarrow> nat \<Rightarrow> byte list" where
  "cidr_mask_bytes n 0 = []"
| "cidr_mask_bytes n (Suc k) =
     (if 8 \<le> n then 0xff # cidr_mask_bytes (n - 8) k
      else NOT (drop_bit n 0xff) # cidr_mask_bytes 0 k)"

definition CIDRMask :: "int \<Rightarrow> int \<Rightarrow> ipmask" where
  "CIDRMask ones bits =
     (if bits \<noteq> 32 \<and> bits \<noteq> 128 then []
      else if ones < 0 \<or> bits < ones then []
      else cidr_mask_bytes (nat ones) (nat bits div 8))"

section \<open>Facts\<close>

lemma length_v4InV6Prefix [simp]: "length v4InV6Prefix = 12"
  by (simp add: v4InV6Prefix_def)

text \<open>
  An address in the form \<open>canonicalizeIP\<close> produces: four bytes, or sixteen bytes that are not
  an IPv4-mapped address.
\<close>

definition canon :: "ip \<Rightarrow> bool" where
  "canon a \<longleftrightarrow> length a = 4 \<or> (length a = 16 \<and> take 12 a \<noteq> v4InV6Prefix)"

lemma To4_canon4 [simp]: "length a = 4 \<Longrightarrow> To4 a = a"
  by (simp add: To4_def)

lemma To4_eq_Nil_iff: "To4 a = [] \<longleftrightarrow> length a \<noteq> 4 \<and> (length a \<noteq> 16 \<or> take 12 a \<noteq> v4InV6Prefix)"
  by (auto simp: To4_def)

lemma length_To4: "To4 a \<noteq> [] \<Longrightarrow> length (To4 a) = 4"
  by (auto simp: To4_def split: if_splits)

lemma To16_eq_Nil_iff: "To16 a = [] \<longleftrightarrow> length a \<noteq> 4 \<and> length a \<noteq> 16"
  by (auto simp: To16_def)

lemma To4_To16 [simp]: "To4 (To16 a) = To4 a"
  by (auto simp: To4_def To16_def)

lemma To16_To16 [simp]: "To16 (To16 a) = To16 a"
  by (auto simp: To16_def)

lemma canon_length: "canon a \<Longrightarrow> length a = 4 \<or> length a = 16"
  by (auto simp: canon_def)

lemma canon_nonempty: "canon a \<Longrightarrow> a \<noteq> []"
  by (auto simp: canon_def)

lemma canon_To4: "canon a \<Longrightarrow> To4 a = (if length a = 4 then a else [])"
  by (auto simp: canon_def To4_def)

lemma canon_To4_or_To16:
  assumes "To4 a \<noteq> [] \<or> To16 a \<noteq> []"
  shows "canon (if To4 a \<noteq> [] then To4 a else To16 a)"
  using assms by (auto simp: canon_def To4_def To16_def split: if_splits)

lemma ip_equal_refl [simp]: "ip_equal a a"
  by (simp add: ip_equal_def)

lemma ip_equal_sym: "ip_equal a b = ip_equal b a"
  by (auto simp: ip_equal_def)

text \<open>On canonical addresses \<open>IP.Equal\<close> is equality.\<close>

lemma ip_equal_canon: "canon a \<Longrightarrow> canon b \<Longrightarrow> ip_equal a b \<longleftrightarrow> a = b"
  by (auto simp: canon_def ip_equal_def)

text \<open>In general it compares the 16-byte forms.\<close>

lemma ip_equal_To16:
  assumes "To16 a \<noteq> []" "To16 b \<noteq> []"
  shows "ip_equal a b \<longleftrightarrow> To16 a = To16 b"
proof -
  have "\<And>x y. length y = 4 \<Longrightarrow> length x = 16 \<Longrightarrow>
      (take 12 x = v4InV6Prefix \<and> y = drop 12 x) \<longleftrightarrow> x = v4InV6Prefix @ y"
    by (metis append_eq_conv_conj append_take_drop_id length_v4InV6Prefix)
  with assms show ?thesis
    by (auto simp: ip_equal_def To16_def eq_commute [of "drop 12 a"] eq_commute [of "_ @ _" a]
        eq_commute [of "_ @ _" b] simp del: append_take_drop_id split: if_splits)
qed

lemma length_ip_and [simp]: "length (ip_and a m) = min (length a) (length m)"
  by (simp add: ip_and_def)

lemma ip_and_nth: "i < length a \<Longrightarrow> i < length m \<Longrightarrow> ip_and a m ! i = a ! i AND m ! i"
  by (simp add: ip_and_def)

lemma ip_mask_same: "length a = length m \<Longrightarrow> ip_mask a m = ip_and a m"
  by (auto simp: ip_mask_def Let_def)

lemma ip_and_idem: "length a = length m \<Longrightarrow> ip_and (ip_and a m) m = ip_and a m"
  by (auto intro!: nth_equalityI simp: ip_and_nth and.assoc)

lemma ipnet_contains_canon:
  assumes "canon (net_ip n)" "canon a" "length (net_mask n) = length (net_ip n)"
    "length a = length (net_ip n)"
  shows "ipnet_contains n a \<longleftrightarrow> ip_and (net_ip n) (net_mask n) = ip_and a (net_mask n)"
  using assms canon_length [OF assms(1)]
  by (auto simp: ipnet_contains_def network_number_and_mask_def canon_To4 canon_nonempty)

subsection \<open>Masks with at least two host bits\<close>

lemma length_byte_bits [simp]: "length (byte_bits v) = 8"
  by (simp add: byte_bits_def)

lemma length_mask_bits [simp]: "length (mask_bits m) = 8 * length m"
  by (induction m) (simp_all add: mask_bits_def)

lemma mask_bits_snoc: "mask_bits (m @ [v]) = mask_bits m @ byte_bits v"
  by (simp add: mask_bits_def)

lemma simple_mask_shape:
  assumes "simple_mask_length m \<noteq> -1"
  shows "mask_bits m = replicate (nat (simple_mask_length m)) True
           @ replicate (8 * length m - nat (simple_mask_length m)) False"
proof -
  let ?b = "mask_bits m"
  from assms have d: "list_all Not (dropWhile id ?b)"
    and n: "simple_mask_length m = int (length (takeWhile id ?b))"
    by (auto simp: simple_mask_length_def split: if_splits)
  have t: "takeWhile id ?b = replicate (length (takeWhile id ?b)) True"
    by (rule replicate_eqI) (auto dest: set_takeWhileD)
  have f: "dropWhile id ?b = replicate (length (dropWhile id ?b)) False"
    using d by (intro replicate_eqI) (auto simp: list_all_iff)
  have "length (takeWhile id ?b) + length (dropWhile id ?b) = 8 * length m"
    by (metis length_append length_mask_bits takeWhile_dropWhile_id)
  then have "length (dropWhile id ?b) = 8 * length m - nat (simple_mask_length m)"
    using n by simp
  with t f n show ?thesis
    by (metis nat_int takeWhile_dropWhile_id)
qed

lemma mask_two_host_bits:
  assumes "m \<noteq> []" "simple_mask_length m \<noteq> -1" "simple_mask_length m \<le> int (length m) * 8 - 2"
  shows "\<not> bit (last m) 0 \<and> \<not> bit (last m) 1"
proof -
  let ?k = "nat (simple_mask_length m)" and ?n = "8 * length m"
  have k: "?k + 2 \<le> ?n"
  proof -
    have "0 \<le> simple_mask_length m"
      using assms(2) by (simp add: simple_mask_length_def split: if_splits)
    then show ?thesis using assms(3) by linarith
  qed
  have "mask_bits m = mask_bits (butlast m) @ byte_bits (last m)"
    using assms(1) by (metis append_butlast_last_id mask_bits_snoc)
  moreover obtain j where "length m = Suc j"
    using assms(1) by (cases m) auto
  ultimately have "mask_bits m ! (?n - 1) = bit (last m) 0" "mask_bits m ! (?n - 2) = bit (last m) 1"
    by (simp_all add: nth_append byte_bits_def)
  moreover have "mask_bits m ! (?n - 1) = False" "mask_bits m ! (?n - 2) = False"
    using k unfolding simple_mask_shape [OF assms(2)] by (auto simp: nth_append)
  ultimately show ?thesis by simp
qed

end
