(* ===== verification/Ip_Cidr.thy ===== *)
theory Ip_Cidr
  imports Go_Net
begin

text \<open>
  \<open>pkg/ip/cidr.go\<close>: addresses as big integers, the successor and predecessor of an address and
  the comparison of two addresses. The lemmas give the value of each operation on canonical
  addresses whose leading byte is not zero, the only ones on which \<open>NextIP\<close> keeps the length.
\<close>

section \<open>Big-endian bytes\<close>

text \<open>\<open>big.Int.SetBytes\<close> and \<open>big.Int.Bytes\<close> (minimal length, of the absolute value).\<close>

definition of_bytes :: "byte list \<Rightarrow> nat" where
  "of_bytes bs = foldl (\<lambda>n b. n * 256 + unat b) 0 bs"

fun to_bytes :: "nat \<Rightarrow> byte list" where
  "to_bytes n = (if n = 0 then [] else to_bytes (n div 256) @ [of_nat (n mod 256)])"

declare to_bytes.simps [simp del]

section \<open>The functions of cidr.go\<close>

definition ipToInt :: "ip \<Rightarrow> int" where
  "ipToInt a = (let v = To4 a in if v \<noteq> [] then int (of_bytes v) else int (of_bytes (To16 a)))"

definition intToIP :: "int \<Rightarrow> ip" where
  "intToIP i = to_bytes (nat \<bar>i\<bar>)"

definition NextIP :: "ip \<Rightarrow> ip" where
  "NextIP a = intToIP (ipToInt a + 1)"

definition PrevIP :: "ip \<Rightarrow> ip" where
  "PrevIP a = intToIP (ipToInt a - 1)"

definition Cmp :: "ip \<Rightarrow> ip \<Rightarrow> int" where
  "Cmp a b = (let aa = ipToInt a; bb = ipToInt b
              in if aa < bb then -1 else if aa = bb then 0 else 1)"

definition Network :: "ipnet \<Rightarrow> ipnet" where
  "Network ipn = \<lparr>net_ip = ip_mask (net_ip ipn) (net_mask ipn), net_mask = net_mask ipn\<rparr>"

section \<open>Values\<close>

lemma of_bytes_Nil [simp]: "of_bytes [] = 0"
  by (simp add: of_bytes_def)

lemma of_bytes_snoc [simp]: "of_bytes (bs @ [b]) = of_bytes bs * 256 + unat b"
  by (simp add: of_bytes_def)

lemma of_bytes_append: "of_bytes (as @ bs) = of_bytes as * 256 ^ length bs + of_bytes bs"
proof (induction bs rule: rev_induct)
  case Nil
  then show ?case by simp
next
  case (snoc b bs)
  have "of_bytes (as @ bs @ [b]) = of_bytes (as @ bs) * 256 + unat b"
    by (metis append_assoc of_bytes_snoc)
  with snoc show ?case by (simp add: algebra_simps)
qed

lemma of_bytes_Cons: "of_bytes (b # bs) = unat b * 256 ^ length bs + of_bytes bs"
  using of_bytes_append [of "[b]" bs] of_bytes_snoc [of "[]" b] by simp

lemma unat_byte: "unat (b :: byte) < 256"
  using unsigned_less [of b] by simp

lemma of_bytes_less: "of_bytes bs < 256 ^ length bs"
proof (induction bs)
  case Nil
  then show ?case by simp
next
  case (Cons b bs)
  have "unat b < 256" by (rule unat_byte)
  then have "unat b * 256 ^ length bs \<le> 255 * 256 ^ length bs"
    by (intro mult_right_mono) auto
  then have "of_bytes (b # bs) < 256 * 256 ^ length bs"
    unfolding of_bytes_Cons using Cons by linarith
  then show ?case by simp
qed

lemma div_mod_unique_aux:
  fixes p :: nat
  assumes "a * p + r = b * p + s" "r < p" "s < p"
  shows "a = b \<and> r = s"
proof -
  have "(a * p + r) div p = a" "(b * p + s) div p = b" using assms(2,3) by simp_all
  with assms(1) show ?thesis by simp
qed

lemma of_bytes_inj: "length as = length bs \<Longrightarrow> of_bytes as = of_bytes bs \<Longrightarrow> as = bs"
proof (induction as bs rule: list_induct2)
  case Nil
  then show ?case by simp
next
  case (Cons a as b bs)
  let ?p = "256 ^ length as :: nat"
  have "unat a * ?p + of_bytes as = unat b * ?p + of_bytes bs"
    using Cons.prems Cons.hyps by (simp add: of_bytes_Cons)
  moreover have "of_bytes as < ?p" "of_bytes bs < ?p"
    using of_bytes_less [of as] of_bytes_less [of bs] Cons.hyps by simp_all
  ultimately have "unat a = unat b" "of_bytes as = of_bytes bs"
    using div_mod_unique_aux by blast+
  with Cons.IH show ?case by (simp add: word_unat_eq_iff)
qed

lemma of_bytes_lower: "bs \<noteq> [] \<Longrightarrow> hd bs \<noteq> 0 \<Longrightarrow> 256 ^ (length bs - 1) \<le> of_bytes bs"
proof (cases bs)
  case (Cons b bs')
  assume "hd bs \<noteq> 0"
  then have "1 \<le> unat b" using Cons by (simp add: unat_gt_0 Suc_leI)
  then have "1 * 256 ^ length bs' \<le> unat b * 256 ^ length bs'"
    by (intro mult_right_mono) simp_all
  also have "\<dots> \<le> of_bytes bs" unfolding Cons of_bytes_Cons by simp
  finally show ?thesis by (simp add: Cons)
qed simp

lemma of_bytes_upper_hd0: "bs \<noteq> [] \<Longrightarrow> hd bs = 0 \<Longrightarrow> of_bytes bs < 256 ^ (length bs - 1)"
  by (cases bs) (use of_bytes_less in \<open>auto simp: of_bytes_Cons\<close>)

lemma of_to_bytes [simp]: "of_bytes (to_bytes n) = n"
proof (induction n rule: to_bytes.induct)
  case (1 n)
  show ?case
  proof (cases "n = 0")
    case False
    then have "of_bytes (to_bytes n) = n div 256 * 256 + unat (of_nat (n mod 256) :: byte)"
      using 1 by (subst to_bytes.simps) simp
    then show ?thesis by (simp add: unat_of_nat)
  qed (simp add: to_bytes.simps)
qed

lemma length_to_bytes_le: "n < 256 ^ k \<Longrightarrow> length (to_bytes n) \<le> k"
proof (induction k arbitrary: n)
  case 0
  then show ?case by (simp add: to_bytes.simps)
next
  case (Suc k)
  have "n div 256 < 256 ^ k"
    using Suc.prems by (simp add: less_mult_imp_div_less mult.commute)
  with Suc.IH [of "n div 256"] show ?case by (subst to_bytes.simps) simp
qed

lemma length_to_bytes_ge: "256 ^ k \<le> n \<Longrightarrow> k < length (to_bytes n)"
proof (rule ccontr)
  assume "256 ^ k \<le> n" "\<not> k < length (to_bytes n)"
  have "n < 256 ^ length (to_bytes n)"
    using of_bytes_less [of "to_bytes n"] by simp
  also have "\<dots> \<le> (256::nat) ^ k"
    using \<open>\<not> k < length (to_bytes n)\<close> by (intro power_increasing) auto
  also note \<open>256 ^ k \<le> n\<close>
  finally show False by simp
qed

lemma length_to_bytes: "256 ^ k \<le> n \<Longrightarrow> n < 256 ^ Suc k \<Longrightarrow> length (to_bytes n) = Suc k"
  using length_to_bytes_le [of n "Suc k"] length_to_bytes_ge [of k n] by simp

lemma to_of_bytes:
  assumes "bs \<noteq> []" "hd bs \<noteq> 0"
  shows "to_bytes (of_bytes bs) = bs"
proof -
  have "length (to_bytes (of_bytes bs)) = Suc (length bs - 1)"
    using assms of_bytes_lower [of bs] of_bytes_less [of bs] by (intro length_to_bytes) auto
  with assms(1) show ?thesis by (intro of_bytes_inj) simp_all
qed

section \<open>Canonical addresses with a leading byte that is not zero\<close>

text \<open>\<open>wide a\<close>: \<open>a\<close> is canonical and its big integer needs all of its bytes.\<close>

definition wide :: "ip \<Rightarrow> bool" where
  "wide a \<longleftrightarrow> (length a = 4 \<or> length a = 16) \<and> hd a \<noteq> 0"

lemma wide_canon [intro]: "wide a \<Longrightarrow> canon a"
  by (cases a) (auto simp: wide_def canon_def v4InV6Prefix_def)

lemma wide_nonempty: "wide a \<Longrightarrow> a \<noteq> []"
  by (auto simp: wide_def)

lemma wide_length: "wide a \<Longrightarrow> length a = 4 \<or> length a = 16"
  by (simp add: wide_def)

lemma ipToInt_canon: "canon a \<Longrightarrow> ipToInt a = int (of_bytes a)"
  by (auto simp: ipToInt_def canon_def To4_def To16_def)

lemma ipToInt_To16: "ipToInt (To16 a) = ipToInt a"
  by (simp add: ipToInt_def Let_def)

text \<open>The successor below the top of the family.\<close>

lemma NextIP_wide:
  assumes "wide a" "of_bytes a + 1 < 256 ^ length a"
  shows "wide (NextIP a)" "length (NextIP a) = length a" "of_bytes (NextIP a) = of_bytes a + 1"
proof -
  have n: "NextIP a = to_bytes (of_bytes a + 1)"
    using assms(1) by (simp add: NextIP_def intToIP_def ipToInt_canon wide_canon nat_add_distrib)
  have lo: "256 ^ (length a - 1) \<le> of_bytes a"
    using assms(1) by (intro of_bytes_lower) (auto simp: wide_def)
  show l: "length (NextIP a) = length a"
    using length_to_bytes [of "length a - 1" "of_bytes a + 1"] lo assms n
    by (auto simp: wide_def)
  show v: "of_bytes (NextIP a) = of_bytes a + 1"
    by (simp add: n)
  have "NextIP a \<noteq> []" using l wide_nonempty [OF assms(1)] by auto
  then have "hd (NextIP a) \<noteq> 0"
    using of_bytes_upper_hd0 [of "NextIP a"] lo v l by auto
  with l assms(1) show "wide (NextIP a)" by (simp add: wide_def)
qed

lemma Cmp_canon:
  assumes "canon a" "canon b"
  shows "Cmp a b < 0 \<longleftrightarrow> of_bytes a < of_bytes b" "0 < Cmp a b \<longleftrightarrow> of_bytes b < of_bytes a"
    "Cmp a b = 0 \<longleftrightarrow> of_bytes a = of_bytes b"
  using assms by (auto simp: Cmp_def Let_def ipToInt_canon)

end
