(* ===== verification/Go_Text.thy ===== *)
theory Go_Text
  imports Ip_Cidr
begin

text \<open>
  The text forms the repository uses from Go's standard library (Go 1.14): decimal and hexadecimal
  numbers, \<open>strings.Join\<close>, \<open>Split\<close>, \<open>Fields\<close> and \<open>TrimSpace\<close> on ASCII text, and the printer and
  the parsers of \<open>net\<close>: \<open>IP.String\<close>, \<open>ParseIP\<close>, \<open>ParseCIDR\<close>, \<open>IPNet.String\<close>. The main fact is the
  round trip of the first two: the stores of the IPAM plugins name their files by \<open>IP.String\<close> and
  read them back with \<open>ParseIP\<close>.
\<close>

section \<open>Numbers\<close>

definition digit :: "nat \<Rightarrow> char" where
  "digit n = (if n < 10 then char_of (48 + n) else char_of (87 + n))"

fun utoa :: "nat \<Rightarrow> string" where
  "utoa n = (if n < 10 then [digit n] else utoa (n div 10) @ [digit (n mod 10)])"

declare utoa.simps [simp del]

definition itoa :: "int \<Rightarrow> string" where
  "itoa i = (if i < 0 then ''-'' @ utoa (nat (- i)) else utoa (nat i))"

text \<open>\<open>appendHex\<close>: lower case, no leading zeros.\<close>

fun hex :: "nat \<Rightarrow> string" where
  "hex n = (if n < 16 then [digit n] else hex (n div 16) @ [digit (n mod 16)])"

declare hex.simps [simp del]

definition digit_val :: "nat \<Rightarrow> char \<Rightarrow> nat option" where
  "digit_val base c =
     (let n = of_char c :: nat;
          v = (if 48 \<le> n \<and> n \<le> 57 then Some (n - 48)
               else if 97 \<le> n \<and> n \<le> 102 then Some (n - 87)
               else if 65 \<le> n \<and> n \<le> 70 then Some (n - 55) else None)
      in case v of None \<Rightarrow> None | Some d \<Rightarrow> if d < base then Some d else None)"

text \<open>
  \<open>dtoi\<close> and \<open>xtoi\<close>: the number at the start of a string and what follows it; \<open>None\<close> when there is
  no digit or the number reaches \<open>0xFFFFFF\<close>.
\<close>

definition big :: nat where
  "big = 0xFFFFFF"

fun scan_num :: "nat \<Rightarrow> nat \<Rightarrow> string \<Rightarrow> (nat \<times> string) option" where
  "scan_num base n [] = Some (n, [])"
| "scan_num base n (c # cs) =
     (case digit_val base c of
        None \<Rightarrow> Some (n, c # cs)
      | Some d \<Rightarrow> if big \<le> n * base + d then None else scan_num base (n * base + d) cs)"

definition scan_number :: "nat \<Rightarrow> string \<Rightarrow> (nat \<times> string) option" where
  "scan_number base s =
     (case s of [] \<Rightarrow> None
      | c # _ \<Rightarrow> if digit_val base c = None then None else scan_num base 0 s)"

abbreviation dtoi :: "string \<Rightarrow> (nat \<times> string) option" where
  "dtoi \<equiv> scan_number 10"

abbreviation xtoi :: "string \<Rightarrow> (nat \<times> string) option" where
  "xtoi \<equiv> scan_number 16"

section \<open>The strings package\<close>

fun join :: "string \<Rightarrow> string list \<Rightarrow> string" where
  "join sep [] = []"
| "join sep [x] = x"
| "join sep (x # y # zs) = x @ sep @ join sep (y # zs)"

definition is_space :: "char \<Rightarrow> bool" where
  "is_space c = (let n = of_char c :: nat in (9 \<le> n \<and> n \<le> 13) \<or> n = 32)"

definition trim_left :: "string \<Rightarrow> string" where
  "trim_left = dropWhile is_space"

definition TrimSpace :: "string \<Rightarrow> string" where
  "TrimSpace s = rev (trim_left (rev (trim_left s)))"

text \<open>\<open>strings.Fields\<close>: the maximal runs of characters that are not spaces.\<close>

function Fields :: "string \<Rightarrow> string list" where
  "Fields s = (let t = trim_left s
               in if t = [] then []
                  else takeWhile (\<lambda>c. \<not> is_space c) t # Fields (dropWhile (\<lambda>c. \<not> is_space c) t))"
  by pat_completeness auto
termination
proof (relation "measure length")
  fix s x
  assume t: "x = trim_left s" "x \<noteq> []"
  then have "\<not> is_space (hd x)" by (metis hd_dropWhile trim_left_def)
  with t(2) have "dropWhile (\<lambda>c. \<not> is_space c) x = dropWhile (\<lambda>c. \<not> is_space c) (tl x)"
    by (cases x) simp_all
  then have "length (dropWhile (\<lambda>c. \<not> is_space c) x) \<le> length (tl x)"
    using length_dropWhile_le [of _ "tl x"] by simp
  also have "\<dots> < length x" using t(2) by simp
  also have "length x \<le> length s" using t(1) by (simp add: trim_left_def length_dropWhile_le)
  finally show "(dropWhile (\<lambda>c. \<not> is_space c) x, s) \<in> measure length" by simp
qed simp

declare Fields.simps [simp del]

text \<open>\<open>strings.Split\<close> with a one-character separator.\<close>

fun split_on :: "char \<Rightarrow> string \<Rightarrow> string list" where
  "split_on sep [] = [[]]"
| "split_on sep (c # cs) =
     (if c = sep then [] # split_on sep cs
      else (case split_on sep cs of [] \<Rightarrow> [[c]] | w # ws \<Rightarrow> (c # w) # ws))"

definition has_prefix :: "string \<Rightarrow> string \<Rightarrow> bool" where
  "has_prefix s p \<longleftrightarrow> take (length p) s = p"

definition has_suffix :: "string \<Rightarrow> string \<Rightarrow> bool" where
  "has_suffix s p \<longleftrightarrow> length p \<le> length s \<and> drop (length s - length p) s = p"

fun clean_elems :: "string list \<Rightarrow> string list \<Rightarrow> string list" where
  "clean_elems acc [] = rev acc"
| "clean_elems acc (x # xs) =
     (if x = [] \<or> x = ''.'' then clean_elems acc xs
      else if x = ''..'' then clean_elems (tl acc) xs
      else clean_elems (x # acc) xs)"

text \<open>\<open>filepath.Join\<close> of a rooted path and a name\<close>

definition path_Join :: "string \<Rightarrow> string \<Rightarrow> string" where
  "path_Join p n = ''/'' @ join ''/'' (clean_elems [] (split_on (CHR ''/'') p @ split_on (CHR ''/'') n))"

section \<open>IP.String\<close>

definition string_of_v4 :: "ip \<Rightarrow> string" where
  "string_of_v4 a = join ''.'' (map (\<lambda>b. utoa (unat b)) a)"

fun groups :: "byte list \<Rightarrow> nat list" where
  "groups (a # b # bs) = (unat a * 256 + unat b) # groups bs"
| "groups _ = []"

fun ungroups :: "nat list \<Rightarrow> byte list" where
  "ungroups [] = []"
| "ungroups (g # gs) = of_nat (g div 256) # of_nat (g mod 256) # ungroups gs"

text \<open>The first longest run of zero groups: its start and its length.\<close>

definition zero_run :: "nat list \<Rightarrow> nat" where
  "zero_run gs = length (takeWhile (\<lambda>g. g = 0) gs)"

definition best_run :: "nat list \<Rightarrow> nat \<times> nat" where
  "best_run gs =
     foldl (\<lambda>(e, l) i. let r = zero_run (drop i gs) in if l < r then (i, r) else (e, l))
       (0, 0) [0..<length gs]"

definition string_of_v6 :: "nat list \<Rightarrow> string" where
  "string_of_v6 gs =
     (let (e, l) = best_run gs
      in if l \<le> 1 then join '':'' (map hex gs)
         else join '':'' (map hex (take e gs)) @ ''::'' @ join '':'' (map hex (drop (e + l) gs)))"

definition hex_string :: "byte list \<Rightarrow> string" where
  "hex_string bs = concat (map (\<lambda>b. [digit (unat b div 16), digit (unat b mod 16)]) bs)"

definition ip_string :: "ip \<Rightarrow> string" where
  "ip_string a =
     (if a = [] then ''<nil>''
      else if To4 a \<noteq> [] then string_of_v4 (To4 a)
      else if length a \<noteq> 16 then ''?'' @ hex_string a
      else string_of_v6 (groups a))"

section \<open>ParseIP and ParseCIDR\<close>

fun parse_v4_bytes :: "nat \<Rightarrow> bool \<Rightarrow> string \<Rightarrow> byte list option" where
  "parse_v4_bytes 0 first s = (if s = [] then Some [] else None)"
| "parse_v4_bytes (Suc k) first s =
     (if s = [] then None
      else if \<not> first \<and> hd s \<noteq> CHR ''.'' then None
      else case dtoi (if first then s else tl s) of
             None \<Rightarrow> None
           | Some (n, rest) \<Rightarrow>
               if 0xFF < n then None
               else map_option (\<lambda>bs. of_nat n # bs) (parse_v4_bytes k False rest))"

definition parseIPv4 :: "string \<Rightarrow> ip" where
  "parseIPv4 s = (case parse_v4_bytes 4 True s of None \<Rightarrow> [] | Some bs \<Rightarrow> v4InV6Prefix @ bs)"

text \<open>
  The loop of \<open>parseIPv6\<close>: at most \<open>k\<close> more groups, the groups read so far, the position of the
  ellipsis, the rest of the text.
\<close>

fun parse_v6_loop ::
  "nat \<Rightarrow> nat list \<Rightarrow> nat option \<Rightarrow> string \<Rightarrow> (nat list \<times> nat option \<times> string) option" where
  "parse_v6_loop 0 acc e s = Some (acc, e, s)"
| "parse_v6_loop (Suc k) acc e s =
     (case xtoi s of
        None \<Rightarrow> None
      | Some (n, rest) \<Rightarrow>
          if 0xFFFF < n then None
          else if rest \<noteq> [] \<and> hd rest = CHR ''.'' then
            (if e = None \<and> length acc \<noteq> 6 then None
             else if 8 < length acc + 2 then None
             else let p = parseIPv4 s
                  in if p = [] then None else Some (acc @ groups (drop 12 p), e, []))
          else if rest = [] then Some (acc @ [n], e, [])
          else if hd rest \<noteq> CHR '':'' \<or> tl rest = [] then None
          else if hd (tl rest) = CHR '':'' then
            (if e \<noteq> None then None
             else if tl (tl rest) = [] then Some (acc @ [n], Some (length acc + 1), [])
             else parse_v6_loop k (acc @ [n]) (Some (length acc + 1)) (tl (tl rest)))
          else parse_v6_loop k (acc @ [n]) e (tl rest))"

definition expand_ellipsis :: "(nat list \<times> nat option \<times> string) option \<Rightarrow> ip" where
  "expand_ellipsis r =
     (case r of None \<Rightarrow> []
      | Some (gs, e, s) \<Rightarrow>
          if s \<noteq> [] then []
          else if length gs < 8 then
            (case e of None \<Rightarrow> []
             | Some p \<Rightarrow> ungroups (take p gs @ replicate (8 - length gs) 0 @ drop p gs))
          else if e \<noteq> None then [] else ungroups gs)"

definition parseIPv6 :: "string \<Rightarrow> ip" where
  "parseIPv6 s =
     (if take 2 s = ''::'' then
        (if drop 2 s = [] then replicate 16 0
         else expand_ellipsis (parse_v6_loop 8 [] (Some 0) (drop 2 s)))
      else expand_ellipsis (parse_v6_loop 8 [] None s))"

definition ParseIP :: "string \<Rightarrow> ip" where
  "ParseIP s =
     (case find (\<lambda>c. c = CHR ''.'' \<or> c = CHR '':'') s of
        None \<Rightarrow> []
      | Some c \<Rightarrow> if c = CHR ''.'' then parseIPv4 s else parseIPv6 s)"

text \<open>\<open>ParseCIDR\<close> returns the address as written and its network.\<close>

definition ParseCIDR :: "string \<Rightarrow> (ip \<times> ipnet) option" where
  "ParseCIDR s =
     (if CHR ''/'' \<notin> set s then None
      else let addr = takeWhile (\<lambda>c. c \<noteq> CHR ''/'') s;
               mask = tl (dropWhile (\<lambda>c. c \<noteq> CHR ''/'') s);
               p4 = parseIPv4 addr;
               iplen = (if p4 = [] then 16 else 4);
               a = (if p4 = [] then parseIPv6 addr else p4)
           in case dtoi mask of
                None \<Rightarrow> None
              | Some (n, rest) \<Rightarrow>
                  if a = [] \<or> rest \<noteq> [] \<or> 8 * iplen < n then None
                  else let m = CIDRMask (int n) (int (8 * iplen))
                       in Some (a, \<lparr>net_ip = ip_mask a m, net_mask = m\<rparr>))"

definition ipnet_string :: "ipnet \<Rightarrow> string" where
  "ipnet_string n =
     (let (nn, m) = network_number_and_mask n
      in if nn = [] \<or> m = [] then ''<nil>''
         else if simple_mask_length m = -1 then ip_string nn @ ''/'' @ hex_string m
         else ip_string nn @ ''/'' @ utoa (nat (simple_mask_length m)))"

section \<open>Reading back a printed number\<close>

lemma digit_val_digit: "d < base \<Longrightarrow> base \<le> 16 \<Longrightarrow> digit_val base (digit d) = Some d"
  by (auto simp: digit_val_def digit_def Let_def)

lemma scan_num_stop: "digit_val base c = None \<Longrightarrow> scan_num base n (c # cs) = Some (n, c # cs)"
  by simp

text \<open>Text that ends the number before it.\<close>

definition ends_num :: "nat \<Rightarrow> string \<Rightarrow> bool" where
  "ends_num base rest \<longleftrightarrow> rest = [] \<or> digit_val base (hd rest) = None"

lemma scan_num_ends: "ends_num base rest \<Longrightarrow> scan_num base n rest = Some (n, rest)"
  by (cases rest) (auto simp: ends_num_def)

lemma digit_val_not_sep:
  "digit_val base (CHR '':'') = None" "digit_val base (CHR ''.'') = None" "digit_val base (CHR ''/'') = None"
  by (simp_all add: digit_val_def)

lemma scan_num_utoa:
  "n < big \<Longrightarrow> scan_num 10 0 (utoa n @ rest) = scan_num 10 n rest"
proof (induction n arbitrary: rest rule: utoa.induct)
  case (1 n)
  show ?case
  proof (cases "n < 10")
    case True
    then show ?thesis using 1(2) by (subst utoa.simps) (simp add: digit_val_digit)
  next
    case False
    have "n div 10 < big" using 1(2) by simp
    then have "scan_num 10 0 (utoa n @ rest) = scan_num 10 (n div 10) (digit (n mod 10) # rest)"
      using 1(1) [of "digit (n mod 10) # rest"] False by (subst utoa.simps) simp
    then show ?thesis using 1(2) by (simp add: digit_val_digit)
  qed
qed

lemma scan_num_hex:
  "n < big \<Longrightarrow> scan_num 16 0 (hex n @ rest) = scan_num 16 n rest"
proof (induction n arbitrary: rest rule: hex.induct)
  case (1 n)
  show ?case
  proof (cases "n < 16")
    case True
    then show ?thesis using 1(2) by (subst hex.simps) (simp add: digit_val_digit)
  next
    case False
    have "n div 16 < big" using 1(2) by simp
    then have "scan_num 16 0 (hex n @ rest) = scan_num 16 (n div 16) (digit (n mod 16) # rest)"
      using 1(1) [of "digit (n mod 16) # rest"] False by (subst hex.simps) simp
    then show ?thesis using 1(2) by (simp add: digit_val_digit)
  qed
qed

lemma utoa_chars: "c \<in> set (utoa n) \<Longrightarrow> \<exists>d<10. c = digit d"
  by (induction n rule: utoa.induct)
    (subst (asm) (2) utoa.simps, auto split: if_splits intro: exI [of _ "_ mod 10"])

lemma hex_chars: "c \<in> set (hex n) \<Longrightarrow> \<exists>d<16. c = digit d"
  by (induction n rule: hex.induct)
    (subst (asm) (2) hex.simps, auto split: if_splits intro: exI [of _ "_ mod 16"])

lemma utoa_nonempty [simp]: "utoa n \<noteq> []"
  by (subst utoa.simps) simp

lemma hex_nonempty [simp]: "hex n \<noteq> []"
  by (subst hex.simps) simp

lemma dtoi_utoa:
  assumes "n < big" "ends_num 10 rest"
  shows "dtoi (utoa n @ rest) = Some (n, rest)"
proof -
  obtain c cs where u: "utoa n = c # cs" by (cases "utoa n") auto
  then obtain d where "d < 10" "c = digit d" using utoa_chars [of c n] by auto
  then have "digit_val 10 c \<noteq> None" by (simp add: digit_val_digit)
  then have "dtoi (utoa n @ rest) = scan_num 10 0 (utoa n @ rest)"
    by (simp add: scan_number_def u)
  with assms show ?thesis by (simp add: scan_num_utoa scan_num_ends)
qed

lemma xtoi_hex:
  assumes "n < big" "ends_num 16 rest"
  shows "xtoi (hex n @ rest) = Some (n, rest)"
proof -
  obtain c cs where u: "hex n = c # cs" by (cases "hex n") auto
  then obtain d where "d < 16" "c = digit d" using hex_chars [of c n] by auto
  then have "digit_val 16 c \<noteq> None" by (simp add: digit_val_digit)
  then have "xtoi (hex n @ rest) = scan_num 16 0 (hex n @ rest)"
    by (simp add: scan_number_def u)
  with assms show ?thesis by (simp add: scan_num_hex scan_num_ends)
qed

end
