(* ===== verification/Go_Roundtrip.thy ===== *)
theory Go_Roundtrip
  imports Go_Text
begin

text \<open>
  \<open>ParseIP\<close> reads back what \<open>IP.String\<close> prints, for IPv4 and for every compressed form of IPv6;
  so two addresses with the same text are equal in the sense of \<open>IP.Equal\<close>.
\<close>

section \<open>IPv4\<close>

lemma ends_num_sep [simp]:
  "ends_num base []" "ends_num base (CHR ''.'' # r)" "ends_num base (CHR '':'' # r)"
  by (simp_all add: ends_num_def digit_val_not_sep)

lemma unat_byte_big: "unat (b :: byte) < big"
  using unat_byte [of b] by (simp add: big_def)

lemma parse_v4_byte:
  assumes "ends_num 10 rest"
  shows "parse_v4_bytes (Suc k) first ((if first then [] else ''.'') @ utoa (unat (b :: byte)) @ rest)
       = map_option (\<lambda>bs. b # bs) (parse_v4_bytes k False rest)"
  using assms unat_byte [of b] by (simp add: dtoi_utoa unat_byte_big)

lemma parse_string_v4: "length a = 4 \<Longrightarrow> parseIPv4 (string_of_v4 a) = v4InV6Prefix @ a"
proof -
  assume "length a = 4"
  then obtain b0 b1 b2 b3 where a: "a = [b0, b1, b2, b3]"
    by (auto simp: length_Suc_conv numeral_eq_Suc)
  let ?u = "\<lambda>b :: byte. utoa (unat b)"
  have "parse_v4_bytes 4 True (?u b0 @ ''.'' @ ?u b1 @ ''.'' @ ?u b2 @ ''.'' @ ?u b3) = Some a"
    using parse_v4_byte [of "''.'' @ ?u b1 @ ''.'' @ ?u b2 @ ''.'' @ ?u b3" 3 True b0]
      parse_v4_byte [of "''.'' @ ?u b2 @ ''.'' @ ?u b3" 2 False b1]
      parse_v4_byte [of "''.'' @ ?u b3" 1 False b2]
      parse_v4_byte [of "[]" 0 False b3]
    by (simp add: a numeral_eq_Suc)
  then show ?thesis by (simp add: parseIPv4_def string_of_v4_def a)
qed

lemma find_append_None: "find P xs = None \<Longrightarrow> find P (xs @ ys) = find P ys"
  by (induction xs) (simp_all split: if_splits)

lemma find_sep_v4:
  assumes "length a = 4"
  shows "find (\<lambda>c. c = CHR ''.'' \<or> c = CHR '':'') (string_of_v4 a) = Some CHR ''.''"
proof -
  obtain b0 b1 b2 b3 where a: "a = [b0, b1, b2, b3]"
    using assms by (auto simp: length_Suc_conv numeral_eq_Suc)
  have "\<And>d. d < 10 \<Longrightarrow> digit d \<noteq> CHR ''.'' \<and> digit d \<noteq> CHR '':''"
    using digit_val_digit [of _ 10] digit_val_not_sep by fastforce
  then have "find (\<lambda>c. c = CHR ''.'' \<or> c = CHR '':'') (utoa n) = None" for n
    using utoa_chars [of _ n] by (fastforce simp: find_None_iff)
  then have "find (\<lambda>c. c = CHR ''.'' \<or> c = CHR '':'') (utoa n @ CHR ''.'' # r) = Some CHR ''.''" for n r
    by (simp add: find_append_None)
  then show ?thesis by (simp add: string_of_v4_def a)
qed

section \<open>IPv6\<close>

definition group_ok :: "nat \<Rightarrow> bool" where
  "group_ok g \<longleftrightarrow> g < 0x10000"

lemma groups_ok: "list_all group_ok (groups bs)"
proof (induction bs rule: groups.induct)
  case (1 a b bs)
  then show ?case using unat_byte [of a] unat_byte [of b] by (simp add: group_ok_def)
qed simp_all

lemma ungroups_groups: "even (length bs) \<Longrightarrow> ungroups (groups bs) = bs"
proof (induction bs rule: groups.induct)
  case (1 a b bs)
  then show ?case using unat_byte [of b] by simp
qed simp_all

lemma length_groups: "length (groups bs) = length bs div 2"
  by (induction bs rule: groups.induct) simp_all

lemma length_ungroups [simp]: "length (ungroups gs) = 2 * length gs"
  by (induction gs) simp_all

lemma ungroups_zeros: "ungroups (replicate n 0) = replicate (2 * n) 0"
  by (induction n) simp_all

abbreviation hexes :: "nat list \<Rightarrow> string" where
  "hexes gs \<equiv> join '':'' (map hex gs)"

lemma xtoi_group: "group_ok g \<Longrightarrow> ends_num 16 rest \<Longrightarrow> xtoi (hex g @ rest) = Some (g, rest)"
  by (rule xtoi_hex) (simp_all add: group_ok_def big_def)

lemma hex_hd_not_colon: "hd (hex g) \<noteq> CHR '':''"
proof -
  obtain d where "d < 16" "hd (hex g) = digit d"
    using hex_chars [of "hd (hex g)" g] by auto
  then have "digit_val 16 (hd (hex g)) \<noteq> None" by (simp add: digit_val_digit)
  then show ?thesis using digit_val_not_sep(1) [of 16] by auto
qed

lemma hexes_Cons: "gs \<noteq> [] \<Longrightarrow> hexes (g # gs) = hex g @ '':'' @ hexes gs"
  by (cases gs) simp_all

lemma hexes_hd: "gs \<noteq> [] \<Longrightarrow> hexes gs \<noteq> [] \<and> hd (hexes gs @ rest) \<noteq> CHR '':''"
  by (cases gs; cases "tl gs") (auto simp: hexes_Cons hex_hd_not_colon hd_append)

text \<open>One group followed by a colon and more text.\<close>

lemma parse_v6_step:
  assumes "group_ok g" "rest \<noteq> []" "hd rest \<noteq> CHR '':''"
  shows "parse_v6_loop (Suc k) acc e (hex g @ '':'' @ rest) = parse_v6_loop k (acc @ [g]) e rest"
  using assms xtoi_group [of g "CHR '':'' # rest"] by (simp add: group_ok_def)

lemma parse_v6_last:
  "group_ok g \<Longrightarrow> parse_v6_loop (Suc k) acc e (hex g) = Some (acc @ [g], e, [])"
  using xtoi_group [of g "[]"] by (simp add: group_ok_def)

lemma parse_v6_ellipsis:
  "group_ok g \<Longrightarrow> parse_v6_loop (Suc k) acc None (hex g @ ''::'' @ rest)
     = (if rest = [] then Some (acc @ [g], Some (length acc + 1), [])
        else parse_v6_loop k (acc @ [g]) (Some (length acc + 1)) rest)"
  using xtoi_group [of g "CHR '':'' # CHR '':'' # rest"] by (simp add: group_ok_def)

lemma parse_hexes:
  "gs \<noteq> [] \<Longrightarrow> list_all group_ok gs \<Longrightarrow> length gs \<le> k
     \<Longrightarrow> parse_v6_loop k acc e (hexes gs) = Some (acc @ gs, e, [])"
proof (induction gs arbitrary: k acc)
  case (Cons g gs)
  then obtain k' where k: "k = Suc k'" by (cases k) auto
  show ?case
  proof (cases "gs = []")
    case True
    then show ?thesis using Cons.prems by (simp add: k parse_v6_last del: parse_v6_loop.simps)
  next
    case False
    have "parse_v6_loop k acc e (hexes (g # gs)) = parse_v6_loop k' (acc @ [g]) e (hexes gs)"
      unfolding hexes_Cons [OF False] k
      using Cons.prems hexes_hd [OF False, of "[]"] by (intro parse_v6_step) simp_all
    then show ?thesis using Cons False by (simp add: k)
  qed
qed simp

lemma parse_hexes_ellipsis:
  "gs \<noteq> [] \<Longrightarrow> list_all group_ok (gs @ hs) \<Longrightarrow> length gs + length hs \<le> k
     \<Longrightarrow> parse_v6_loop k acc None (hexes gs @ ''::'' @ hexes hs)
       = Some (acc @ gs @ hs, Some (length acc + length gs), [])"
proof (induction gs arbitrary: k acc)
  case (Cons g gs)
  then obtain k' where k: "k = Suc k'" by (cases k) auto
  show ?case
  proof (cases "gs = []")
    case True
    have "hexes hs = [] \<longleftrightarrow> hs = []" using hexes_hd [of hs] by auto
    then show ?thesis
      using Cons.prems True parse_v6_ellipsis [of g k' acc "hexes hs"]
        parse_hexes [of hs k' "acc @ [g]" "Some (length acc + 1)"]
      by (auto simp: k simp del: parse_v6_loop.simps)
  next
    case False
    have "parse_v6_loop k acc None (hexes (g # gs) @ ''::'' @ hexes hs)
        = parse_v6_loop k' (acc @ [g]) None (hexes gs @ ''::'' @ hexes hs)"
      unfolding hexes_Cons [OF False] k append_assoc
      using Cons.prems hexes_hd [OF False, of "''::'' @ hexes hs"] hexes_hd [OF False, of "[]"]
      by (intro parse_v6_step) (simp_all add: hd_append)
    then show ?thesis using Cons False by (simp add: k)
  qed
qed simp

text \<open>What \<open>best_run\<close> finds is a run of zeros inside the list.\<close>

lemma zero_run_zeros:
  assumes "l = zero_run (drop e gs)"
  shows "take e gs @ replicate l 0 @ drop (e + l) gs = gs"
proof -
  let ?d = "drop e gs"
  have "takeWhile (\<lambda>g. g = 0) ?d = replicate l 0"
    unfolding assms zero_run_def by (rule replicate_eqI) (auto dest: set_takeWhileD)
  moreover have "drop l ?d = dropWhile (\<lambda>g. g = 0) ?d"
    unfolding assms zero_run_def by (simp add: dropWhile_eq_drop)
  ultimately have "?d = replicate l 0 @ drop (e + l) gs"
    by (metis add.commute drop_drop takeWhile_dropWhile_id)
  then show ?thesis by (metis append_take_drop_id)
qed

lemma best_run_inv:
  "best_run gs = (e, l) \<Longrightarrow> l = 0 \<or> l = zero_run (drop e gs)"
proof -
  let ?f = "\<lambda>(e, l) i. let r = zero_run (drop i gs) in if l < r then (i, r) else (e, l)"
  have "snd p = 0 \<or> snd p = zero_run (drop (fst p) gs) \<Longrightarrow>
      (let q = foldl ?f p is in snd q = 0 \<or> snd q = zero_run (drop (fst q) gs))" for p "is"
    by (induction "is" arbitrary: p) (auto simp: Let_def split: prod.splits)
  from this [of "(0, 0)" "[0..<length gs]"] show "best_run gs = (e, l) \<Longrightarrow> ?thesis"
    by (simp add: best_run_def Let_def)
qed

lemma parse_text_ellipsis:
  assumes len: "length pre + l + length post = 8" and l: "2 \<le> l" and ok: "list_all group_ok (pre @ post)"
  shows "parseIPv6 (hexes pre @ ''::'' @ hexes post) = ungroups (pre @ replicate l 0 @ post)"
proof (cases "pre = []")
  case pre: True
  show ?thesis
  proof (cases "post = []")
    case True
    then have "l = 8" using pre len by simp
    then show ?thesis
      using pre True by (simp add: parseIPv6_def ungroups_zeros del: replicate.simps)
  next
    case False
    have "parse_v6_loop 8 [] (Some 0) (hexes post) = Some (post, Some 0, [])"
      using parse_hexes [OF False, of 8 "[]" "Some 0"] ok len by simp
    moreover have "8 - length post = l" "length post < 8" using pre len l by auto
    ultimately show ?thesis
      using pre hexes_hd [OF False, of "[]"] by (simp add: parseIPv6_def expand_ellipsis_def)
  qed
next
  case pre: False
  have "take 2 (hexes pre @ ''::'' @ hexes post) \<noteq> ''::''"
    using hexes_hd [OF pre, of "''::'' @ hexes post"] by (cases "hexes pre") auto
  moreover have "parse_v6_loop 8 [] None (hexes pre @ ''::'' @ hexes post)
      = Some (pre @ post, Some (length pre), [])"
    using parse_hexes_ellipsis [OF pre ok, of 8 "[]"] len l by simp
  moreover have "8 - length (pre @ post) = l" "length (pre @ post) < 8"
    using len l by auto
  ultimately show ?thesis
    by (simp add: parseIPv6_def expand_ellipsis_def)
qed

lemma parse_string_v6:
  assumes len: "length gs = 8" and ok: "list_all group_ok gs"
  shows "parseIPv6 (string_of_v6 gs) = ungroups gs"
proof -
  obtain e l where b: "best_run gs = (e, l)" by fastforce
  show ?thesis
  proof (cases "l \<le> 1")
    case True
    have ne: "gs \<noteq> []" using len by auto
    have "take 2 (hexes gs) \<noteq> ''::''"
      using hexes_hd [OF ne, of "[]"] by (cases "hexes gs") auto
    moreover have "parse_v6_loop 8 [] None (hexes gs) = Some (gs, None, [])"
      using parse_hexes [OF ne ok, of 8 "[]" None] len by simp
    ultimately show ?thesis
      using True b len by (simp add: string_of_v6_def parseIPv6_def expand_ellipsis_def)
  next
    case False
    then have "l = zero_run (drop e gs)" using best_run_inv [OF b] by auto
    note z = zero_run_zeros [OF this]
    have "length (take e gs) + l + length (drop (e + l) gs) = 8"
      using arg_cong [OF z, of length] len by simp
    moreover have "list_all group_ok (take e gs @ drop (e + l) gs)"
      using ok by (metis z list_all_append)
    ultimately show ?thesis
      using parse_text_ellipsis [of "take e gs" l "drop (e + l) gs"] z b False
      by (simp add: string_of_v6_def)
  qed
qed

lemma find_sep_v6:
  assumes "length gs = 8"
  shows "find (\<lambda>c. c = CHR ''.'' \<or> c = CHR '':'') (string_of_v6 gs) = Some CHR '':''"
proof -
  let ?P = "\<lambda>c. c = CHR ''.'' \<or> c = CHR '':''"
  have "\<And>d. d < 16 \<Longrightarrow> \<not> ?P (digit d)"
    using digit_val_digit [of _ 16] digit_val_not_sep by fastforce
  then have h: "find ?P (hex n) = None" for n
    using hex_chars [of _ n] by (fastforce simp: find_None_iff)
  have j: "find ?P (hexes hs @ '':'' @ r) = Some CHR '':''" for hs r
    by (induction "'':''" "map hex hs" arbitrary: hs rule: join.induct)
      (auto simp: h find_append_None)
  obtain e l where b: "best_run gs = (e, l)" by fastforce
  obtain g gs' where gs: "gs = g # gs'" "gs' \<noteq> []"
    using assms by (cases gs; cases "tl gs") auto
  show ?thesis
  proof (cases "l \<le> 1")
    case True
    then have "string_of_v6 gs = hexes [g] @ '':'' @ hexes gs'"
      using b gs hexes_Cons [of gs' g] by (simp add: string_of_v6_def)
    then show ?thesis using j by metis
  next
    case False
    then have "string_of_v6 gs = hexes (take e gs) @ '':'' @ ('':'' @ hexes (drop (e + l) gs))"
      using b by (simp add: string_of_v6_def)
    then show ?thesis using j by metis
  qed
qed

section \<open>The round trip\<close>

theorem ParseIP_ip_string:
  assumes "To16 a \<noteq> []"
  shows "ParseIP (ip_string a) = To16 a"
proof (cases "To4 a = []")
  case False
  then have l: "length (To4 a) = 4" by (rule length_To4)
  then have "a \<noteq> []" using False by (auto simp: To4_def)
  then have "ParseIP (ip_string a) = v4InV6Prefix @ To4 a"
    using False find_sep_v4 [OF l] parse_string_v4 [OF l] by (simp add: ip_string_def ParseIP_def)
  also have "\<dots> = To16 a"
    using False by (auto simp: To4_def To16_def split: if_splits) (metis append_take_drop_id)+
  finally show ?thesis .
next
  case True
  then have l: "length a = 16" "To16 a = a"
    using assms by (auto simp: To4_eq_Nil_iff To16_def split: if_splits)
  then have g: "length (groups a) = 8" by (simp add: length_groups)
  have "ip_string a = string_of_v6 (groups a)"
    using True l(1) by (auto simp: ip_string_def)
  then show ?thesis
    using find_sep_v6 [OF g] parse_string_v6 [OF g groups_ok] l
    by (simp add: ParseIP_def ungroups_groups)
qed

corollary ip_string_inj:
  assumes "To16 a \<noteq> []" "To16 b \<noteq> []" "ip_string a = ip_string b"
  shows "To16 a = To16 b"
  using ParseIP_ip_string [OF assms(1)] ParseIP_ip_string [OF assms(2)] assms(3) by simp

lemma ip_string_To16: "To16 a \<noteq> [] \<Longrightarrow> ip_string (To16 a) = ip_string a"
proof -
  assume "To16 a \<noteq> []"
  moreover from this have "length a = 4 \<or> length a = 16" by (auto simp: To16_eq_Nil_iff)
  moreover have "To4 (To16 a) = To4 a" by simp
  ultimately show ?thesis
    by (cases "length a = 4") (auto simp: ip_string_def To16_def To4_def)
qed

lemma To16_canon_inj: "canon a \<Longrightarrow> canon b \<Longrightarrow> To16 a = To16 b \<Longrightarrow> a = b"
  by (auto simp: canon_def To16_def)

lemma canon_To16_nonempty: "canon a \<Longrightarrow> To16 a \<noteq> []"
  by (auto simp: canon_def To16_eq_Nil_iff)

lemma ip_string_canon_inj: "canon a \<Longrightarrow> canon b \<Longrightarrow> ip_string a = ip_string b \<Longrightarrow> a = b"
  by (meson To16_canon_inj canon_To16_nonempty ip_string_inj)

end
