(* ===== verification/Go_Masks.thy ===== *)
theory Go_Masks
  imports Go_Roundtrip
begin

text \<open>
  The networks behind CIDR masks: a mask of leading ones splits the addresses of a family into
  intervals, so an address between two addresses of a network is in the network. This links the
  byte-wise \<open>IPNet.Contains\<close> of the code with the big-integer comparisons of \<open>ip.Cmp\<close>.
\<close>

section \<open>The bytes of a CIDR mask\<close>

lemma byte_bits_inj: "byte_bits v = byte_bits w \<Longrightarrow> v = w"
proof (rule bit_word_eqI)
  fix n assume e: "byte_bits v = byte_bits w" and "n < LENGTH(8)"
  then have "n \<in> {0, 1, 2, 3, 4, 5, 6, 7}" by auto
  then show "bit v n = bit w n" using e by (auto simp: byte_bits_def)
qed

lemma mask_bits_inj: "length m = length m' \<Longrightarrow> mask_bits m = mask_bits m' \<Longrightarrow> m = m'"
  by (induction m m' rule: list_induct2) (auto simp: mask_bits_def dest: byte_bits_inj)

definition prefix_byte :: "nat \<Rightarrow> byte" where
  "prefix_byte k = NOT (mask (8 - k))"

lemma cidr_byte: "k < 8 \<Longrightarrow> NOT (drop_bit k (0xff :: byte)) = prefix_byte k"
proof -
  have "(0xff :: byte) = mask 8" by (simp add: mask_eq_exp_minus_1)
  moreover assume "k < 8"
  then have "drop_bit k (mask 8 :: byte) = mask (8 - k)"
    by (intro bit_word_eqI) (auto simp: bit_simps)
  ultimately show ?thesis by (simp add: prefix_byte_def)
qed

lemma prefix_byte_8 [simp]: "prefix_byte 8 = 0xff"
  by (simp add: prefix_byte_def)

lemma cidr_mask_bytes_Suc: "cidr_mask_bytes k (Suc n) = prefix_byte (min k 8) # cidr_mask_bytes (k - 8) n"
  by (cases "8 \<le> k") (simp_all add: cidr_byte min_def)

lemma length_cidr_mask_bytes [simp]: "length (cidr_mask_bytes k n) = n"
  by (induction n arbitrary: k) simp_all

lemma bits_prefix_byte:
  assumes "k \<le> 8"
  shows "byte_bits (prefix_byte k) = replicate k True @ replicate (8 - k) False"
proof (rule nth_equalityI)
  fix i assume "i < length (byte_bits (prefix_byte k))"
  then have i: "i \<in> {0, 1, 2, 3, 4, 5, 6, 7}" by auto
  then have "byte_bits (prefix_byte k) ! i = bit (prefix_byte k) (7 - i)"
    by (auto simp: byte_bits_def)
  also have "\<dots> \<longleftrightarrow> i < k"
    using i assms by (auto simp: prefix_byte_def bit_simps)
  finally show "byte_bits (prefix_byte k) ! i = (replicate k True @ replicate (8 - k) False) ! i"
    using i assms by (auto simp: nth_append)
qed (use assms in simp)

lemma mask_bits_cidr:
  "k \<le> 8 * n \<Longrightarrow> mask_bits (cidr_mask_bytes k n) = replicate k True @ replicate (8 * n - k) False"
proof (induction n arbitrary: k)
  case (Suc n)
  have s: "mask_bits (cidr_mask_bytes k (Suc n))
      = byte_bits (prefix_byte (min k 8)) @ mask_bits (cidr_mask_bytes (k - 8) n)"
    unfolding cidr_mask_bytes_Suc by (simp add: mask_bits_def)
  show ?case
  proof (cases "8 \<le> k")
    case True
    then have "replicate k True = replicate 8 True @ replicate (k - 8) True"
      by (metis le_add_diff_inverse replicate_add)
    moreover have "min k 8 = 8" "byte_bits (prefix_byte 8) = replicate 8 True"
      using True bits_prefix_byte [of 8] by simp_all
    moreover have "8 * n - (k - 8) = 8 * Suc n - k" using True by simp
    ultimately show ?thesis
      unfolding s using Suc.IH [of "k - 8"] Suc.prems by (simp del: replicate_Suc prefix_byte_8)
  next
    case False
    then have "replicate (8 - k) False @ replicate (8 * n) False = replicate (8 * Suc n - k) False"
      by (simp add: replicate_add [symmetric] del: replicate_Suc)
    then show ?thesis
      unfolding s using Suc.IH [of 0] False by (simp add: bits_prefix_byte min_def del: replicate_Suc)
  qed
qed (simp add: mask_bits_def)

lemma simple_mask_le: "simple_mask_length m \<le> int (8 * length m)"
proof -
  have "length (takeWhile id (mask_bits m)) \<le> 8 * length m"
    by (metis length_mask_bits length_takeWhile_le)
  then show ?thesis by (simp add: simple_mask_length_def)
qed

lemma simple_mask_bytes:
  assumes "simple_mask_length m \<noteq> -1"
  shows "m = cidr_mask_bytes (nat (simple_mask_length m)) (length m)"
  using simple_mask_shape [OF assms] simple_mask_le [of m]
  by (intro mask_bits_inj) (simp_all add: mask_bits_cidr)

section \<open>Networks are intervals\<close>

lemma and_prefix_iff:
  fixes a b :: byte
  shows "a AND NOT (mask n) = b AND NOT (mask n) \<longleftrightarrow> drop_bit n a = drop_bit n b"
proof
  assume "a AND NOT (mask n) = b AND NOT (mask n)"
  then have "drop_bit n (a AND NOT (mask n)) = drop_bit n (b AND NOT (mask n))" by simp
  moreover have "drop_bit n (x AND NOT (mask n)) = drop_bit n x" for x :: byte
    by (rule bit_word_eqI) (auto simp: bit_simps dest: bit_imp_le_length)
  ultimately show "drop_bit n a = drop_bit n b" by simp
next
  assume "drop_bit n a = drop_bit n b"
  then have "push_bit n (drop_bit n a) = push_bit n (drop_bit n b)" by simp
  moreover have "push_bit n (drop_bit n x) = x AND NOT (mask n)" for x :: byte
    by (rule bit_word_eqI) (auto simp: bit_simps dest: bit_imp_le_length)
  ultimately show "a AND NOT (mask n) = b AND NOT (mask n)" by simp
qed

lemma prefix_byte_convex:
  assumes "a AND prefix_byte k = b AND prefix_byte k" "unat a \<le> unat c" "unat c \<le> unat b"
  shows "c AND prefix_byte k = a AND prefix_byte k"
proof -
  let ?n = "8 - k"
  have "unat (drop_bit ?n x) = unat x div 2 ^ ?n" for x :: byte
    unfolding unat_drop_bit_eq by (rule drop_bit_eq_div)
  moreover have "unat a div 2 ^ ?n \<le> unat c div 2 ^ ?n" "unat c div 2 ^ ?n \<le> unat b div 2 ^ ?n"
    using assms(2,3) by (simp_all add: div_le_mono)
  moreover have "drop_bit ?n a = drop_bit ?n b"
    using assms(1) by (simp add: prefix_byte_def and_prefix_iff)
  ultimately have "unat (drop_bit ?n c) = unat (drop_bit ?n a)" by (metis le_antisym)
  then have "drop_bit ?n c = drop_bit ?n a" by (simp add: word_unat_eq_iff)
  then show ?thesis by (simp add: prefix_byte_def and_prefix_iff)
qed

lemma of_bytes_less_Cons:
  assumes "length as = length bs" "unat a < unat b"
  shows "of_bytes (a # as) < of_bytes (b # bs)"
proof -
  let ?p = "256 ^ length as :: nat"
  have "of_bytes (a # as) < unat a * ?p + ?p"
    using of_bytes_less [of as] by (simp add: of_bytes_Cons)
  also have "\<dots> = (unat a + 1) * ?p" by simp
  also have "\<dots> \<le> unat b * ?p" using assms(2) by (intro mult_le_mono1) simp
  also have "\<dots> \<le> of_bytes (b # bs)" using assms(1) by (simp add: of_bytes_Cons)
  finally show ?thesis .
qed

lemma of_bytes_le_Cons:
  assumes "length as = length bs"
  shows "of_bytes (a # as) \<le> of_bytes (b # bs)
      \<longleftrightarrow> unat a < unat b \<or> (a = b \<and> of_bytes as \<le> of_bytes bs)"
proof (cases "unat a" "unat b" rule: linorder_cases)
  case less
  then show ?thesis using of_bytes_less_Cons [OF assms less] by simp
next
  case greater
  then show ?thesis using of_bytes_less_Cons [OF assms [symmetric] greater] by auto
next
  case equal
  then have "a = b" by (simp add: word_unat_eq_iff)
  then show ?thesis using assms by (simp add: of_bytes_Cons)
qed

lemma ip_and_Cons [simp]: "ip_and (a # as) (m # ms) = (a AND m) # ip_and as ms"
  by (simp add: ip_and_def)

lemma ip_and_Nil [simp]: "ip_and [] m = []" "ip_and a [] = []"
  by (simp_all add: ip_and_def)

lemma prefix_byte_0 [simp]: "a AND prefix_byte 0 = 0"
  by (rule bit_word_eqI) (auto simp: prefix_byte_def bit_simps)

lemma ip_and_cidr_0: "length a = n \<Longrightarrow> ip_and a (cidr_mask_bytes 0 n) = replicate n 0"
proof (induction n arbitrary: a)
  case (Suc n)
  then obtain x xs where "a = x # xs" by (cases a) auto
  with Suc show ?case by (simp only: cidr_mask_bytes_Suc ip_and_Cons) simp
qed simp

theorem cidr_convex:
  assumes "length a = n" "length b = n" "length c = n"
    and "ip_and a (cidr_mask_bytes k n) = ip_and b (cidr_mask_bytes k n)"
    and "of_bytes a \<le> of_bytes c" "of_bytes c \<le> of_bytes b"
  shows "ip_and c (cidr_mask_bytes k n) = ip_and a (cidr_mask_bytes k n)"
  using assms
proof (induction n arbitrary: a b c k)
  case (Suc n)
  obtain a0 as b0 bs c0 cs where abc: "a = a0 # as" "b = b0 # bs" "c = c0 # cs"
    using Suc.prems(1,2,3) by (metis length_Suc_conv)
  let ?k = "min k 8"
  have l: "length as = n" "length bs = n" "length cs = n"
    using Suc.prems(1,2,3) by (simp_all add: abc)
  have e: "a0 AND prefix_byte ?k = b0 AND prefix_byte ?k"
      "ip_and as (cidr_mask_bytes (k - 8) n) = ip_and bs (cidr_mask_bytes (k - 8) n)"
    using Suc.prems(4) unfolding abc cidr_mask_bytes_Suc ip_and_Cons by (simp_all only: list.inject)
  have le: "unat a0 < unat c0 \<or> (a0 = c0 \<and> of_bytes as \<le> of_bytes cs)"
      "unat c0 < unat b0 \<or> (c0 = b0 \<and> of_bytes cs \<le> of_bytes bs)"
    using Suc.prems(5,6) unfolding abc by (simp_all only: of_bytes_le_Cons l)
  have c0: "c0 AND prefix_byte ?k = a0 AND prefix_byte ?k"
    using prefix_byte_convex [OF e(1), of c0] le by (metis eq_imp_le less_imp_le_nat)
  have "ip_and cs (cidr_mask_bytes (k - 8) n) = ip_and as (cidr_mask_bytes (k - 8) n)"
  proof (cases "k \<le> 8")
    case True
    then show ?thesis using l by (simp add: ip_and_cidr_0)
  next
    case False
    then have "?k = 8" by simp
    then have "a0 = b0" using e(1) by (simp add: prefix_byte_def del: prefix_byte_8)
    then have "of_bytes as \<le> of_bytes cs" "of_bytes cs \<le> of_bytes bs" using le by auto
    then show ?thesis by (rule Suc.IH [OF l e(2)])
  qed
  with c0 show ?case unfolding abc cidr_mask_bytes_Suc ip_and_Cons by (simp only: list.inject)
qed simp

end
