(* ===== verification/Alloc_Range.thy ===== *)
theory Alloc_Range
  imports Go_Masks
begin

text \<open>
  \<open>plugins/ipam/host-local/backend/allocator/range.go\<close>: one range of addresses of the host-local
  allocator, its canonical form, membership and overlap. The lemmas give the shape of a range
  that \<open>Canonicalize\<close> accepts and turn the code's \<open>Contains\<close> into an interval of integers.
\<close>

section \<open>The code\<close>

record range =
  RangeStart :: ip
  RangeEnd :: ip
  Subnet :: ipnet
  Gateway :: ip

definition canonicalizeIP :: "ip \<Rightarrow> ip res" where
  "canonicalizeIP a =
     (if To4 a \<noteq> [] then Inr (To4 a)
      else if To16 a \<noteq> [] then Inr (To16 a)
      else Inl (Errorf ''IP not v4 nor v6''))"

text \<open>The broadcast address of a network, and \<open>lastIP\<close>: one less for IPv4.\<close>

definition broadcast :: "ipnet \<Rightarrow> ip" where
  "broadcast subnet = map2 (\<lambda>i m. i OR NOT m) (net_ip subnet) (net_mask subnet)"

definition lastIP :: "ipnet \<Rightarrow> ip" where
  "lastIP subnet =
     (let end = broadcast subnet
      in if To4 (net_ip subnet) \<noteq> [] then end[3 := end ! 3 - 1] else end)"

definition range_contains :: "range \<Rightarrow> ip \<Rightarrow> bool" where
  "range_contains r addr0 =
     (case canonicalizeIP addr0 of
        Inl _ \<Rightarrow> False
      | Inr addr \<Rightarrow>
          if length addr \<noteq> length (net_ip (Subnet r)) then False
          else if \<not> ipnet_contains (Subnet r) addr then False
          else if RangeStart r \<noteq> [] \<and> Cmp addr (RangeStart r) < 0 then False
          else if RangeEnd r \<noteq> [] \<and> Cmp addr (RangeEnd r) > 0 then False
          else True)"

text \<open>The three parts of \<open>Canonicalize\<close> that fill in or check the gateway, the start and the end.\<close>

definition canonicalize_gateway :: "range \<Rightarrow> range res" where
  "canonicalize_gateway r =
     (if Gateway r = [] then Inr (r\<lparr>Gateway := NextIP (net_ip (Subnet r))\<rparr>)
      else bind_res (canonicalizeIP (Gateway r)) (\<lambda>g. Inr (r\<lparr>Gateway := g\<rparr>)))"

definition canonicalize_start :: "range \<Rightarrow> range res" where
  "canonicalize_start r =
     (if RangeStart r \<noteq> [] then
        bind_res (canonicalizeIP (RangeStart r)) (\<lambda>s.
          let r' = r\<lparr>RangeStart := s\<rparr>
          in if \<not> range_contains r' s then Inl (Errorf ''RangeStart not in network'') else Inr r')
      else Inr (r\<lparr>RangeStart := NextIP (net_ip (Subnet r))\<rparr>))"

definition canonicalize_end :: "range \<Rightarrow> range res" where
  "canonicalize_end r =
     (if RangeEnd r \<noteq> [] then
        bind_res (canonicalizeIP (RangeEnd r)) (\<lambda>e.
          let r' = r\<lparr>RangeEnd := e\<rparr>
          in if \<not> range_contains r' e then Inl (Errorf ''RangeEnd not in network'') else Inr r')
      else Inr (r\<lparr>RangeEnd := lastIP (Subnet r)\<rparr>))"

definition canonicalize_range :: "range \<Rightarrow> range res" where
  "canonicalize_range r0 =
     bind_res (canonicalizeIP (net_ip (Subnet r0))) (\<lambda>sip.
       let subnet = (Subnet r0)\<lparr>net_ip := sip\<rparr>;
           r = r0\<lparr>Subnet := subnet\<rparr>;
           (ones, masklen) = mask_size (net_mask subnet)
       in if masklen - 2 < ones then Inl (Errorf ''Network too small to allocate from'')
          else if length (net_ip subnet) \<noteq> length (net_mask subnet)
            then Inl (Errorf ''IPNet IP and Mask version mismatch'')
          else if \<not> ip_equal (net_ip subnet) (ip_mask (net_ip subnet) (net_mask subnet))
            then Inl (Errorf ''Network has host bits set'')
          else bind_res (canonicalize_gateway r) (\<lambda>r1.
               bind_res (canonicalize_start r1) canonicalize_end))"

definition range_overlaps :: "range \<Rightarrow> range \<Rightarrow> bool" where
  "range_overlaps r r1 =
     (if length (RangeStart r) \<noteq> length (RangeStart r1) then False
      else range_contains r (RangeStart r1) \<or> range_contains r (RangeEnd r1)
         \<or> range_contains r1 (RangeStart r) \<or> range_contains r1 (RangeEnd r))"

definition range_string :: "range \<Rightarrow> string" where
  "range_string r = ip_string (RangeStart r) @ ''-'' @ ip_string (RangeEnd r)"

section \<open>Canonical addresses\<close>

lemma canonicalizeIP_canon [simp]: "canon a \<Longrightarrow> canonicalizeIP a = Inr a"
  by (auto simp: canonicalizeIP_def canon_def To4_def To16_def)

lemma canonicalizeIP_InrD:
  assumes "canonicalizeIP a = Inr b"
  shows "canon b" "To16 b = To16 a"
proof -
  have "canon b \<and> To16 b = To16 a"
  proof (cases "To4 a = []")
    case True
    with assms have "b = To16 a" "To16 a \<noteq> []"
      by (simp_all add: canonicalizeIP_def split: if_splits)
    with True show ?thesis using canon_To4_or_To16 [of a] by simp
  next
    case False
    with assms have b: "b = To4 a" by (simp add: canonicalizeIP_def)
    consider "length a = 4" | "length a = 16" "take 12 a = v4InV6Prefix"
      using False by (auto simp: To4_eq_Nil_iff)
    then show ?thesis
    proof cases
      case 1
      with b show ?thesis by (simp add: canon_def)
    next
      case 2
      have "v4InV6Prefix @ drop 12 a = a" by (simp only: 2(2) [symmetric] append_take_drop_id)
      with 2 b show ?thesis by (simp add: canon_def To4_def To16_def)
    qed
  qed
  then show "canon b" "To16 b = To16 a" by simp_all
qed

lemma canonicalizeIP_eq_Inl: "canonicalizeIP a = Inl e \<Longrightarrow> length a \<noteq> 4 \<and> length a \<noteq> 16"
  by (auto simp: canonicalizeIP_def To16_def split: if_splits)

lemma canonicalizeIP_To16: "canonicalizeIP (To16 a) = canonicalizeIP a"
  by (simp add: canonicalizeIP_def)

section \<open>Networks with room for two hosts\<close>

text \<open>
  What the checks of \<open>Canonicalize\<close> say of the subnet: a canonical network address and a CIDR mask of
  the same length that leaves at least two host bits.
\<close>

definition subnet_ok :: "ipnet \<Rightarrow> bool" where
  "subnet_ok n \<longleftrightarrow>
     canon (net_ip n) \<and> length (net_mask n) = length (net_ip n)
     \<and> simple_mask_length (net_mask n) \<noteq> -1
     \<and> simple_mask_length (net_mask n) \<le> int (length (net_ip n)) * 8 - 2
     \<and> ip_and (net_ip n) (net_mask n) = net_ip n"

text \<open>Addresses of the network, byte-wise.\<close>

definition in_subnet :: "ipnet \<Rightarrow> ip \<Rightarrow> bool" where
  "in_subnet n a \<longleftrightarrow> length a = length (net_ip n) \<and> ip_and a (net_mask n) = net_ip n"

lemma ipnet_contains_subnet:
  assumes "subnet_ok n" "canon a" "length a = length (net_ip n)"
  shows "ipnet_contains n a \<longleftrightarrow> in_subnet n a"
proof -
  have c: "canon (net_ip n)" and l: "length (net_mask n) = length (net_ip n)"
    and m: "ip_and (net_ip n) (net_mask n) = net_ip n"
    using assms(1) by (simp_all add: subnet_ok_def)
  have "ipnet_contains n a \<longleftrightarrow> ip_and (net_ip n) (net_mask n) = ip_and a (net_mask n)"
    by (rule ipnet_contains_canon [OF c assms(2) l assms(3)])
  then show ?thesis unfolding m in_subnet_def using assms(3) by (simp add: eq_commute)
qed

lemma subnet_ok_mask:
  assumes "subnet_ok n"
  obtains k where "net_mask n = cidr_mask_bytes k (length (net_ip n))"
proof -
  have l: "length (net_mask n) = length (net_ip n)" and s: "simple_mask_length (net_mask n) \<noteq> -1"
    using assms by (simp_all add: subnet_ok_def)
  show ?thesis by (rule that [OF simple_mask_bytes [OF s, unfolded l]])
qed

lemma in_subnet_convex:
  assumes "subnet_ok n" "in_subnet n a" "in_subnet n b" "length c = length (net_ip n)"
    "of_bytes a \<le> of_bytes c" "of_bytes c \<le> of_bytes b"
  shows "in_subnet n c"
proof -
  define l where l: "l = length (net_ip n)"
  obtain k where m: "net_mask n = cidr_mask_bytes k l"
    using subnet_ok_mask [OF assms(1)] l by blast
  have ab: "length a = l" "length b = l" "ip_and a (cidr_mask_bytes k l) = net_ip n"
    "ip_and b (cidr_mask_bytes k l) = net_ip n"
    using assms(2,3) by (simp_all add: in_subnet_def m l)
  have "length c = l" using assms(4) l by simp
  then have "ip_and c (cidr_mask_bytes k l) = ip_and a (cidr_mask_bytes k l)"
    using cidr_convex [OF ab(1,2)] ab(3,4) assms(5,6) by simp
  then show ?thesis using ab(3) assms(4) by (simp add: in_subnet_def m)
qed

lemma of_bytes_pointwise:
  "list_all2 (\<lambda>a b. unat a \<le> unat b) as bs \<Longrightarrow> of_bytes as \<le> of_bytes bs"
proof (induction rule: list_all2_induct)
  case (Cons a as b bs)
  then have "length as = length bs" by (auto dest: list_all2_lengthD)
  with Cons show ?case using word_unat_eq_iff [of a b] by (auto simp: of_bytes_le_Cons)
qed simp

lemma subset_bits_le: "(\<And>n. bit a n \<Longrightarrow> bit b n) \<Longrightarrow> unat a \<le> unat b" for a b :: byte
proof -
  assume "\<And>n. bit a n \<Longrightarrow> bit b n"
  then have "a AND b = a" by (intro bit_word_eqI) (auto simp: bit_simps)
  then have "a \<le> b" by (metis word_and_le1 and.commute)
  then show ?thesis by (simp add: word_le_nat_alt)
qed

lemma length_broadcast: "subnet_ok n \<Longrightarrow> length (broadcast n) = length (net_ip n)"
  by (simp add: broadcast_def subnet_ok_def)

lemma broadcast_nth:
  "subnet_ok n \<Longrightarrow> i < length (net_ip n)
     \<Longrightarrow> broadcast n ! i = net_ip n ! i OR NOT (net_mask n ! i)"
  by (simp add: broadcast_def subnet_ok_def)

lemma masked_or_bit: "bit x k \<Longrightarrow> bit ((x AND m) OR NOT m) k" for x m :: byte
  using bit_imp_le_length [of x k] by (auto simp: bit_simps)

lemma in_subnet_le_broadcast:
  assumes "subnet_ok n" "in_subnet n a"
  shows "of_bytes a \<le> of_bytes (broadcast n)"
proof (rule of_bytes_pointwise)
  have l: "length a = length (net_ip n)" "length (net_mask n) = length (net_ip n)"
    using assms by (simp_all add: in_subnet_def subnet_ok_def)
  have e: "net_ip n ! i = a ! i AND net_mask n ! i" if i: "i < length a" for i
  proof -
    have "ip_and a (net_mask n) = net_ip n" using assms(2) by (simp add: in_subnet_def)
    then show ?thesis using ip_and_nth [of i a "net_mask n"] i l by metis
  qed
  have "unat (a ! i) \<le> unat (broadcast n ! i)" if i: "i < length a" for i
    unfolding broadcast_nth [OF assms(1) i [unfolded l(1)]] e [OF i]
    by (rule subset_bits_le) (rule masked_or_bit)
  then show "list_all2 (\<lambda>a b. unat a \<le> unat b) a (broadcast n)"
    using l length_broadcast [OF assms(1)] by (intro list_all2_all_nthI) simp_all
qed


text \<open>The network address and the broadcast address belong to the network and are at least three apart.\<close>

lemma in_subnet_net: "subnet_ok n \<Longrightarrow> in_subnet n (net_ip n)"
  by (simp add: subnet_ok_def in_subnet_def)

lemma subnet_nonempty: "subnet_ok n \<Longrightarrow> net_ip n \<noteq> []"
  unfolding subnet_ok_def using canon_nonempty by blast

lemma or_not_and: "(x OR NOT m) AND m = x AND m" for x m :: byte
  by (rule bit_word_eqI) (auto simp: bit_simps)

lemma in_subnet_broadcast:
  assumes "subnet_ok n"
  shows "in_subnet n (broadcast n)"
proof -
  have l: "length (net_mask n) = length (net_ip n)" and m: "ip_and (net_ip n) (net_mask n) = net_ip n"
    using assms by (simp_all add: subnet_ok_def)
  have "ip_and (broadcast n) (net_mask n) = ip_and (net_ip n) (net_mask n)"
    by (rule nth_equalityI)
      (simp_all add: length_broadcast [OF assms] l ip_and_nth broadcast_nth [OF assms] or_not_and)
  then show ?thesis unfolding in_subnet_def m using length_broadcast [OF assms] by simp
qed

lemma last_byte_room:
  fixes x m :: byte
  assumes "x AND m = x" "\<not> bit m 0" "\<not> bit m 1"
  shows "unat x + 3 \<le> unat (x OR NOT m)"
proof -
  have z: "\<not> bit x 0" "\<not> bit x 1"
    using assms bit_and_iff [of x m 0] bit_and_iff [of x m 1] by auto
  have three: "bit (3 :: byte) k \<longleftrightarrow> k = 0 \<or> k = 1" for k
    using bit_mask_iff [where ?'a = byte, of 2 k] by (auto simp: mask_eq_exp_minus_1)
  have dis: "x AND 3 = 0"
  proof (rule bit_word_eqI)
    fix k
    have "\<not> (bit x k \<and> (k = 0 \<or> k = 1))" using z by metis
    then show "bit (x AND 3) k \<longleftrightarrow> bit (0 :: byte) k"
      unfolding bit_and_iff three by simp
  qed
  have sum: "x OR 3 = x + 3" using word_plus_and_or [of x 3] dis by simp
  have "x \<le> x + 3" using le_word_or2 [of x 3] sum by simp
  then have "unat x + unat (3 :: byte) = unat (x OR 3)"
    unfolding sum using unat_plus_simple [of x 3] by simp
  moreover have "unat (x OR 3) \<le> unat (x OR NOT m)"
  proof (rule subset_bits_le)
    fix k assume k: "bit (x OR 3) k"
    then have "bit x k \<or> k = 0 \<or> k = 1" unfolding bit_or_iff three .
    moreover have "\<not> bit m k" if "k = 0 \<or> k = 1" using that assms(2,3) by metis
    ultimately show "bit (x OR NOT m) k"
      using bit_imp_le_length [OF k] by (auto simp: bit_or_iff bit_not_iff)
  qed
  ultimately show ?thesis by simp
qed


lemma subnet_room:
  assumes "subnet_ok n"
  shows "of_bytes (net_ip n) + 3 \<le> of_bytes (broadcast n)"
proof -
  define i where "i = length (net_ip n) - 1"
  have ne: "net_ip n \<noteq> []" using assms by (rule subnet_nonempty)
  have l: "length (net_mask n) = length (net_ip n)" and m: "ip_and (net_ip n) (net_mask n) = net_ip n"
    using assms by (simp_all add: subnet_ok_def)
  have i: "i < length (net_ip n)" using ne by (simp add: i_def)
  have lm: "net_mask n \<noteq> []" "last (net_mask n) = net_mask n ! i"
    using ne l last_conv_nth [of "net_mask n"] by (cases "net_mask n = []"; simp add: i_def)+
  have bits: "\<not> bit (net_mask n ! i) 0" "\<not> bit (net_mask n ! i) 1"
    using mask_two_host_bits [OF lm(1)] assms l lm(2) by (simp_all add: subnet_ok_def)
  have "net_ip n ! i AND net_mask n ! i = net_ip n ! i"
    using ip_and_nth [of i "net_ip n" "net_mask n"] i l m by metis
  have bne: "broadcast n \<noteq> []" using ne length_broadcast [OF assms] by auto
  then have bl: "last (broadcast n) = broadcast n ! i" "last (net_ip n) = net_ip n ! i"
    using ne length_broadcast [OF assms] by (simp_all add: last_conv_nth i_def)
  have lastb: "unat (last (net_ip n)) + 3 \<le> unat (last (broadcast n))"
    unfolding bl broadcast_nth [OF assms i]
    by (rule last_byte_room) (use bits \<open>net_ip n ! i AND net_mask n ! i = net_ip n ! i\<close> in simp_all)
  have "of_bytes (butlast (net_ip n)) \<le> of_bytes (butlast (broadcast n))"
  proof (rule of_bytes_pointwise, rule list_all2_all_nthI)
    fix j assume "j < length (butlast (net_ip n))"
    then have j: "j < length (net_ip n)" "j < length (broadcast n) - 1"
      using length_broadcast [OF assms] by auto
    show "unat (butlast (net_ip n) ! j) \<le> unat (butlast (broadcast n) ! j)"
      using j \<open>j < length (butlast (net_ip n))\<close>
      by (simp add: nth_butlast broadcast_nth [OF assms]) (rule subset_bits_le, simp add: bit_or_iff)
  qed (simp add: length_broadcast [OF assms])
  moreover have "of_bytes (net_ip n) = of_bytes (butlast (net_ip n)) * 256 + unat (last (net_ip n))"
    "of_bytes (broadcast n) = of_bytes (butlast (broadcast n)) * 256 + unat (last (broadcast n))"
    using ne bne by (metis append_butlast_last_id of_bytes_snoc)+
  ultimately show ?thesis using lastb by simp
qed


section \<open>The defaults\<close>

lemma in_subnet_wide:
  assumes "wide (net_ip n)" "in_subnet n a"
  shows "wide a"
proof -
  have e: "length a = length (net_ip n)" "ip_and a (net_mask n) = net_ip n"
    using assms(2) by (simp_all add: in_subnet_def)
  have "a \<noteq> []" "net_mask n \<noteq> []" using assms(1) e by (auto simp: wide_def ip_and_def)
  then obtain x xs m ms where "a = x # xs" "net_mask n = m # ms" by (cases a; cases "net_mask n") auto
  then have "hd (net_ip n) = hd a AND m" using e(2) [symmetric] by (simp add: ip_and_Cons)
  with assms(1) e(1) show ?thesis by (auto simp: wide_def)
qed

lemma NextIP_subnet:
  assumes "subnet_ok n" "wide (net_ip n)"
  shows "in_subnet n (NextIP (net_ip n))" "of_bytes (NextIP (net_ip n)) = of_bytes (net_ip n) + 1"
proof -
  have lt: "of_bytes (net_ip n) + 1 < 256 ^ length (net_ip n)"
    using subnet_room [OF assms(1)] of_bytes_less [of "broadcast n"] length_broadcast [OF assms(1)]
    by simp
  note nx = NextIP_wide [OF assms(2) lt]
  show "of_bytes (NextIP (net_ip n)) = of_bytes (net_ip n) + 1" by (rule nx)
  show "in_subnet n (NextIP (net_ip n))"
    using in_subnet_convex [OF assms(1) in_subnet_net [OF assms(1)] in_subnet_broadcast [OF assms(1)]
        nx(2)] nx(3) subnet_room [OF assms(1)] by simp
qed

lemma of_bytes_dec_last:
  assumes "bs \<noteq> []" "last bs \<noteq> 0"
  shows "of_bytes (bs[length bs - 1 := last bs - 1]) + 1 = of_bytes bs"
proof -
  have "bs[length bs - 1 := last bs - 1] = butlast bs @ [last bs - 1]"
    using assms(1) by (metis length_butlast append_butlast_last_id list_update_length)
  moreover have "of_bytes bs = of_bytes (butlast bs) * 256 + unat (last bs)"
    using assms(1) by (metis append_butlast_last_id of_bytes_snoc)
  moreover have "unat (last bs - 1) + 1 = unat (last bs)"
    using assms(2) by (simp add: unat_minus_one unat_gt_0)
  ultimately show ?thesis by simp
qed

lemma lastIP_subnet:
  assumes "subnet_ok n"
  shows "in_subnet n (lastIP n)"
    "of_bytes (lastIP n) + (if length (net_ip n) = 4 then 1 else 0) = of_bytes (broadcast n)"
proof -
  have lb: "length (broadcast n) = length (net_ip n)" by (rule length_broadcast [OF assms])
  have c: "canon (net_ip n)" using assms by (simp add: subnet_ok_def)
  have v: "of_bytes (lastIP n) + (if length (net_ip n) = 4 then 1 else 0) = of_bytes (broadcast n)"
  proof (cases "length (net_ip n) = 4")
    case True
    have ne: "broadcast n \<noteq> []" "net_ip n \<noteq> []" using lb True by auto
    have "last (broadcast n) \<noteq> 0"
    proof
      assume z: "last (broadcast n) = 0"
      have i: "3 < length (net_ip n)" using True by simp
      have "unat (broadcast n ! 3) \<ge> 3"
      proof -
        have lm: "net_mask n \<noteq> []" "length (net_mask n) = 4"
          using assms True by (auto simp: subnet_ok_def)
        then have "last (net_mask n) = net_mask n ! 3" by (simp add: last_conv_nth)
        with mask_two_host_bits [OF lm(1)] assms True lm(2)
        have b: "\<not> bit (net_mask n ! 3) 0" "\<not> bit (net_mask n ! 3) 1"
          by (simp_all add: subnet_ok_def)
        have "ip_and (net_ip n) (net_mask n) = net_ip n" using assms by (simp add: subnet_ok_def)
        then have "net_ip n ! 3 AND net_mask n ! 3 = net_ip n ! 3"
          using ip_and_nth [of 3 "net_ip n" "net_mask n"] i lm(2) by simp
        from last_byte_room [OF this b] show ?thesis unfolding broadcast_nth [OF assms i] by simp
      qed
      moreover have "last (broadcast n) = broadcast n ! 3" using lb True ne(1) by (simp add: last_conv_nth)
      ultimately show False using z by simp
    qed
    from of_bytes_dec_last [OF ne(1) this] show ?thesis
      using True lb ne by (simp add: lastIP_def Let_def last_conv_nth)
  next
    case False
    then have "To4 (net_ip n) = []" using c by (simp add: canon_To4)
    with False show ?thesis by (simp add: lastIP_def)
  qed
  then show "of_bytes (lastIP n) + (if length (net_ip n) = 4 then 1 else 0) = of_bytes (broadcast n)" .
  have "length (lastIP n) = length (net_ip n)" using lb by (simp add: lastIP_def Let_def)
  then show "in_subnet n (lastIP n)"
    using in_subnet_convex [OF assms in_subnet_net [OF assms] in_subnet_broadcast [OF assms]] v
      subnet_room [OF assms] by (simp split: if_splits)
qed


section \<open>What Canonicalize establishes\<close>

text \<open>
  A range the allocator can walk: start and end are addresses of the subnet in this order, and no
  successor between them loses a leading zero byte.
\<close>

definition range_wf :: "range \<Rightarrow> bool" where
  "range_wf r \<longleftrightarrow>
     subnet_ok (Subnet r) \<and> wide (net_ip (Subnet r)) \<and> canon (Gateway r)
     \<and> in_subnet (Subnet r) (RangeStart r) \<and> in_subnet (Subnet r) (RangeEnd r)
     \<and> of_bytes (RangeStart r) \<le> of_bytes (RangeEnd r)"

lemma range_wf_wide:
  assumes "range_wf r"
  shows "wide (RangeStart r)" "wide (RangeEnd r)" "length (RangeStart r) = length (RangeEnd r)"
    "length (net_ip (Subnet r)) = length (RangeStart r)"
  using assms in_subnet_wide unfolding range_wf_def in_subnet_def by auto

lemma range_contains_InrD:
  assumes "range_contains r a" "canon a" "subnet_ok (Subnet r)"
  shows "in_subnet (Subnet r) a"
    "RangeStart r \<noteq> [] \<Longrightarrow> 0 \<le> Cmp a (RangeStart r)"
    "RangeEnd r \<noteq> [] \<Longrightarrow> Cmp a (RangeEnd r) \<le> 0"
proof -
  have l: "length a = length (net_ip (Subnet r))" and c: "ipnet_contains (Subnet r) a"
    using assms(1,2) by (simp_all add: range_contains_def split: if_splits)
  show "in_subnet (Subnet r) a" using ipnet_contains_subnet [OF assms(3,2) l] c by blast
  show "RangeStart r \<noteq> [] \<Longrightarrow> 0 \<le> Cmp a (RangeStart r)" "RangeEnd r \<noteq> [] \<Longrightarrow> Cmp a (RangeEnd r) \<le> 0"
    using assms(1,2) by (auto simp: range_contains_def split: if_splits)
qed

text \<open>The stages of a successful run.\<close>

lemma canonicalize_range_InrE:
  assumes "canonicalize_range r0 = Inr r"
  obtains sip r1 r2 where
    "canonicalizeIP (net_ip (Subnet r0)) = Inr sip"
    "canonicalize_gateway (r0\<lparr>Subnet := (Subnet r0)\<lparr>net_ip := sip\<rparr>\<rparr>) = Inr r1"
    "canonicalize_start r1 = Inr r2" "canonicalize_end r2 = Inr r"
    "subnet_ok ((Subnet r0)\<lparr>net_ip := sip\<rparr>)"
proof -
  let ?m = "net_mask (Subnet r0)"
  from assms obtain sip where s: "canonicalizeIP (net_ip (Subnet r0)) = Inr sip"
    unfolding canonicalize_range_def bind_res_Inr by blast
  obtain ones masklen where sz: "mask_size ?m = (ones, masklen)" by fastforce
  have c: "canon sip" using canonicalizeIP_InrD(1) [OF s] .
  from assms s sz have g: "\<not> masklen - 2 < ones" "length sip = length ?m"
      "ip_equal sip (ip_mask sip ?m)"
    and b: "bind_res (canonicalize_gateway (r0\<lparr>Subnet := (Subnet r0)\<lparr>net_ip := sip\<rparr>\<rparr>))
       (\<lambda>r1. bind_res (canonicalize_start r1) canonicalize_end) = Inr r"
    by (simp_all add: canonicalize_range_def Let_def split: if_splits)
  have m: "ip_mask sip ?m = ip_and sip ?m" using g(2) by (rule ip_mask_same)
  have eq: "ip_and sip ?m = sip"
    using g(3) unfolding m by (simp add: ip_equal_def g(2))
  have "simple_mask_length ?m \<noteq> -1" using sz g(1) by (auto simp: mask_size_def Let_def)
  moreover from this have "simple_mask_length ?m \<le> int (length sip) * 8 - 2"
    using sz g(1,2) by (simp add: mask_size_def Let_def)
  ultimately have ok: "subnet_ok ((Subnet r0)\<lparr>net_ip := sip\<rparr>)"
    using c eq g(2) by (simp add: subnet_ok_def)
  from b obtain r1 r2 where "canonicalize_gateway (r0\<lparr>Subnet := (Subnet r0)\<lparr>net_ip := sip\<rparr>\<rparr>) = Inr r1"
    "canonicalize_start r1 = Inr r2" "canonicalize_end r2 = Inr r"
    unfolding bind_res_Inr by blast
  with s ok show ?thesis using that by blast
qed

lemma canonicalize_gateway_InrD:
  assumes "canonicalize_gateway r = Inr r1"
  shows "RangeStart r1 = RangeStart r" "RangeEnd r1 = RangeEnd r" "Subnet r1 = Subnet r"
    "canon (Gateway r1) \<or> Gateway r1 = NextIP (net_ip (Subnet r))"
  using assms canonicalizeIP_InrD(1)
  by (auto simp: canonicalize_gateway_def bind_res_Inr split: if_splits)

lemma canonicalize_start_Inr:
  "canonicalize_start r = Inr r' \<longleftrightarrow>
     (RangeStart r = [] \<and> r' = r\<lparr>RangeStart := NextIP (net_ip (Subnet r))\<rparr>)
     \<or> (RangeStart r \<noteq> [] \<and> (\<exists>s. canonicalizeIP (RangeStart r) = Inr s
          \<and> range_contains (r\<lparr>RangeStart := s\<rparr>) s \<and> r' = r\<lparr>RangeStart := s\<rparr>))"
  by (cases "canonicalizeIP (RangeStart r)") (auto simp: canonicalize_start_def Let_def)

lemma canonicalize_end_Inr:
  "canonicalize_end r = Inr r' \<longleftrightarrow>
     (RangeEnd r = [] \<and> r' = r\<lparr>RangeEnd := lastIP (Subnet r)\<rparr>)
     \<or> (RangeEnd r \<noteq> [] \<and> (\<exists>e. canonicalizeIP (RangeEnd r) = Inr e
          \<and> range_contains (r\<lparr>RangeEnd := e\<rparr>) e \<and> r' = r\<lparr>RangeEnd := e\<rparr>))"
  by (cases "canonicalizeIP (RangeEnd r)") (auto simp: canonicalize_end_def Let_def)

lemma canonicalize_start_InrD:
  assumes "canonicalize_start r1 = Inr r2" "subnet_ok (Subnet r1)" "wide (net_ip (Subnet r1))"
  shows "RangeEnd r2 = RangeEnd r1" "Subnet r2 = Subnet r1" "Gateway r2 = Gateway r1"
    "in_subnet (Subnet r1) (RangeStart r2)"
proof -
  show "RangeEnd r2 = RangeEnd r1" "Subnet r2 = Subnet r1" "Gateway r2 = Gateway r1"
    using assms(1) unfolding canonicalize_start_Inr by (elim disjE conjE exE; simp)+
  show "in_subnet (Subnet r1) (RangeStart r2)"
  proof (cases "RangeStart r1 = []")
    case True
    with assms(1) have "r2 = r1\<lparr>RangeStart := NextIP (net_ip (Subnet r1))\<rparr>"
      by (simp add: canonicalize_start_Inr)
    with NextIP_subnet(1) [OF assms(2,3)] show ?thesis by simp
  next
    case False
    with assms(1) obtain s where s: "canonicalizeIP (RangeStart r1) = Inr s"
      "range_contains (r1\<lparr>RangeStart := s\<rparr>) s" "r2 = r1\<lparr>RangeStart := s\<rparr>"
      unfolding canonicalize_start_Inr by blast
    have "in_subnet (Subnet (r1\<lparr>RangeStart := s\<rparr>)) s"
      by (rule range_contains_InrD(1) [OF s(2) canonicalizeIP_InrD(1) [OF s(1)]]) (simp add: assms(2))
    with s(3) show ?thesis by simp
  qed
qed

lemma canonicalize_end_InrD:
  assumes "canonicalize_end r2 = Inr r" "subnet_ok (Subnet r2)" "in_subnet (Subnet r2) (RangeStart r2)"
    "canon (RangeStart r2)"
  shows "RangeStart r = RangeStart r2" "Subnet r = Subnet r2" "Gateway r = Gateway r2"
    "in_subnet (Subnet r2) (RangeEnd r)"
    "of_bytes (RangeStart r) \<le> of_bytes (RangeEnd r)
       \<longleftrightarrow> \<not> (RangeEnd r2 = [] \<and> length (RangeStart r) = 4 \<and> RangeStart r = broadcast (Subnet r))"
proof -
  show keep: "RangeStart r = RangeStart r2" "Subnet r = Subnet r2" "Gateway r = Gateway r2"
    using assms(1) unfolding canonicalize_end_Inr by (elim disjE conjE exE; simp)+
  have "in_subnet (Subnet r2) (RangeEnd r) \<and> (of_bytes (RangeStart r) \<le> of_bytes (RangeEnd r)
       \<longleftrightarrow> \<not> (RangeEnd r2 = [] \<and> length (RangeStart r) = 4 \<and> RangeStart r = broadcast (Subnet r)))"
  proof (cases "RangeEnd r2 = []")
    case True
    then have r: "RangeEnd r = lastIP (Subnet r2)" using assms(1) by (simp add: canonicalize_end_Inr)
    have le: "of_bytes (RangeStart r2) \<le> of_bytes (broadcast (Subnet r2))"
      by (rule in_subnet_le_broadcast [OF assms(2,3)])
    have l: "length (RangeStart r2) = length (net_ip (Subnet r2))"
      using assms(3) by (simp add: in_subnet_def)
    have eq: "of_bytes (RangeStart r2) = of_bytes (broadcast (Subnet r2))
        \<longleftrightarrow> RangeStart r2 = broadcast (Subnet r2)"
      using of_bytes_inj length_broadcast [OF assms(2)] l by metis
    show ?thesis
    proof (cases "length (RangeStart r2) = 4")
      case v4: True
      then have "of_bytes (lastIP (Subnet r2)) + 1 = of_bytes (broadcast (Subnet r2))"
        using lastIP_subnet(2) [OF assms(2)] l by simp
      then have "of_bytes (RangeStart r2) \<le> of_bytes (lastIP (Subnet r2))
          \<longleftrightarrow> of_bytes (RangeStart r2) \<noteq> of_bytes (broadcast (Subnet r2))"
        using le by linarith
      with lastIP_subnet(1) [OF assms(2)] v4 True eq show ?thesis unfolding r keep by simp
    next
      case v6: False
      then have "of_bytes (lastIP (Subnet r2)) = of_bytes (broadcast (Subnet r2))"
        using lastIP_subnet(2) [OF assms(2)] l by simp
      with lastIP_subnet(1) [OF assms(2)] v6 le show ?thesis unfolding r keep by simp
    qed
  next
    case False
    with assms(1) obtain e where e: "canonicalizeIP (RangeEnd r2) = Inr e"
      "range_contains (r2\<lparr>RangeEnd := e\<rparr>) e" "r = r2\<lparr>RangeEnd := e\<rparr>"
      unfolding canonicalize_end_Inr by blast
    note c = canonicalizeIP_InrD(1) [OF e(1)]
    have sub: "subnet_ok (Subnet (r2\<lparr>RangeEnd := e\<rparr>))" using assms(2) by simp
    have "0 \<le> Cmp e (RangeStart r2)"
      using range_contains_InrD(2) [OF e(2) c sub] canon_nonempty [OF assms(4)] by simp
    then have "of_bytes (RangeStart r2) \<le> of_bytes e"
      using Cmp_canon(1) [OF c assms(4)] by linarith
    with range_contains_InrD(1) [OF e(2) c sub] e(3) False show ?thesis by simp
  qed
  then show "in_subnet (Subnet r2) (RangeEnd r)"
    "of_bytes (RangeStart r) \<le> of_bytes (RangeEnd r)
       \<longleftrightarrow> \<not> (RangeEnd r2 = [] \<and> length (RangeStart r) = 4 \<and> RangeStart r = broadcast (Subnet r))"
    by blast+
qed


lemma canonicalize_range_iff:
  assumes "canonicalize_range r0 = Inr r" "wide (net_ip (Subnet r))"
  shows "range_wf r
     \<longleftrightarrow> \<not> (RangeEnd r0 = [] \<and> length (RangeStart r) = 4 \<and> RangeStart r = broadcast (Subnet r))"
proof -
  obtain sip r1 r2 where st: "canonicalizeIP (net_ip (Subnet r0)) = Inr sip"
    "canonicalize_gateway (r0\<lparr>Subnet := (Subnet r0)\<lparr>net_ip := sip\<rparr>\<rparr>) = Inr r1"
    "canonicalize_start r1 = Inr r2" "canonicalize_end r2 = Inr r"
    "subnet_ok ((Subnet r0)\<lparr>net_ip := sip\<rparr>)"
    using assms(1) by (rule canonicalize_range_InrE)
  note g = canonicalize_gateway_InrD [OF st(2)]
  have s1: "subnet_ok (Subnet r1)" using st(5) g(3) by simp
  have keep: "Subnet r2 = Subnet r1" "Subnet r = Subnet r1" "Gateway r = Gateway r1"
    "RangeEnd r2 = RangeEnd r0"
    using st(3,4) g(2) unfolding canonicalize_start_Inr canonicalize_end_Inr
    by (elim disjE conjE exE; simp)+
  have w: "wide (net_ip (Subnet r1))" using assms(2) keep by simp
  note s = canonicalize_start_InrD [OF st(3) s1 w]
  have c: "canon (RangeStart r2)" using in_subnet_wide [OF w s(4)] by blast
  have e: "in_subnet (Subnet r2) (RangeEnd r)" "RangeStart r = RangeStart r2"
    "of_bytes (RangeStart r) \<le> of_bytes (RangeEnd r)
       \<longleftrightarrow> \<not> (RangeEnd r2 = [] \<and> length (RangeStart r) = 4 \<and> RangeStart r = broadcast (Subnet r))"
    using canonicalize_end_InrD [OF st(4)] s1 s(4) c keep(1) by simp_all
  have "canon (Gateway r)"
    using g(4) in_subnet_wide [OF w NextIP_subnet(1) [OF s1 w]] g(3) keep(3) by auto
  then show ?thesis
    using s1 w s(4) e keep by (simp add: range_wf_def)
qed

text \<open>Membership is an interval: the subnet test adds nothing.\<close>

lemma range_contains_interval:
  assumes "range_wf r" "canonicalizeIP a = Inr b"
  shows "range_contains r a \<longleftrightarrow>
     length b = length (RangeStart r) \<and> of_bytes (RangeStart r) \<le> of_bytes b
     \<and> of_bytes b \<le> of_bytes (RangeEnd r)"
proof -
  note w = range_wf_wide [OF assms(1)]
  have ok: "subnet_ok (Subnet r)" and sub: "in_subnet (Subnet r) (RangeStart r)"
      "in_subnet (Subnet r) (RangeEnd r)"
    using assms(1) by (simp_all add: range_wf_def)
  have ne: "RangeStart r \<noteq> []" "RangeEnd r \<noteq> []" using w(1,2) by (simp_all add: wide_nonempty)
  have cb: "canon b" by (rule canonicalizeIP_InrD(1) [OF assms(2)])
  have cmp: "Cmp b (RangeStart r) < 0 \<longleftrightarrow> of_bytes b < of_bytes (RangeStart r)"
    "0 < Cmp b (RangeEnd r) \<longleftrightarrow> of_bytes (RangeEnd r) < of_bytes b"
    using Cmp_canon cb w(1,2) by (blast intro: wide_canon)+
  show ?thesis
  proof (cases "length b = length (RangeStart r)")
    case True
    have "ipnet_contains (Subnet r) b \<longleftrightarrow> in_subnet (Subnet r) b"
      by (rule ipnet_contains_subnet [OF ok cb]) (use True w(4) in simp)
    moreover have "in_subnet (Subnet r) b"
      if "of_bytes (RangeStart r) \<le> of_bytes b" "of_bytes b \<le> of_bytes (RangeEnd r)"
      by (rule in_subnet_convex [OF ok sub]) (use True w(4) that in simp_all)
    ultimately show ?thesis
      using True ne w(4) cmp unfolding range_contains_def assms(2) by (auto simp: not_less)
  qed (use w(4) in \<open>simp add: range_contains_def assms(2)\<close>)
qed

lemma range_contains_InlD: "canonicalizeIP a = Inl e \<Longrightarrow> \<not> range_contains r a"
  by (simp add: range_contains_def)

lemma range_overlaps_interval:
  assumes "range_wf r" "range_wf r1"
  shows "range_overlaps r r1 \<longleftrightarrow> (\<exists>a. canon a \<and> range_contains r a \<and> range_contains r1 a)"
proof -
  note w = range_wf_wide [OF assms(1)] and w1 = range_wf_wide [OF assms(2)]
  have c: "canonicalizeIP (RangeStart r) = Inr (RangeStart r)" "canonicalizeIP (RangeEnd r) = Inr (RangeEnd r)"
    "canonicalizeIP (RangeStart r1) = Inr (RangeStart r1)" "canonicalizeIP (RangeEnd r1) = Inr (RangeEnd r1)"
    using w(1,2) w1(1,2) by (simp_all add: wide_canon)
  have can: "canon (RangeStart r)" "canon (RangeStart r1)" using w(1) w1(1) by blast+
  have le: "of_bytes (RangeStart r) \<le> of_bytes (RangeEnd r)"
    "of_bytes (RangeStart r1) \<le> of_bytes (RangeEnd r1)"
    using assms by (simp_all add: range_wf_def)
  note iv = range_contains_interval [OF assms(1)] and iv1 = range_contains_interval [OF assms(2)]
  show ?thesis
  proof
    assume "range_overlaps r r1"
    then have l: "length (RangeStart r) = length (RangeStart r1)"
      and o: "range_contains r (RangeStart r1) \<or> range_contains r (RangeEnd r1)
         \<or> range_contains r1 (RangeStart r) \<or> range_contains r1 (RangeEnd r)"
      by (simp_all add: range_overlaps_def split: if_splits)
    have "range_contains r (RangeStart r1) \<and> range_contains r1 (RangeStart r1)
        \<or> range_contains r (RangeStart r) \<and> range_contains r1 (RangeStart r)"
      using o l le w(3) w1(3) unfolding iv [OF c(1)] iv [OF c(3)] iv [OF c(4)] iv1 [OF c(1)] iv1 [OF c(2)]
        iv1 [OF c(3)] by linarith
    then show "\<exists>a. canon a \<and> range_contains r a \<and> range_contains r1 a" using can by blast
  next
    assume "\<exists>a. canon a \<and> range_contains r a \<and> range_contains r1 a"
    then obtain a where a: "canon a" "range_contains r a" "range_contains r1 a" by blast
    note ca = canonicalizeIP_canon [OF a(1)]
    have "range_contains r (RangeStart r1) \<or> range_contains r1 (RangeStart r)"
      using a(2,3) le unfolding iv [OF ca] iv1 [OF ca] iv [OF c(3)] iv1 [OF c(1)] by linarith
    moreover have "length (RangeStart r) = length (RangeStart r1)"
      using a(2,3) unfolding iv [OF ca] iv1 [OF ca] by linarith
    ultimately show "range_overlaps r r1" by (auto simp: range_overlaps_def)
  qed
qed

end
