(* ===== verification/Alloc_RangeSet.thy ===== *)
theory Alloc_RangeSet
  imports Alloc_Range
begin

text \<open>
  \<open>plugins/ipam/host-local/backend/allocator/range_set.go\<close>: a set of ranges that share an address
  family and do not overlap.
\<close>

section \<open>The code\<close>

type_synonym range_set = "range list"

definition rs_string :: "range_set \<Rightarrow> string" where
  "rs_string s = join '','' (map range_string s)"

definition RangeFor :: "range_set \<Rightarrow> ip \<Rightarrow> range res" where
  "RangeFor s addr =
     bind_res (canonicalizeIP addr) (\<lambda>a.
       case find (\<lambda>r. range_contains r a) s of
         Some r \<Rightarrow> Inr r
       | None \<Rightarrow> Inl (Errorf (ip_string a @ '' not in range set '' @ rs_string s)))"

definition rs_contains :: "range_set \<Rightarrow> ip \<Rightarrow> bool" where
  "rs_contains s addr \<longleftrightarrow> is_ok (RangeFor s addr)"

definition rs_overlaps :: "range_set \<Rightarrow> range_set \<Rightarrow> bool" where
  "rs_overlaps s p1 \<longleftrightarrow> list_ex (\<lambda>r. list_ex (range_overlaps r) p1) s"

text \<open>The first loop of \<open>Canonicalize\<close>: \<open>fam\<close> is set by the first range and compared by the others.\<close>

fun canonicalize_ranges :: "nat option \<Rightarrow> range list \<Rightarrow> range list res" where
  "canonicalize_ranges fam [] = Inr []"
| "canonicalize_ranges fam (r0 # rs) =
     bind_res (canonicalize_range r0) (\<lambda>r.
       case fam of
         None \<Rightarrow> bind_res (canonicalize_ranges (Some (length (RangeStart r))) rs) (\<lambda>rs'. Inr (r # rs'))
       | Some f \<Rightarrow> if f \<noteq> length (RangeStart r) then Inl (Errorf ''mixed address families'')
                   else bind_res (canonicalize_ranges fam rs) (\<lambda>rs'. Inr (r # rs')))"

text \<open>The second loop: every pair of ranges, in order.\<close>

fun overlap_check :: "range list \<Rightarrow> unit res" where
  "overlap_check [] = Inr ()"
| "overlap_check (r1 # rs) =
     (case find (range_overlaps r1) rs of
        Some r2 \<Rightarrow> Inl (Errorf (''subnets '' @ range_string r1 @ '' and '' @ range_string r2 @ '' overlap''))
      | None \<Rightarrow> overlap_check rs)"

definition canonicalize_set :: "range_set \<Rightarrow> range_set res" where
  "canonicalize_set s0 =
     (if s0 = [] then Inl (Errorf ''empty range set'')
      else bind_res (canonicalize_ranges None s0) (\<lambda>s.
           bind_res (overlap_check s) (\<lambda>_. Inr s)))"

section \<open>Facts\<close>

lemma RangeFor_Inr:
  "RangeFor s a = Inr r \<longleftrightarrow> (\<exists>b. canonicalizeIP a = Inr b \<and> find (\<lambda>r. range_contains r b) s = Some r)"
  by (auto simp: RangeFor_def bind_res_Inr split: option.splits)

lemma range_contains_canonical:
  assumes "canonicalizeIP a = Inr b"
  shows "range_contains r a = range_contains r b"
proof -
  have "canonicalizeIP b = Inr b"
    by (rule canonicalizeIP_canon [OF canonicalizeIP_InrD(1) [OF assms]])
  with assms show ?thesis by (simp add: range_contains_def)
qed

lemma RangeFor_InrD:
  assumes "RangeFor s a = Inr r"
  shows "r \<in> set s" "range_contains r a"
proof -
  obtain b where b: "canonicalizeIP a = Inr b" "find (\<lambda>r. range_contains r b) s = Some r"
    using assms unfolding RangeFor_Inr by blast
  then show "r \<in> set s" "range_contains r a"
    using range_contains_canonical [OF b(1)] by (auto simp: find_Some_iff)
qed

lemma rs_contains_iff: "rs_contains s a \<longleftrightarrow> (\<exists>r\<in>set s. range_contains r a)"
proof (cases "canonicalizeIP a")
  case (Inl e)
  then show ?thesis by (simp add: rs_contains_def RangeFor_def range_contains_def)
next
  case (Inr b)
  then show ?thesis
    using range_contains_canonical [OF Inr]
    by (auto simp: rs_contains_def RangeFor_def find_None_iff find_Some_iff split: option.splits)
qed

lemma rs_overlaps_iff: "rs_overlaps s p \<longleftrightarrow> (\<exists>r\<in>set s. \<exists>r1\<in>set p. range_overlaps r r1)"
  by (simp add: rs_overlaps_def list_ex_iff)

lemma range_overlaps_sym: "range_overlaps r r1 = range_overlaps r1 r"
  by (auto simp: range_overlaps_def)

lemma overlap_check_iff: "overlap_check rs = Inr () \<longleftrightarrow> sorted_wrt (\<lambda>r r1. \<not> range_overlaps r r1) rs"
proof (induction rs)
  case (Cons r rs)
  show ?case
  proof (cases "find (range_overlaps r) rs")
    case None
    then have "\<forall>r1\<in>set rs. \<not> range_overlaps r r1" by (simp add: find_None_iff)
    with None Cons show ?thesis by simp
  next
    case (Some r1)
    then have "r1 \<in> set rs" "range_overlaps r r1" by (auto simp: find_Some_iff)
    with Some show ?thesis by auto
  qed
qed simp

lemma canonicalize_ranges_nth:
  "canonicalize_ranges fam s0 = Inr s \<Longrightarrow> length s = length s0
     \<and> (\<forall>i<length s0. canonicalize_range (s0 ! i) = Inr (s ! i))"
  by (induction s0 arbitrary: s fam) (auto simp: bind_res_Inr less_Suc_eq_0_disj split: option.splits if_splits)

lemma canonicalize_ranges_fam:
  "canonicalize_ranges fam s0 = Inr s \<Longrightarrow>
     \<exists>f. (\<forall>r\<in>set s. length (RangeStart r) = f) \<and> (fam = None \<or> fam = Some f)"
proof (induction s0 arbitrary: s fam)
  case (Cons r0 rs0)
  then obtain r rs where r: "canonicalize_range r0 = Inr r" "s = r # rs"
    "canonicalize_ranges (Some (length (RangeStart r))) rs0 = Inr rs"
    "fam = None \<or> fam = Some (length (RangeStart r))"
    by (cases fam) (auto simp: bind_res_Inr split: if_splits)
  from Cons.IH [OF r(3)] r(2,4) show ?case by auto
qed (cases fam, auto)

text \<open>
  A set as the allocator gets it: not empty, every range well formed, one family, no address in
  two ranges.
\<close>

definition rs_wf :: "range_set \<Rightarrow> bool" where
  "rs_wf s \<longleftrightarrow> s \<noteq> [] \<and> (\<forall>r\<in>set s. range_wf r)
     \<and> (\<forall>r\<in>set s. length (RangeStart r) = length (RangeStart (hd s)))
     \<and> sorted_wrt (\<lambda>r r1. \<not> range_overlaps r r1) s"

lemma canonicalize_set_Inr:
  "canonicalize_set s0 = Inr s \<longleftrightarrow>
     s0 \<noteq> [] \<and> canonicalize_ranges None s0 = Inr s \<and> sorted_wrt (\<lambda>r r1. \<not> range_overlaps r r1) s"
  by (auto simp: canonicalize_set_def bind_res_Inr overlap_check_iff)

lemma canonicalize_set_wf:
  assumes "canonicalize_set s0 = Inr s" "\<forall>r\<in>set s. range_wf r"
  shows "rs_wf s"
proof -
  have a: "s0 \<noteq> []" "canonicalize_ranges None s0 = Inr s" "sorted_wrt (\<lambda>r r1. \<not> range_overlaps r r1) s"
    using assms(1) by (simp_all add: canonicalize_set_Inr)
  from canonicalize_ranges_nth [OF a(2)] a(1) have "s \<noteq> []" by auto
  moreover obtain f where "\<forall>r\<in>set s. length (RangeStart r) = f"
    using canonicalize_ranges_fam [OF a(2)] by auto
  ultimately show ?thesis using a(3) assms(2) by (simp add: rs_wf_def)
qed

lemma rs_wf_disjoint:
  assumes "rs_wf s" "i < length s" "j < length s" "canon a"
    "range_contains (s ! i) a" "range_contains (s ! j) a"
  shows "i = j"
proof (rule ccontr)
  assume "i \<noteq> j"
  then have "\<not> range_overlaps (s ! i) (s ! j)"
    using assms(1-3) range_overlaps_sym [of "s ! i"] sorted_wrt_nth_less
    unfolding rs_wf_def by (metis linorder_neqE_nat)
  moreover have "range_wf (s ! i)" "range_wf (s ! j)" using assms(1-3) by (auto simp: rs_wf_def)
  ultimately show False using range_overlaps_interval assms(4-6) by blast
qed

end
