(* ===== verification/Alloc_Iter.thy ===== *)
theory Alloc_Iter
  imports Alloc_RangeSet
begin

text \<open>
  \<open>RangeIter\<close> of \<open>plugins/ipam/host-local/backend/allocator/allocator.go\<close>: the cursor that walks the
  ranges of a set round-robin. The lemmas number the addresses of a well-formed set from 0 and
  show that one step of the cursor adds one, modulo the number of addresses.
\<close>

section \<open>The code\<close>

record range_iter =
  rangeIdx :: nat
  cur :: ip
  startIP :: ip
  startRange :: nat

text \<open>
  One pass of \<open>Next\<close> up to the test against the gateway; the flag says that the cursor is back at
  its starting point, where \<open>Next\<close> gives up.
\<close>

definition iter_step :: "range_set \<Rightarrow> range_iter \<Rightarrow> range_iter \<times> bool" where
  "iter_step rs i =
     (let r = rs ! rangeIdx i
      in if cur i = [] then (i\<lparr>cur := RangeStart r, startIP := RangeStart r\<rparr>, False)
         else
           let i1 = (if ip_equal (cur i) (RangeEnd r)
                     then let idx = (rangeIdx i + 1) mod length rs
                          in i\<lparr>rangeIdx := idx, cur := RangeStart (rs ! idx)\<rparr>
                     else i\<lparr>cur := NextIP (cur i)\<rparr>)
           in if startIP i1 = [] then (i1\<lparr>startIP := cur i1\<rparr>, False)
              else (i1, rangeIdx i1 = startRange i1 \<and> ip_equal (cur i1) (startIP i1)))"

text \<open>\<open>Next\<close> calls itself when it lands on a gateway; \<open>None\<close> when that never ends.\<close>

partial_function (option) iter_Next ::
  "range_set \<Rightarrow> range_iter \<Rightarrow> (range_iter \<times> (ipnet \<times> ip) option) option" where
  "iter_Next rs i =
     (case iter_step rs i of (i', back) \<Rightarrow>
        if back then Some (i', None)
        else let r = rs ! rangeIdx i'
             in if ip_equal (cur i') (Gateway r) then iter_Next rs i'
                else Some (i', Some (\<lparr>net_ip = cur i', net_mask = net_mask (Subnet r)\<rparr>, Gateway r)))"

section \<open>Addresses of a range as numbers\<close>

definition ipval :: "ip \<Rightarrow> nat" where
  "ipval a = nat (ipToInt a)"

lemma ipval_canon: "canon a \<Longrightarrow> ipval a = of_bytes a"
  by (simp add: ipval_def ipToInt_canon)

lemma ipToInt_cong: "To16 a = To16 b \<Longrightarrow> ipToInt a = ipToInt b"
  by (metis ipToInt_To16)

lemma ipval_cong: "To16 a = To16 b \<Longrightarrow> ipval a = ipval b"
  using ipToInt_cong [of a b] by (simp add: ipval_def)

text \<open>A contained address, in canonical form.\<close>

lemma contains_canon:
  assumes "range_wf r" "range_contains r c"
  obtains b where "canon b" "To16 b = To16 c" "length b = length (RangeStart r)" "ipval c = of_bytes b"
    "of_bytes (RangeStart r) \<le> of_bytes b" "of_bytes b \<le> of_bytes (RangeEnd r)"
proof -
  obtain b where b: "canonicalizeIP c = Inr b"
    using assms(2) by (cases "canonicalizeIP c") (simp_all add: range_contains_def)
  note cb = canonicalizeIP_InrD [OF b]
  have "ipval c = of_bytes b" using ipval_cong [OF cb(2)] ipval_canon [OF cb(1)] by simp
  then show ?thesis using that cb assms(2) range_contains_interval [OF assms(1) b] by blast
qed

lemma contains_canonI:
  "range_wf r \<Longrightarrow> canon b \<Longrightarrow> length b = length (RangeStart r) \<Longrightarrow> of_bytes (RangeStart r) \<le> of_bytes b
     \<Longrightarrow> of_bytes b \<le> of_bytes (RangeEnd r) \<Longrightarrow> range_contains r b"
  using range_contains_interval [of r b b] by simp

lemma range_wf_bounds:
  assumes "range_wf r"
  shows "canon (RangeStart r)" "canon (RangeEnd r)" "of_bytes (RangeStart r) \<le> of_bytes (RangeEnd r)"
    "length (RangeEnd r) = length (RangeStart r)"
    "range_contains r (RangeStart r)" "range_contains r (RangeEnd r)"
proof -
  note w = range_wf_wide [OF assms]
  show c: "canon (RangeStart r)" "canon (RangeEnd r)" using w(1,2) by blast+
  show le: "of_bytes (RangeStart r) \<le> of_bytes (RangeEnd r)" using assms by (simp add: range_wf_def)
  show l: "length (RangeEnd r) = length (RangeStart r)" using w(3) by simp
  show "range_contains r (RangeStart r)" "range_contains r (RangeEnd r)"
    using contains_canonI [OF assms] c le l by simp_all
qed

lemma contains_ip_equal:
  assumes "range_wf r" "range_contains r c" "range_contains r d"
  shows "ip_equal c d \<longleftrightarrow> ipval c = ipval d"
proof -
  obtain b where b: "canon b" "To16 b = To16 c" "length b = length (RangeStart r)" "ipval c = of_bytes b"
    by (rule contains_canon [OF assms(1,2)])
  obtain e where e: "canon e" "To16 e = To16 d" "length e = length (RangeStart r)" "ipval d = of_bytes e"
    by (rule contains_canon [OF assms(1,3)])
  have "ip_equal c d \<longleftrightarrow> To16 c = To16 d"
    using b(1,2) e(1,2) canon_To16_nonempty by (intro ip_equal_To16) metis+
  also have "\<dots> \<longleftrightarrow> b = e" using b e To16_canon_inj by metis
  also have "\<dots> \<longleftrightarrow> ipval c = ipval d" using of_bytes_inj b e by metis
  finally show ?thesis .
qed

lemma contains_next:
  assumes "range_wf r" "range_contains r c" "ipval c \<noteq> of_bytes (RangeEnd r)"
  shows "range_contains r (NextIP c)" "canon (NextIP c)" "ipval (NextIP c) = ipval c + 1"
proof -
  note w = range_wf_wide [OF assms(1)]
  obtain b where b: "canon b" "To16 b = To16 c" "length b = length (RangeStart r)" "ipval c = of_bytes b"
    "of_bytes (RangeStart r) \<le> of_bytes b" "of_bytes b \<le> of_bytes (RangeEnd r)"
    by (rule contains_canon [OF assms(1,2)])
  have sub: "subnet_ok (Subnet r)" "in_subnet (Subnet r) (RangeStart r)" "in_subnet (Subnet r) (RangeEnd r)"
    using assms(1) by (simp_all add: range_wf_def)
  have "in_subnet (Subnet r) b"
    by (rule in_subnet_convex [OF sub]) (use b w(4) in simp_all)
  moreover have "wide (net_ip (Subnet r))" using assms(1) by (simp add: range_wf_def)
  ultimately have wb: "wide b" using in_subnet_wide by blast
  have "of_bytes b + 1 < 256 ^ length b"
    using assms(3) b(3,4,6) of_bytes_less [of "RangeEnd r"] w(3) by simp
  note n = NextIP_wide [OF wb this]
  have "NextIP c = NextIP b" using ipToInt_cong [OF b(2)] by (simp add: NextIP_def)
  moreover from n(1) have "canon (NextIP b)" by blast
  ultimately show "range_contains r (NextIP c)" "canon (NextIP c)" "ipval (NextIP c) = ipval c + 1"
    using n b assms(3) contains_canonI [OF assms(1), of "NextIP b"] ipval_canon by simp_all
qed

section \<open>Positions\<close>

definition range_size :: "range \<Rightarrow> nat" where
  "range_size r = of_bytes (RangeEnd r) + 1 - of_bytes (RangeStart r)"

definition offset :: "range_set \<Rightarrow> nat \<Rightarrow> nat" where
  "offset rs i = sum_list (map range_size (take i rs))"

abbreviation total :: "range_set \<Rightarrow> nat" where
  "total rs \<equiv> offset rs (length rs)"

text \<open>A cursor is a range index and an address of that range.\<close>

definition at :: "range_set \<Rightarrow> nat \<times> ip \<Rightarrow> bool" where
  "at rs x \<longleftrightarrow> fst x < length rs \<and> range_contains (rs ! fst x) (snd x)"

definition pos :: "range_set \<Rightarrow> nat \<times> ip \<Rightarrow> nat" where
  "pos rs x = offset rs (fst x) + (ipval (snd x) - of_bytes (RangeStart (rs ! fst x)))"

definition adv :: "range_set \<Rightarrow> nat \<times> ip \<Rightarrow> nat \<times> ip" where
  "adv rs x =
     (if ip_equal (snd x) (RangeEnd (rs ! fst x))
      then let idx = (fst x + 1) mod length rs in (idx, RangeStart (rs ! idx))
      else (fst x, NextIP (snd x)))"

lemma rs_wf_nth: "rs_wf rs \<Longrightarrow> i < length rs \<Longrightarrow> range_wf (rs ! i)"
  by (simp add: rs_wf_def)

lemma offset_Suc: "i < length rs \<Longrightarrow> offset rs (Suc i) = offset rs i + range_size (rs ! i)"
  by (simp add: offset_def take_Suc_conv_app_nth)

lemma offset_mono: "i \<le> j \<Longrightarrow> offset rs i \<le> offset rs j"
proof -
  assume "i \<le> j"
  then have "take j rs = take i rs @ take (j - i) (drop i rs)"
    by (metis le_add_diff_inverse take_add)
  then show ?thesis by (simp add: offset_def)
qed

lemma range_size_pos: "range_wf r \<Longrightarrow> 0 < range_size r"
  by (simp add: range_wf_def range_size_def)

lemma pos_bounds:
  assumes "rs_wf rs" "at rs x"
  shows "offset rs (fst x) \<le> pos rs x" "pos rs x < offset rs (Suc (fst x))" "pos rs x < total rs"
proof -
  have i: "fst x < length rs" and c: "range_contains (rs ! fst x) (snd x)" using assms(2) by (simp_all add: at_def)
  note wf = rs_wf_nth [OF assms(1) i]
  obtain b where b: "ipval (snd x) = of_bytes b" "of_bytes (RangeStart (rs ! fst x)) \<le> of_bytes b"
    "of_bytes b \<le> of_bytes (RangeEnd (rs ! fst x))"
    using contains_canon [OF wf c] by metis
  show "offset rs (fst x) \<le> pos rs x" by (simp add: pos_def)
  show lt: "pos rs x < offset rs (Suc (fst x))"
    unfolding offset_Suc [OF i] using b by (simp add: pos_def range_size_def)
  also have "\<dots> \<le> total rs" using i by (intro offset_mono) simp
  finally show "pos rs x < total rs" .
qed

lemma at_adv:
  assumes "rs_wf rs" "at rs x"
  shows "at rs (adv rs x)" "canon (snd (adv rs x))" "pos rs (adv rs x) = (pos rs x + 1) mod total rs"
proof -
  let ?r = "rs ! fst x" and ?j = "(fst x + 1) mod length rs"
  have i: "fst x < length rs" and c: "range_contains ?r (snd x)" using assms(2) by (simp_all add: at_def)
  note wf = rs_wf_nth [OF assms(1) i]
  note bd = range_wf_bounds [OF wf]
  have eq: "ip_equal (snd x) (RangeEnd ?r) \<longleftrightarrow> ipval (snd x) = of_bytes (RangeEnd ?r)"
    using contains_ip_equal [OF wf c bd(6)] ipval_canon [OF bd(2)] by simp
  have lo: "of_bytes (RangeStart ?r) \<le> ipval (snd x)"
    using contains_canon [OF wf c] by metis
  have "at rs (adv rs x) \<and> canon (snd (adv rs x)) \<and> pos rs (adv rs x) = (pos rs x + 1) mod total rs"
  proof (cases "ipval (snd x) = of_bytes (RangeEnd ?r)")
    case True
    then have a: "adv rs x = (?j, RangeStart (rs ! ?j))" using eq by (simp add: adv_def Let_def)
    have "0 < length rs" using i by linarith
    then have j: "?j < length rs" by (rule mod_less_divisor)
    note bj = range_wf_bounds [OF rs_wf_nth [OF assms(1) j]]
    have p: "pos rs (adv rs x) = offset rs ?j"
      unfolding a pos_def using ipval_canon [OF bj(1)] by simp
    have p1: "pos rs x + 1 = offset rs (Suc (fst x))"
      unfolding offset_Suc [OF i] using True bd(3) by (simp add: pos_def range_size_def)
    have "pos rs (adv rs x) = (pos rs x + 1) mod total rs"
    proof (cases "Suc (fst x) = length rs")
      case True
      then have "?j = 0" "pos rs x + 1 = total rs" using p1 by simp_all
      moreover have "offset rs 0 = 0" by (simp add: offset_def)
      ultimately show ?thesis unfolding p by simp
    next
      case False
      then have "?j = Suc (fst x)" "Suc (fst x) < length rs" using i by simp_all
      moreover from this(2) have "offset rs (Suc (fst x)) < total rs"
        using offset_Suc [of "Suc (fst x)" rs] range_size_pos [OF rs_wf_nth [OF assms(1)], of "Suc (fst x)"]
          offset_mono [of "Suc (Suc (fst x))" "length rs" rs] by linarith
      ultimately show ?thesis using p p1 by simp
    qed
    moreover have "at rs (adv rs x)" unfolding a at_def using j bj(5) by simp
    moreover have "canon (snd (adv rs x))" unfolding a using bj(1) by simp
    ultimately show ?thesis by blast
  next
    case False
    then have a: "adv rs x = (fst x, NextIP (snd x))" using eq by (simp add: adv_def)
    note n = contains_next [OF wf c False]
    have p: "pos rs (adv rs x) = pos rs x + 1" using n(3) lo by (simp add: a pos_def)
    have "at rs (adv rs x)" using a n(1) i by (simp add: at_def)
    with pos_bounds(3) [OF assms(1) this] p n(2) a show ?thesis by simp
  qed
  then show "at rs (adv rs x)" "canon (snd (adv rs x))" "pos rs (adv rs x) = (pos rs x + 1) mod total rs"
    by blast+
qed

lemma pos_inj:
  assumes "rs_wf rs" "at rs x" "at rs y" "pos rs x = pos rs y"
  shows "fst x = fst y" "ipval (snd x) = ipval (snd y)"
proof -
  note bx = pos_bounds [OF assms(1,2)] and by' = pos_bounds [OF assms(1,3)]
  show f: "fst x = fst y"
  proof (rule ccontr)
    assume "fst x \<noteq> fst y"
    then consider "Suc (fst x) \<le> fst y" | "Suc (fst y) \<le> fst x" by linarith
    then show False
      using offset_mono [of "Suc (fst x)" "fst y" rs] offset_mono [of "Suc (fst y)" "fst x" rs]
        bx by' assms(4) by cases linarith+
  qed
  have "of_bytes (RangeStart (rs ! fst x)) \<le> ipval (snd x)" "of_bytes (RangeStart (rs ! fst x)) \<le> ipval (snd y)"
    using assms(2,3) contains_canon rs_wf_nth [OF assms(1)] unfolding at_def f by metis+
  then show "ipval (snd x) = ipval (snd y)"
    using assms(4) f by (simp add: pos_def)
qed

section \<open>Walking\<close>

definition walk :: "range_set \<Rightarrow> nat \<Rightarrow> nat \<times> ip \<Rightarrow> nat \<times> ip" where
  "walk rs k = (adv rs ^^ k)"

lemma walk_simps [simp]: "walk rs 0 x = x" "walk rs (Suc k) x = adv rs (walk rs k x)"
  by (simp_all add: walk_def)

lemma walk_adv: "walk rs k (adv rs x) = walk rs (Suc k) x"
  by (induction k) simp_all

lemma at_walk: "rs_wf rs \<Longrightarrow> at rs x \<Longrightarrow> at rs (walk rs k x)"
  by (induction k) (simp_all add: at_adv(1))

lemma canon_walk: "rs_wf rs \<Longrightarrow> at rs x \<Longrightarrow> canon (snd x) \<Longrightarrow> canon (snd (walk rs k x))"
  by (cases k) (simp_all add: at_adv(2) at_walk)

lemma pos_walk: "rs_wf rs \<Longrightarrow> at rs x \<Longrightarrow> pos rs (walk rs k x) = (pos rs x + k) mod total rs"
proof (induction k)
  case 0
  then show ?case using pos_bounds(3) [of rs x] by simp
next
  case (Suc k)
  have "pos rs (walk rs (Suc k) x) = (pos rs (walk rs k x) + 1) mod total rs"
    using at_adv(3) [OF Suc.prems(1) at_walk [OF Suc.prems]] by simp
  also have "\<dots> = (pos rs x + Suc k) mod total rs"
    using Suc by (simp add: mod_Suc_eq)
  finally show ?case .
qed

lemma total_pos: "rs_wf rs \<Longrightarrow> at rs x \<Longrightarrow> 0 < total rs"
  using pos_bounds(3) [of rs x] by linarith

text \<open>Every address of the set comes up exactly once in \<open>total\<close> steps.\<close>

lemma at_eqI:
  assumes "rs_wf rs" "at rs x" "at rs y" "canon (snd x)" "canon (snd y)" "pos rs x = pos rs y"
  shows "x = y"
proof -
  note p = pos_inj [OF assms(1-3,6)]
  have f: "range_wf (rs ! fst x)" using assms(1,2) rs_wf_nth by (simp add: at_def)
  have c: "range_contains (rs ! fst x) (snd x)" "range_contains (rs ! fst x) (snd y)"
    using assms(2,3) p(1) by (simp_all add: at_def)
  have "ip_equal (snd x) (snd y)" using contains_ip_equal [OF f c] p(2) by simp
  then have "snd x = snd y" using ip_equal_canon assms(4,5) by blast
  with p(1) show ?thesis by (simp add: prod_eq_iff)
qed

lemma walk_reaches:
  assumes "rs_wf rs" "at rs x" "at rs y" "canon (snd x)" "canon (snd y)"
  obtains k where "k < total rs" "walk rs k x = y"
proof -
  let ?n = "total rs" and ?k = "(pos rs y + total rs - pos rs x) mod total rs"
  have n: "0 < ?n" using total_pos [OF assms(1,2)] .
  have lx: "pos rs x < ?n" and ly: "pos rs y < ?n" using pos_bounds(3) assms(1-3) by blast+
  have "pos rs (walk rs ?k x) = (pos rs x + (pos rs y + ?n - pos rs x)) mod ?n"
    unfolding pos_walk [OF assms(1,2)] by (rule mod_add_right_eq)
  also have "\<dots> = pos rs y" using lx ly by simp
  finally have "walk rs ?k x = y"
    using at_eqI [OF assms(1) at_walk [OF assms(1,2)] assms(3) canon_walk [OF assms(1,2,4)] assms(5)] by blast
  moreover have "?k < ?n" using n by simp
  ultimately show ?thesis using that by blast
qed

lemma walk_total: "rs_wf rs \<Longrightarrow> at rs x \<Longrightarrow> canon (snd x) \<Longrightarrow> walk rs (total rs) x = x"
  using pos_walk [of rs x "total rs"] pos_bounds(3) [of rs x]
  by (intro at_eqI) (simp_all add: at_walk canon_walk)

lemma walk_no_return:
  assumes "rs_wf rs" "at rs x" "0 < k" "k < total rs"
  shows "walk rs k x \<noteq> x"
proof
  assume "walk rs k x = x"
  then have "(pos rs x + k) mod total rs = pos rs x" using pos_walk [OF assms(1,2), of k] by simp
  moreover have "pos rs x < total rs" by (rule pos_bounds(3) [OF assms(1,2)])
  moreover have "(pos rs x + k) mod total rs = pos rs x + k - total rs" if "\<not> pos rs x + k < total rs"
    using that assms(4) \<open>pos rs x < total rs\<close> by (simp add: le_mod_geq)
  ultimately show False using assms(3,4) by (cases "pos rs x + k < total rs") simp_all
qed

section \<open>The cursor\<close>

definition place :: "range_iter \<Rightarrow> nat \<times> ip" where
  "place i = (rangeIdx i, cur i)"

definition iter_ok :: "range_set \<Rightarrow> range_iter \<Rightarrow> bool" where
  "iter_ok rs i \<longleftrightarrow> (cur i = [] \<and> rangeIdx i = 0) \<or> at rs (place i)"

lemma at_nonempty: "rs_wf rs \<Longrightarrow> at rs x \<Longrightarrow> snd x \<noteq> []"
  using contains_canon [of "rs ! fst x" "snd x"] canon_To16_nonempty rs_wf_nth
  unfolding at_def by (metis To16_eq_Nil_iff list.size(3) zero_neq_numeral)

lemma iter_step_first:
  "cur i = [] \<Longrightarrow> iter_step rs i =
     (i\<lparr>cur := RangeStart (rs ! rangeIdx i), startIP := RangeStart (rs ! rangeIdx i)\<rparr>, False)"
  by (simp add: iter_step_def Let_def)

lemma iter_step_adv:
  "cur i \<noteq> [] \<Longrightarrow> iter_step rs i =
     (let (j, c) = adv rs (place i); i1 = i\<lparr>rangeIdx := j, cur := c\<rparr>
      in if startIP i = [] then (i1\<lparr>startIP := c\<rparr>, False)
         else (i1, j = startRange i \<and> ip_equal c (startIP i)))"
  by (simp add: iter_step_def adv_def place_def Let_def)

lemma iter_step_ok:
  assumes "rs_wf rs" "iter_ok rs i" "iter_step rs i = (i', b)"
  shows "at rs (place i')" "canon (cur i')"
proof -
  have "rs \<noteq> []" using assms(1) by (simp add: rs_wf_def)
  have "at rs (place i') \<and> canon (cur i')"
  proof (cases "cur i = []")
    case True
    then have "rangeIdx i = 0" using assms(2) at_nonempty [OF assms(1), of "place i"]
      by (auto simp: iter_ok_def place_def)
    then show ?thesis
      using assms(3) True \<open>rs \<noteq> []\<close> range_wf_bounds [OF rs_wf_nth [OF assms(1), of 0]]
      by (auto simp: iter_step_first at_def place_def)
  next
    case False
    then have a: "at rs (place i)" using assms(2) by (simp add: iter_ok_def)
    have "place i' = adv rs (place i)"
      using assms(3) iter_step_adv [OF False, of rs]
      by (auto simp: Let_def place_def split: prod.splits if_splits)
    then show ?thesis using at_adv [OF assms(1) a] by (metis place_def snd_conv)
  qed
  then show "at rs (place i')" "canon (cur i')" by blast+
qed

text \<open>What \<open>Next\<close> returns: an address of a range of the set in canonical form, with the mask and
  the gateway of that range, and never the gateway.\<close>

lemma iter_Next_sound:
  assumes "iter_Next rs i = Some (i', Some (n, gw))" "rs_wf rs" "iter_ok rs i"
  shows "at rs (place i') \<and> canon (cur i') \<and> n = \<lparr>net_ip = cur i', net_mask = net_mask (Subnet (rs ! rangeIdx i'))\<rparr>
     \<and> gw = Gateway (rs ! rangeIdx i') \<and> \<not> ip_equal (cur i') gw"
proof -
  define Q where "Q s i y \<longleftrightarrow> (s = rs \<longrightarrow> iter_ok rs i \<longrightarrow> y = (i', Some (n, gw)) \<longrightarrow>
     at rs (place i') \<and> canon (cur i') \<and> n = \<lparr>net_ip = cur i', net_mask = net_mask (Subnet (rs ! rangeIdx i'))\<rparr>
     \<and> gw = Gateway (rs ! rangeIdx i') \<and> \<not> ip_equal (cur i') gw)" for s i y
  have "Q rs i (i', Some (n, gw))"
  proof (rule iter_Next.raw_induct [OF _ assms(1)])
    fix Next s j y
    assume IH: "\<And>s i y. Next s i = Some y \<Longrightarrow> Q s i y"
      and eq: "(case iter_step s j of (i', back) \<Rightarrow> if back then Some (i', None)
          else let r = s ! rangeIdx i' in if ip_equal (cur i') (Gateway r) then Next s i'
            else Some (i', Some (\<lparr>net_ip = cur i', net_mask = net_mask (Subnet r)\<rparr>, Gateway r))) = Some y"
    obtain j' b where st: "iter_step s j = (j', b)" by fastforce
    show "Q s j y"
    proof (cases "\<not> b \<and> ip_equal (cur j') (Gateway (s ! rangeIdx j'))")
      case True
      then have "Next s j' = Some y" using eq st by (simp add: Let_def)
      then have "Q s j' y" by (rule IH)
      moreover have "iter_ok rs j'" if "s = rs" "iter_ok rs j"
        using iter_step_ok [OF assms(2) that(2)] st that(1) by (simp add: iter_ok_def)
      ultimately show ?thesis by (simp add: Q_def)
    next
      case False
      then have y: "y = (j', if b then None else Some (\<lparr>net_ip = cur j',
          net_mask = net_mask (Subnet (s ! rangeIdx j'))\<rparr>, Gateway (s ! rangeIdx j')))"
        using eq st by (auto simp: Let_def split: if_splits)
      show ?thesis unfolding Q_def
      proof (intro impI)
        assume a: "s = rs" "iter_ok rs j" "y = (i', Some (n, gw))"
        note iter_step_ok [OF assms(2) a(2) st [unfolded a(1)]]
        with y a(1,3) False show "at rs (place i') \<and> canon (cur i')
          \<and> n = \<lparr>net_ip = cur i', net_mask = net_mask (Subnet (rs ! rangeIdx i'))\<rparr>
          \<and> gw = Gateway (rs ! rangeIdx i') \<and> \<not> ip_equal (cur i') gw"
          by (auto split: if_splits)
      qed
    qed
  qed
  with assms(3) show ?thesis unfolding Q_def by blast
qed

end
