(* ===== verification/Store_Spec.thy ===== *)
theory Store_Spec
  imports Alloc_RangeSet
begin

text \<open>
  \<open>plugins/ipam/host-local/backend/store.go\<close>: the interface between the allocator and the store of
  reservations. The Go interface is a record of operations over a store state \<open>'s\<close>; the locale
  \<open>reservations\<close> is its contract, stated over an abstract view of the state: who holds which
  address (in 16-byte form) and which address was reserved last. Two providers of the repository
  satisfy it: the directory of files (\<open>Disk_Store\<close>) and the map of the test backend (\<open>Fake_Store\<close>).
\<close>

record 's store =
  st_Lock :: "('s, unit) io"
  st_Unlock :: "('s, unit) io"
  st_Close :: "('s, unit) io"
  st_Reserve :: "string \<Rightarrow> string \<Rightarrow> ip \<Rightarrow> string \<Rightarrow> ('s, bool) io"
  st_LastReservedIP :: "string \<Rightarrow> ('s, ip) io"
  st_Release :: "ip \<Rightarrow> ('s, unit) io"
  st_ReleaseByID :: "string \<Rightarrow> string \<Rightarrow> ('s, unit) io"
  st_GetByID :: "string \<Rightarrow> string \<Rightarrow> 's \<Rightarrow> ip list"

text \<open>
  The parameters of the contract: \<open>inv\<close> the states the operations keep, \<open>owner\<close> and \<open>latest\<close> the
  abstract view, \<open>key\<close> the tag a reservation is stored under, \<open>held\<close> the tags that count as held by
  a container, \<open>clean\<close> the container and interface names whose own tag is recognised, and
  \<open>reliable\<close>, true when no operation fails for a reason outside the store.
\<close>

locale reservations =
  fixes st :: "'s store"
    and inv :: "'s \<Rightarrow> bool"
    and owner :: "'s \<Rightarrow> ip \<Rightarrow> 'o option"
    and latest :: "'s \<Rightarrow> string \<Rightarrow> ip"
    and key :: "string \<Rightarrow> string \<Rightarrow> 'o"
    and held :: "string \<Rightarrow> string \<Rightarrow> 'o \<Rightarrow> bool"
    and clean :: "string \<Rightarrow> string \<Rightarrow> bool"
    and reliable :: bool
  assumes lock: "inv s \<Longrightarrow> st_Lock st s = (r, s') \<Longrightarrow> inv s' \<and> owner s' = owner s \<and> latest s' = latest s"
    and unlock: "inv s \<Longrightarrow> st_Unlock st s = (r, s') \<Longrightarrow> inv s' \<and> owner s' = owner s \<and> latest s' = latest s"
    and closes: "inv s \<Longrightarrow> st_Close st s = (r, s') \<Longrightarrow> inv s' \<and> owner s' = owner s \<and> latest s' = latest s"
    and owner_dom: "inv s \<Longrightarrow> owner s a \<noteq> None \<Longrightarrow> length a = 16"
    and reserve: "inv s \<Longrightarrow> To16 a \<noteq> [] \<Longrightarrow> st_Reserve st cid ifn a rid s = (rb, s') \<Longrightarrow>
      inv s' \<and> (case rb of
         Inr True \<Rightarrow> owner s (To16 a) = None \<and> owner s' = (owner s)(To16 a \<mapsto> key cid ifn)
           \<and> latest s' = (latest s)(rid := To16 a)
       | Inr False \<Rightarrow> s' = s \<and> owner s (To16 a) \<noteq> None
       | Inl e \<Rightarrow> \<not> reliable \<and> (\<forall>b. b \<noteq> To16 a \<or> owner s b \<noteq> None \<longrightarrow> owner s' b = owner s b))"
    and last_reserved: "inv s \<Longrightarrow> st_LastReservedIP st rid s = (ra, s') \<Longrightarrow>
      s' = s \<and> (let b = (case ra of Inl _ \<Rightarrow> [] | Inr b \<Rightarrow> To16 b)
                in (b = [] \<or> b = latest s rid) \<and> (reliable \<longrightarrow> b = latest s rid))"
    and release: "inv s \<Longrightarrow> To16 a \<noteq> [] \<Longrightarrow> st_Release st a s = (r, s') \<Longrightarrow>
      inv s' \<and> (case r of Inr _ \<Rightarrow> owner s' = (owner s)(To16 a := None) | Inl e \<Rightarrow> s' = s)"
    and release_by_id: "inv s \<Longrightarrow> st_ReleaseByID st cid ifn s = (r, s') \<Longrightarrow>
      inv s' \<and> (\<forall>a. owner s' a = owner s a
                 \<or> owner s' a = None \<and> (\<exists>k. owner s a = Some k \<and> held cid ifn k))
        \<and> (reliable \<and> clean cid ifn \<longrightarrow> r = Inr () \<and> (\<forall>a. owner s' a \<noteq> Some (key cid ifn)))"
    and get_by_id: "inv s \<Longrightarrow> b \<in> set (st_GetByID st cid ifn s) \<Longrightarrow>
      To16 b \<noteq> [] \<and> (\<exists>k. owner s (To16 b) = Some k \<and> held cid ifn k)"
    and get_by_id_complete: "inv s \<Longrightarrow> reliable \<Longrightarrow> owner s a = Some k \<Longrightarrow> held cid ifn k \<Longrightarrow>
      \<exists>b\<in>set (st_GetByID st cid ifn s). To16 b = a"
    and held_key: "clean cid ifn \<Longrightarrow> held cid ifn (key cid ifn)"

end
