(* ===== verification/Disk_Store.thy ===== *)
theory Disk_Store
  imports Store_Spec "HOL-Library.Char_ord" "HOL-Library.List_Lexorder"
begin

text \<open>
  \<open>plugins/ipam/host-local/backend/disk\<close>: \<open>backend.go\<close> and \<open>lock.go\<close>. The store of one network is a
  directory of regular files, kept here sorted by name (the order of \<open>filepath.Walk\<close>), and an
  exclusive \<open>flock\<close>. An operation of the operating system fails by a parameter \<open>os_faults\<close>, a table
  from file names to error numbers; \<open>IsExist\<close> and \<open>IsNotExist\<close> come from the directory itself.
\<close>

section \<open>The directory\<close>

type_synonym dir = "(string \<times> string) list"

record disk =
  files :: dir
  flocked :: bool

record os_faults =
  create_fault :: "string \<Rightarrow> nat option"
  write_fault :: "string \<Rightarrow> (nat \<times> nat) option" \<comment> \<open>bytes written, error\<close>
  close_fault :: "string \<Rightarrow> nat option"
  remove_fault :: "string \<Rightarrow> nat option"
  read_fault :: "string \<Rightarrow> nat option"
  lock_fault :: "nat option"
  unlock_fault :: "nat option"

definition no_faults :: os_faults where
  "no_faults = \<lparr>create_fault = \<lambda>_. None, write_fault = \<lambda>_. None, close_fault = \<lambda>_. None,
     remove_fault = \<lambda>_. None, read_fault = \<lambda>_. None, lock_fault = None, unlock_fault = None\<rparr>"

definition env_error :: "nat option \<Rightarrow> unit res" where
  "env_error f = (case f of None \<Rightarrow> Inr () | Some n \<Rightarrow> Inl (EnvError n))"

definition file_remove :: "string \<Rightarrow> dir \<Rightarrow> dir" where
  "file_remove n fs = filter (\<lambda>f. fst f \<noteq> n) fs"

definition file_put :: "string \<Rightarrow> string \<Rightarrow> dir \<Rightarrow> dir" where
  "file_put n c fs = insort_key fst (n, c) (file_remove n fs)"

text \<open>\<open>os.Remove\<close>, \<open>ioutil.ReadFile\<close> and \<open>ioutil.WriteFile\<close> on a file of the directory\<close>

definition os_Remove :: "os_faults \<Rightarrow> string \<Rightarrow> (disk, unit) io" where
  "os_Remove F n s =
     (case remove_fault F n of Some k \<Rightarrow> (Inl (EnvError k), s)
      | None \<Rightarrow> if map_of (files s) n = None then (Inl ErrNotExist, s)
                else (Inr (), s\<lparr>files := file_remove n (files s)\<rparr>))"

definition ReadFile :: "os_faults \<Rightarrow> string \<Rightarrow> (disk, string) io" where
  "ReadFile F n s =
     (case read_fault F n of Some k \<Rightarrow> (Inl (EnvError k), s)
      | None \<Rightarrow> (case map_of (files s) n of None \<Rightarrow> (Inl ErrNotExist, s) | Some c \<Rightarrow> (Inr c, s)))"

definition WriteFile :: "os_faults \<Rightarrow> string \<Rightarrow> string \<Rightarrow> (disk, unit) io" where
  "WriteFile F n c s =
     (case create_fault F n of Some k \<Rightarrow> (Inl (EnvError k), s)
      | None \<Rightarrow> (case write_fault F n of
           Some (j, k) \<Rightarrow> (Inl (EnvError k), s\<lparr>files := file_put n (take j c) (files s)\<rparr>)
         | None \<Rightarrow> (env_error (close_fault F n), s\<lparr>files := file_put n c (files s)\<rparr>)))"

section \<open>lock.go\<close>

definition disk_Lock :: "os_faults \<Rightarrow> (disk, unit) io" where
  "disk_Lock F s = (case lock_fault F of Some k \<Rightarrow> (Inl (EnvError k), s)
                    | None \<Rightarrow> (Inr (), s\<lparr>flocked := True\<rparr>))"

definition disk_Unlock :: "os_faults \<Rightarrow> (disk, unit) io" where
  "disk_Unlock F s = (case unlock_fault F of Some k \<Rightarrow> (Inl (EnvError k), s)
                      | None \<Rightarrow> (Inr (), s\<lparr>flocked := False\<rparr>))"

text \<open>\<open>Close\<close> unlocks and closes the descriptor.\<close>

definition disk_Close :: "os_faults \<Rightarrow> (disk, unit) io" where
  "disk_Close = disk_Unlock"

section \<open>backend.go\<close>

definition lastIPFilePrefix :: string where
  "lastIPFilePrefix = ''last_reserved_ip.''"

definition LineBreak :: string where
  "LineBreak = [char_of (13::nat), char_of (10::nat)]"

definition match_new :: "string \<Rightarrow> string \<Rightarrow> string" where
  "match_new cid ifn = TrimSpace cid @ LineBreak @ ifn"

definition match_old :: "string \<Rightarrow> string" where
  "match_old cid = TrimSpace cid"

definition disk_Reserve :: "os_faults \<Rightarrow> string \<Rightarrow> string \<Rightarrow> ip \<Rightarrow> string \<Rightarrow> (disk, bool) io" where
  "disk_Reserve F cid ifn a rid s =
     (let fname = ip_string a; content = TrimSpace cid @ LineBreak @ ifn
      in case create_fault F fname of Some k \<Rightarrow> (Inl (EnvError k), s)
       | None \<Rightarrow>
         if map_of (files s) fname \<noteq> None then (Inr False, s)
         else case write_fault F fname of
            Some (j, k) \<Rightarrow>
              (Inl (EnvError k), snd (os_Remove F fname (s\<lparr>files := file_put fname (take j content) (files s)\<rparr>)))
          | None \<Rightarrow>
              let s1 = s\<lparr>files := file_put fname content (files s)\<rparr>
              in case close_fault F fname of
                 Some k \<Rightarrow> (Inl (EnvError k), snd (os_Remove F fname s1))
               | None \<Rightarrow>
                   (case WriteFile F (lastIPFilePrefix @ rid) (ip_string a) s1 of
                      (Inl e, s2) \<Rightarrow> (Inl e, s2)
                    | (Inr _, s2) \<Rightarrow> (Inr True, s2)))"

definition disk_LastReservedIP :: "os_faults \<Rightarrow> string \<Rightarrow> (disk, ip) io" where
  "disk_LastReservedIP F rid =
     bind_io (ReadFile F (lastIPFilePrefix @ rid)) (\<lambda>data. ret (ParseIP data))"

definition disk_Release :: "os_faults \<Rightarrow> ip \<Rightarrow> (disk, unit) io" where
  "disk_Release F a = os_Remove F (ip_string a)"

text \<open>The walks: the names are read first, a file that cannot be read is skipped.\<close>

definition disk_FindByKey :: "os_faults \<Rightarrow> string \<Rightarrow> disk \<Rightarrow> bool" where
  "disk_FindByKey F m s =
     foldl (\<lambda>found f. case ReadFile F (fst f) s of
              (Inl _, _) \<Rightarrow> found
            | (Inr data, _) \<Rightarrow> if TrimSpace data = m then True else found) False (files s)"

definition disk_FindByID :: "os_faults \<Rightarrow> string \<Rightarrow> string \<Rightarrow> disk \<Rightarrow> bool \<times> disk" where
  "disk_FindByID F cid ifn s =
     (let s1 = snd (disk_Lock F s);
          found = disk_FindByKey F (match_new cid ifn) s1;
          found' = (if \<not> found then disk_FindByKey F (match_old cid) s1 else found)
      in (found', snd (disk_Unlock F s1)))"

definition release_file :: "os_faults \<Rightarrow> string \<Rightarrow> bool \<times> disk \<Rightarrow> string \<times> string \<Rightarrow> bool \<times> disk" where
  "release_file F m st f =
     (case st of (found, s) \<Rightarrow>
        (case ReadFile F (fst f) s of
           (Inl _, _) \<Rightarrow> (found, s)
         | (Inr data, _) \<Rightarrow>
             if TrimSpace data = m then
               (case os_Remove F (fst f) s of (Inl _, s') \<Rightarrow> (found, s') | (Inr _, s') \<Rightarrow> (True, s'))
             else (found, s)))"

definition disk_ReleaseByKey :: "os_faults \<Rightarrow> string \<Rightarrow> disk \<Rightarrow> bool \<times> disk" where
  "disk_ReleaseByKey F m s = foldl (release_file F m) (False, s) (files s)"

definition disk_ReleaseByID :: "os_faults \<Rightarrow> string \<Rightarrow> string \<Rightarrow> (disk, unit) io" where
  "disk_ReleaseByID F cid ifn s =
     (case disk_ReleaseByKey F (match_new cid ifn) s of
        (found, s1) \<Rightarrow>
          if \<not> found then (Inr (), snd (disk_ReleaseByKey F (match_old cid) s1)) else (Inr (), s1))"

definition disk_GetByID :: "os_faults \<Rightarrow> string \<Rightarrow> string \<Rightarrow> disk \<Rightarrow> ip list" where
  "disk_GetByID F cid ifn s =
     foldl (\<lambda>ips f. case ReadFile F (fst f) s of
              (Inl _, _) \<Rightarrow> ips
            | (Inr data, _) \<Rightarrow>
                if TrimSpace data = match_new cid ifn \<or> TrimSpace data = match_old cid then
                  (let a = ParseIP (fst f) in if a \<noteq> [] then ips @ [a] else ips)
                else ips) [] (files s)"

text \<open>The store as the interface sees it.\<close>

definition disk_store :: "os_faults \<Rightarrow> disk store" where
  "disk_store F = \<lparr>st_Lock = disk_Lock F, st_Unlock = disk_Unlock F, st_Close = disk_Close F,
     st_Reserve = disk_Reserve F, st_LastReservedIP = disk_LastReservedIP F,
     st_Release = disk_Release F, st_ReleaseByID = disk_ReleaseByID F, st_GetByID = disk_GetByID F\<rparr>"

text \<open>
  \<open>New(network, dataDir)\<close>: the data directories of the host as a map from paths to directories.
  \<open>MkdirAll\<close> keeps an existing directory, and opening the lock creates the file \<open>lock\<close> in it.
\<close>

definition defaultDataDir :: string where
  "defaultDataDir = ''/var/lib/cni/networks''"

type_synonym data_dirs = "string \<Rightarrow> disk option"

definition disk_New :: "(string \<Rightarrow> nat option) \<Rightarrow> (string \<Rightarrow> nat option) \<Rightarrow> string \<Rightarrow> string
    \<Rightarrow> (data_dirs, string) io" where
  "disk_New mkdir_fault open_fault network dataDir0 w =
     (let dataDir = (if dataDir0 = '''' then defaultDataDir else dataDir0);
          dir = path_Join dataDir network
      in case mkdir_fault dir of Some k \<Rightarrow> (Inl (EnvError k), w)
       | None \<Rightarrow>
         let d = (case w dir of None \<Rightarrow> \<lparr>files = [], flocked = False\<rparr> | Some d \<Rightarrow> d)
         in case open_fault dir of Some k \<Rightarrow> (Inl (EnvError k), w(dir \<mapsto> d))
          | None \<Rightarrow> (Inr dir, w(dir \<mapsto> (if map_of (files d) ''lock'' = None
                        then d\<lparr>files := file_put ''lock'' '''' (files d)\<rparr> else d))))"


section \<open>Directories as finite maps\<close>

definition distinct_names :: "dir \<Rightarrow> bool" where
  "distinct_names fs \<longleftrightarrow> distinct (map fst fs)"

lemma map_of_file_remove: "map_of (file_remove n fs) = (map_of fs)(n := None)"
  by (induction fs) (auto simp: file_remove_def)

lemma distinct_file_remove: "distinct_names fs \<Longrightarrow> distinct_names (file_remove n fs)"
  unfolding distinct_names_def file_remove_def by (rule distinct_map_filter)

lemma map_of_insort:
  "n \<notin> fst ` set fs \<Longrightarrow> map_of (insort_key fst (n, c) fs) = (map_of fs)(n \<mapsto> c)"
  by (induction fs) (auto simp: fun_upd_twist)

lemma not_in_file_remove: "n \<notin> fst ` set (file_remove n fs)"
  by (auto simp: file_remove_def)

lemma map_of_file_put: "map_of (file_put n c fs) = (map_of fs)(n \<mapsto> c)"
  unfolding file_put_def map_of_insort [OF not_in_file_remove] map_of_file_remove by simp

lemma distinct_file_put: "distinct_names fs \<Longrightarrow> distinct_names (file_put n c fs)"
proof -
  have ins: "distinct (map fst xs) \<Longrightarrow> n \<notin> fst ` set xs \<Longrightarrow> distinct (map fst (insort_key fst (n, c) xs))"
    for xs :: dir
    by (induction xs) (auto simp: set_insort_key)
  assume "distinct_names fs"
  with ins [OF _ not_in_file_remove] distinct_file_remove [of fs n] show ?thesis
    by (simp add: distinct_names_def file_put_def)
qed

section \<open>Tags and names\<close>

lemma ParseIP_none: "CHR ''.'' \<notin> set s \<Longrightarrow> CHR '':'' \<notin> set s \<Longrightarrow> ParseIP s = []"
proof -
  assume "CHR ''.'' \<notin> set s" "CHR '':'' \<notin> set s"
  then have "find (\<lambda>c. c = CHR ''.'' \<or> c = CHR '':'') s = None"
    unfolding find_None_iff by blast
  then show ?thesis by (simp add: ParseIP_def)
qed

lemma ParseIP_last [simp]: "ParseIP (lastIPFilePrefix @ rid) = []"
  by (simp add: ParseIP_def lastIPFilePrefix_def parseIPv4_def numeral_eq_Suc scan_number_def digit_val_def)

lemma ip_string_not_last: "To16 a \<noteq> [] \<Longrightarrow> ip_string a \<noteq> lastIPFilePrefix @ rid"
  using ParseIP_ip_string [of a] by (metis ParseIP_last)

lemma length_To16: "To16 a \<noteq> [] \<Longrightarrow> length (To16 a) = 16"
  by (cases "length a = 4"; cases "length a = 16"; simp add: To16_def)

lemma To16_id: "length a = 16 \<Longrightarrow> To16 a = a"
  by (simp add: To16_def)

lemma ip_string_inj16: "length a = 16 \<Longrightarrow> length b = 16 \<Longrightarrow> ip_string a = ip_string b \<longleftrightarrow> a = b"
  by (metis ParseIP_ip_string To16_id list.size(3) zero_neq_numeral)

lemma trim_left_hd: "s = [] \<or> \<not> is_space (hd s) \<Longrightarrow> trim_left s = s"
  by (cases s) (auto simp: trim_left_def)

lemma TrimSpace_id:
  "s = [] \<or> (\<not> is_space (hd s) \<and> \<not> is_space (List.last s)) \<Longrightarrow> TrimSpace s = s"
  by (auto simp: TrimSpace_def trim_left_hd hd_rev)

section \<open>The contract\<close>

definition disk_inv :: "disk \<Rightarrow> bool" where
  "disk_inv s \<longleftrightarrow> distinct_names (files s)
     \<and> (\<forall>f\<in>set (files s). ParseIP (fst f) \<noteq> [] \<longrightarrow>
          length (ParseIP (fst f)) = 16 \<and> fst f = ip_string (ParseIP (fst f)))"

definition disk_owner :: "disk \<Rightarrow> ip \<Rightarrow> string option" where
  "disk_owner s a = (if length a = 16 then map_option TrimSpace (map_of (files s) (ip_string a)) else None)"

definition disk_last :: "disk \<Rightarrow> string \<Rightarrow> ip" where
  "disk_last s rid =
     (case map_of (files s) (lastIPFilePrefix @ rid) of None \<Rightarrow> [] | Some c \<Rightarrow> To16 (ParseIP c))"

definition disk_key :: "string \<Rightarrow> string \<Rightarrow> string" where
  "disk_key cid ifn = TrimSpace (match_new cid ifn)"

definition disk_held :: "string \<Rightarrow> string \<Rightarrow> string \<Rightarrow> bool" where
  "disk_held cid ifn k \<longleftrightarrow> k = match_new cid ifn \<or> k = match_old cid"

text \<open>Names that survive \<open>TrimSpace\<close>: every container id and interface name without outer spaces.\<close>

definition disk_clean :: "string \<Rightarrow> string \<Rightarrow> bool" where
  "disk_clean cid ifn \<longleftrightarrow> TrimSpace (match_new cid ifn) = match_new cid ifn"

definition fault_free :: "os_faults \<Rightarrow> bool" where
  "fault_free F \<longleftrightarrow> F = no_faults"

lemma disk_owner_Some:
  "disk_owner s a = Some k \<longleftrightarrow> length a = 16 \<and> (\<exists>c. map_of (files s) (ip_string a) = Some c \<and> k = TrimSpace c)"
  by (auto simp: disk_owner_def)

lemma disk_inv_put:
  assumes "disk_inv s" "ParseIP n = [] \<or> (length (ParseIP n) = 16 \<and> n = ip_string (ParseIP n))"
  shows "disk_inv (s\<lparr>files := file_put n c (files s)\<rparr>)"
  using assms distinct_file_put [of "files s" n c]
  by (auto simp: disk_inv_def file_put_def set_insort_key file_remove_def)

lemma disk_inv_subset:
  "disk_inv s \<Longrightarrow> set fs \<subseteq> set (files s) \<Longrightarrow> distinct_names fs \<Longrightarrow> disk_inv (s\<lparr>files := fs\<rparr>)"
  by (auto simp: disk_inv_def)

lemma disk_inv_remove: "disk_inv s \<Longrightarrow> disk_inv (s\<lparr>files := file_remove n (files s)\<rparr>)"
  by (rule disk_inv_subset) (auto simp: file_remove_def disk_inv_def distinct_names_def distinct_map_filter)

lemma disk_inv_os_Remove: "disk_inv s \<Longrightarrow> disk_inv (snd (os_Remove F n s))"
  by (simp add: os_Remove_def disk_inv_remove split: option.splits)

lemma ip_name_ok:
  "To16 a \<noteq> [] \<Longrightarrow> length (ParseIP (ip_string a)) = 16 \<and> ip_string a = ip_string (ParseIP (ip_string a))"
  by (simp add: ParseIP_ip_string length_To16 ip_string_To16)

lemma disk_owner_put_ip:
  assumes "To16 a \<noteq> []"
  shows "disk_owner (s\<lparr>files := file_put (ip_string a) c (files s)\<rparr>)
       = (disk_owner s)(To16 a \<mapsto> TrimSpace c)"
proof
  fix b
  have "ip_string b = ip_string a \<longleftrightarrow> b = To16 a" if "length b = 16"
    using ip_string_inj16 [OF that length_To16 [OF assms]] ip_string_To16 [OF assms] by simp
  then show "disk_owner (s\<lparr>files := file_put (ip_string a) c (files s)\<rparr>) b
      = ((disk_owner s)(To16 a \<mapsto> TrimSpace c)) b"
    using length_To16 [OF assms] by (auto simp: disk_owner_def map_of_file_put)
qed

lemma disk_owner_remove_ip:
  assumes "To16 a \<noteq> []"
  shows "disk_owner (s\<lparr>files := file_remove (ip_string a) (files s)\<rparr>) = (disk_owner s)(To16 a := None)"
proof
  fix b
  have "ip_string b = ip_string a \<longleftrightarrow> b = To16 a" if "length b = 16"
    using ip_string_inj16 [OF that length_To16 [OF assms]] ip_string_To16 [OF assms] by simp
  then show "disk_owner (s\<lparr>files := file_remove (ip_string a) (files s)\<rparr>) b
      = ((disk_owner s)(To16 a := None)) b"
    by (auto simp: disk_owner_def map_of_file_remove)
qed

lemma disk_owner_put_other:
  assumes "ParseIP n = []"
  shows "disk_owner (s\<lparr>files := file_put n c (files s)\<rparr>) = disk_owner s"
proof
  fix b
  have "ip_string b \<noteq> n" if "length b = 16"
  proof
    assume e: "ip_string b = n"
    have "To16 b = b" "b \<noteq> []" using To16_id [OF that] that by auto
    with ParseIP_ip_string [of b] e assms show False by simp
  qed
  then show "disk_owner (s\<lparr>files := file_put n c (files s)\<rparr>) b = disk_owner s b"
    by (auto simp: disk_owner_def map_of_file_put)
qed


lemma disk_last_put_ip:
  "To16 a \<noteq> [] \<Longrightarrow> disk_last (s\<lparr>files := file_put (ip_string a) c (files s)\<rparr>) = disk_last s"
  using ip_string_not_last [of a] by (intro ext) (simp add: disk_last_def map_of_file_put eq_commute)

lemma disk_last_put_last:
  "disk_last (s\<lparr>files := file_put (lastIPFilePrefix @ rid) c (files s)\<rparr>)
     = (disk_last s)(rid := To16 (ParseIP c))"
  by (auto simp: disk_last_def map_of_file_put)

lemma env_error_cases: "env_error f = Inr () \<or> (\<exists>k. env_error f = Inl (EnvError k))"
  by (cases f) (simp_all add: env_error_def)

lemma WriteFile_last:
  assumes "disk_inv s" "WriteFile F (lastIPFilePrefix @ rid) c s = (r, s')"
  shows "disk_inv s'" "disk_owner s' = disk_owner s"
    "r = Inr () \<Longrightarrow> disk_last s' = (disk_last s)(rid := To16 (ParseIP c))"
    "fault_free F \<Longrightarrow> r = Inr ()"
  using assms disk_inv_put [OF assms(1)] disk_owner_put_other [of "lastIPFilePrefix @ rid" _ s]
    disk_last_put_last
  by (auto simp: WriteFile_def fault_free_def no_faults_def env_error_def split: option.splits)

text \<open>The ways through \<open>Reserve\<close>: no file, a file that was there, a file that is removed again, a file that is kept.\<close>

lemma disk_ReserveE [consumes 1]:
  assumes "disk_Reserve F cid ifn a rid s = (r, s')"
  obtains (cf) k where "create_fault F (ip_string a) = Some k" "r = Inl (EnvError k)" "s' = s"
    | (ex) "map_of (files s) (ip_string a) \<noteq> None" "r = Inr False" "s' = s"
    | (undo) k c where "map_of (files s) (ip_string a) = None" "r = Inl (EnvError k)" "\<not> fault_free F"
        "s' = snd (os_Remove F (ip_string a) (s\<lparr>files := file_put (ip_string a) c (files s)\<rparr>))"
    | (wr) q where "map_of (files s) (ip_string a) = None" "create_fault F (ip_string a) = None"
        "WriteFile F (lastIPFilePrefix @ rid) (ip_string a) (s\<lparr>files := file_put (ip_string a) (TrimSpace cid @ LineBreak @ ifn) (files s)\<rparr>) = (q, s')"
        "r = map_sum id (\<lambda>_. True) q"
proof (cases "create_fault F (ip_string a)")
  case (Some k)
  then show ?thesis using assms by (intro that(1)) (auto simp: disk_Reserve_def)
next
  case c0: None
  let ?n = "ip_string a" and ?c = "TrimSpace cid @ LineBreak @ ifn"
  show ?thesis
  proof (cases "map_of (files s) ?n")
    case (Some d)
    then show ?thesis using assms c0 by (intro that(2)) (auto simp: disk_Reserve_def)
  next
    case m0: None
    consider j k where "write_fault F ?n = Some (j, k)"
      | k where "write_fault F ?n = None" "close_fault F ?n = Some k"
      | "write_fault F ?n = None" "close_fault F ?n = None"
      by (cases "write_fault F ?n"; cases "close_fault F ?n") auto
    then show ?thesis
    proof cases
      case 1
      let ?t = "take j ?c"
      have "(r, s') = (Inl (EnvError k), snd (os_Remove F ?n (s\<lparr>files := file_put ?n ?t (files s)\<rparr>)))"
        using assms c0 m0 1 unfolding disk_Reserve_def Let_def by (simp del: take_append)
      moreover have "\<not> fault_free F" using 1 by (auto simp: fault_free_def no_faults_def)
      ultimately show ?thesis using m0 by (intro that(3) [of k ?t]) auto
    next
      case 2
      have "(r, s') = (Inl (EnvError k), snd (os_Remove F ?n (s\<lparr>files := file_put ?n ?c (files s)\<rparr>)))"
        using assms c0 m0 2 unfolding disk_Reserve_def Let_def by simp
      moreover have "\<not> fault_free F" using 2 by (auto simp: fault_free_def no_faults_def)
      ultimately show ?thesis using m0 by (intro that(3) [of k ?c]) auto
    next
      case 3
      obtain q s2 where q: "WriteFile F (lastIPFilePrefix @ rid) (ip_string a)
          (s\<lparr>files := file_put ?n ?c (files s)\<rparr>) = (q, s2)" by fastforce
      then have "r = map_sum id (\<lambda>_. True) q" "s' = s2"
        using assms c0 m0 3 by (cases q; simp add: disk_Reserve_def Let_def)+
      with q m0 c0 show ?thesis by (intro that(4)) simp_all
    qed
  qed
qed

text \<open>A failed \<open>Reserve\<close> may leave its file behind, but never touches another reservation.\<close>

lemma disk_reserve:
  assumes "disk_inv s" "To16 a \<noteq> []" "disk_Reserve F cid ifn a rid s = (r, s')"
  shows "disk_inv s' \<and> (case r of
         Inr True \<Rightarrow> disk_owner s (To16 a) = None \<and> disk_owner s' = (disk_owner s)(To16 a \<mapsto> disk_key cid ifn)
           \<and> disk_last s' = (disk_last s)(rid := To16 a)
       | Inr False \<Rightarrow> s' = s \<and> disk_owner s (To16 a) \<noteq> None
       | Inl e \<Rightarrow> \<not> fault_free F
           \<and> (\<forall>b. b \<noteq> To16 a \<or> disk_owner s b \<noteq> None \<longrightarrow> disk_owner s' b = disk_owner s b))"
proof -
  let ?n = "ip_string a" and ?c = "TrimSpace cid @ LineBreak @ ifn"
  have own: "disk_owner s (To16 a) = None \<longleftrightarrow> map_of (files s) ?n = None"
    using length_To16 [OF assms(2)] ip_string_To16 [OF assms(2)] by (simp add: disk_owner_def)
  have put: "disk_inv (s\<lparr>files := file_put ?n c (files s)\<rparr>)" for c
    using ip_name_ok [OF assms(2)] by (intro disk_inv_put [OF assms(1)]) blast
  have rem: "disk_owner (snd (os_Remove F ?n s1)) b = disk_owner s1 b" if "b \<noteq> To16 a" for s1 b
    using disk_owner_remove_ip [OF assms(2), of s1] that by (simp add: os_Remove_def split: option.splits)
  note putown = disk_owner_put_ip [OF assms(2)]
  have ff: "fault_free F \<Longrightarrow> create_fault F ?n = None \<and> write_fault F ?n = None \<and> close_fault F ?n = None"
    by (simp add: fault_free_def no_faults_def)
  from assms(3) show ?thesis
  proof (cases rule: disk_ReserveE)
    case cf
    then show ?thesis using assms(1) ff by auto
  next
    case ex
    then show ?thesis using assms(1) own by simp
  next
    case undo
    then show ?thesis using disk_inv_os_Remove [OF put] own rem putown by auto
  next
    case (wr q)
    note w = WriteFile_last [OF put wr(3)]
    show ?thesis
    proof (cases q)
      case (Inl e)
      then have "\<not> fault_free F" using w(4) by auto
      then show ?thesis using w(1,2) wr(1,4) own putown Inl by auto
    next
      case (Inr u)
      have "disk_last s' = (disk_last s)(rid := To16 a)"
        using w(3) Inr disk_last_put_ip [OF assms(2)] ParseIP_ip_string [OF assms(2)] by simp
      then show ?thesis using w(1,2) wr(1,4) own putown Inr
        by (simp add: disk_key_def match_new_def)
    qed
  qed
qed

lemma disk_last_reserved:
  assumes "disk_LastReservedIP F rid s = (r, s')"
  shows "s' = s \<and> (let b = (case r of Inl _ \<Rightarrow> [] | Inr b \<Rightarrow> To16 b)
                in (b = [] \<or> b = disk_last s rid) \<and> (fault_free F \<longrightarrow> b = disk_last s rid))"
  using assms
  by (auto simp: disk_LastReservedIP_def ReadFile_def bind_io_def ret_def disk_last_def Let_def
      fault_free_def no_faults_def split: option.splits)

lemma disk_release:
  assumes "disk_inv s" "To16 a \<noteq> []" "disk_Release F a s = (r, s')"
  shows "disk_inv s' \<and> (case r of Inr _ \<Rightarrow> disk_owner s' = (disk_owner s)(To16 a := None) | Inl e \<Rightarrow> s' = s)"
  using assms disk_inv_remove [OF assms(1)] disk_owner_remove_ip [OF assms(2)]
  by (auto simp: disk_Release_def os_Remove_def split: option.splits if_splits)


section \<open>The walks\<close>

definition walk_hit :: "os_faults \<Rightarrow> string \<Rightarrow> string \<times> string \<Rightarrow> bool" where
  "walk_hit F m f \<longleftrightarrow> read_fault F (fst f) = None \<and> TrimSpace (snd f) = m \<and> remove_fault F (fst f) = None"

lemma map_of_entry: "distinct_names fs \<Longrightarrow> f \<in> set fs \<Longrightarrow> map_of fs (fst f) = Some (snd f)"
  unfolding distinct_names_def by (metis map_of_eq_Some_iff prod.collapse)

lemma release_file_step:
  assumes "map_of (files s) (fst f) = Some (snd f)"
  shows "release_file F m (found, s) f =
     (found \<or> walk_hit F m f,
      if walk_hit F m f then s\<lparr>files := file_remove (fst f) (files s)\<rparr> else s)"
  using assms by (auto simp: release_file_def ReadFile_def os_Remove_def walk_hit_def split: option.splits)

lemma release_walk:
  assumes "distinct (map fst fs)" "\<And>f. f \<in> set fs \<Longrightarrow> map_of (files s) (fst f) = Some (snd f)"
  shows "foldl (release_file F m) (found, s) fs =
     (found \<or> list_ex (walk_hit F m) fs,
      s\<lparr>files := filter (\<lambda>g. \<not> list_ex (\<lambda>f. walk_hit F m f \<and> fst f = fst g) fs) (files s)\<rparr>)"
  using assms
proof (induction fs arbitrary: s found)
  case Nil
  then show ?case by simp
next
  case (Cons f fs)
  let ?s = "if walk_hit F m f then s\<lparr>files := file_remove (fst f) (files s)\<rparr> else s"
  have "map_of (files ?s) (fst g) = Some (snd g)" if "g \<in> set fs" for g
  proof -
    have "fst g \<in> fst ` set fs" using that by simp
    moreover have "fst f \<notin> fst ` set fs" using Cons.prems(1) by simp
    ultimately have "fst g \<noteq> fst f" by metis
    then show ?thesis using Cons.prems(2) [of g] that by (simp add: map_of_file_remove)
  qed
  then have "foldl (release_file F m) (found \<or> walk_hit F m f, ?s) fs =
     ((found \<or> walk_hit F m f) \<or> list_ex (walk_hit F m) fs,
      ?s\<lparr>files := filter (\<lambda>g. \<not> list_ex (\<lambda>f. walk_hit F m f \<and> fst f = fst g) fs) (files ?s)\<rparr>)"
    using Cons.prems(1) by (intro Cons.IH) simp_all
  moreover have "release_file F m (found, s) f = (found \<or> walk_hit F m f, ?s)"
    by (rule release_file_step) (simp add: Cons.prems(2))
  ultimately show ?case
    by (simp add: file_remove_def conj_commute eq_commute [of "fst f"])
qed

lemma disk_ReleaseByKey_eq:
  assumes "disk_inv s"
  shows "disk_ReleaseByKey F m s =
     (list_ex (walk_hit F m) (files s), s\<lparr>files := filter (\<lambda>f. \<not> walk_hit F m f) (files s)\<rparr>)"
proof -
  have d: "distinct_names (files s)" using assms by (simp add: disk_inv_def)
  have same: "list_ex (\<lambda>f. walk_hit F m f \<and> fst f = fst g) (files s) \<longleftrightarrow> walk_hit F m g"
    if "g \<in> set (files s)" for g
    using map_of_entry [OF d] that by (auto simp: list_ex_iff) (metis option.inject prod.collapse)
  have "disk_ReleaseByKey F m s = (list_ex (walk_hit F m) (files s),
     s\<lparr>files := filter (\<lambda>g. \<not> list_ex (\<lambda>f. walk_hit F m f \<and> fst f = fst g) (files s)) (files s)\<rparr>)"
    using d release_walk [of "files s" s F m False] map_of_entry [OF d]
    by (simp add: disk_ReleaseByKey_def distinct_names_def)
  also have "filter (\<lambda>g. \<not> list_ex (\<lambda>f. walk_hit F m f \<and> fst f = fst g) (files s)) (files s)
      = filter (\<lambda>f. \<not> walk_hit F m f) (files s)"
    by (rule filter_cong) (simp_all add: same)
  finally show ?thesis .
qed

lemma map_of_filter_hits:
  "distinct_names fs \<Longrightarrow> map_of (filter (\<lambda>f. \<not> P f) fs) n =
     (case map_of fs n of None \<Rightarrow> None | Some c \<Rightarrow> if P (n, c) then None else Some c)"
proof (induction fs)
  case (Cons f fs)
  obtain k c where f: "f = (k, c)" by fastforce
  from Cons have IH: "map_of (filter (\<lambda>f. \<not> P f) fs) n =
     (case map_of fs n of None \<Rightarrow> None | Some c \<Rightarrow> if P (n, c) then None else Some c)"
    and "k \<notin> fst ` set fs" by (simp_all add: distinct_names_def f)
  then have "map_of fs k = None" by (simp only: map_of_eq_None_iff not_False_eq_True)
  then show ?case using IH by (cases "n = k") (simp_all add: f)
qed simp

lemma ReleaseByKey_effect:
  assumes "disk_inv s" "disk_ReleaseByKey F m s = (found, s')"
  shows "disk_inv s'"
    "disk_owner s' a = disk_owner s a \<or> (disk_owner s' a = None \<and> disk_owner s a = Some m)"
    "fault_free F \<Longrightarrow> disk_owner s' a \<noteq> Some m"
    "\<not> found \<Longrightarrow> s' = s"
proof -
  have s': "s' = s\<lparr>files := filter (\<lambda>f. \<not> walk_hit F m f) (files s)\<rparr>"
    "found = list_ex (walk_hit F m) (files s)"
    using assms(2) disk_ReleaseByKey_eq [OF assms(1), of F m] by simp_all
  have d: "distinct_names (files s)" using assms(1) by (simp add: disk_inv_def)
  have "distinct_names (filter (\<lambda>f. \<not> walk_hit F m f) (files s))"
    using d unfolding distinct_names_def by (rule distinct_map_filter)
  then show "disk_inv s'" unfolding s' by (intro disk_inv_subset [OF assms(1)]) auto
  have own: "disk_owner s' a = (if length a = 16 then
      (case map_of (files s) (ip_string a) of None \<Rightarrow> None
       | Some c \<Rightarrow> if walk_hit F m (ip_string a, c) then None else Some (TrimSpace c)) else None)"
    unfolding s' by (simp add: disk_owner_def map_of_filter_hits [OF d] split: option.split)
  show "disk_owner s' a = disk_owner s a \<or> (disk_owner s' a = None \<and> disk_owner s a = Some m)"
    unfolding own by (simp add: disk_owner_def walk_hit_def split: option.split)
  show "fault_free F \<Longrightarrow> disk_owner s' a \<noteq> Some m"
    unfolding own by (simp add: walk_hit_def fault_free_def no_faults_def split: option.split)
  show "\<not> found \<Longrightarrow> s' = s"
    unfolding s' by (simp add: list_ex_iff filter_id_conv)
qed

lemma disk_release_by_id:
  assumes "disk_inv s" "disk_ReleaseByID F cid ifn s = (r, s')"
  shows "disk_inv s' \<and> (\<forall>a. disk_owner s' a = disk_owner s a
                 \<or> disk_owner s' a = None \<and> (\<exists>k. disk_owner s a = Some k \<and> disk_held cid ifn k))
        \<and> (fault_free F \<and> disk_clean cid ifn \<longrightarrow> r = Inr () \<and> (\<forall>a. disk_owner s' a \<noteq> Some (disk_key cid ifn)))"
proof -
  obtain found s1 where k1: "disk_ReleaseByKey F (match_new cid ifn) s = (found, s1)" by fastforce
  note e1 = ReleaseByKey_effect [OF assms(1) k1]
  have key: "disk_clean cid ifn \<Longrightarrow> disk_key cid ifn = match_new cid ifn"
    by (simp add: disk_clean_def disk_key_def)
  show ?thesis
  proof (cases found)
    case True
    then have "s' = s1" "r = Inr ()" using assms(2) k1 by (simp_all add: disk_ReleaseByID_def)
    then show ?thesis using e1(1-3) key by (auto simp: disk_held_def)
  next
    case False
    obtain f2 s2 where k2: "disk_ReleaseByKey F (match_old cid) s1 = (f2, s2)" by fastforce
    note e2 = ReleaseByKey_effect [OF e1(1) k2]
    have "s' = s2" "r = Inr ()" "s1 = s"
      using assms(2) k1 k2 False e1(4) by (simp_all add: disk_ReleaseByID_def)
    then show ?thesis using e1(3) e2(1,2) key by (auto simp: disk_held_def) (metis option.distinct(1))
  qed
qed

definition get_entry :: "os_faults \<Rightarrow> string \<Rightarrow> string \<Rightarrow> string \<times> string \<Rightarrow> ip list" where
  "get_entry F cid ifn f =
     (if read_fault F (fst f) = None \<and> disk_held cid ifn (TrimSpace (snd f)) \<and> ParseIP (fst f) \<noteq> []
      then [ParseIP (fst f)] else [])"

lemma foldl_collect:
  "(\<And>acc x. x \<in> set xs \<Longrightarrow> g acc x = acc @ h x) \<Longrightarrow> foldl g acc xs = acc @ concat (map h xs)"
  by (induction xs arbitrary: acc) simp_all

lemma disk_GetByID_eq:
  assumes "disk_inv s"
  shows "disk_GetByID F cid ifn s = concat (map (get_entry F cid ifn) (files s))"
proof -
  have d: "distinct_names (files s)" using assms by (simp add: disk_inv_def)
  show ?thesis
    unfolding disk_GetByID_def
    by (subst foldl_collect [where h = "get_entry F cid ifn"])
      (simp_all add: map_of_entry [OF d] ReadFile_def get_entry_def disk_held_def split: option.split)
qed

lemma disk_get_by_id:
  assumes "disk_inv s" "b \<in> set (disk_GetByID F cid ifn s)"
  shows "To16 b \<noteq> [] \<and> (\<exists>k. disk_owner s (To16 b) = Some k \<and> disk_held cid ifn k)"
proof -
  obtain f where f: "f \<in> set (files s)" "b = ParseIP (fst f)" "disk_held cid ifn (TrimSpace (snd f))"
      "ParseIP (fst f) \<noteq> []"
    using assms(2) unfolding disk_GetByID_eq [OF assms(1)] get_entry_def by (auto split: if_splits)
  then have l: "length b = 16" "fst f = ip_string b" using assms(1) by (auto simp: disk_inv_def)
  have "map_of (files s) (fst f) = Some (snd f)"
    using assms(1) f(1) by (intro map_of_entry) (simp_all add: disk_inv_def)
  then have "disk_owner s b = Some (TrimSpace (snd f))" using l by (simp add: disk_owner_def)
  then show ?thesis using f(3) l(1) To16_id [OF l(1)] by auto
qed

lemma disk_get_by_id_complete:
  assumes "disk_inv s" "fault_free F" "disk_owner s a = Some k" "disk_held cid ifn k"
  shows "\<exists>b\<in>set (disk_GetByID F cid ifn s). To16 b = a"
proof -
  obtain c where c: "length a = 16" "map_of (files s) (ip_string a) = Some c" "k = TrimSpace c"
    using assms(3) by (auto simp: disk_owner_Some)
  have t: "To16 a = a" "a \<noteq> []" using To16_id [OF c(1)] c(1) by auto
  then have p: "ParseIP (ip_string a) = a" using ParseIP_ip_string [of a] by simp
  have "get_entry F cid ifn (ip_string a, c) = [a]"
    using assms(2,4) c(3) p t by (simp add: get_entry_def fault_free_def no_faults_def)
  then have "a \<in> set (disk_GetByID F cid ifn s)"
    unfolding disk_GetByID_eq [OF assms(1)] using map_of_SomeD [OF c(2)] by force
  with t show ?thesis by blast
qed

lemma disk_lock_ops:
  "disk_inv s \<Longrightarrow> disk_Lock F s = (r, s')
     \<Longrightarrow> disk_inv s' \<and> disk_owner s' = disk_owner s \<and> disk_last s' = disk_last s"
  "disk_inv s \<Longrightarrow> disk_Unlock F s = (r, s')
     \<Longrightarrow> disk_inv s' \<and> disk_owner s' = disk_owner s \<and> disk_last s' = disk_last s"
  by (auto simp: disk_Lock_def disk_Unlock_def disk_inv_def disk_owner_def disk_last_def fun_eq_iff
      split: option.splits)

interpretation disk: reservations "disk_store F" disk_inv disk_owner disk_last disk_key disk_held
    disk_clean "fault_free F"
  for F
proof (unfold_locales, unfold disk_store_def store.simps)
  show "disk_owner s a \<noteq> None \<Longrightarrow> length a = 16" for s a
    by (simp add: disk_owner_def split: if_splits)
  show "disk_clean cid ifn \<Longrightarrow> disk_held cid ifn (disk_key cid ifn)" for cid ifn
    by (simp add: disk_clean_def disk_held_def disk_key_def)
qed (fact disk_lock_ops disk_reserve disk_release disk_release_by_id
    disk_get_by_id disk_get_by_id_complete | erule disk_last_reserved
    | simp add: disk_Close_def; fact disk_lock_ops)+

text \<open>A new data directory satisfies the invariant.\<close>

lemma disk_New_inv:
  assumes "disk_New mf opf network dataDir w = (Inr dir, w')" "\<And>d. w dir = Some d \<Longrightarrow> disk_inv d"
  shows "\<exists>d. w' dir = Some d \<and> disk_inv d \<and> (\<forall>p. p \<noteq> dir \<longrightarrow> w' p = w p)
     \<and> disk_owner d = (case w dir of None \<Rightarrow> (\<lambda>_. None) | Some d0 \<Rightarrow> disk_owner d0)"
proof -
  have nolock: "ParseIP ''lock'' = []" by (rule ParseIP_none) simp_all
  define d0 where "d0 = (case w dir of None \<Rightarrow> \<lparr>files = [], flocked = False\<rparr> | Some d \<Rightarrow> d)"
  have i: "disk_inv d0"
    using assms(2) by (cases "w dir") (auto simp: d0_def disk_inv_def distinct_names_def)
  have o: "disk_owner d0 = (case w dir of None \<Rightarrow> (\<lambda>_. None) | Some d0 \<Rightarrow> disk_owner d0)"
    by (cases "w dir") (auto simp: d0_def disk_owner_def fun_eq_iff)
  have "w' = w(dir \<mapsto> (if map_of (files d0) ''lock'' = None
      then d0\<lparr>files := file_put ''lock'' '''' (files d0)\<rparr> else d0))"
    using assms(1) by (auto simp: disk_New_def Let_def d0_def split: option.splits if_splits)
  then show ?thesis
    using i o disk_inv_put [OF i, of "''lock''"] disk_owner_put_other [OF nolock] nolock
    by (auto simp: d0_def)
qed

end
