(* ===== verification/Fake_Store.thy ===== *)
theory Fake_Store
  imports Disk_Store
begin

text \<open>
  \<open>plugins/ipam/host-local/backend/testing/fake_store.go\<close>: the store the allocator's tests run on, a
  Go map from printed addresses to container ids. The list of entries stands for one iteration
  order of the map. It satisfies the same contract as the directory of files, so what is proved of
  the allocator over the contract holds for both.
\<close>

record fake =
  ipMap :: "(string \<times> string) list"
  lastReservedIP :: "string \<Rightarrow> ip option"

definition fake_Reserve :: "string \<Rightarrow> string \<Rightarrow> ip \<Rightarrow> string \<Rightarrow> (fake, bool) io" where
  "fake_Reserve cid ifn a rid s =
     (let k = ip_string a
      in if map_of (ipMap s) k = None
         then (Inr True, s\<lparr>ipMap := ipMap s @ [(k, cid)], lastReservedIP := (lastReservedIP s)(rid \<mapsto> a)\<rparr>)
         else (Inr False, s))"

definition fake_LastReservedIP :: "string \<Rightarrow> (fake, ip) io" where
  "fake_LastReservedIP rid s =
     (case lastReservedIP s rid of None \<Rightarrow> (Inl ErrNotExist, s) | Some a \<Rightarrow> (Inr a, s))"

definition fake_Release :: "ip \<Rightarrow> (fake, unit) io" where
  "fake_Release a s = (Inr (), s\<lparr>ipMap := filter (\<lambda>e. fst e \<noteq> ip_string a) (ipMap s)\<rparr>)"

definition fake_ReleaseByID :: "string \<Rightarrow> string \<Rightarrow> (fake, unit) io" where
  "fake_ReleaseByID cid ifn s =
     (let toDelete = map fst (filter (\<lambda>e. snd e = cid) (ipMap s))
      in (Inr (), s\<lparr>ipMap := filter (\<lambda>e. fst e \<notin> set toDelete) (ipMap s)\<rparr>))"

definition fake_GetByID :: "string \<Rightarrow> string \<Rightarrow> fake \<Rightarrow> ip list" where
  "fake_GetByID cid ifn s = map (ParseIP \<circ> fst) (filter (\<lambda>e. snd e = cid) (ipMap s))"

definition fake_store :: "fake store" where
  "fake_store = \<lparr>st_Lock = ret (), st_Unlock = ret (), st_Close = ret (),
     st_Reserve = fake_Reserve, st_LastReservedIP = fake_LastReservedIP, st_Release = fake_Release,
     st_ReleaseByID = fake_ReleaseByID, st_GetByID = fake_GetByID\<rparr>"

section \<open>The contract\<close>

definition fake_inv :: "fake \<Rightarrow> bool" where
  "fake_inv s \<longleftrightarrow> distinct_names (ipMap s)
     \<and> (\<forall>e\<in>set (ipMap s). length (ParseIP (fst e)) = 16 \<and> fst e = ip_string (ParseIP (fst e)))"

definition fake_owner :: "fake \<Rightarrow> ip \<Rightarrow> string option" where
  "fake_owner s a = (if length a = 16 then map_of (ipMap s) (ip_string a) else None)"

definition fake_last :: "fake \<Rightarrow> string \<Rightarrow> ip" where
  "fake_last s rid = (case lastReservedIP s rid of None \<Rightarrow> [] | Some a \<Rightarrow> To16 a)"

lemma map_of_snoc: "map_of xs k = None \<Longrightarrow> map_of (xs @ [(k, v)]) = (map_of xs)(k \<mapsto> v)"
  by (auto simp: map_add_def fun_eq_iff split: option.split)

lemma fake_name_eq:
  assumes "To16 a \<noteq> []" "length b = 16"
  shows "ip_string b = ip_string a \<longleftrightarrow> b = To16 a"
  using ip_string_inj16 [OF assms(2) length_To16 [OF assms(1)]] ip_string_To16 [OF assms(1)] by simp

lemma fake_reserve:
  assumes "fake_inv s" "To16 a \<noteq> []" "fake_Reserve cid ifn a rid s = (r, s')"
  shows "fake_inv s' \<and> (case r of
         Inr True \<Rightarrow> fake_owner s (To16 a) = None \<and> fake_owner s' = (fake_owner s)(To16 a \<mapsto> cid)
           \<and> fake_last s' = (fake_last s)(rid := To16 a)
       | Inr False \<Rightarrow> s' = s \<and> fake_owner s (To16 a) \<noteq> None
       | Inl e \<Rightarrow> \<not> True
           \<and> (\<forall>b. b \<noteq> To16 a \<or> fake_owner s b \<noteq> None \<longrightarrow> fake_owner s' b = fake_owner s b))"
proof (cases "map_of (ipMap s) (ip_string a)")
  case None
  then have s': "r = Inr True"
    "s' = s\<lparr>ipMap := ipMap s @ [(ip_string a, cid)], lastReservedIP := (lastReservedIP s)(rid \<mapsto> a)\<rparr>"
    using assms(3) by (simp_all add: fake_Reserve_def Let_def)
  have "ip_string a \<notin> fst ` set (ipMap s)" using None by (simp only: map_of_eq_None_iff not_False_eq_True)
  then have "distinct (map fst (ipMap s @ [(ip_string a, cid)]))"
    using assms(1) by (simp add: fake_inv_def distinct_names_def)
  then have "fake_inv s'"
    using assms(1) ip_name_ok [OF assms(2)] by (auto simp: s' fake_inv_def distinct_names_def)
  moreover have "fake_owner s' = (fake_owner s)(To16 a \<mapsto> cid)"
  proof
    fix b show "fake_owner s' b = ((fake_owner s)(To16 a \<mapsto> cid)) b"
      using fake_name_eq [OF assms(2), of b] length_To16 [OF assms(2)] ip_string_To16 [OF assms(2)]
      by (simp add: s' fake_owner_def map_of_snoc [OF None] del: map_of_append)
  qed
  moreover have "fake_owner s (To16 a) = None"
    using None length_To16 [OF assms(2)] ip_string_To16 [OF assms(2)] by (simp add: fake_owner_def)
  moreover have "fake_last s' = (fake_last s)(rid := To16 a)"
    by (auto simp: s' fake_last_def)
  ultimately show ?thesis using s' by simp
next
  case (Some c)
  then show ?thesis
    using assms(1,3) length_To16 [OF assms(2)] ip_string_To16 [OF assms(2)]
    by (auto simp: fake_Reserve_def Let_def fake_owner_def)
qed

lemma fake_filter_inv: "fake_inv s \<Longrightarrow> fake_inv (s\<lparr>ipMap := filter P (ipMap s)\<rparr>)"
  by (auto simp: fake_inv_def distinct_names_def distinct_map_filter)

lemma fake_owner_filter:
  assumes "fake_inv s"
  shows "fake_owner (s\<lparr>ipMap := filter (\<lambda>e. \<not> P e) (ipMap s)\<rparr>) a =
     (case fake_owner s a of None \<Rightarrow> None | Some c \<Rightarrow> if P (ip_string a, c) then None else Some c)"
  using assms map_of_filter_hits [of "ipMap s" P] by (simp add: fake_inv_def fake_owner_def)

lemma fake_release:
  assumes "fake_inv s" "To16 a \<noteq> []" "fake_Release a s = (r, s')"
  shows "fake_inv s' \<and> (case r of Inr _ \<Rightarrow> fake_owner s' = (fake_owner s)(To16 a := None) | Inl e \<Rightarrow> s' = s)"
proof -
  have s': "r = Inr ()" "s' = s\<lparr>ipMap := filter (\<lambda>e. \<not> fst e = ip_string a) (ipMap s)\<rparr>"
    using assms(3) by (simp_all add: fake_Release_def)
  have "fake_owner s' b = ((fake_owner s)(To16 a := None)) b" for b
    unfolding s' fake_owner_filter [OF assms(1)] using fake_name_eq [OF assms(2), of b]
    by (auto simp: fake_owner_def split: option.split)
  then show ?thesis using fake_filter_inv [OF assms(1)] by (auto simp: s')
qed

lemma fake_release_by_id:
  assumes "fake_inv s" "fake_ReleaseByID cid ifn s = (r, s')"
  shows "fake_inv s' \<and> (\<forall>a. fake_owner s' a = fake_owner s a
                 \<or> fake_owner s' a = None \<and> (\<exists>k. fake_owner s a = Some k \<and> k = cid))
        \<and> (True \<and> True \<longrightarrow> r = Inr () \<and> (\<forall>a. fake_owner s' a \<noteq> Some cid))"
proof -
  define del where "del = fst ` {e \<in> set (ipMap s). snd e = cid}"
  have s': "r = Inr ()" "s' = s\<lparr>ipMap := filter (\<lambda>e. \<not> fst e \<in> del) (ipMap s)\<rparr>"
    using assms(2) by (simp_all add: fake_ReleaseByID_def Let_def del_def image_def)
  have d: "distinct (map fst (ipMap s))" using assms(1) by (simp add: fake_inv_def distinct_names_def)
  have hit: "n \<in> del \<longleftrightarrow> c = cid" if "map_of (ipMap s) n = Some c" for n c
  proof
    assume "n \<in> del"
    then have "(n, cid) \<in> set (ipMap s)" by (auto simp: del_def)
    then show "c = cid" using that map_of_eq_Some_iff [OF d] by (metis option.inject)
  next
    assume "c = cid"
    then show "n \<in> del" using map_of_SomeD [OF that] by (force simp: del_def)
  qed
  have "fake_owner s' a = (case fake_owner s a of None \<Rightarrow> None | Some c \<Rightarrow> if c = cid then None else Some c)"
    for a
    unfolding s' fake_owner_filter [OF assms(1)]
    by (auto simp: fake_owner_def hit split: option.split if_splits)
  then show ?thesis using fake_filter_inv [OF assms(1)] by (auto simp: s' split: option.split)
qed

lemma fake_get_by_id:
  assumes "fake_inv s" "b \<in> set (fake_GetByID cid ifn s)"
  shows "To16 b \<noteq> [] \<and> (\<exists>k. fake_owner s (To16 b) = Some k \<and> k = cid)"
proof -
  obtain e where e: "e \<in> set (ipMap s)" "snd e = cid" "b = ParseIP (fst e)"
    using assms(2) by (auto simp: fake_GetByID_def)
  then have l: "length b = 16" "fst e = ip_string b" using assms(1) by (auto simp: fake_inv_def)
  have "map_of (ipMap s) (fst e) = Some (snd e)"
    using assms(1) e(1) by (intro map_of_entry) (simp_all add: fake_inv_def)
  then have "fake_owner s b = Some cid" using l e(2) by (simp add: fake_owner_def)
  then show ?thesis using l(1) To16_id [OF l(1)] by auto
qed

lemma fake_get_by_id_complete:
  assumes "fake_inv s" "fake_owner s a = Some cid"
  shows "\<exists>b\<in>set (fake_GetByID cid ifn s). To16 b = a"
proof -
  have l: "length a = 16" and m: "map_of (ipMap s) (ip_string a) = Some cid"
    using assms(2) by (simp_all add: fake_owner_def split: if_splits)
  have t: "To16 a = a" "a \<noteq> []" using To16_id [OF l] l by auto
  then have "a = ParseIP (ip_string a)" using ParseIP_ip_string [of a] by simp
  then have "a \<in> set (fake_GetByID cid ifn s)"
    using map_of_SomeD [OF m] unfolding fake_GetByID_def by force
  with t show ?thesis by blast
qed

interpretation fake: reservations fake_store fake_inv fake_owner fake_last "\<lambda>cid ifn. cid"
    "\<lambda>cid ifn k. k = cid" "\<lambda>cid ifn. True" True
proof (unfold_locales, unfold fake_store_def store.simps)
  show "fake_owner s a \<noteq> None \<Longrightarrow> length a = 16" for s a
    by (simp add: fake_owner_def split: if_splits)
  show "fake_inv s \<Longrightarrow> fake_LastReservedIP rid s = (ra, s') \<Longrightarrow>
      s' = s \<and> (let b = case ra of Inl x \<Rightarrow> [] | Inr b \<Rightarrow> To16 b
        in (b = [] \<or> b = fake_last s rid) \<and> (True \<longrightarrow> b = fake_last s rid))" for s rid ra s'
    by (auto simp: fake_LastReservedIP_def fake_last_def Let_def split: option.splits)
  show "fake_inv s \<Longrightarrow> True \<Longrightarrow> fake_owner s a = Some k \<Longrightarrow> k = cid \<Longrightarrow>
      \<exists>b\<in>set (fake_GetByID cid ifn s). To16 b = a" for s a k cid ifn
    using fake_get_by_id_complete by blast
qed (fact fake_reserve fake_release fake_release_by_id fake_get_by_id | simp add: ret_def)+

end
