(* ===== verification/Cni_Types.thy ===== *)
theory Cni_Types
  imports Go_Roundtrip
begin

text \<open>
  The data the plugins exchange: the CNI result types the repository builds and reads
  (\<open>github.com/containernetworking/cni/pkg/types\<close> and \<open>types/current\<close>, vendored), field by field.
\<close>

record dns =
  Nameservers :: "string list"
  Domain :: string
  Search :: "string list"
  Options :: "string list"

record route =
  Dst :: ipnet
  GW :: ip

record ipconfig =
  Version :: string
  Interface :: "int option"
  Address :: ipnet
  IPGateway :: ip

record iface =
  Name :: string
  Mac :: string
  Sandbox :: string

record cni_result =
  CNIVersion :: string
  Interfaces :: "iface list"
  IPs :: "ipconfig list"
  Routes :: "route list"
  DNS :: dns

definition empty_dns :: dns where
  "empty_dns = \<lparr>Nameservers = [], Domain = [], Search = [], Options = []\<rparr>"

definition empty_result :: cni_result where
  "empty_result = \<lparr>CNIVersion = [], Interfaces = [], IPs = [], Routes = [], DNS = empty_dns\<rparr>"

text \<open>The arguments of a plugin call (\<open>skel.CmdArgs\<close>).\<close>

record cmd_args =
  ContainerID :: string
  Netns :: string
  IfName :: string
  CniArgs :: string
  Path :: string
  StdinData :: string

text \<open>
  The network configuration every plugin embeds (\<open>types.NetConf\<close>), with the previous result of a
  chain as the runtime passes it (\<open>RawPrevResult\<close>, its text) and parsed.
\<close>

record netconf =
  ConfVersion :: string
  ConfName :: string
  ConfType :: string
  ConfIPAM :: string
  RawPrevResult :: "string option"
  PrevResult :: "cni_result option"

text \<open>
  The library calls on results: \<open>version.ParsePrevResult\<close> and \<open>current.NewResultFromResult\<close> are functions
  of the text and of the value, \<open>types.PrintResult\<close> writes to the standard output.
\<close>

record 'w cni_lib =
  ParsePrevResult :: "string \<Rightarrow> string \<Rightarrow> cni_result res"
  NewResultFromResult :: "cni_result \<Rightarrow> cni_result res"
  PrintResult :: "cni_result \<Rightarrow> string \<Rightarrow> ('w, unit) io"

text \<open>
  The piece of \<open>parseConfig\<close> that the chained plugins share: the previous result, when there is one,
  is parsed and converted to the current version.
\<close>

definition parse_prev :: "'w cni_lib \<Rightarrow> 'a netconf_scheme \<Rightarrow> ('a netconf_scheme \<times> cni_result option) res" where
  "parse_prev L c =
     (case RawPrevResult c of
        None \<Rightarrow> Inr (c, None)
      | Some raw \<Rightarrow>
          (case ParsePrevResult L (ConfVersion c) raw of
             Inl e \<Rightarrow> Inl (Wrap ''could not parse prevResult'' e)
           | Inr prev \<Rightarrow>
               (case NewResultFromResult L prev of
                  Inl e \<Rightarrow> Inl (Wrap ''could not convert result to current version'' e)
                | Inr result \<Rightarrow> Inr (c\<lparr>PrevResult := Some prev\<rparr>, Some result))))"

end
