(* ===== verification/Alloc_Get.thy ===== *)
theory Alloc_Get
  imports Alloc_Iter Fake_Store Cni_Types
begin

text \<open>
  \<open>IPAllocator\<close> of \<open>plugins/ipam/host-local/backend/allocator/allocator.go\<close>: \<open>Get\<close>, \<open>Release\<close>,
  \<open>GetIter\<close>, over any store. The search of \<open>Get\<close> is a loop that need not end; it is a
  \<open>partial_function\<close> whose value is \<open>None\<close> when the code does not return. Everything about it is
  proved once, over the contract \<open>reservations\<close>.
\<close>

section \<open>The code\<close>

record 's ip_allocator =
  rangeset :: range_set
  alloc_store :: "'s store"
  rangeID :: string

definition NewIPAllocator :: "range_set \<Rightarrow> 's store \<Rightarrow> int \<Rightarrow> 's ip_allocator" where
  "NewIPAllocator s store n = \<lparr>rangeset = s, alloc_store = store, rangeID = itoa n\<rparr>"

definition GetIter :: "'s ip_allocator \<Rightarrow> 's \<Rightarrow> range_iter \<times> 's" where
  "GetIter a s =
     (case st_LastReservedIP (alloc_store a) (rangeID a) s of (r, s') \<Rightarrow>
        let lastReservedIP = (case r of Inl _ \<Rightarrow> [] | Inr b \<Rightarrow> b);
            start = (lastReservedIP \<noteq> [] \<and> rs_contains (rangeset a) lastReservedIP);
            i = length (takeWhile (\<lambda>r. \<not> range_contains r lastReservedIP) (rangeset a))
        in ((if start then
               (if i < length (rangeset a)
                then \<lparr>rangeIdx = i, cur = lastReservedIP, startIP = [], startRange = i\<rparr>
                else \<lparr>rangeIdx = 0, cur = [], startIP = [], startRange = 0\<rparr>)
             else \<lparr>rangeIdx = 0, cur = [], startIP = RangeStart (rangeset a ! 0), startRange = 0\<rparr>), s'))"

partial_function (option) alloc_search ::
  "range_set \<Rightarrow> 's store \<Rightarrow> string \<Rightarrow> string \<Rightarrow> string \<Rightarrow> range_iter \<Rightarrow> 's
     \<Rightarrow> ((ipnet \<times> ip) option res \<times> 's) option" where
  "alloc_search rs st cid ifn rid it s =
     (case iter_Next rs it of
        None \<Rightarrow> None
      | Some (it', None) \<Rightarrow> Some (Inr None, s)
      | Some (it', Some (n, gw)) \<Rightarrow>
          (case st_Reserve st cid ifn (net_ip n) rid s of
             (Inl e, s') \<Rightarrow> Some (Inl e, s')
           | (Inr reserved, s') \<Rightarrow>
               if reserved then Some (Inr (Some (n, gw)), s')
               else alloc_search rs st cid ifn rid it' s'))"

definition mk_ipconfig :: "ipnet \<Rightarrow> ip \<Rightarrow> ipconfig" where
  "mk_ipconfig n gw = \<lparr>Version = (if To4 (net_ip n) = [] then ''6'' else ''4''), Interface = None,
     Address = n, IPGateway = gw\<rparr>"

text \<open>The branch of \<open>Get\<close> for a requested address\<close>

definition get_requested :: "'s ip_allocator \<Rightarrow> string \<Rightarrow> string \<Rightarrow> ip \<Rightarrow> ('s, ipconfig) io" where
  "get_requested a cid ifn requestedIP0 s =
     (case canonicalizeIP requestedIP0 of Inl e \<Rightarrow> (Inl e, s)
      | Inr requestedIP \<Rightarrow>
        (case RangeFor (rangeset a) requestedIP of Inl e \<Rightarrow> (Inl e, s)
         | Inr r \<Rightarrow>
           if ip_equal requestedIP (Gateway r)
           then (Inl (Errorf (''requested ip '' @ ip_string requestedIP @ '' is subnet's gateway'')), s)
           else (case st_Reserve (alloc_store a) cid ifn requestedIP (rangeID a) s of
               (Inl e, s') \<Rightarrow> (Inl e, s')
             | (Inr reserved, s') \<Rightarrow>
                 if \<not> reserved
                 then (Inl (Errorf (''requested IP address '' @ ip_string requestedIP
                         @ '' is not available in range set '' @ rs_string (rangeset a))), s')
                 else (Inr (mk_ipconfig \<lparr>net_ip = requestedIP, net_mask = net_mask (Subnet r)\<rparr> (Gateway r)), s'))))"

text \<open>The other branch: refuse a second address of this range set, then search.\<close>

definition get_free :: "'s ip_allocator \<Rightarrow> string \<Rightarrow> string \<Rightarrow> 's \<Rightarrow> (ipconfig res \<times> 's) option" where
  "get_free a cid ifn s =
     (case find (\<lambda>b. is_ok (RangeFor (rangeset a) b)) (st_GetByID (alloc_store a) cid ifn s) of
        Some b \<Rightarrow> Some (Inl (Errorf (ip_string b @ '' has been allocated to '' @ cid
                                 @ '', duplicate allocation is not allowed'')), s)
      | None \<Rightarrow>
        (case GetIter a s of (it, s1) \<Rightarrow>
         (case alloc_search (rangeset a) (alloc_store a) cid ifn (rangeID a) it s1 of
            None \<Rightarrow> None
          | Some (Inl e, s2) \<Rightarrow> Some (Inl e, s2)
          | Some (Inr None, s2) \<Rightarrow>
              Some (Inl (Errorf (''no IP addresses available in range set: '' @ rs_string (rangeset a))), s2)
          | Some (Inr (Some (n, gw)), s2) \<Rightarrow> Some (Inr (mk_ipconfig n gw), s2))))"

definition alloc_Get :: "'s ip_allocator \<Rightarrow> string \<Rightarrow> string \<Rightarrow> ip \<Rightarrow> 's \<Rightarrow> (ipconfig res \<times> 's) option" where
  "alloc_Get a cid ifn requestedIP s =
     (let s1 = snd (st_Lock (alloc_store a) s)
      in map_option (\<lambda>(r, s2). (r, snd (st_Unlock (alloc_store a) s2)))
           (if requestedIP \<noteq> [] then Some (get_requested a cid ifn requestedIP s1)
            else get_free a cid ifn s1))"

definition alloc_Release :: "'s ip_allocator \<Rightarrow> string \<Rightarrow> string \<Rightarrow> ('s, unit) io" where
  "alloc_Release a cid ifn s =
     (case st_ReleaseByID (alloc_store a) cid ifn (snd (st_Lock (alloc_store a) s)) of
        (r, s') \<Rightarrow> (r, snd (st_Unlock (alloc_store a) s')))"

section \<open>Raw steps of the search\<close>

lemma search_step:
  assumes "iter_step rs it = (it', back)"
  shows "alloc_search rs st cid ifn rid it s =
     (if back then Some (Inr None, s)
      else if ip_equal (cur it') (Gateway (rs ! rangeIdx it')) then alloc_search rs st cid ifn rid it' s
      else (case st_Reserve st cid ifn (cur it') rid s of
             (Inl e, s') \<Rightarrow> Some (Inl e, s')
           | (Inr reserved, s') \<Rightarrow>
               if reserved then Some (Inr (Some (\<lparr>net_ip = cur it', net_mask = net_mask (Subnet (rs ! rangeIdx it'))\<rparr>,
                   Gateway (rs ! rangeIdx it'))), s')
               else alloc_search rs st cid ifn rid it' s'))"
proof (cases "\<not> back \<and> ip_equal (cur it') (Gateway (rs ! rangeIdx it'))")
  case True
  then have "iter_Next rs it = iter_Next rs it'"
    by (subst iter_Next.simps) (simp add: assms Let_def)
  with True show ?thesis
    by (subst alloc_search.simps, subst (2) alloc_search.simps) simp
next
  case False
  then have "iter_Next rs it = Some (it', if back then None
      else Some (\<lparr>net_ip = cur it', net_mask = net_mask (Subnet (rs ! rangeIdx it'))\<rparr>, Gateway (rs ! rangeIdx it')))"
    by (subst iter_Next.simps) (auto simp: assms Let_def)
  with False show ?thesis
    by (subst alloc_search.simps) (auto split: prod.splits sum.splits)
qed

section \<open>The search over any store\<close>

text \<open>An address \<open>Get\<close> may hand out: not the gateway of its range, and nobody holds it.\<close>

definition usable :: "(ip \<Rightarrow> 'o option) \<Rightarrow> range_set \<Rightarrow> nat \<times> ip \<Rightarrow> bool" where
  "usable own rs x \<longleftrightarrow> \<not> ip_equal (snd x) (Gateway (rs ! fst x)) \<and> own (To16 (snd x)) = None"

text \<open>Where the first step lands when the last reserved address is \<open>l\<close>, and the index it compares with.\<close>

definition last_index :: "range_set \<Rightarrow> ip \<Rightarrow> nat" where
  "last_index rs l = length (takeWhile (\<lambda>r. \<not> range_contains r l) rs)"

definition first_place :: "range_set \<Rightarrow> ip \<Rightarrow> nat \<times> ip" where
  "first_place rs l = (if rs_contains rs l then adv rs (last_index rs l, l) else (0, RangeStart (rs ! 0)))"

definition start_index :: "range_set \<Rightarrow> ip \<Rightarrow> nat" where
  "start_index rs l = (if rs_contains rs l then last_index rs l else 0)"

definition moved :: "range_iter \<Rightarrow> nat \<times> ip \<Rightarrow> range_iter" where
  "moved it x = it\<lparr>rangeIdx := fst x, cur := snd x\<rparr>"

definition back_at :: "range_iter \<Rightarrow> nat \<times> ip \<Rightarrow> bool" where
  "back_at it x \<longleftrightarrow> fst x = startRange it \<and> ip_equal (snd x) (startIP it)"

lemma moved_simps [simp]:
  "place (moved it x) = x" "startIP (moved it x) = startIP it" "startRange (moved it x) = startRange it"
  "cur (moved it x) = snd x" "rangeIdx (moved it x) = fst x" "moved (moved it x) y = moved it y"
  "back_at (moved it x) = back_at it"
  by (simp_all add: moved_def place_def back_at_def fun_eq_iff)

lemma moved_place: "moved it (place it) = it"
  by (simp add: moved_def place_def)

lemma iter_step_moved:
  assumes "rs_wf rs" "at rs (place it)" "startIP it \<noteq> []"
  shows "iter_step rs it = (moved it (adv rs (place it)), back_at it (adv rs (place it)))"
proof -
  have "cur it \<noteq> []" using at_nonempty [OF assms(1,2)] by (simp add: place_def)
  then show ?thesis
    using assms(3) by (simp add: iter_step_adv Let_def moved_def back_at_def split: prod.split)
qed

lemma takeWhile_short: "\<exists>x\<in>set xs. \<not> P x \<Longrightarrow> length (takeWhile P xs) < length xs"
  by (induction xs) auto

lemma rs_contains_index:
  assumes "rs_contains rs l"
  shows "last_index rs l < length rs" "at rs (last_index rs l, l)"
proof -
  let ?P = "\<lambda>r. \<not> range_contains r l"
  have "\<exists>r\<in>set rs. \<not> ?P r" using assms unfolding rs_contains_iff by blast
  then have lt: "length (takeWhile ?P rs) < length rs" by (rule takeWhile_short)
  then have "\<not> ?P (rs ! length (takeWhile ?P rs))" by (rule nth_length_takeWhile)
  with lt show "last_index rs l < length rs" "at rs (last_index rs l, l)"
    unfolding last_index_def at_def fst_conv snd_conv by blast+
qed

lemma first_place_ok:
  assumes "rs_wf rs"
  shows "at rs (first_place rs l)" "canon (snd (first_place rs l))"
proof -
  have "rs \<noteq> []" using assms unfolding rs_wf_def by blast
  then have l: "0 < length rs" by simp
  note b = range_wf_bounds [OF rs_wf_nth [OF assms l]]
  have z: "at rs (0, RangeStart (rs ! 0))" "canon (RangeStart (rs ! 0))"
    using b(1,5) l by (simp_all add: at_def)
  then show "at rs (first_place rs l)" "canon (snd (first_place rs l))"
    using at_adv [OF assms rs_contains_index(2)] by (simp_all add: first_place_def)
qed

lemma canonicalizeIP_cong: "To16 a = To16 b \<Longrightarrow> canonicalizeIP a = canonicalizeIP b"
  by (metis canonicalizeIP_To16)

lemma contains_cong: "To16 a = To16 b \<Longrightarrow> range_contains r a = range_contains r b"
  using canonicalizeIP_cong [of a b] by (simp add: range_contains_def)

lemma first_place_cong:
  assumes "To16 a = To16 b" "rs_wf rs"
  shows "first_place rs a = first_place rs b" "start_index rs a = start_index rs b"
    "rs_contains rs a = rs_contains rs b"
proof -
  have c: "rs_contains rs a = rs_contains rs b" and i: "last_index rs a = last_index rs b"
    using contains_cong [OF assms(1)] by (simp_all add: rs_contains_iff last_index_def)
  have n: "NextIP a = NextIP b" using ipToInt_cong [OF assms(1)] by (simp add: NextIP_def)
  have e: "ip_equal a d = ip_equal b d" if h: "rs_contains rs b" "canon d" for d
  proof -
    obtain r where r: "r \<in> set rs" "range_contains r b" using h(1) unfolding rs_contains_iff by blast
    then obtain b' where "canonicalizeIP b = Inr b'" by (cases "canonicalizeIP b") (auto simp: range_contains_def)
    from canonicalizeIP_InrD [OF this] have "To16 b \<noteq> []" using canon_To16_nonempty by metis
    then show ?thesis using ip_equal_To16 canon_To16_nonempty [OF h(2)] assms(1) by metis
  qed
  show "rs_contains rs a = rs_contains rs b" by (rule c)
  show "start_index rs a = start_index rs b" by (simp add: start_index_def c i)
  show "first_place rs a = first_place rs b"
  proof (cases "rs_contains rs b")
    case True
    have "canon (RangeEnd (rs ! last_index rs b))"
      using range_wf_bounds(2) [OF rs_wf_nth [OF assms(2) rs_contains_index(1) [OF True]]] .
    then show ?thesis using e [OF True] n by (simp add: first_place_def c i adv_def)
  next
    case False
    then show ?thesis by (simp add: first_place_def c)
  qed
qed

text \<open>The cursor \<open>GetIter\<close> returns, after one step.\<close>

lemma GetIter_step:
  assumes "rs_wf (rangeset a)" "GetIter a s = (it, s1)"
  defines "l \<equiv> case fst (st_LastReservedIP (alloc_store a) (rangeID a) s) of Inl _ \<Rightarrow> [] | Inr b \<Rightarrow> b"
  shows "s1 = snd (st_LastReservedIP (alloc_store a) (rangeID a) s)"
    "iter_ok (rangeset a) it"
    "\<exists>it1. iter_step (rangeset a) it = (it1, False) \<and> place it1 = first_place (rangeset a) l
       \<and> startIP it1 = cur it1 \<and> startRange it1 = start_index (rangeset a) l"
proof -
  let ?rs = "rangeset a"
  obtain r s2 where q: "st_LastReservedIP (alloc_store a) (rangeID a) s = (r, s2)" by fastforce
  have l: "l = (case r of Inl _ \<Rightarrow> [] | Inr b \<Rightarrow> b)" by (simp add: l_def q)
  show "s1 = snd (st_LastReservedIP (alloc_store a) (rangeID a) s)"
    using assms(2) by (simp add: GetIter_def q Let_def)
  have ne: "rs_contains ?rs l \<Longrightarrow> l \<noteq> []"
    using at_nonempty [OF assms(1) rs_contains_index(2)] by simp
  have "iter_ok ?rs it \<and> (\<exists>it1. iter_step ?rs it = (it1, False) \<and> place it1 = first_place ?rs l
       \<and> startIP it1 = cur it1 \<and> startRange it1 = start_index ?rs l)"
  proof (cases "rs_contains ?rs l")
    case True
    have "it = \<lparr>rangeIdx = last_index ?rs l, cur = l, startIP = [], startRange = last_index ?rs l\<rparr>"
      using assms(2) True ne rs_contains_index(1) [OF True]
      by (simp add: GetIter_def q Let_def l [symmetric] last_index_def)
    then show ?thesis
      using True ne rs_contains_index(2) [OF True]
      by (auto simp: iter_ok_def place_def iter_step_adv Let_def first_place_def start_index_def split: prod.split)
  next
    case False
    then have "it = \<lparr>rangeIdx = 0, cur = [], startIP = RangeStart (?rs ! 0), startRange = 0\<rparr>"
      using assms(2) by (simp add: GetIter_def q Let_def l [symmetric])
    then show ?thesis
      using False by (simp add: iter_ok_def iter_step_first place_def first_place_def start_index_def)
  qed
  then show "iter_ok ?rs it" "\<exists>it1. iter_step ?rs it = (it1, False) \<and> place it1 = first_place ?rs l
       \<and> startIP it1 = cur it1 \<and> startRange it1 = start_index ?rs l" by blast+
qed

text \<open>\<open>Next\<close> keeps the starting point, and gives up only there.\<close>

lemma iter_Next_frame:
  assumes "iter_Next rs i = Some (i', r)" "rs_wf rs" "at rs (place i)" "startIP i \<noteq> []"
  shows "at rs (place i')" "startIP i' = startIP i" "startRange i' = startRange i"
    "r = None \<Longrightarrow> back_at i (place i')"
proof -
  define Q where "Q s j y \<longleftrightarrow> (s = rs \<longrightarrow> at rs (place j) \<longrightarrow> startIP j \<noteq> [] \<longrightarrow>
     at rs (place (fst y)) \<and> startIP (fst y) = startIP j \<and> startRange (fst y) = startRange j
     \<and> (snd y = None \<longrightarrow> back_at j (place (fst y))))"
    for s j and y :: "range_iter \<times> (ipnet \<times> ip) option"
  have "Q rs i (i', r)"
  proof (rule iter_Next.raw_induct [OF _ assms(1)])
    fix Next s j y
    assume IH: "\<And>s i y. Next s i = Some y \<Longrightarrow> Q s i y"
      and eq: "(case iter_step s j of (i', back) \<Rightarrow> if back then Some (i', None)
          else let r = s ! rangeIdx i' in if ip_equal (cur i') (Gateway r) then Next s i'
            else Some (i', Some (\<lparr>net_ip = cur i', net_mask = net_mask (Subnet r)\<rparr>, Gateway r))) = Some y"
    show "Q s j y"
      unfolding Q_def
    proof (intro impI)
      assume a: "s = rs" "at rs (place j)" "startIP j \<noteq> []"
      let ?x = "adv rs (place j)"
      have st: "iter_step s j = (moved j ?x, back_at j ?x)"
        using iter_step_moved [OF assms(2) a(2,3)] a(1) by simp
      have x: "at rs ?x" by (rule at_adv(1) [OF assms(2) a(2)])
      show "at rs (place (fst y)) \<and> startIP (fst y) = startIP j \<and> startRange (fst y) = startRange j
         \<and> (snd y = None \<longrightarrow> back_at j (place (fst y)))"
      proof (cases "\<not> back_at j ?x \<and> ip_equal (snd ?x) (Gateway (s ! fst ?x))")
        case True
        then have "Q s (moved j ?x) y" using eq st by (intro IH) (simp add: Let_def)
        with a x show ?thesis by (simp add: Q_def)
      next
        case False
        with eq st x show ?thesis by (auto simp: Let_def split: if_splits)
      qed
    qed
  qed
  with assms(3,4) show "at rs (place i')" "startIP i' = startIP i" "startRange i' = startRange i"
    "r = None \<Longrightarrow> back_at i (place i')" by (auto simp: Q_def)
qed

text \<open>The starting point is met again only when its index is the index of its range.\<close>

lemma back_at_aligned:
  assumes "rs_wf rs" "at rs x" "canon (snd x)" "at rs y" "canon (snd y)"
    "startIP it = snd x" "startRange it = fst x"
  shows "back_at it y \<longleftrightarrow> y = x"
  using assms ip_equal_canon by (auto simp: back_at_def prod_eq_iff)

lemma back_at_crossed:
  assumes "rs_wf rs" "at rs x" "canon (snd x)" "at rs y" "startIP it = snd x" "startRange it \<noteq> fst x"
  shows "\<not> back_at it y"
proof
  assume b: "back_at it y"
  have ne: "To16 (snd y) \<noteq> []"
    using contains_canon [OF rs_wf_nth [OF assms(1)], of "fst y" "snd y"] canon_To16_nonempty assms(4)
    unfolding at_def by metis
  have "To16 (snd y) = To16 (snd x)"
    using b ip_equal_To16 [OF ne canon_To16_nonempty [OF assms(3)]] assms(5) by (simp add: back_at_def)
  then have "range_contains (rs ! fst y) (snd x)"
    using contains_cong [of "snd y" "snd x"] assms(4) by (simp add: at_def)
  moreover have "fst y < length rs" "fst x < length rs" "range_contains (rs ! fst x) (snd x)"
    using assms(2,4) by (simp_all add: at_def)
  ultimately have "fst y = fst x" using rs_wf_disjoint [OF assms(1) _ _ assms(3)] by blast
  with b assms(6) show False by (simp add: back_at_def)
qed

text \<open>
  What a successful \<open>Get\<close> gives: an address in canonical form of a range of the set, with the mask
  and gateway of that range, not the gateway itself, free before and held after, and nothing else
  changed.
\<close>

definition granted :: "(ip \<Rightarrow> 'o option) \<Rightarrow> (ip \<Rightarrow> 'o option) \<Rightarrow> 'o \<Rightarrow> range_set \<Rightarrow> ipconfig \<Rightarrow> bool" where
  "granted own own' k rs c \<longleftrightarrow>
     (let a = net_ip (Address c)
      in canon a \<and> own (To16 a) = None \<and> own' = own(To16 a \<mapsto> k)
         \<and> Version c = (if length a = 4 then ''4'' else ''6'') \<and> Interface c = None
         \<and> (\<exists>r\<in>set rs. range_contains r a \<and> \<not> ip_equal a (Gateway r)
               \<and> net_mask (Address c) = net_mask (Subnet r) \<and> IPGateway c = Gateway r))"

text \<open>The result for the place \<open>y\<close>.\<close>

definition config_at :: "range_set \<Rightarrow> nat \<times> ip \<Rightarrow> ipconfig" where
  "config_at rs y = mk_ipconfig \<lparr>net_ip = snd y, net_mask = net_mask (Subnet (rs ! fst y))\<rparr> (Gateway (rs ! fst y))"

lemma grantedI:
  assumes "canon a" "own (To16 a) = None" "own' = own(To16 a \<mapsto> k)" "r \<in> set rs" "range_contains r a"
    "\<not> ip_equal a (Gateway r)"
  shows "granted own own' k rs (mk_ipconfig \<lparr>net_ip = a, net_mask = net_mask (Subnet r)\<rparr> (Gateway r))"
  using assms by (auto simp: granted_def Let_def mk_ipconfig_def canon_To4)

context reservations
begin

lemma reserve_rejected:
  assumes "inv s" "reliable" "To16 a \<noteq> []" "owner s (To16 a) \<noteq> None"
  shows "st_Reserve st cid ifn a rid s = (Inr False, s)"
proof -
  obtain r s' where q: "st_Reserve st cid ifn a rid s = (r, s')" by fastforce
  have "r = Inr False \<and> s' = s"
    using reserve [OF assms(1,3) q] assms(2,4) by (cases r) (auto split: bool.splits)
  with q show ?thesis by simp
qed

lemma reserve_free:
  assumes "inv s" "reliable" "To16 a \<noteq> []" "owner s (To16 a) = None"
  obtains s' where "st_Reserve st cid ifn a rid s = (Inr True, s')" "inv s'"
    "owner s' = (owner s)(To16 a \<mapsto> key cid ifn)" "latest s' = (latest s)(rid := To16 a)"
proof -
  obtain r s' where q: "st_Reserve st cid ifn a rid s = (r, s')" by fastforce
  have "r = Inr True \<and> inv s' \<and> owner s' = (owner s)(To16 a \<mapsto> key cid ifn) \<and> latest s' = (latest s)(rid := To16 a)"
    using reserve [OF assms(1,3) q] assms(2,4) by (cases r) (auto split: bool.splits)
  with q that show ?thesis by blast
qed

text \<open>One pass over a place that is not the starting point.\<close>

lemma search_visit:
  assumes "inv s" "reliable" "rs_wf rs" "iter_step rs it = (it', False)" "at rs (place it')" "canon (cur it')"
  shows "\<not> usable (owner s) rs (place it') \<Longrightarrow>
      alloc_search rs st cid ifn rid it s = alloc_search rs st cid ifn rid it' s"
    "usable (owner s) rs (place it') \<Longrightarrow>
      \<exists>s'. alloc_search rs st cid ifn rid it s = Some (Inr (Some (\<lparr>net_ip = cur it',
         net_mask = net_mask (Subnet (rs ! rangeIdx it'))\<rparr>, Gateway (rs ! rangeIdx it'))), s')
       \<and> inv s' \<and> owner s' = (owner s)(To16 (cur it') \<mapsto> key cid ifn)
       \<and> latest s' = (latest s)(rid := To16 (cur it'))"
proof -
  have ne: "To16 (cur it') \<noteq> []" using canon_To16_nonempty [OF assms(6)] .
  note st1 = search_step [OF assms(4), of st cid ifn rid s]
  show "\<not> usable (owner s) rs (place it') \<Longrightarrow>
      alloc_search rs st cid ifn rid it s = alloc_search rs st cid ifn rid it' s"
    using st1 reserve_rejected [OF assms(1,2) ne, of cid ifn rid] by (auto simp: usable_def place_def)
  assume u: "usable (owner s) rs (place it')"
  then have "owner s (To16 (cur it')) = None" by (simp add: usable_def place_def)
  from reserve_free [OF assms(1,2) ne this, of cid ifn rid]
  obtain s' where "st_Reserve st cid ifn (cur it') rid s = (Inr True, s')" "inv s'"
    "owner s' = (owner s)(To16 (cur it') \<mapsto> key cid ifn)" "latest s' = (latest s)(rid := To16 (cur it'))"
    by blast
  then show "\<exists>s'. alloc_search rs st cid ifn rid it s = Some (Inr (Some (\<lparr>net_ip = cur it',
         net_mask = net_mask (Subnet (rs ! rangeIdx it'))\<rparr>, Gateway (rs ! rangeIdx it'))), s')
       \<and> inv s' \<and> owner s' = (owner s)(To16 (cur it') \<mapsto> key cid ifn)
       \<and> latest s' = (latest s)(rid := To16 (cur it'))"
    using st1 u by (simp add: usable_def place_def)
qed

lemma search_skip:
  assumes "inv s" "reliable" "rs_wf rs" "at rs (place it)" "startIP it \<noteq> []"
    "\<And>j. 0 < j \<Longrightarrow> j \<le> k \<Longrightarrow> \<not> usable (owner s) rs (walk rs j (place it))"
    "\<And>j. 0 < j \<Longrightarrow> j \<le> k \<Longrightarrow> \<not> back_at it (walk rs j (place it))"
  shows "alloc_search rs st cid ifn rid it s = alloc_search rs st cid ifn rid (moved it (walk rs k (place it))) s"
  using assms(6,7)
proof (induction k)
  case 0
  then show ?case by (simp add: moved_place)
next
  case (Suc k)
  let ?x = "walk rs k (place it)" and ?y = "walk rs (Suc k) (place it)"
  have atx: "at rs ?x" by (rule at_walk [OF assms(3,4)])
  have "back_at it (adv rs ?x) = False" using Suc.prems(2) [of "Suc k"] by simp
  then have "iter_step rs (moved it ?x) = (moved it ?y, False)"
    using iter_step_moved [of rs "moved it ?x"] assms(3,5) atx by simp
  then have "alloc_search rs st cid ifn rid (moved it ?x) s = alloc_search rs st cid ifn rid (moved it ?y) s"
    using search_visit(1) [OF assms(1-3), of "moved it ?x" "moved it ?y"] at_adv [OF assms(3) atx]
      Suc.prems(1) [of "Suc k"] by simp
  moreover have "alloc_search rs st cid ifn rid it s = alloc_search rs st cid ifn rid (moved it ?x) s"
    using Suc.IH Suc.prems by simp
  ultimately show ?case by (simp only:)
qed

text \<open>What the search returns from a cursor whose first step lands on \<open>x\<close>.\<close>

lemma search_finds:
  assumes "inv s" "reliable" "rs_wf rs" "iter_step rs it = (it1, False)" "at rs (place it1)"
    "canon (cur it1)" "startIP it1 = cur it1"
    "k < total rs" "usable (owner s) rs (walk rs k (place it1))"
    "\<And>j. j < k \<Longrightarrow> \<not> usable (owner s) rs (walk rs j (place it1))"
  defines "y \<equiv> walk rs k (place it1)"
  shows "\<exists>s'. alloc_search rs st cid ifn rid it s = Some (Inr (Some (\<lparr>net_ip = snd y,
         net_mask = net_mask (Subnet (rs ! fst y))\<rparr>, Gateway (rs ! fst y))), s')
       \<and> inv s' \<and> owner s' = (owner s)(To16 (snd y) \<mapsto> key cid ifn)
       \<and> latest s' = (latest s)(rid := To16 (snd y))"
proof (cases k)
  case 0
  then show ?thesis using search_visit(2) [OF assms(1-6), of cid ifn rid] assms(9) by (simp add: y_def place_def)
next
  case (Suc m)
  let ?x = "place it1"
  have ne: "startIP it1 \<noteq> []" using assms(6,7) canon_nonempty by simp
  have noback: "\<not> back_at it1 (walk rs j ?x)" if "0 < j" "j \<le> k" for j
  proof (cases "startRange it1 = fst ?x")
    case True
    then have "back_at it1 (walk rs j ?x) \<longleftrightarrow> walk rs j ?x = ?x"
      using assms(5-7) by (intro back_at_aligned [OF assms(3,5)]) (simp_all add: at_walk canon_walk assms(3) place_def)
    then show ?thesis using walk_no_return [OF assms(3,5) that(1)] that(2) assms(8) by simp
  next
    case False
    then show ?thesis using assms(5-7)
      by (intro back_at_crossed [OF assms(3,5)]) (simp_all add: at_walk assms(3) place_def)
  qed
  have "alloc_search rs st cid ifn rid it s = alloc_search rs st cid ifn rid it1 s"
    using search_visit(1) [OF assms(1-6)] assms(10) [of 0] Suc by simp
  also have "\<dots> = alloc_search rs st cid ifn rid (moved it1 (walk rs m ?x)) s"
    by (rule search_skip [OF assms(1-3,5) ne]) (use noback assms(10) Suc in auto)
  finally have eq: "alloc_search rs st cid ifn rid it s
      = alloc_search rs st cid ifn rid (moved it1 (walk rs m ?x)) s" .
  have atm: "at rs (walk rs m ?x)" by (rule at_walk [OF assms(3,5)])
  have "\<not> back_at it1 (adv rs (walk rs m ?x))" using noback [of k] Suc by simp
  then have "iter_step rs (moved it1 (walk rs m ?x)) = (moved it1 y, False)"
    using iter_step_moved [OF assms(3), of "moved it1 (walk rs m ?x)"] atm ne by (simp add: y_def Suc)
  from search_visit(2) [OF assms(1-3) this] show ?thesis
    using at_adv [OF assms(3) atm] assms(9) unfolding eq by (simp add: y_def Suc)
qed

lemma search_exhausted:
  assumes "inv s" "reliable" "rs_wf rs" "iter_step rs it = (it1, False)" "at rs (place it1)"
    "canon (cur it1)" "startIP it1 = cur it1" "startRange it1 = rangeIdx it1"
    "\<And>j. j < total rs \<Longrightarrow> \<not> usable (owner s) rs (walk rs j (place it1))"
  shows "alloc_search rs st cid ifn rid it s = Some (Inr None, s)"
proof -
  let ?x = "place it1"
  have ne: "startIP it1 \<noteq> []" using assms(6,7) canon_nonempty by simp
  obtain m where m: "total rs = Suc m" using total_pos [OF assms(3,5)] by (cases "total rs") auto
  have bk: "back_at it1 y \<longleftrightarrow> y = ?x" if "at rs y" "canon (snd y)" for y
    using assms(5-8) that by (intro back_at_aligned [OF assms(3,5)]) (simp_all add: place_def)
  have "alloc_search rs st cid ifn rid it s = alloc_search rs st cid ifn rid it1 s"
    using search_visit(1) [OF assms(1-6)] assms(9) [of 0] m by simp
  also have "\<dots> = alloc_search rs st cid ifn rid (moved it1 (walk rs m ?x)) s"
  proof (rule search_skip [OF assms(1-3,5) ne])
    fix j assume j: "0 < j" "j \<le> m"
    show "\<not> usable (owner s) rs (walk rs j ?x)" using assms(9) j m by simp
    show "\<not> back_at it1 (walk rs j ?x)"
      using bk [OF at_walk [OF assms(3,5)]] canon_walk [OF assms(3,5)] assms(6)
        walk_no_return [OF assms(3,5) j(1)] j(2) m by (simp add: place_def)
  qed
  finally have eq: "alloc_search rs st cid ifn rid it s
      = alloc_search rs st cid ifn rid (moved it1 (walk rs m ?x)) s" .
  have atm: "at rs (walk rs m ?x)" by (rule at_walk [OF assms(3,5)])
  have "adv rs (walk rs m ?x) = ?x"
    using walk_total [OF assms(3,5)] assms(6) m by (simp add: place_def)
  then have "iter_step rs (moved it1 (walk rs m ?x)) = (moved it1 ?x, True)"
    using iter_step_moved [OF assms(3), of "moved it1 (walk rs m ?x)"] atm ne bk [OF assms(5)] assms(6)
    by (simp add: place_def)
  from search_step [OF this] show ?thesis unfolding eq by simp
qed

lemma search_diverges:
  assumes "inv s" "reliable" "rs_wf rs" "iter_step rs it = (it1, False)" "at rs (place it1)"
    "canon (cur it1)" "startIP it1 = cur it1" "startRange it1 \<noteq> rangeIdx it1"
    "\<And>y. at rs y \<Longrightarrow> canon (snd y) \<Longrightarrow> \<not> usable (owner s) rs y"
  shows "alloc_search rs st cid ifn rid it s = None"
proof -
  define bad where "bad j \<longleftrightarrow> at rs (place j) \<and> startIP j = cur it1 \<and> startRange j = startRange it1" for j
  have bad1: "bad it1" using assms(5,7) by (simp add: bad_def)
  have ne: "cur it1 \<noteq> []" using assms(6) canon_nonempty by simp
  define Q where "Q rs' st' cid' ifn' rid' j s' y \<longleftrightarrow>
      \<not> (rs' = rs \<and> st' = st \<and> bad j \<and> s' = s)"
    for rs' and st' :: "'s store" and cid' ifn' rid' :: string and j s' and y :: "(ipnet \<times> ip) option res \<times> 's"
  have never: "alloc_search rs st cid ifn rid it1 s \<noteq> Some y" for y
  proof
    assume "alloc_search rs st cid ifn rid it1 s = Some y"
    then have "Q rs st cid ifn rid it1 s y"
    proof (rule alloc_search.raw_induct [rotated])
      fix f rs' st' cid' ifn' rid' j s' y
      assume IH: "\<And>rs st cid ifn rid it s y. f rs st cid ifn rid it s = Some y \<Longrightarrow> Q rs st cid ifn rid it s y"
        and eq: "(case iter_Next rs' j of None \<Rightarrow> None
          | Some (it', None) \<Rightarrow> Some (Inr None, s')
          | Some (it', Some (n, gw)) \<Rightarrow>
              (case st_Reserve st' cid' ifn' (net_ip n) rid' s' of
                 (Inl e, s') \<Rightarrow> Some (Inl e, s')
               | (Inr reserved, s') \<Rightarrow> if reserved then Some (Inr (Some (n, gw)), s')
                   else f rs' st' cid' ifn' rid' it' s')) = Some y"
      show "Q rs' st' cid' ifn' rid' j s' y"
        unfolding Q_def
      proof
        assume h: "rs' = rs \<and> st' = st \<and> bad j \<and> s' = s"
        then have b: "bad j" and e: "rs' = rs" "st' = st" "s' = s" by simp_all
        obtain j' o' where nx: "iter_Next rs j = Some (j', o')"
          using eq e by (cases "iter_Next rs j") auto
        have "startIP j \<noteq> []" "at rs (place j)" using b ne by (simp_all add: bad_def)
        note fr = iter_Next_frame [OF nx assms(3) this(2,1)]
        have b': "bad j'" using fr(1-3) b by (simp add: bad_def)
        have "\<not> back_at j (place j')"
          using b assms(5,6,8) fr(1) by (intro back_at_crossed [OF assms(3), of "place it1"]) (simp_all add: bad_def place_def)
        with fr(4) obtain n gw where o': "o' = Some (n, gw)" by (cases o') auto
        have "iter_ok rs j" using b by (simp add: iter_ok_def bad_def)
        from iter_Next_sound [OF nx [unfolded o'] assms(3) this]
        have sd: "at rs (place j')" "canon (cur j')" "net_ip n = cur j'"
          "\<not> ip_equal (cur j') (Gateway (rs ! rangeIdx j'))" by auto
        have "owner s (To16 (net_ip n)) \<noteq> None"
          using assms(9) [OF sd(1)] sd by (simp add: place_def usable_def)
        then have "st_Reserve st cid' ifn' (net_ip n) rid' s = (Inr False, s)"
          using canon_To16_nonempty [OF sd(2)] sd(3) by (intro reserve_rejected [OF assms(1,2)]) simp_all
        with eq nx o' e have "f rs st cid' ifn' rid' j' s = Some y" by simp
        from IH [OF this] b' show False by (simp add: Q_def)
      qed
    qed
    with bad1 show False by (simp add: Q_def)
  qed
  have "alloc_search rs st cid ifn rid it s = alloc_search rs st cid ifn rid it1 s"
    using assms(9) [OF assms(5)] assms(6) by (intro search_visit(1) [OF assms(1-6)]) (simp add: place_def)
  with never show ?thesis by (cases "alloc_search rs st cid ifn rid it1 s") auto
qed

lemma search_sound:
  assumes "alloc_search rs st cid ifn rid it s = Some (Inr (Some (n, gw)), s')"
    "rs_wf rs" "iter_ok rs it" "inv s"
  shows "inv s' \<and> granted (owner s) (owner s') (key cid ifn) rs (mk_ipconfig n gw)"
proof -
  define Q where "Q rs' st' cid' ifn' (rid' :: string) j t y \<longleftrightarrow>
      (rs' = rs \<and> st' = st \<and> iter_ok rs j \<and> t = s \<and> cid' = cid \<and> ifn' = ifn
         \<and> y = (Inr (Some (n, gw)), s') \<longrightarrow>
       inv s' \<and> granted (owner s) (owner s') (key cid ifn) rs (mk_ipconfig n gw))"
    for rs' and st' :: "'s store" and cid' ifn' :: string and rid' j t and y :: "(ipnet \<times> ip) option res \<times> 's"
  have "Q rs st cid ifn rid it s (Inr (Some (n, gw)), s')"
  proof (rule alloc_search.raw_induct [OF _ assms(1)])
    fix f rs' st' cid' ifn' rid' j t y
    assume IH: "\<And>rs st cid ifn rid it s y. f rs st cid ifn rid it s = Some y \<Longrightarrow> Q rs st cid ifn rid it s y"
      and eq: "(case iter_Next rs' j of None \<Rightarrow> None
        | Some (it', None) \<Rightarrow> Some (Inr None, t)
        | Some (it', Some (n, gw)) \<Rightarrow>
            (case st_Reserve st' cid' ifn' (net_ip n) rid' t of
               (Inl e, s') \<Rightarrow> Some (Inl e, s')
             | (Inr reserved, s') \<Rightarrow> if reserved then Some (Inr (Some (n, gw)), s')
                 else f rs' st' cid' ifn' rid' it' s')) = Some y"
    show "Q rs' st' cid' ifn' rid' j t y"
      unfolding Q_def
    proof
      assume h: "rs' = rs \<and> st' = st \<and> iter_ok rs j \<and> t = s \<and> cid' = cid \<and> ifn' = ifn
         \<and> y = (Inr (Some (n, gw)), s')"
      then have eq: "(case iter_Next rs j of None \<Rightarrow> None
        | Some (it', None) \<Rightarrow> Some (Inr None, s)
        | Some (it', Some (n, gw)) \<Rightarrow>
            (case st_Reserve st cid ifn (net_ip n) rid' s of
               (Inl e, s') \<Rightarrow> Some (Inl e, s')
             | (Inr reserved, s') \<Rightarrow> if reserved then Some (Inr (Some (n, gw)), s')
                 else f rs st cid ifn rid' it' s')) = Some (Inr (Some (n, gw)), s')"
        and ok: "iter_ok rs j" using eq by auto
      obtain j' m g where nx: "iter_Next rs j = Some (j', Some (m, g))"
        using eq by (cases "iter_Next rs j") (auto split: option.splits)
      note so = iter_Next_sound [OF nx assms(2) ok]
      obtain rb s2 where rv: "st_Reserve st cid ifn (net_ip m) rid' s = (rb, s2)" by fastforce
      have mne: "To16 (net_ip m) \<noteq> []" using so canon_To16_nonempty by simp
      note law = reserve [OF assms(4) mne rv]
      show "inv s' \<and> granted (owner s) (owner s') (key cid ifn) rs (mk_ipconfig n gw)"
      proof (cases "rb = Inr True")
        case True
        then have e: "m = n" "g = gw" "s2 = s'" using eq nx rv by auto
        have "rs ! rangeIdx j' \<in> set rs" "range_contains (rs ! rangeIdx j') (cur j')"
          using so by (auto simp: at_def place_def)
        then show ?thesis using law True so e by (auto intro!: grantedI)
      next
        case False
        then have "rb = Inr False" using eq nx rv by (cases rb) auto
        then have s2: "s2 = s" and ff: "f rs st cid ifn rid' j' s2 = Some (Inr (Some (n, gw)), s')"
          using eq nx rv law by auto
        have "iter_ok rs j'" using so by (simp add: iter_ok_def)
        with IH [OF ff] s2 show ?thesis by (simp add: Q_def)
      qed
    qed
  qed
  with assms(3) show ?thesis by (simp add: Q_def)
qed

text \<open>\<open>Get\<close> with its lock.\<close>

lemma lock_view:
  assumes "inv s"
  shows "inv (snd (st_Lock st s))" "owner (snd (st_Lock st s)) = owner s" "latest (snd (st_Lock st s)) = latest s"
    "inv (snd (st_Unlock st s))" "owner (snd (st_Unlock st s)) = owner s" "latest (snd (st_Unlock st s)) = latest s"
  using lock [OF assms, of "fst (st_Lock st s)" "snd (st_Lock st s)"]
    unlock [OF assms, of "fst (st_Unlock st s)" "snd (st_Unlock st s)"] by simp_all

lemma last_view:
  assumes "inv s"
  shows "snd (st_LastReservedIP st rid s) = s"
    "reliable \<Longrightarrow> To16 (case fst (st_LastReservedIP st rid s) of Inl _ \<Rightarrow> [] | Inr b \<Rightarrow> b) = latest s rid"
  using last_reserved [OF assms, of rid "fst (st_LastReservedIP st rid s)" "snd (st_LastReservedIP st rid s)"]
  by (auto simp: Let_def To16_def split: sum.splits)

theorem Get_sound:
  assumes "alloc_Get a cid ifn req s = Some (Inr c, s')" "alloc_store a = st" "rs_wf (rangeset a)" "inv s"
  shows "inv s' \<and> granted (owner s) (owner s') (key cid ifn) (rangeset a) c
    \<and> (req \<noteq> [] \<longrightarrow> To16 (net_ip (Address c)) = To16 req)"
proof -
  define s1 where "s1 = snd (st_Lock st s)"
  have v: "inv s1" "owner s1 = owner s" using lock_view [OF assms(4)] by (simp_all add: s1_def)
  have main: "\<exists>s2. s' = snd (st_Unlock st s2) \<and> inv s2 \<and> granted (owner s) (owner s2) (key cid ifn) (rangeset a) c
     \<and> (req \<noteq> [] \<longrightarrow> To16 (net_ip (Address c)) = To16 req)"
  proof (cases "req = []")
    case False
    then obtain s2 where g: "get_requested a cid ifn req s1 = (Inr c, s2)" and s': "s' = snd (st_Unlock st s2)"
      using assms(1,2) by (auto simp: alloc_Get_def Let_def s1_def split: prod.splits)
    obtain b where b: "canonicalizeIP req = Inr b"
      using g by (cases "canonicalizeIP req") (simp_all add: get_requested_def)
    note cb = canonicalizeIP_InrD [OF b]
    obtain r where r: "RangeFor (rangeset a) b = Inr r"
      using g b by (cases "RangeFor (rangeset a) b") (simp_all add: get_requested_def)
    obtain rb s3 where rv: "st_Reserve st cid ifn b (rangeID a) s1 = (rb, s3)" by fastforce
    have res: "\<not> ip_equal b (Gateway r)" "rb = Inr True" "s3 = s2"
      "c = mk_ipconfig \<lparr>net_ip = b, net_mask = net_mask (Subnet r)\<rparr> (Gateway r)"
      using g b r rv assms(2) by (auto simp: get_requested_def split: if_splits sum.splits)
    have "granted (owner s) (owner s2) (key cid ifn) (rangeset a) c"
      unfolding res(4) using reserve [OF v(1) canon_To16_nonempty [OF cb(1)] rv] RangeFor_InrD [OF r] res v(2) cb(1)
      by (intro grantedI) auto
    moreover have "inv s2" using reserve [OF v(1) canon_To16_nonempty [OF cb(1)] rv] res by simp
    moreover have "To16 (net_ip (Address c)) = To16 req" using cb(2) by (simp add: res(4) mk_ipconfig_def)
    ultimately show ?thesis using s' by blast
  next
    case True
    then obtain s2 where g: "get_free a cid ifn s1 = Some (Inr c, s2)" and s': "s' = snd (st_Unlock st s2)"
      using assms(1,2) by (auto simp: alloc_Get_def Let_def s1_def)
    obtain it s3 where it: "GetIter a s1 = (it, s3)" by fastforce
    have nf: "find (\<lambda>b. is_ok (RangeFor (rangeset a) b)) (st_GetByID st cid ifn s1) = None"
      using g assms(2) by (auto simp: get_free_def split: option.splits)
    obtain n gw where se: "alloc_search (rangeset a) st cid ifn (rangeID a) it s3 = Some (Inr (Some (n, gw)), s2)"
        and c: "c = mk_ipconfig n gw"
      using g assms(2) it nf
      by (cases "alloc_search (rangeset a) st cid ifn (rangeID a) it s3")
        (auto simp: get_free_def split: sum.splits option.splits)
    note gi = GetIter_step [OF assms(3) it]
    have "s3 = s1" using gi(1) last_view(1) [OF v(1)] assms(2) by simp
    with search_sound [OF se assms(3) gi(2)] v s' c True show ?thesis by auto
  qed
  then obtain s2 where "s' = snd (st_Unlock st s2)" "inv s2"
      "granted (owner s) (owner s2) (key cid ifn) (rangeset a) c"
      "req \<noteq> [] \<longrightarrow> To16 (net_ip (Address c)) = To16 req" by blast
  then show ?thesis using lock_view(4,5) [of s2] by simp
qed

text \<open>A container without an address of the set.\<close>

definition holds_none :: "range_set \<Rightarrow> string \<Rightarrow> string \<Rightarrow> 's \<Rightarrow> bool" where
  "holds_none rs cid ifn s \<longleftrightarrow> (\<forall>b k. owner s b = Some k \<longrightarrow> held cid ifn k \<longrightarrow> \<not> rs_contains rs b)"

text \<open>The search of a \<open>Get\<close> without request, when the container has no address of the set.\<close>

lemma Get_search:
  assumes "alloc_store a = st" "rs_wf (rangeset a)" "inv s" "reliable"
    "holds_none (rangeset a) cid ifn s"
  obtains it it1 s1 where
    "inv s1" "owner s1 = owner s" "latest s1 = latest s"
    "iter_step (rangeset a) it = (it1, False)" "place it1 = first_place (rangeset a) (latest s (rangeID a))"
    "startIP it1 = cur it1" "startRange it1 = start_index (rangeset a) (latest s (rangeID a))"
    "alloc_Get a cid ifn [] s =
      map_option (\<lambda>(r, s2). (case r of Inl e \<Rightarrow> Inl e
        | Inr None \<Rightarrow> Inl (Errorf (''no IP addresses available in range set: '' @ rs_string (rangeset a)))
        | Inr (Some (n, gw)) \<Rightarrow> Inr (mk_ipconfig n gw), snd (st_Unlock st s2)))
       (alloc_search (rangeset a) st cid ifn (rangeID a) it s1)"
proof -
  define s1 where "s1 = snd (st_Lock st s)"
  have v: "inv s1" "owner s1 = owner s" "latest s1 = latest s" using lock_view [OF assms(3)] by (simp_all add: s1_def)
  obtain it s3 where it: "GetIter a s1 = (it, s3)" by fastforce
  have "\<not> is_ok (RangeFor (rangeset a) b)" if h: "b \<in> set (st_GetByID st cid ifn s1)" for b
  proof -
    obtain k where k: "To16 b \<noteq> []" "owner s (To16 b) = Some k" "held cid ifn k"
      using get_by_id [OF v(1) h] v(2) by auto
    then have "\<not> rs_contains (rangeset a) (To16 b)" using assms(5) unfolding holds_none_def by blast
    then show ?thesis using first_place_cong(3) [OF To16_To16 assms(2)] by (simp add: rs_contains_def)
  qed
  then have nf: "find (\<lambda>b. is_ok (RangeFor (rangeset a) b)) (st_GetByID st cid ifn s1) = None"
    by (simp add: find_None_iff)
  let ?l = "case fst (st_LastReservedIP st (rangeID a) s1) of Inl _ \<Rightarrow> [] | Inr b \<Rightarrow> b"
  note gi = GetIter_step [OF assms(2) it, unfolded assms(1)]
  have s3: "s3 = s1" using gi(1) last_view(1) [OF v(1)] by simp
  have l: "To16 ?l = To16 (latest s (rangeID a))" using last_view(2) [OF v(1) assms(4)] v(3) by (metis To16_To16)
  note cg = first_place_cong [OF l assms(2)]
  from gi(3) obtain it1 where it1: "iter_step (rangeset a) it = (it1, False)"
    "place it1 = first_place (rangeset a) (latest s (rangeID a))" "startIP it1 = cur it1"
    "startRange it1 = start_index (rangeset a) (latest s (rangeID a))"
    unfolding cg(1,2) by blast
  have "alloc_Get a cid ifn [] s =
      map_option (\<lambda>(r, s2). (case r of Inl e \<Rightarrow> Inl e
        | Inr None \<Rightarrow> Inl (Errorf (''no IP addresses available in range set: '' @ rs_string (rangeset a)))
        | Inr (Some (n, gw)) \<Rightarrow> Inr (mk_ipconfig n gw), snd (st_Unlock st s2)))
       (alloc_search (rangeset a) st cid ifn (rangeID a) it s1)"
    using nf it assms(1)
    by (auto simp: alloc_Get_def get_free_def Let_def s1_def [symmetric] s3 split: option.split sum.split)
  with v it1 that show ?thesis by blast
qed

lemma Get_finds:
  assumes "alloc_store a = st" "rs_wf (rangeset a)" "inv s" "reliable" "holds_none (rangeset a) cid ifn s"
    "k < total (rangeset a)"
    "usable (owner s) (rangeset a) (walk (rangeset a) k (first_place (rangeset a) (latest s (rangeID a))))"
    "\<And>j. j < k \<Longrightarrow>
       \<not> usable (owner s) (rangeset a) (walk (rangeset a) j (first_place (rangeset a) (latest s (rangeID a))))"
  defines "y \<equiv> walk (rangeset a) k (first_place (rangeset a) (latest s (rangeID a)))"
  shows "\<exists>s'. alloc_Get a cid ifn [] s = Some (Inr (config_at (rangeset a) y), s')
     \<and> inv s' \<and> owner s' = (owner s)(To16 (snd y) \<mapsto> key cid ifn)
     \<and> latest s' = (latest s)(rangeID a := To16 (snd y))"
proof -
  obtain it it1 s1 where g: "inv s1" "owner s1 = owner s" "latest s1 = latest s"
    "iter_step (rangeset a) it = (it1, False)" "place it1 = first_place (rangeset a) (latest s (rangeID a))"
    "startIP it1 = cur it1" "startRange it1 = start_index (rangeset a) (latest s (rangeID a))"
    "alloc_Get a cid ifn [] s =
      map_option (\<lambda>(r, s2). (case r of Inl e \<Rightarrow> Inl e
        | Inr None \<Rightarrow> Inl (Errorf (''no IP addresses available in range set: '' @ rs_string (rangeset a)))
        | Inr (Some (n, gw)) \<Rightarrow> Inr (mk_ipconfig n gw), snd (st_Unlock st s2)))
       (alloc_search (rangeset a) st cid ifn (rangeID a) it s1)"
    by (rule Get_search [OF assms(1-5)])
  have p: "at (rangeset a) (place it1)" "canon (cur it1)"
    using first_place_ok [OF assms(2)] g(5) unfolding place_def by (metis snd_conv)+
  obtain s2 where s2: "alloc_search (rangeset a) st cid ifn (rangeID a) it s1 = Some (Inr (Some (\<lparr>net_ip = snd y,
         net_mask = net_mask (Subnet (rangeset a ! fst y))\<rparr>, Gateway (rangeset a ! fst y))), s2)"
       "inv s2" "owner s2 = (owner s)(To16 (snd y) \<mapsto> key cid ifn)"
       "latest s2 = (latest s)(rangeID a := To16 (snd y))"
    using search_finds [OF g(1) assms(4,2) g(4) p g(6) assms(6), of cid ifn "rangeID a"] assms(7,8)
    unfolding g(2,3,5) y_def by blast
  then show ?thesis unfolding g(8) using lock_view [OF s2(2)] by (simp add: config_at_def)
qed

lemma Get_exhausted:
  assumes "alloc_store a = st" "rs_wf (rangeset a)" "inv s" "reliable" "holds_none (rangeset a) cid ifn s"
    "\<And>y. at (rangeset a) y \<Longrightarrow> canon (snd y) \<Longrightarrow> \<not> usable (owner s) (rangeset a) y"
  shows "if start_index (rangeset a) (latest s (rangeID a)) = fst (first_place (rangeset a) (latest s (rangeID a)))
    then \<exists>s'. alloc_Get a cid ifn [] s = Some (Inl (Errorf (''no IP addresses available in range set: ''
            @ rs_string (rangeset a))), s') \<and> inv s' \<and> owner s' = owner s
    else alloc_Get a cid ifn [] s = None"
proof -
  obtain it it1 s1 where g: "inv s1" "owner s1 = owner s" "latest s1 = latest s"
    "iter_step (rangeset a) it = (it1, False)" "place it1 = first_place (rangeset a) (latest s (rangeID a))"
    "startIP it1 = cur it1" "startRange it1 = start_index (rangeset a) (latest s (rangeID a))"
    "alloc_Get a cid ifn [] s =
      map_option (\<lambda>(r, s2). (case r of Inl e \<Rightarrow> Inl e
        | Inr None \<Rightarrow> Inl (Errorf (''no IP addresses available in range set: '' @ rs_string (rangeset a)))
        | Inr (Some (n, gw)) \<Rightarrow> Inr (mk_ipconfig n gw), snd (st_Unlock st s2)))
       (alloc_search (rangeset a) st cid ifn (rangeID a) it s1)"
    by (rule Get_search [OF assms(1-5)])
  have p: "at (rangeset a) (place it1)" "canon (cur it1)"
    using first_place_ok [OF assms(2)] g(5) unfolding place_def by (metis snd_conv)+
  have un: "\<not> usable (owner s1) (rangeset a) y" if "at (rangeset a) y" "canon (snd y)" for y
    using assms(6) that g(2) by simp
  have i: "fst (first_place (rangeset a) (latest s (rangeID a))) = rangeIdx it1"
    using g(5) by (metis fst_conv place_def)
  show ?thesis
  proof (cases "startRange it1 = rangeIdx it1")
    case True
    have "alloc_search (rangeset a) st cid ifn (rangeID a) it s1 = Some (Inr None, s1)"
      by (rule search_exhausted [OF g(1) assms(4,2) g(4) p g(6) True])
        (use un at_walk [OF assms(2) p(1)] canon_walk [OF assms(2) p(1)] p(2) in \<open>simp add: place_def\<close>)
    then show ?thesis using True i g lock_view [OF g(1)] by auto
  next
    case False
    have "alloc_search (rangeset a) st cid ifn (rangeID a) it s1 = None"
      by (rule search_diverges [OF g(1) assms(4,2) g(4) p g(6) False]) (use un in blast)
    then show ?thesis using False i g(7,8) by simp
  qed
qed

lemma Get_complete:
  assumes "alloc_store a = st" "rs_wf (rangeset a)" "inv s" "reliable" "holds_none (rangeset a) cid ifn s"
    "at (rangeset a) y" "canon (snd y)" "usable (owner s) (rangeset a) y"
  shows "\<exists>k s'. k < total (rangeset a)
     \<and> (let z = walk (rangeset a) k (first_place (rangeset a) (latest s (rangeID a)))
        in alloc_Get a cid ifn [] s = Some (Inr (config_at (rangeset a) z), s')
          \<and> inv s' \<and> owner s' = (owner s)(To16 (snd z) \<mapsto> key cid ifn)
          \<and> latest s' = (latest s)(rangeID a := To16 (snd z))
          \<and> (\<forall>j<k. \<not> usable (owner s) (rangeset a)
                (walk (rangeset a) j (first_place (rangeset a) (latest s (rangeID a))))))"
proof -
  let ?rs = "rangeset a" and ?x = "first_place (rangeset a) (latest s (rangeID a))"
  let ?U = "\<lambda>k. usable (owner s) ?rs (walk ?rs k ?x)"
  obtain m where m: "m < total ?rs" "walk ?rs m ?x = y"
    using walk_reaches [OF assms(2) first_place_ok(1) [OF assms(2)] assms(6) first_place_ok(2) [OF assms(2)] assms(7)]
    by metis
  then have "?U m" using assms(8) by simp
  define k where "k = (LEAST k. ?U k)"
  have k: "?U k" "k \<le> m" unfolding k_def using \<open>?U m\<close> by (rule LeastI, rule Least_le)
  have below: "\<And>j. j < k \<Longrightarrow> \<not> ?U j" unfolding k_def by (rule not_less_Least)
  have "k < total ?rs" using k(2) m(1) by simp
  from Get_finds [OF assms(1-5) this k(1) below] this below show ?thesis by (auto simp: Let_def)
qed

lemma Get_duplicate:
  assumes "alloc_store a = st" "rs_wf (rangeset a)" "inv s" "reliable"
    "owner s b = Some k" "held cid ifn k" "rs_contains (rangeset a) b"
  shows "\<exists>e s'. alloc_Get a cid ifn [] s = Some (Inl e, s') \<and> inv s' \<and> owner s' = owner s \<and> latest s' = latest s"
proof -
  define s1 where "s1 = snd (st_Lock st s)"
  have v: "inv s1" "owner s1 = owner s" "latest s1 = latest s" using lock_view [OF assms(3)] by (simp_all add: s1_def)
  obtain d where d: "d \<in> set (st_GetByID st cid ifn s1)" "To16 d = b"
    using get_by_id_complete [OF v(1) assms(4), of b k cid ifn] assms(5,6) v(2) by auto
  have "is_ok (RangeFor (rangeset a) d)"
    using assms(7) first_place_cong(3) [OF To16_To16 assms(2), of d] d(2) by (simp add: rs_contains_def)
  then obtain e where "find (\<lambda>b. is_ok (RangeFor (rangeset a) b)) (st_GetByID st cid ifn s1) = Some e"
    using d(1) by (cases "find (\<lambda>b. is_ok (RangeFor (rangeset a) b)) (st_GetByID st cid ifn s1)")
      (auto simp: find_None_iff)
  then show ?thesis
    using assms(1) lock_view [OF v(1)] v by (simp add: alloc_Get_def get_free_def Let_def s1_def [symmetric])
qed

text \<open>A search that grants nothing leaves a reliable store as it was.\<close>

lemma search_frame:
  assumes "alloc_search rs st cid ifn rid it s = Some (r, s')" "rs_wf rs" "iter_ok rs it" "inv s" "reliable"
    "\<nexists>n gw. r = Inr (Some (n, gw))"
  shows "s' = s"
proof -
  define Q where "Q rs' st' (cid' :: string) (ifn' :: string) (rid' :: string) j t y \<longleftrightarrow>
      (rs' = rs \<and> st' = st \<and> iter_ok rs j \<and> t = s \<and> y = (r, s') \<longrightarrow> s' = s)"
    for rs' and st' :: "'s store" and cid' ifn' rid' j t and y :: "(ipnet \<times> ip) option res \<times> 's"
  have "Q rs st cid ifn rid it s (r, s')"
  proof (rule alloc_search.raw_induct [OF _ assms(1)])
    fix f rs' st' cid' ifn' rid' j t y
    assume IH: "\<And>rs st cid ifn rid it s y. f rs st cid ifn rid it s = Some y \<Longrightarrow> Q rs st cid ifn rid it s y"
      and eq: "(case iter_Next rs' j of None \<Rightarrow> None
        | Some (it', None) \<Rightarrow> Some (Inr None, t)
        | Some (it', Some (n, gw)) \<Rightarrow>
            (case st_Reserve st' cid' ifn' (net_ip n) rid' t of
               (Inl e, s') \<Rightarrow> Some (Inl e, s')
             | (Inr reserved, s') \<Rightarrow> if reserved then Some (Inr (Some (n, gw)), s')
                 else f rs' st' cid' ifn' rid' it' s')) = Some y"
    show "Q rs' st' cid' ifn' rid' j t y"
      unfolding Q_def
    proof
      assume h: "rs' = rs \<and> st' = st \<and> iter_ok rs j \<and> t = s \<and> y = (r, s')"
      then have ok: "iter_ok rs j" and e: "rs' = rs" "st' = st" "t = s" "y = (r, s')" by simp_all
      obtain j' o' where nx: "iter_Next rs j = Some (j', o')"
        using eq e by (cases "iter_Next rs j") auto
      show "s' = s"
      proof (cases o')
        case None
        with eq nx e show ?thesis by simp
      next
        case (Some p)
        then obtain m g where o': "o' = Some (m, g)" by (cases p) simp
        note so = iter_Next_sound [OF nx [unfolded o'] assms(2) ok]
        obtain rb s2 where rv: "st_Reserve st cid' ifn' (net_ip m) rid' s = (rb, s2)" by fastforce
        have mne: "To16 (net_ip m) \<noteq> []" using so canon_To16_nonempty by simp
        note law = reserve [OF assms(4) mne rv]
        have "rb = Inr False"
        proof (cases rb)
          case (Inl x)
          with law assms(5) show ?thesis by simp
        next
          case (Inr b)
          then show ?thesis using eq nx o' rv e assms(6) by (cases b) auto
        qed
        then have "s2 = s" "f rs st cid' ifn' rid' j' s = Some (r, s')"
          using law eq nx o' rv e by auto
        moreover have "iter_ok rs j'" using so by (simp add: iter_ok_def)
        ultimately show ?thesis using IH [of rs st cid' ifn' rid' j' s "(r, s')"] by (simp add: Q_def)
      qed
    qed
  qed
  with assms(3) show ?thesis by (simp add: Q_def)
qed

lemma Get_error_frame:
  assumes "alloc_Get a cid ifn req s = Some (Inl e, s')" "alloc_store a = st" "rs_wf (rangeset a)" "inv s" "reliable"
  shows "inv s'" "owner s' = owner s" "latest s' = latest s"
proof -
  define s1 where "s1 = snd (st_Lock st s)"
  have v: "inv s1" "owner s1 = owner s" "latest s1 = latest s" using lock_view [OF assms(4)] by (simp_all add: s1_def)
  have "s' = snd (st_Unlock st s1)"
  proof (cases "req = []")
    case False
    then obtain s2 where g: "get_requested a cid ifn req s1 = (Inl e, s2)" and s': "s' = snd (st_Unlock st s2)"
      using assms(1,2) by (auto simp: alloc_Get_def Let_def s1_def split: prod.splits)
    have "s2 = s1"
    proof (cases "canonicalizeIP req")
      case (Inr b)
      note ne = canon_To16_nonempty [OF canonicalizeIP_InrD(1) [OF Inr]]
      obtain rb s3 where rv: "st_Reserve st cid ifn b (rangeID a) s1 = (rb, s3)" by fastforce
      show ?thesis
        using g Inr rv reserve [OF v(1) ne rv] assms(2,5)
        by (auto simp: get_requested_def split: sum.splits if_splits bool.splits)
    qed (use g in \<open>simp add: get_requested_def\<close>)
    with s' show ?thesis by simp
  next
    case True
    then obtain s2 where g: "get_free a cid ifn s1 = Some (Inl e, s2)" and s': "s' = snd (st_Unlock st s2)"
      using assms(1,2) by (auto simp: alloc_Get_def Let_def s1_def)
    obtain it s3 where it: "GetIter a s1 = (it, s3)" by fastforce
    note gi = GetIter_step [OF assms(3) it]
    have s3: "s3 = s1" using gi(1) last_view(1) [OF v(1)] assms(2) by simp
    have "s2 = s1"
    proof (cases "find (\<lambda>b. is_ok (RangeFor (rangeset a) b)) (st_GetByID st cid ifn s1)")
      case None
      then obtain r where "alloc_search (rangeset a) st cid ifn (rangeID a) it s1 = Some (r, s2)"
          "\<nexists>n gw. r = Inr (Some (n, gw))"
        using g it s3 assms(2)
        by (cases "alloc_search (rangeset a) st cid ifn (rangeID a) it s1")
          (auto simp: get_free_def split: sum.splits option.splits)
      then show ?thesis by (rule search_frame [OF _ assms(3) gi(2) v(1) assms(5)])
    next
      case (Some b)
      with g assms(2) show ?thesis by (simp add: get_free_def)
    qed
    with s' show ?thesis by simp
  qed
  with lock_view [OF v(1)] v show "inv s'" "owner s' = owner s" "latest s' = latest s" by simp_all
qed

text \<open>\<open>Release\<close> forgets the container.\<close>

lemma Release_effect:
  assumes "alloc_store a = st" "inv s" "alloc_Release a cid ifn s = (r, s')"
  shows "inv s'" "owner s' b = owner s b \<or> owner s' b = None \<and> (\<exists>k. owner s b = Some k \<and> held cid ifn k)"
    "reliable \<Longrightarrow> clean cid ifn \<Longrightarrow> r = Inr () \<and> owner s' b \<noteq> Some (key cid ifn)"
proof -
  define s1 where "s1 = snd (st_Lock st s)"
  have v: "inv s1" "owner s1 = owner s" using lock_view [OF assms(2)] by (simp_all add: s1_def)
  obtain q s2 where q: "st_ReleaseByID st cid ifn s1 = (q, s2)" by fastforce
  note law = release_by_id [OF v(1) q]
  have s': "r = q" "s' = snd (st_Unlock st s2)"
    using assms(1,3) q by (simp_all add: alloc_Release_def s1_def)
  have "inv s2" using law by blast
  note u = lock_view [OF this]
  show "inv s'" using u by (simp add: s')
  show "owner s' b = owner s b \<or> owner s' b = None \<and> (\<exists>k. owner s b = Some k \<and> held cid ifn k)"
    using law u v by (simp add: s')
  show "reliable \<Longrightarrow> clean cid ifn \<Longrightarrow> r = Inr () \<and> owner s' b \<noteq> Some (key cid ifn)"
    using law u by (simp add: s')
qed

end

end
