(* ===== verification/Alloc_Props.thy ===== *)
theory Alloc_Props
  imports Alloc_Get
begin

text \<open>
  What the host-local allocator guarantees on the directory store, and at which inputs the
  statements apply. \<open>NewIPAllocator rs (disk_store F) n\<close> is the allocator \<open>cmdAdd\<close> builds for the
  \<open>n\<close>-th range set; \<open>F\<close> is any table of operating-system failures.
\<close>

lemma new_allocator [simp]:
  "rangeset (NewIPAllocator rs st n) = rs" "alloc_store (NewIPAllocator rs st n) = st"
  "rangeID (NewIPAllocator rs st n) = itoa n"
  by (simp_all add: NewIPAllocator_def)

section \<open>A small network\<close>

definition demo_subnet :: ipnet where
  "demo_subnet = \<lparr>net_ip = [10, 0, 0, 0], net_mask = [255, 255, 255, 248]\<rparr>"

definition demo_range :: range where
  "demo_range = \<lparr>RangeStart = [10, 0, 0, 1], RangeEnd = [10, 0, 0, 3], Subnet = demo_subnet,
     Gateway = [10, 0, 0, 1]\<rparr>"

definition demo_range2 :: range where
  "demo_range2 = \<lparr>RangeStart = [10, 0, 0, 5], RangeEnd = [10, 0, 0, 5], Subnet = demo_subnet,
     Gateway = [10, 0, 0, 1]\<rparr>"

definition demo_disk :: disk where
  "demo_disk = \<lparr>files = [], flocked = False\<rparr>"

lemmas net_eval = subnet_ok_def canon_def simple_mask_length_def mask_bits_def byte_bits_def ip_and_def
  in_subnet_def of_bytes_def

lemma demo_subnet_ok: "subnet_ok demo_subnet" "wide (net_ip demo_subnet)"
  by (simp_all add: demo_subnet_def net_eval wide_def)

lemma demo_range_wf: "range_wf demo_range" "range_wf demo_range2"
  using demo_subnet_ok
  by (simp_all add: range_wf_def demo_range_def demo_range2_def, simp_all add: demo_subnet_def net_eval)

lemma demo_not_overlap: "\<not> range_overlaps demo_range demo_range2"
proof
  assume "range_overlaps demo_range demo_range2"
  then obtain a where a: "canon a" "range_contains demo_range a" "range_contains demo_range2 a"
    using range_overlaps_interval [OF demo_range_wf] by blast
  have "of_bytes (RangeEnd demo_range) < of_bytes (RangeStart demo_range2)"
    by (simp add: demo_range_def demo_range2_def of_bytes_def)
  then show False
    using a(2,3) range_contains_interval [OF demo_range_wf(1) canonicalizeIP_canon [OF a(1)]]
      range_contains_interval [OF demo_range_wf(2) canonicalizeIP_canon [OF a(1)]] by linarith
qed

lemma demo_rs_wf: "rs_wf [demo_range]" "rs_wf [demo_range, demo_range2]"
  using demo_range_wf demo_not_overlap by (simp_all add: rs_wf_def) (simp add: demo_range_def demo_range2_def)

lemma demo_disk_inv: "disk_inv demo_disk"
  by (simp add: disk_inv_def demo_disk_def distinct_names_def)

definition demo_full :: disk where
  "demo_full = \<lparr>files = [(ip_string [10, 0, 0, 2], ''x''), (ip_string [10, 0, 0, 3], ''y''),
     (ip_string [10, 0, 0, 5], ''z''), (lastIPFilePrefix @ itoa 0, ip_string [10, 0, 0, 3])], flocked = False\<rparr>"

abbreviation demo_alloc :: "range_set \<Rightarrow> disk ip_allocator" where
  "demo_alloc rs \<equiv> NewIPAllocator rs (disk_store no_faults) 0"

lemma demo_names: "ip_string [10, 0, 0, 2] = ''10.0.0.2''" "ip_string [10, 0, 0, 3] = ''10.0.0.3''"
  "ip_string [10, 0, 0, 5] = ''10.0.0.5''" "itoa 0 = ''0''"
  by code_simp+

lemma demo_full_inv: "disk_inv demo_full"
proof -
  have "length (ParseIP (ip_string a)) = 16 \<and> ip_string a = ip_string (ParseIP (ip_string a))"
    if "length a = 4" for a
    using that by (intro ip_name_ok) (auto simp: To16_def)
  moreover have "distinct_names (files demo_full)"
    by (simp add: distinct_names_def demo_full_def demo_names lastIPFilePrefix_def)
  ultimately show ?thesis by (simp add: disk_inv_def demo_full_def)
qed

lemma demo_full_last: "disk_last demo_full (itoa 0) = To16 [10, 0, 0, 3]"
  by (simp add: disk_last_def demo_full_def demo_names lastIPFilePrefix_def)
    (simp add: demo_names [symmetric] ParseIP_ip_string To16_def v4InV6Prefix_def)

lemma of_bytes4: "length a = 4 \<Longrightarrow> of_bytes a = of_bytes [10, 0, 0, k] \<Longrightarrow> a = [10, 0, 0, k]"
  by (rule of_bytes_inj) simp_all

lemma demo_range_addr:
  assumes "canon a" "range_contains demo_range a"
  shows "a = [10, 0, 0, 1] \<or> a = [10, 0, 0, 2] \<or> a = [10, 0, 0, 3]"
proof -
  have l: "length a = 4" "167772161 \<le> of_bytes a" "of_bytes a \<le> 167772163"
    using range_contains_interval [OF demo_range_wf(1) canonicalizeIP_canon [OF assms(1)]] assms(2)
    by (simp_all add: demo_range_def of_bytes_def)
  then have "of_bytes a = 167772161 \<or> of_bytes a = 167772162 \<or> of_bytes a = 167772163" by linarith
  then have "of_bytes a = of_bytes [10, 0, 0, 1] \<or> of_bytes a = of_bytes [10, 0, 0, 2]
      \<or> of_bytes a = of_bytes [10, 0, 0, 3]"
    by (simp add: of_bytes_def)
  then show ?thesis using of_bytes4 [OF l(1)] by blast
qed

lemma demo_range2_addr:
  assumes "canon a" "range_contains demo_range2 a"
  shows "a = [10, 0, 0, 5]"
proof -
  have l: "length a = 4" "167772165 \<le> of_bytes a" "of_bytes a \<le> 167772165"
    using range_contains_interval [OF demo_range_wf(2) canonicalizeIP_canon [OF assms(1)]] assms(2)
    by (simp_all add: demo_range2_def of_bytes_def)
  then have "of_bytes a = of_bytes [10, 0, 0, 5]" by (simp add: of_bytes_def)
  then show ?thesis by (rule of_bytes4 [OF l(1)])
qed

lemma demo_full_taken:
  "disk_owner demo_full (To16 [10, 0, 0, 2]) = Some ''x''"
  "disk_owner demo_full (To16 [10, 0, 0, 3]) = Some ''y''"
  "disk_owner demo_full (To16 [10, 0, 0, 5]) = Some ''z''"
  by (simp_all add: disk_owner_def length_To16 ip_string_To16 To16_eq_Nil_iff demo_full_def demo_names TrimSpace_def
      trim_left_def is_space_def)

lemma demo_exhausted:
  assumes "at [demo_range, demo_range2] y" "canon (snd y)"
  shows "\<not> usable (disk_owner demo_full) [demo_range, demo_range2] y"
proof -
  obtain i a where y: "y = (i, a)" by fastforce
  then consider "i = 0" "range_contains demo_range a" | "i = 1" "range_contains demo_range2 a"
    using assms(1) by (cases i) (auto simp: at_def)
  then show ?thesis
  proof cases
    case 1
    then consider "a = [10, 0, 0, 1]" | "a = [10, 0, 0, 2]" | "a = [10, 0, 0, 3]"
      using demo_range_addr assms(2) y by auto
    then show ?thesis
      by cases (simp_all add: usable_def y 1 demo_full_taken, simp add: demo_range_def)
  next
    case 2
    then show ?thesis using demo_range2_addr [of a] assms(2) y by (simp add: usable_def demo_full_taken)
  qed
qed

section \<open>Properties of the allocator\<close>

text \<open>
  C1: an address that \<open>Get\<close> hands out is a canonical address of one of the configured ranges, with
  that range's mask and gateway, is not the gateway, was free and is now recorded for the caller
  alone; no other reservation changes; and a requested address is the one granted. This holds
  whatever the operating system refuses.
\<close>

theorem allocator_get_sound:
  assumes "alloc_Get (NewIPAllocator rs (disk_store F) n) cid ifn req s = Some (Inr c, s')"
    and "rs_wf rs" and "disk_inv s"
  shows "disk_inv s' \<and> granted (disk_owner s) (disk_owner s') (disk_key cid ifn) rs c
    \<and> (req \<noteq> [] \<longrightarrow> To16 (net_ip (Address c)) = To16 req)"
  using disk.Get_sound [OF assms(1)] assms(2,3) by simp

lemma no_faults_free [simp]: "fault_free no_faults"
  by (simp add: fault_free_def)

lemma demo_empty: "disk_owner demo_disk = (\<lambda>_. None)"
  by (simp add: demo_disk_def disk_owner_def fun_eq_iff)

lemma demo_at: "at [demo_range] (0, [10, 0, 0, 2])" "canon (snd (0 :: nat, [10, 0, 0, 2]))"
  "usable (disk_owner demo_disk) [demo_range] (0, [10, 0, 0, 2])"
proof -
  have c: "canon [10, 0, 0, 2]" by (simp add: canon_def)
  then show "canon (snd (0 :: nat, [10, 0, 0, 2]))" by simp
  show "at [demo_range] (0, [10, 0, 0, 2])"
    using range_contains_interval [OF demo_range_wf(1) canonicalizeIP_canon [OF c]]
    by (simp add: at_def) (simp add: demo_range_def of_bytes_def)
  show "usable (disk_owner demo_disk) [demo_range] (0, [10, 0, 0, 2])"
    by (simp add: usable_def demo_empty demo_range_def ip_equal_def)
qed

lemma allocator_get_sound_witness:
  "\<exists>c s'. alloc_Get (demo_alloc [demo_range]) ''c1'' ''eth0'' [] demo_disk = Some (Inr c, s')
     \<and> granted (disk_owner demo_disk) (disk_owner s') (disk_key ''c1'' ''eth0'') [demo_range] c"
proof -
  have "disk.holds_none [demo_range] ''c1'' ''eth0'' demo_disk"
    by (simp add: disk.holds_none_def demo_empty)
  then obtain c s' where g: "alloc_Get (demo_alloc [demo_range]) ''c1'' ''eth0'' [] demo_disk = Some (Inr c, s')"
    using disk.Get_complete [of "demo_alloc [demo_range]" no_faults demo_disk "''c1''" "''eth0''" "(0, [10, 0, 0, 2])"]
      demo_rs_wf demo_disk_inv demo_at by (auto simp: Let_def)
  from allocator_get_sound [OF g demo_rs_wf(1) demo_disk_inv] g show ?thesis by blast
qed

text \<open>
  C14: when some address of the set is free, and the container has none of the set, \<open>Get\<close> succeeds
  with the first address in round-robin order after the last reserved one that is neither a gateway
  nor held; every address it passes over is unusable.
\<close>

theorem allocator_get_round_robin:
  assumes "rs_wf rs" and "disk_inv s"
    and "\<forall>b k. disk_owner s b = Some k \<longrightarrow> disk_held cid ifn k \<longrightarrow> \<not> rs_contains rs b"
    and "at rs y" and "canon (snd y)" and "usable (disk_owner s) rs y"
  shows "\<exists>k s'. k < total rs
     \<and> (let z = walk rs k (first_place rs (disk_last s (itoa n)))
        in alloc_Get (NewIPAllocator rs (disk_store no_faults) n) cid ifn [] s = Some (Inr (config_at rs z), s')
          \<and> disk_inv s' \<and> disk_owner s' = (disk_owner s)(To16 (snd z) \<mapsto> disk_key cid ifn)
          \<and> disk_last s' = (disk_last s)(itoa n := To16 (snd z))
          \<and> (\<forall>j<k. \<not> usable (disk_owner s) rs (walk rs j (first_place rs (disk_last s (itoa n))))))"
proof -
  have "disk.holds_none rs cid ifn s" using assms(3) unfolding disk.holds_none_def by blast
  then show ?thesis
    using disk.Get_complete [of "NewIPAllocator rs (disk_store no_faults) n" no_faults s cid ifn y] assms
    by simp
qed

lemma allocator_get_round_robin_witness:
  "\<exists>k s'. k < total [demo_range] \<and> (\<exists>c. alloc_Get (demo_alloc [demo_range]) ''c1'' ''eth0'' [] demo_disk = Some (Inr c, s'))"
proof -
  have "\<forall>b k. disk_owner demo_disk b = Some k \<longrightarrow> disk_held ''c1'' ''eth0'' k \<longrightarrow> \<not> rs_contains [demo_range] b"
    by (simp add: demo_empty)
  from allocator_get_round_robin [OF demo_rs_wf(1) demo_disk_inv this demo_at, where n = 0]
  show ?thesis by (auto simp: Let_def)
qed

lemma demo_full_none:
  assumes "disk_owner demo_full b = Some k"
  shows "\<not> disk_held ''c9'' ''eth0'' k"
proof -
  obtain c where "map_of (files demo_full) (ip_string b) = Some c" "k = TrimSpace c"
    using assms by (auto simp: disk_owner_Some)
  then have "k \<in> TrimSpace ` snd ` set (files demo_full)" by (metis image_eqI map_of_SomeD snd_conv)
  then have "k \<in> {''x'', ''y'', ''z'', ''10.0.0.3''}"
    by (auto simp: demo_full_def demo_names TrimSpace_def trim_left_def is_space_def)
  then show ?thesis
    by (auto simp: disk_held_def match_new_def match_old_def TrimSpace_def trim_left_def is_space_def LineBreak_def)
qed

lemma first_place_To16: "rs_wf rs \<Longrightarrow> first_place rs (To16 a) = first_place rs a"
    "rs_wf rs \<Longrightarrow> start_index rs (To16 a) = start_index rs a"
  using first_place_cong [OF To16_To16] by blast+

lemma demo_crossing:
  "first_place [demo_range, demo_range2] [10, 0, 0, 3] = (1, [10, 0, 0, 5])"
  "start_index [demo_range, demo_range2] [10, 0, 0, 3] = 0"
proof -
  have c: "canon [10, 0, 0, 3]" by (simp add: canon_def)
  have "range_contains demo_range [10, 0, 0, 3]"
    using range_contains_interval [OF demo_range_wf(1) canonicalizeIP_canon [OF c]]
    by (simp add: demo_range_def of_bytes_def)
  then have "rs_contains [demo_range, demo_range2] [10, 0, 0, 3]"
    "last_index [demo_range, demo_range2] [10, 0, 0, 3] = 0"
    by (simp_all add: rs_contains_iff last_index_def)
  then show "first_place [demo_range, demo_range2] [10, 0, 0, 3] = (1, [10, 0, 0, 5])"
    "start_index [demo_range, demo_range2] [10, 0, 0, 3] = 0"
    by (simp_all add: first_place_def start_index_def adv_def Let_def)
      (simp add: demo_range_def demo_range2_def)
qed

text \<open>
  C21: when every address of the set is a gateway or held, \<open>Get\<close> ends with the error \<open>no IP addresses
  available\<close> and changes nothing, provided the search starts in the range of the last reserved
  address. When that address is the last of its range and the set has another range, the search
  starts in the next range but compares with the index of the old one, and \<open>Get\<close> never returns,
  with the lock of the store held.
\<close>

theorem allocator_get_exhausted:
  assumes "rs_wf rs" and "disk_inv s"
    and "\<And>b k. disk_owner s b = Some k \<Longrightarrow> \<not> disk_held cid ifn k"
    and "\<And>y. at rs y \<Longrightarrow> canon (snd y) \<Longrightarrow> \<not> usable (disk_owner s) rs y"
  shows "if start_index rs (disk_last s (itoa n)) = fst (first_place rs (disk_last s (itoa n)))
    then \<exists>s'. alloc_Get (NewIPAllocator rs (disk_store no_faults) n) cid ifn [] s
         = Some (Inl (Errorf (''no IP addresses available in range set: '' @ rs_string rs)), s')
         \<and> disk_inv s' \<and> disk_owner s' = disk_owner s
    else alloc_Get (NewIPAllocator rs (disk_store no_faults) n) cid ifn [] s = None"
proof -
  have "disk.holds_none rs cid ifn s" using assms(3) unfolding disk.holds_none_def by blast
  from disk.Get_exhausted [of "NewIPAllocator rs (disk_store no_faults) n", unfolded new_allocator,
      OF refl assms(1,2) no_faults_free this assms(4)]
  show ?thesis .
qed

lemma allocator_get_exhausted_witness:
  "alloc_Get (demo_alloc [demo_range, demo_range2]) ''c9'' ''eth0'' [] demo_full = None"
  using allocator_get_exhausted [OF demo_rs_wf(2) demo_full_inv demo_full_none demo_exhausted, where n = 0]
    demo_full_last demo_crossing first_place_To16 [OF demo_rs_wf(2), of "[10, 0, 0, 3]"]
  by simp

text \<open>
  A container that holds an address of the set gets no second one: \<open>Get\<close> fails and changes no
  reservation.
\<close>

theorem allocator_get_no_duplicate:
  assumes "rs_wf rs" and "disk_inv s" and "disk_owner s b = Some k" and "disk_held cid ifn k" and "rs_contains rs b"
  shows "\<exists>e s'. alloc_Get (NewIPAllocator rs (disk_store no_faults) n) cid ifn [] s = Some (Inl e, s')
     \<and> disk_inv s' \<and> disk_owner s' = disk_owner s \<and> disk_last s' = disk_last s"
  using disk.Get_duplicate [of "NewIPAllocator rs (disk_store no_faults) n" no_faults s b k cid ifn] assms by simp

lemma demo_held: "rs_contains [demo_range] (To16 [10, 0, 0, 2])" "disk_held ''x'' ''eth0'' ''x''"
  using demo_at(1) contains_cong [OF To16_To16, of demo_range "[10, 0, 0, 2]"]
  by (simp_all add: rs_contains_iff at_def disk_held_def match_old_def TrimSpace_def trim_left_def is_space_def)

lemma allocator_get_no_duplicate_witness:
  "\<exists>e s'. alloc_Get (demo_alloc [demo_range]) ''x'' ''eth0'' [] demo_full = Some (Inl e, s')"
  using allocator_get_no_duplicate [OF demo_rs_wf(1) demo_full_inv demo_full_taken(1) demo_held(2,1), where n = 0]
  by blast

text \<open>
  C22: on a set of one range, \<open>Get\<close> always returns.
\<close>

theorem allocator_get_terminates:
  assumes "rs_wf [r]" and "disk_inv s"
  shows "\<exists>x s'. alloc_Get (NewIPAllocator [r] (disk_store no_faults) n) cid ifn req s = Some (x, s')"
proof -
  let ?a = "NewIPAllocator [r] (disk_store no_faults) n"
  consider "req \<noteq> []"
    | b k where "req = []" "disk_owner s b = Some k" "disk_held cid ifn k" "rs_contains [r] b"
    | y where "req = []" "disk.holds_none [r] cid ifn s" "at [r] y" "canon (snd y)" "usable (disk_owner s) [r] y"
    | "req = []" "disk.holds_none [r] cid ifn s" "\<And>y. at [r] y \<Longrightarrow> canon (snd y) \<Longrightarrow> \<not> usable (disk_owner s) [r] y"
    unfolding disk.holds_none_def by blast
  then show ?thesis
  proof cases
    case 1
    then show ?thesis by (simp add: alloc_Get_def Let_def split: prod.split)
  next
    case 2
    then show ?thesis using disk.Get_duplicate [of ?a no_faults s b k cid ifn] assms by auto
  next
    case 3
    then show ?thesis using disk.Get_complete [of ?a no_faults s cid ifn y] assms by (auto simp: Let_def)
  next
    case 4
    have "start_index [r] l = 0" "fst (first_place [r] l) = 0" for l
      using first_place_ok(1) [OF assms(1), of l] rs_contains_index(1) [of "[r]" l]
      by (auto simp: start_index_def at_def)
    then show ?thesis using disk.Get_exhausted [of ?a no_faults s cid ifn] 4 assms by auto
  qed
qed

lemma allocator_get_terminates_witness:
  "\<exists>x s'. alloc_Get (demo_alloc [demo_range]) ''c9'' ''eth0'' [] demo_full = Some (x, s')"
  by (rule allocator_get_terminates [OF demo_rs_wf(1) demo_full_inv])

text \<open>
  C20: \<open>Release\<close> leaves no reservation under the tag of the container and its interface, and touches
  only reservations that the container holds.
\<close>

theorem allocator_release:
  assumes "disk_inv s" and "disk_clean cid ifn"
    and "alloc_Release (NewIPAllocator rs (disk_store no_faults) n) cid ifn s = (r, s')"
  shows "r = Inr () \<and> disk_inv s' \<and> (\<forall>b. disk_owner s' b \<noteq> Some (disk_key cid ifn))
    \<and> (\<forall>b. disk_owner s' b = disk_owner s b
         \<or> disk_owner s' b = None \<and> (\<exists>k. disk_owner s b = Some k \<and> disk_held cid ifn k))"
  using disk.Release_effect [OF _ assms(1,3)] assms(2) by simp

lemma allocator_release_witness:
  "\<forall>b. disk_owner (snd (alloc_Release (demo_alloc [demo_range]) ''c1'' ''eth0'' demo_full)) b \<noteq> Some (disk_key ''c1'' ''eth0'')"
proof -
  have "disk_clean ''c1'' ''eth0''"
    by (simp add: disk_clean_def match_new_def TrimSpace_def trim_left_def is_space_def LineBreak_def)
  from allocator_release [OF demo_full_inv this, where rs = "[demo_range]" and n = 0] show ?thesis
    by (metis prod.collapse)
qed

end
