(* ===== verification/Alloc_Config.thy ===== *)
theory Alloc_Config
  imports Alloc_Props
begin

text \<open>
  \<open>plugins/ipam/host-local/backend/allocator/config.go\<close>: the configuration of the host-local plugin.
  The JSON decoder and \<open>types.LoadArgs\<close> are parameters: \<open>decode\<close> maps the bytes to a \<open>net_conf\<close>,
  \<open>load_args\<close> the environment arguments to the requested address (nil when there is none).
\<close>

section \<open>The code\<close>

record ipam_config =
  icRange :: "range option"
  icName :: string
  icType :: string
  icRoutes :: "route list"
  icDataDir :: string
  icResolvConf :: string
  icRanges :: "range_set list"
  icIPArgs :: "ip list"

record net_conf =
  ncName :: string
  ncCNIVersion :: string
  ncIPAM :: "ipam_config option"
  ncIPRanges :: "range_set list"
  ncArgs :: "ip list option option"

text \<open>\<open>types020.SupportedVersions\<close>\<close>

definition SupportedVersions020 :: "string list" where
  "SupportedVersions020 = ['''', ''0.1.0'', ''0.2.0'']"

text \<open>Steps of \<open>LoadIPAMConfig\<close>: the requested addresses, the list of range sets, their validation.\<close>

definition load_ip_args :: "(string \<Rightarrow> ip res) \<Rightarrow> string \<Rightarrow> net_conf \<Rightarrow> ipam_config \<Rightarrow> ip list res" where
  "load_ip_args load_args envArgs n ic =
     bind_res (if envArgs \<noteq> ''''
               then bind_res (load_args envArgs) (\<lambda>a. Inr (if a \<noteq> [] then [a] else icIPArgs ic))
               else Inr (icIPArgs ic)) (\<lambda>ips.
     let ips' = (case ncArgs n of Some (Some l) \<Rightarrow> if length l \<noteq> 0 then ips @ l else ips | _ \<Rightarrow> ips)
     in map_res (\<lambda>a. case canonicalizeIP a of Inl e \<Rightarrow> Inl (Wrap ''cannot understand ip'' e) | Inr b \<Rightarrow> Inr b) ips')"

definition all_ranges :: "net_conf \<Rightarrow> ipam_config \<Rightarrow> range_set list" where
  "all_ranges n ic =
     (let rs = (case icRange ic of
                  Some r \<Rightarrow> if net_ip (Subnet r) \<noteq> [] then [r] # icRanges ic else icRanges ic
                | None \<Rightarrow> icRanges ic)
      in if 0 < length (ncIPRanges n) then ncIPRanges n @ rs else rs)"

text \<open>The validation loop counts the sets of each family.\<close>

fun validate_sets :: "nat \<Rightarrow> nat \<Rightarrow> nat \<Rightarrow> range_set list \<Rightarrow> (range_set list \<times> nat \<times> nat) res" where
  "validate_sets i v4 v6 [] = Inr ([], v4, v6)"
| "validate_sets i v4 v6 (s0 # ss) =
     (case canonicalize_set s0 of
        Inl e \<Rightarrow> Inl (Wrap (''invalid range set '' @ utoa i) e)
      | Inr s \<Rightarrow>
          bind_res (if To4 (RangeStart (s ! 0)) \<noteq> [] then validate_sets (i + 1) (v4 + 1) v6 ss
                    else validate_sets (i + 1) v4 (v6 + 1) ss)
            (\<lambda>(ss', n4, n6). Inr (s # ss', n4, n6)))"

fun sets_overlap_check :: "nat \<Rightarrow> range_set list \<Rightarrow> unit res" where
  "sets_overlap_check i [] = Inr ()"
| "sets_overlap_check i (p1 # ps) =
     (case find (\<lambda>j. rs_overlaps p1 (ps ! j)) [0..<length ps] of
        Some j \<Rightarrow> Inl (Errorf (''range set '' @ utoa i @ '' overlaps with '' @ utoa (i + j + 1)))
      | None \<Rightarrow> sets_overlap_check (i + 1) ps)"

definition LoadIPAMConfig ::
  "(string \<Rightarrow> net_conf res) \<Rightarrow> (string \<Rightarrow> ip res) \<Rightarrow> string \<Rightarrow> string \<Rightarrow> (ipam_config \<times> string) res" where
  "LoadIPAMConfig decode load_args bytes envArgs =
     bind_res (decode bytes) (\<lambda>n.
       case ncIPAM n of
         None \<Rightarrow> Inl (Errorf ''IPAM config missing 'ipam' key'')
       | Some ic \<Rightarrow>
           bind_res (load_ip_args load_args envArgs n ic) (\<lambda>ips.
             let rs0 = all_ranges n ic
             in if rs0 = [] then Inl (Errorf ''no IP ranges specified'')
                else bind_res (validate_sets 0 0 0 rs0) (\<lambda>(rs, numV4, numV6).
                  if (1 < numV4 \<or> 1 < numV6) \<and> ncCNIVersion n \<in> set SupportedVersions020
                  then Inl (Errorf (''CNI version '' @ ncCNIVersion n
                         @ '' does not support more than 1 address per family''))
                  else bind_res (sets_overlap_check 0 rs) (\<lambda>_.
                    Inr (ic\<lparr>icIPArgs := ips, icRange := None, icRanges := rs, icName := ncName n\<rparr>,
                         ncCNIVersion n)))))"

section \<open>Facts\<close>

lemma validate_sets_Inr:
  "validate_sets i v4 v6 ss = Inr (rs, n4, n6) \<Longrightarrow>
     list_all2 (\<lambda>s0 s. canonicalize_set s0 = Inr s) ss rs
     \<and> n4 = v4 + length (filter (\<lambda>s. To4 (RangeStart (s ! 0)) \<noteq> []) rs)
     \<and> n6 = v6 + length (filter (\<lambda>s. To4 (RangeStart (s ! 0)) = []) rs)"
proof (induction ss arbitrary: i v4 v6 rs n4 n6)
  case (Cons s0 ss)
  then obtain s where s: "canonicalize_set s0 = Inr s" by (cases "canonicalize_set s0") auto
  show ?case
  proof (cases "To4 (RangeStart (s ! 0)) \<noteq> []")
    case True
    then obtain rs' where "validate_sets (i + 1) (v4 + 1) v6 ss = Inr (rs', n4, n6)" "rs = s # rs'"
      using Cons.prems s by (auto simp: bind_res_Inr)
    with Cons.IH [OF this(1)] s True show ?thesis by simp
  next
    case False
    then obtain rs' where "validate_sets (i + 1) v4 (v6 + 1) ss = Inr (rs', n4, n6)" "rs = s # rs'"
      using Cons.prems s by (auto simp: bind_res_Inr)
    with Cons.IH [OF this(1)] s False show ?thesis by simp
  qed
qed simp

lemma sets_overlap_check_Inr:
  "sets_overlap_check i ps = Inr () \<Longrightarrow> sorted_wrt (\<lambda>p q. \<not> rs_overlaps p q) ps"
proof (induction ps arbitrary: i)
  case (Cons p ps)
  show ?case
  proof (cases "find (\<lambda>j. rs_overlaps p (ps ! j)) [0..<length ps]")
    case None
    then have "\<forall>j<length ps. \<not> rs_overlaps p (ps ! j)" by (simp add: find_None_iff)
    then have "\<forall>q\<in>set ps. \<not> rs_overlaps p q" by (simp add: all_set_conv_all_nth)
    moreover have "sorted_wrt (\<lambda>p q. \<not> rs_overlaps p q) ps"
      by (rule Cons.IH [of "i + 1"]) (use Cons.prems None in simp)
    ultimately show ?thesis by simp
  next
    case (Some j)
    with Cons.prems show ?thesis by simp
  qed
qed simp

text \<open>
  The two inputs on which \<open>Canonicalize\<close> accepts a range that cannot be walked: a subnet whose first
  byte is zero, and an IPv4 start that is the broadcast address.
\<close>

definition regular :: "range \<Rightarrow> bool" where
  "regular r \<longleftrightarrow> wide (net_ip (Subnet r)) \<and> (length (RangeStart r) = 4 \<longrightarrow> RangeStart r \<noteq> broadcast (Subnet r))"

lemma canonicalize_range_wf: "canonicalize_range r0 = Inr r \<Longrightarrow> regular r \<Longrightarrow> range_wf r"
  using canonicalize_range_iff [of r0 r] by (auto simp: regular_def)

lemma canonicalize_set_rs_wf:
  assumes "canonicalize_set s0 = Inr s" "\<forall>r\<in>set s. regular r"
  shows "rs_wf s"
proof (rule canonicalize_set_wf [OF assms(1)], rule ballI)
  fix r assume r: "r \<in> set s"
  have "canonicalize_ranges None s0 = Inr s" using assms(1) by (simp add: canonicalize_set_Inr)
  note n = canonicalize_ranges_nth [OF this]
  obtain i where "i < length s0" "r = s ! i" using r n by (metis in_set_conv_nth)
  then have "canonicalize_range (s0 ! i) = Inr r" using n by simp
  then show "range_wf r" using canonicalize_range_wf assms(2) r by blast
qed

lemma rs_overlaps_shared:
  assumes "rs_wf p" "rs_wf q" "rs_contains p a" "rs_contains q a"
  shows "rs_overlaps p q"
proof -
  obtain r r1 where r: "r \<in> set p" "range_contains r a" and r1: "r1 \<in> set q" "range_contains r1 a"
    using assms(3,4) unfolding rs_contains_iff by blast
  have w: "range_wf r" "range_wf r1" using assms(1,2) r r1 unfolding rs_wf_def by blast+
  obtain b where "canonicalizeIP a = Inr b"
    using r(2) by (cases "canonicalizeIP a") (simp_all add: range_contains_def)
  then have "canon b" "range_contains r b" "range_contains r1 b"
    using canonicalizeIP_InrD(1) range_contains_canonical r(2) r1(2) by blast+
  then have "range_overlaps r r1" using range_overlaps_interval [OF w] by blast
  then show ?thesis using r(1) r1(1) unfolding rs_overlaps_iff by blast
qed

text \<open>A loaded configuration.\<close>

definition config_ok :: "ipam_config \<Rightarrow> bool" where
  "config_ok c \<longleftrightarrow> icRanges c \<noteq> [] \<and> icRange c = None
     \<and> (\<forall>s\<in>set (icRanges c). rs_wf s) \<and> (\<forall>a\<in>set (icIPArgs c). canon a)
     \<and> (\<forall>i<length (icRanges c). \<forall>j<length (icRanges c). \<forall>a.
          rs_contains (icRanges c ! i) a \<longrightarrow> rs_contains (icRanges c ! j) a \<longrightarrow> i = j)"

lemma load_ip_args_canon:
  assumes "load_ip_args la env n ic = Inr ips"
  shows "\<forall>a\<in>set ips. canon a"
proof -
  let ?f = "\<lambda>a. case canonicalizeIP a of Inl e \<Rightarrow> Inl (Wrap ''cannot understand ip'' e) | Inr b \<Rightarrow> Inr b"
  obtain l where l: "map_res ?f l = Inr ips"
    using assms unfolding load_ip_args_def bind_res_Inr Let_def by blast
  have f: "?f a = Inr b \<Longrightarrow> canon b" for a b
    using canonicalizeIP_InrD(1) [of a b] by (cases "canonicalizeIP a") simp_all
  show ?thesis
  proof
    fix b assume "b \<in> set ips"
    then obtain i where i: "i < length ips" "b = ips ! i" unfolding in_set_conv_nth by blast
    have "?f (l ! i) = Inr b" using map_res_nth [OF l, of i] map_res_length [OF l] i by simp
    then show "canon b" by (rule f)
  qed
qed

lemma LoadIPAMConfig_stages:
  assumes "LoadIPAMConfig decode la bytes env = Inr (c, v)"
  obtains n ic ips rs n4 n6 where "decode bytes = Inr n" "ncIPAM n = Some ic" "load_ip_args la env n ic = Inr ips"
    "all_ranges n ic \<noteq> []" "validate_sets 0 0 0 (all_ranges n ic) = Inr (rs, n4, n6)"
    "\<not> ((1 < n4 \<or> 1 < n6) \<and> ncCNIVersion n \<in> set SupportedVersions020)"
    "sets_overlap_check 0 rs = Inr ()"
    "c = ic\<lparr>icIPArgs := ips, icRange := None, icRanges := rs, icName := ncName n\<rparr>" "v = ncCNIVersion n"
proof -
  from assms obtain n where n: "decode bytes = Inr n"
    by (cases "decode bytes") (simp_all add: LoadIPAMConfig_def)
  with assms obtain ic where ic: "ncIPAM n = Some ic"
    by (cases "ncIPAM n") (simp_all add: LoadIPAMConfig_def)
  with assms n obtain ips where ips: "load_ip_args la env n ic = Inr ips"
    by (cases "load_ip_args la env n ic") (simp_all add: LoadIPAMConfig_def)
  with assms n ic have ne: "all_ranges n ic \<noteq> []"
    by (auto simp: LoadIPAMConfig_def Let_def)
  with assms n ic ips obtain rs n4 n6 where v: "validate_sets 0 0 0 (all_ranges n ic) = Inr (rs, n4, n6)"
    by (cases "validate_sets 0 0 0 (all_ranges n ic)") (auto simp: LoadIPAMConfig_def Let_def)
  with assms n ic ips ne have ver: "\<not> ((1 < n4 \<or> 1 < n6) \<and> ncCNIVersion n \<in> set SupportedVersions020)"
    by (auto simp: LoadIPAMConfig_def Let_def)
  with assms n ic ips ne v have "bind_res (sets_overlap_check 0 rs) (\<lambda>_.
      Inr (ic\<lparr>icIPArgs := ips, icRange := None, icRanges := rs, icName := ncName n\<rparr>, ncCNIVersion n)) = Inr (c, v)"
    by (simp add: LoadIPAMConfig_def Let_def if_not_P del: de_Morgan_disj de_Morgan_conj One_nat_def)
  then show ?thesis using that [OF n ic ips ne v ver] by (auto simp: bind_res_Inr)
qed

lemma LoadIPAMConfig_ok:
  assumes "LoadIPAMConfig decode la bytes env = Inr (c, v)" "\<forall>s\<in>set (icRanges c). \<forall>r\<in>set s. regular r"
  shows "config_ok c"
proof -
  obtain n ic ips rs n4 n6 where st0: "load_ip_args la env n ic = Inr ips" "all_ranges n ic \<noteq> []"
    "validate_sets 0 0 0 (all_ranges n ic) = Inr (rs, n4, n6)" "sets_overlap_check 0 rs = Inr ()"
    "c = ic\<lparr>icIPArgs := ips, icRange := None, icRanges := rs, icName := ncName n\<rparr>"
    using assms(1) by (rule LoadIPAMConfig_stages)
  have fields: "icIPArgs c = ips" "icRange c = None" "icRanges c = rs" using st0(5) by simp_all
  note st = st0(1-4) [folded fields(3)]
  have l2: "list_all2 (\<lambda>s0 s. canonicalize_set s0 = Inr s) (all_ranges n ic) (icRanges c)"
    using validate_sets_Inr [OF st(3)] by simp
  then have ne: "icRanges c \<noteq> []" using st(2) by (cases "icRanges c") auto
  have wf: "\<forall>s\<in>set (icRanges c). rs_wf s"
  proof
    fix s assume s: "s \<in> set (icRanges c)"
    then obtain i where "i < length (icRanges c)" "s = icRanges c ! i" by (metis in_set_conv_nth)
    then have "canonicalize_set (all_ranges n ic ! i) = Inr s" using l2 by (simp add: list_all2_conv_all_nth)
    then show "rs_wf s" using canonicalize_set_rs_wf assms(2) s by blast
  qed
  have "i = j" if "i < length (icRanges c)" "j < length (icRanges c)"
      "rs_contains (icRanges c ! i) a" "rs_contains (icRanges c ! j) a" for i j a
  proof (rule ccontr)
    assume "i \<noteq> j"
    have w: "rs_wf (icRanges c ! i)" "rs_wf (icRanges c ! j)" using wf that(1,2) nth_mem by blast+
    have o: "rs_overlaps (icRanges c ! i) (icRanges c ! j)" "rs_overlaps (icRanges c ! j) (icRanges c ! i)"
      using rs_overlaps_shared w that(3,4) by blast+
    have "sorted_wrt (\<lambda>p q. \<not> rs_overlaps p q) (icRanges c)" by (rule sets_overlap_check_Inr [OF st(4)])
    then show False using sorted_wrt_nth_less that(1,2) o \<open>i \<noteq> j\<close> by (metis linorder_neqE_nat)
  qed
  then show ?thesis
    using ne wf load_ip_args_canon [OF st(1)] fields(1,2) unfolding config_ok_def by blast
qed

lemma LoadIPAMConfig_ranges:
  assumes "LoadIPAMConfig decode la bytes env = Inr (c, v)"
  shows "icRanges c \<noteq> []"
proof -
  obtain n ic ips rs n4 n6 where st: "all_ranges n ic \<noteq> []"
    "validate_sets 0 0 0 (all_ranges n ic) = Inr (rs, n4, n6)"
    "c = ic\<lparr>icIPArgs := ips, icRange := None, icRanges := rs, icName := ncName n\<rparr>"
    using assms by (rule LoadIPAMConfig_stages)
  have "icRanges c = rs" using st(3) by simp
  then show ?thesis using validate_sets_Inr [OF st(2)] st(1) by auto
qed

end
