(* ===== verification/Host_Local.thy ===== *)
theory Host_Local
  imports Alloc_Config "HOL-Library.AList"
begin

text \<open>
  \<open>plugins/ipam/host-local/main.go\<close> and \<open>dns.go\<close>: the commands of the host-local plugin on the data
  directories of the host. Parameters: the decoders of the configuration, the content of
  \<open>resolv.conf\<close>, the failures of the operating system, the order in which Go iterates over the map
  of requested addresses, and the conversion of the result to the version of the caller.
\<close>

section \<open>dns.go\<close>

text \<open>
  \<open>bufio.Scanner\<close> with \<open>ScanLines\<close>: lines without their end, until a line does not fit the buffer
  of 65536 bytes.
\<close>

definition strip_cr :: "string \<Rightarrow> string" where
  "strip_cr l = (if l \<noteq> [] \<and> last l = char_of (13 :: nat) then butlast l else l)"

definition raw_lines :: "string \<Rightarrow> string list" where
  "raw_lines s = (let ls = split_on (char_of (10 :: nat)) s in if last ls = [] then butlast ls else ls)"

definition scan_lines :: "string \<Rightarrow> string list \<times> error option" where
  "scan_lines s =
     (let ls = raw_lines s; good = takeWhile (\<lambda>l. length l < 65536) ls
      in (map strip_cr good, if length good < length ls then Some (Errorf ''bufio.Scanner: token too long'') else None))"

definition resolv_line :: "dns \<Rightarrow> string \<Rightarrow> dns" where
  "resolv_line d line0 =
     (let line = TrimSpace line0
      in if line = [] \<or> hd line = CHR ''#'' \<or> hd line = CHR '';'' then d
         else let fields = Fields line
              in if length fields < 2 then d
                 else if fields ! 0 = ''nameserver'' then d\<lparr>Nameservers := Nameservers d @ [fields ! 1]\<rparr>
                 else if fields ! 0 = ''domain'' then d\<lparr>Domain := fields ! 1\<rparr>
                 else if fields ! 0 = ''search'' then d\<lparr>Search := Search d @ tl fields\<rparr>
                 else if fields ! 0 = ''options'' then d\<lparr>Options := Options d @ tl fields\<rparr>
                 else d)"

definition parseResolvConf :: "(string \<Rightarrow> string res) \<Rightarrow> string \<Rightarrow> dns res" where
  "parseResolvConf read_file filename =
     bind_res (read_file filename) (\<lambda>content.
       case scan_lines content of (ls, err) \<Rightarrow>
         let d = foldl resolv_line empty_dns ls
         in case err of Some e \<Rightarrow> Inl e | None \<Rightarrow> Inr d)"

section \<open>main.go\<close>

record host_env =
  he_decode :: "string \<Rightarrow> net_conf res"
  he_load_args :: "string \<Rightarrow> ip res"
  he_read_file :: "string \<Rightarrow> string res"
  he_mkdir_fault :: "string \<Rightarrow> nat option"
  he_open_fault :: "string \<Rightarrow> nat option"
  he_faults :: os_faults
  he_order :: "nat \<Rightarrow> (string \<times> ip) list \<Rightarrow> (string \<times> ip) list"
  he_print :: "cni_result \<Rightarrow> string \<Rightarrow> error option"

text \<open>The map \<open>requestedIPs\<close>, keyed by the printed address\<close>

definition requested_map :: "ip list \<Rightarrow> (string \<times> ip) list" where
  "requested_map ips = foldl (\<lambda>m a. AList.update (ip_string a) a m) [] ips"

text \<open>The first requested address, in map order, that the range set contains; it leaves the map.\<close>

definition take_requested ::
  "(string \<times> ip) list \<Rightarrow> (string \<times> ip) list \<Rightarrow> range_set \<Rightarrow> ip \<times> (string \<times> ip) list" where
  "take_requested iterated m rs =
     (case find (\<lambda>e. rs_contains rs (snd e)) iterated of
        Some e \<Rightarrow> (snd e, AList.delete (fst e) m)
      | None \<Rightarrow> ([], m))"

text \<open>\<open>for _, alloc := range allocs { _ = alloc.Release(..) }\<close>\<close>

definition release_all :: "disk ip_allocator list \<Rightarrow> string \<Rightarrow> string \<Rightarrow> disk \<Rightarrow> disk" where
  "release_all allocs cid ifn s = foldl (\<lambda>s a. snd (alloc_Release a cid ifn s)) s allocs"

text \<open>The loop over the range sets; \<open>None\<close> when an allocation does not return.\<close>

fun add_loop :: "host_env \<Rightarrow> string \<Rightarrow> string \<Rightarrow> nat \<Rightarrow> range_set list \<Rightarrow> (string \<times> ip) list
    \<Rightarrow> disk ip_allocator list \<Rightarrow> ipconfig list \<Rightarrow> disk
    \<Rightarrow> (((string \<times> ip) list \<times> disk ip_allocator list \<times> ipconfig list) res \<times> disk) option" where
  "add_loop E cid ifn idx [] m allocs ips s = Some (Inr (m, allocs, ips), s)"
| "add_loop E cid ifn idx (rs # rss) m allocs ips s =
     (let a = NewIPAllocator rs (disk_store (he_faults E)) (int idx);
          (requestedIP, m') = take_requested (he_order E idx m) m rs
      in case alloc_Get a cid ifn requestedIP s of
           None \<Rightarrow> None
         | Some (Inl e, s') \<Rightarrow>
             Some (Inl (Wrap (''failed to allocate for range '' @ utoa idx) e), release_all allocs cid ifn s')
         | Some (Inr c, s') \<Rightarrow> add_loop E cid ifn (idx + 1) rss m' (allocs @ [a]) (ips @ [c]) s')"

definition add_store :: "host_env \<Rightarrow> ipam_config \<Rightarrow> string \<Rightarrow> string \<Rightarrow> disk \<Rightarrow> (ipconfig list res \<times> disk) option" where
  "add_store E c cid ifn s =
     (case add_loop E cid ifn 0 (icRanges c) (requested_map (icIPArgs c)) [] [] s of
        None \<Rightarrow> None
      | Some (Inl e, s') \<Rightarrow> Some (Inl e, s')
      | Some (Inr (m, allocs, ips), s') \<Rightarrow>
          if length m \<noteq> 0
          then Some (Inl (Errorf (foldl (\<lambda>t e. t @ '' '' @ ip_string (snd e)) ''failed to allocate all requested IPs:''
                       (he_order E (length (icRanges c)) m))), release_all allocs cid ifn s')
          else Some (Inr ips, s'))"

text \<open>A command runs on the store that \<open>disk.New\<close> opens and closes it at the end.\<close>

definition with_store :: "host_env \<Rightarrow> (disk \<Rightarrow> ('a res \<times> disk) option)
    \<Rightarrow> disk \<Rightarrow> ('a res \<times> disk) option" where
  "with_store E f s =
     map_option (\<lambda>(r, s'). (r, snd (disk_Close (he_faults E) s'))) (f s)"

definition host_cmdAdd :: "host_env \<Rightarrow> cmd_args \<Rightarrow> data_dirs \<Rightarrow> (cni_result res \<times> data_dirs) option" where
  "host_cmdAdd E args w =
     (case LoadIPAMConfig (he_decode E) (he_load_args E) (StdinData args) (CniArgs args) of
        Inl e \<Rightarrow> Some (Inl e, w)
      | Inr (c, confVersion) \<Rightarrow>
        (case (if icResolvConf c \<noteq> '''' then parseResolvConf (he_read_file E) (icResolvConf c) else Inr empty_dns) of
           Inl e \<Rightarrow> Some (Inl e, w)
         | Inr d \<Rightarrow>
           (case disk_New (he_mkdir_fault E) (he_open_fault E) (icName c) (icDataDir c) w of
              (Inl e, w') \<Rightarrow> Some (Inl e, w')
            | (Inr dir, w') \<Rightarrow>
              (case with_store E (add_store E c (ContainerID args) (IfName args)) (the (w' dir)) of
                 None \<Rightarrow> None
               | Some (Inl e, s) \<Rightarrow> Some (Inl e, w'(dir \<mapsto> s))
               | Some (Inr ips, s) \<Rightarrow>
                   let result = empty_result\<lparr>DNS := d, IPs := ips, Routes := icRoutes c\<rparr>
                   in case he_print E result confVersion of
                        Some e \<Rightarrow> Some (Inl e, w'(dir \<mapsto> s))
                      | None \<Rightarrow> Some (Inr result, w'(dir \<mapsto> s))))))"

text \<open>\<open>cmdDel\<close>: every allocator releases, the errors are joined.\<close>

fun del_loop :: "os_faults \<Rightarrow> string \<Rightarrow> string \<Rightarrow> nat \<Rightarrow> range_set list \<Rightarrow> error list \<Rightarrow> disk \<Rightarrow> error list \<times> disk" where
  "del_loop F cid ifn idx [] errs s = (errs, s)"
| "del_loop F cid ifn idx (rs # rss) errs s =
     (case alloc_Release (NewIPAllocator rs (disk_store F) (int idx)) cid ifn s of
        (Inl e, s') \<Rightarrow> del_loop F cid ifn (idx + 1) rss (errs @ [e]) s'
      | (Inr _, s') \<Rightarrow> del_loop F cid ifn (idx + 1) rss errs s')"

definition host_cmdDel :: "host_env \<Rightarrow> cmd_args \<Rightarrow> (data_dirs, unit) io" where
  "host_cmdDel E args w =
     (case LoadIPAMConfig (he_decode E) (he_load_args E) (StdinData args) (CniArgs args) of
        Inl e \<Rightarrow> (Inl e, w)
      | Inr (c, _) \<Rightarrow>
        (case disk_New (he_mkdir_fault E) (he_open_fault E) (icName c) (icDataDir c) w of
           (Inl e, w') \<Rightarrow> (Inl e, w')
         | (Inr dir, w') \<Rightarrow>
           (case del_loop (he_faults E) (ContainerID args) (IfName args) 0 (icRanges c) [] (the (w' dir)) of
              (errs, s) \<Rightarrow>
                (if errs \<noteq> [] then Inl (Errorf ''release failed'') else Inr (),
                 w'(dir \<mapsto> snd (disk_Close (he_faults E) s))))))"

definition host_cmdCheck :: "host_env \<Rightarrow> cmd_args \<Rightarrow> (data_dirs, unit) io" where
  "host_cmdCheck E args w =
     (case LoadIPAMConfig (he_decode E) (he_load_args E) (StdinData args) (CniArgs args) of
        Inl e \<Rightarrow> (Inl e, w)
      | Inr (c, _) \<Rightarrow>
        (case disk_New (he_mkdir_fault E) (he_open_fault E) (icName c) (icDataDir c) w of
           (Inl e, w') \<Rightarrow> (Inl e, w')
         | (Inr dir, w') \<Rightarrow>
           (case disk_FindByID (he_faults E) (ContainerID args) (IfName args) (the (w' dir)) of
              (found, s) \<Rightarrow>
                (if \<not> found then Inl (Errorf (''host-local: Failed to find address added by container ''
                      @ ContainerID args)) else Inr (),
                 w'(dir \<mapsto> snd (disk_Close (he_faults E) s))))))"

section \<open>The requested addresses\<close>

lemma requested_map_distinct: "distinct (map fst (requested_map ips))"
proof -
  have "distinct (map fst m) \<Longrightarrow> distinct (map fst (foldl (\<lambda>m a. AList.update (ip_string a) a m) m ips))"
    for m :: "(string \<times> ip) list"
    by (induction ips arbitrary: m) (simp_all add: distinct_update)
  then show ?thesis by (simp add: requested_map_def)
qed

lemma requested_map_entries:
  assumes "\<forall>a\<in>set ips. canon a" "a \<in> set ips"
  shows "map_of (requested_map ips) (ip_string a) = Some a"
proof -
  have keep: "map_of (foldl (\<lambda>m a. AList.update (ip_string a) a m) m l) (ip_string a) = Some a"
    if "\<forall>b\<in>set l. canon b" "a \<in> set l \<or> map_of m (ip_string a) = Some a" for m and l :: "ip list"
    using that
  proof (induction l arbitrary: m)
    case (Cons b l)
    have "a \<in> set l \<or> map_of (AList.update (ip_string b) b m) (ip_string a) = Some a"
    proof (cases "ip_string b = ip_string a")
      case True
      have "a = b" if "a \<notin> set l"
      proof -
        have "canon b" using Cons.prems(1) by simp
        show ?thesis
        proof (cases "a = b")
          case False
          then have "canon a" using assms by blast
          then show ?thesis using ip_string_canon_inj [of a b] True \<open>canon b\<close> by simp
        qed
      qed
      then show ?thesis using True by (auto simp: update_conv')
    next
      case False
      then show ?thesis using Cons.prems(2) by (auto simp: update_conv')
    qed
    then show ?case using Cons.IH [of "AList.update (ip_string b) b m"] Cons.prems(1) by simp
  qed simp
  show ?thesis unfolding requested_map_def by (rule keep [OF assms(1)]) (simp add: assms(2))
qed

definition order_ok :: "host_env \<Rightarrow> bool" where
  "order_ok E \<longleftrightarrow> (\<forall>i m. set (he_order E i m) = set m)"

lemma take_requested_keeps:
  assumes "take_requested it m rs = (req, m')" "set it = set m" "distinct (map fst m)" "(k, a) \<in> set m"
  shows "(k, a) \<in> set m' \<or> req = a"
proof (cases "find (\<lambda>e. rs_contains rs (snd e)) it")
  case None
  then show ?thesis using assms(1,4) by (simp add: take_requested_def)
next
  case (Some e)
  then have "e \<in> set m" using assms(2) by (auto simp: find_Some_iff)
  moreover have r: "req = snd e" "m' = AList.delete (fst e) m"
    using assms(1) Some by (simp_all add: take_requested_def)
  ultimately show ?thesis
  proof (cases "k = fst e")
    case True
    then have "a = snd e" using assms(3,4) \<open>e \<in> set m\<close>
      by (metis eq_key_imp_eq_value prod.collapse)
    then show ?thesis using r by simp
  next
    case False
    then show ?thesis using assms(4) r by (auto simp: AList.delete_eq)
  qed
qed

lemma take_requested_distinct:
  "take_requested it m rs = (req, m') \<Longrightarrow> distinct (map fst m) \<Longrightarrow> distinct (map fst m')"
  by (auto simp: take_requested_def AList.delete_eq distinct_map_filter split: option.splits)

section \<open>Adding\<close>

abbreviation addr16 :: "ipconfig \<Rightarrow> ip" where
  "addr16 c \<equiv> To16 (net_ip (Address c))"

text \<open>What a run of the loop adds to the store.\<close>

definition added :: "string \<Rightarrow> (ip \<Rightarrow> string option) \<Rightarrow> (ip \<Rightarrow> string option) \<Rightarrow> range_set list \<Rightarrow> ipconfig list \<Rightarrow> bool" where
  "added k own own' rss cs \<longleftrightarrow>
     list_all2 (\<lambda>rs c. \<exists>r\<in>set rs. range_contains r (net_ip (Address c))
         \<and> \<not> ip_equal (net_ip (Address c)) (Gateway r) \<and> net_mask (Address c) = net_mask (Subnet r)
         \<and> IPGateway c = Gateway r) rss cs
     \<and> distinct (map addr16 cs) \<and> (\<forall>c\<in>set cs. own (addr16 c) = None)
     \<and> own' = (\<lambda>b. if b \<in> addr16 ` set cs then Some k else own b)"

lemma added_Nil: "added k own own [] []"
  by (simp add: added_def)

lemma added_Cons:
  assumes "granted own own1 k rs c" "added k own1 own' rss cs"
  shows "added k own own' (rs # rss) (c # cs)"
proof -
  have g: "own (addr16 c) = None" "own1 = own(addr16 c \<mapsto> k)"
    "\<exists>r\<in>set rs. range_contains r (net_ip (Address c)) \<and> \<not> ip_equal (net_ip (Address c)) (Gateway r)
       \<and> net_mask (Address c) = net_mask (Subnet r) \<and> IPGateway c = Gateway r"
    using assms(1) by (simp_all add: granted_def Let_def)
  have "addr16 c \<notin> addr16 ` set cs" using assms(2) g(2) by (auto simp: added_def)
  then show ?thesis using assms(2) g by (auto simp: added_def fun_eq_iff split: if_splits)
qed

lemma add_loop_ok:
  assumes "add_loop E cid ifn idx rss m allocs ips s = Some (Inr (m', allocs', ips'), s')"
    "\<forall>rs\<in>set rss. rs_wf rs" "disk_inv s" "order_ok E" "distinct (map fst m)"
  shows "\<exists>new. ips' = ips @ new \<and> disk_inv s' \<and> added (disk_key cid ifn) (disk_owner s) (disk_owner s') rss new
     \<and> (\<forall>(k, a)\<in>set m. (k, a) \<in> set m' \<or> a = [] \<or> To16 a \<in> addr16 ` set new)"
  using assms
proof (induction rss arbitrary: idx m allocs ips s)
  case Nil
  then show ?case by (auto simp: added_Nil)
next
  case (Cons rs rss)
  let ?a = "NewIPAllocator rs (disk_store (he_faults E)) (int idx)"
  obtain req m1 where t: "take_requested (he_order E idx m) m rs = (req, m1)" by fastforce
  obtain c s1 where g: "alloc_Get ?a cid ifn req s = Some (Inr c, s1)"
    using Cons.prems(1) t by (auto simp: Let_def split: option.splits sum.splits)
  have rec: "add_loop E cid ifn (idx + 1) rss m1 (allocs @ [?a]) (ips @ [c]) s1 = Some (Inr (m', allocs', ips'), s')"
    using Cons.prems(1) t g by (simp add: Let_def)
  have wf: "rs_wf rs" "\<forall>rs\<in>set rss. rs_wf rs" using Cons.prems(2) by simp_all
  have so: "disk_inv s1" "granted (disk_owner s) (disk_owner s1) (disk_key cid ifn) rs c" "req \<noteq> [] \<longrightarrow> addr16 c = To16 req"
    using disk.Get_sound [OF g _ _ Cons.prems(3)] wf(1) by simp_all
  obtain new where new: "ips' = (ips @ [c]) @ new" "disk_inv s'"
    "added (disk_key cid ifn) (disk_owner s1) (disk_owner s') rss new"
    "\<forall>(k, a)\<in>set m1. (k, a) \<in> set m' \<or> a = [] \<or> To16 a \<in> addr16 ` set new"
    using Cons.IH [OF rec wf(2) so(1) Cons.prems(4) take_requested_distinct [OF t Cons.prems(5)]] by blast
  have "(k, a) \<in> set m' \<or> a = [] \<or> To16 a \<in> addr16 ` set (c # new)" if e: "(k, a) \<in> set m" for k a
  proof -
    have "set (he_order E idx m) = set m" using Cons.prems(4) by (simp add: order_ok_def)
    from take_requested_keeps [OF t this Cons.prems(5) e] show ?thesis
    proof
      assume "(k, a) \<in> set m1"
      then have "(k, a) \<in> set m' \<or> a = [] \<or> To16 a \<in> addr16 ` set new" using new(4) by blast
      then show ?thesis by auto
    next
      assume "req = a"
      then show ?thesis using so(3) by (cases "a = []") auto
    qed
  qed
  then show ?case using new(1,2) added_Cons [OF so(2) new(3)] by (intro exI [of _ "c # new"]) auto
qed

text \<open>A failed run gives back what it reserved.\<close>

lemma release_all_effect:
  assumes "disk_inv s" "\<forall>a\<in>set allocs. alloc_store a = disk_store no_faults" "disk_clean cid ifn"
  shows "disk_inv (release_all allocs cid ifn s)
    \<and> (\<forall>b. disk_owner (release_all allocs cid ifn s) b = disk_owner s b
         \<or> disk_owner (release_all allocs cid ifn s) b = None)
    \<and> (allocs \<noteq> [] \<longrightarrow> (\<forall>b. disk_owner (release_all allocs cid ifn s) b \<noteq> Some (disk_key cid ifn)))"
  using assms
proof (induction allocs arbitrary: s rule: rev_induct)
  case Nil
  then show ?case by (simp add: release_all_def)
next
  case (snoc a allocs)
  let ?s = "release_all allocs cid ifn s"
  obtain r s2 where q: "alloc_Release a cid ifn ?s = (r, s2)" by fastforce
  have eq: "release_all (allocs @ [a]) cid ifn s = s2" using q by (simp add: release_all_def)
  have IH: "disk_inv ?s" "\<forall>b. disk_owner ?s b = disk_owner s b \<or> disk_owner ?s b = None"
    using snoc by simp_all
  have st: "alloc_store a = disk_store no_faults" using snoc.prems(2) by simp
  note re = disk.Release_effect [OF st IH(1) q]
  show ?case unfolding eq using re(1,2) re(3) [OF no_faults_free snoc.prems(3)] IH(2) by metis
qed

lemma add_loop_fails:
  assumes "add_loop E cid ifn idx rss m allocs ips s = Some (Inl e, s')" "he_faults E = no_faults"
    "\<forall>rs\<in>set rss. rs_wf rs" "disk_inv s" "disk_clean cid ifn"
    "\<forall>a\<in>set allocs. alloc_store a = disk_store no_faults"
    "\<And>b. own b = None \<Longrightarrow> disk_owner s b = None \<or> (allocs \<noteq> [] \<and> disk_owner s b = Some (disk_key cid ifn))"
    "own b = None"
  shows "disk_inv s' \<and> disk_owner s' b = None"
  using assms(1-7)
proof (induction rss arbitrary: idx m allocs ips s)
  case (Cons rs rss)
  let ?a = "NewIPAllocator rs (disk_store (he_faults E)) (int idx)"
  obtain req m1 where t: "take_requested (he_order E idx m) m rs = (req, m1)" by fastforce
  have wf: "rs_wf rs" "\<forall>rs\<in>set rss. rs_wf rs" using Cons.prems(3) by simp_all
  obtain r s1 where g: "alloc_Get ?a cid ifn req s = Some (r, s1)"
    using Cons.prems(1) t by (auto simp: Let_def split: option.splits sum.splits)
  show ?case
  proof (cases r)
    case (Inl e1)
    have fr: "disk_inv s1" "disk_owner s1 = disk_owner s"
      using disk.Get_error_frame [OF g [unfolded Inl], of no_faults] Cons.prems(2,4) wf(1) by simp_all
    have s': "s' = release_all allocs cid ifn s1" using Cons.prems(1) t g Inl by (simp add: Let_def)
    note re = release_all_effect [OF fr(1) Cons.prems(6) Cons.prems(5)]
    show ?thesis using re Cons.prems(7) [OF assms(8)] unfolding s' fr(2) by metis
  next
    case (Inr c)
    have rec: "add_loop E cid ifn (idx + 1) rss m1 (allocs @ [?a]) (ips @ [c]) s1 = Some (Inl e, s')"
      using Cons.prems(1) t g Inr by (simp add: Let_def)
    have so: "disk_inv s1" "granted (disk_owner s) (disk_owner s1) (disk_key cid ifn) rs c"
      using disk.Get_sound [OF g [unfolded Inr] _ _ Cons.prems(4)] wf(1) by simp_all
    have "disk_owner s1 b' = None \<or> disk_owner s1 b' = Some (disk_key cid ifn)" if "own b' = None" for b'
      using so(2) Cons.prems(7) [OF that] by (auto simp: granted_def Let_def)
    then show ?thesis
      using Cons.IH [OF rec Cons.prems(2) wf(2) so(1) Cons.prems(5)] Cons.prems(2,6) by auto
  qed
qed simp

lemma add_store_ok:
  assumes "add_store E c cid ifn s = Some (Inr ips, s')" "config_ok c" "disk_inv s" "order_ok E"
  shows "disk_inv s' \<and> added (disk_key cid ifn) (disk_owner s) (disk_owner s') (icRanges c) ips
     \<and> (\<forall>a\<in>set (icIPArgs c). To16 a \<in> addr16 ` set ips)"
proof -
  let ?m = "requested_map (icIPArgs c)"
  obtain m allocs where l: "add_loop E cid ifn 0 (icRanges c) ?m [] [] s = Some (Inr (m, allocs, ips), s')" "m = []"
    using assms(1) by (auto simp: add_store_def split: option.splits sum.splits if_splits)
  have wf: "\<forall>rs\<in>set (icRanges c). rs_wf rs" and cn: "\<forall>a\<in>set (icIPArgs c). canon a"
    using assms(2) unfolding config_ok_def by blast+
  have r: "disk_inv s'" "added (disk_key cid ifn) (disk_owner s) (disk_owner s') (icRanges c) ips"
    "\<forall>(k, a)\<in>set ?m. a = [] \<or> To16 a \<in> addr16 ` set ips"
    using add_loop_ok [OF l(1) wf assms(3,4) requested_map_distinct] l(2) by auto
  have "To16 a \<in> addr16 ` set ips" if "a \<in> set (icIPArgs c)" for a
    using map_of_SomeD [OF requested_map_entries [OF cn that]] r(3) canon_nonempty cn that by blast
  with r show ?thesis by blast
qed

lemma add_store_fails:
  assumes "add_store E c cid ifn s = Some (Inl e, s')" "config_ok c" "disk_inv s" "order_ok E"
    "he_faults E = no_faults" "disk_clean cid ifn" "disk_owner s b = None"
  shows "disk_inv s' \<and> disk_owner s' b = None"
proof -
  let ?m = "requested_map (icIPArgs c)"
  have wf: "\<forall>rs\<in>set (icRanges c). rs_wf rs" using assms(2) unfolding config_ok_def by blast
  consider "add_loop E cid ifn 0 (icRanges c) ?m [] [] s = Some (Inl e, s')"
    | m allocs ips s1 where "add_loop E cid ifn 0 (icRanges c) ?m [] [] s = Some (Inr (m, allocs, ips), s1)"
        "s' = release_all allocs cid ifn s1"
    using assms(1) by (auto simp: add_store_def split: option.splits sum.splits if_splits)
  then show ?thesis
  proof cases
    case 1
    show ?thesis
      by (rule add_loop_fails [where own = "disk_owner s", OF 1 assms(5) wf assms(3,6) _ _ assms(7)]) simp_all
  next
    case 2
    have al: "length allocs' = length allocs0 + length rss \<and> (\<forall>a\<in>set allocs'. a \<in> set allocs0 \<or> alloc_store a = disk_store (he_faults E))"
      if "add_loop E cid ifn idx rss m0 allocs0 ips0 s0 = Some (Inr (m, allocs', ips), s1)"
      for idx rss m0 allocs0 ips0 s0 and allocs' :: "disk ip_allocator list"
      using that
    proof (induction rss arbitrary: idx m0 allocs0 ips0 s0)
      case (Cons rs rss)
      then show ?case by (fastforce simp: Let_def split: option.splits sum.splits prod.splits)
    qed simp
    have r: "disk_inv s1" "added (disk_key cid ifn) (disk_owner s) (disk_owner s1) (icRanges c) ips"
      using add_loop_ok [OF 2(1) wf assms(3,4) requested_map_distinct] by auto
    have "\<forall>a\<in>set allocs. alloc_store a = disk_store no_faults" "allocs \<noteq> []"
      using al [OF 2(1)] assms(5,2) by (auto simp: config_ok_def)
    note re = release_all_effect [OF r(1) this(1) assms(6)]
    have "disk_owner s1 b = None \<or> disk_owner s1 b = Some (disk_key cid ifn)"
      using r(2) assms(7) by (auto simp: added_def)
    then show ?thesis using re \<open>allocs \<noteq> []\<close> 2(2) by metis
  qed
qed

section \<open>Deleting and checking\<close>

lemma del_loop_ok:
  assumes "del_loop no_faults cid ifn idx rss errs s = (errs', s')" "disk_inv s" "disk_clean cid ifn"
  shows "disk_inv s' \<and> errs' = errs
    \<and> (\<forall>b. disk_owner s' b = disk_owner s b
         \<or> disk_owner s' b = None \<and> (\<exists>k. disk_owner s b = Some k \<and> disk_held cid ifn k))
    \<and> (rss \<noteq> [] \<longrightarrow> (\<forall>b. disk_owner s' b \<noteq> Some (disk_key cid ifn)))"
  using assms
proof (induction rss arbitrary: idx errs s)
  case (Cons rs rss)
  let ?a = "NewIPAllocator rs (disk_store no_faults) (int idx)"
  obtain r s1 where q: "alloc_Release ?a cid ifn s = (r, s1)" by fastforce
  note re = disk.Release_effect [OF new_allocator(2) Cons.prems(2) q]
  have r: "r = Inr ()" using re(3) [OF no_faults_free Cons.prems(3)] by blast
  then have "del_loop no_faults cid ifn (idx + 1) rss errs s1 = (errs', s')" using Cons.prems(1) q by simp
  note IH = Cons.IH [OF this re(1) Cons.prems(3)]
  show ?case using IH re(2) re(3) [OF no_faults_free Cons.prems(3)] by (metis option.distinct(1))
qed simp

lemma disk_FindByKey_eq:
  assumes "disk_inv s"
  shows "disk_FindByKey F m s = (\<exists>f\<in>set (files s). read_fault F (fst f) = None \<and> TrimSpace (snd f) = m)"
proof -
  have d: "distinct_names (files s)" using assms by (simp add: disk_inv_def)
  have fold: "foldl (\<lambda>found f. case ReadFile F (fst f) s of (Inl _, _) \<Rightarrow> found
        | (Inr data, _) \<Rightarrow> if TrimSpace data = m then True else found) b fs
      = (b \<or> (\<exists>f\<in>set fs. read_fault F (fst f) = None \<and> TrimSpace (snd f) = m))"
    if "set fs \<subseteq> set (files s)" for fs b
    using that
  proof (induction fs arbitrary: b)
    case (Cons f fs)
    then have "map_of (files s) (fst f) = Some (snd f)" using map_of_entry [OF d] by simp
    then show ?case using Cons by (auto simp: ReadFile_def split: option.split)
  qed simp
  show ?thesis unfolding disk_FindByKey_def using fold [of "files s" False] by simp
qed

lemma disk_FindByID_held:
  assumes "disk_inv s" "fault_free F" "disk_owner s b = Some k" "disk_held cid ifn k"
  shows "fst (disk_FindByID F cid ifn s)"
proof -
  obtain c where c: "map_of (files s) (ip_string b) = Some c" "k = TrimSpace c"
    using assms(3) by (auto simp: disk_owner_Some)
  let ?s = "snd (disk_Lock F s)"
  have s: "disk_inv ?s" "files ?s = files s"
    using disk_lock_ops(1) [OF assms(1), of F "fst (disk_Lock F s)" ?s]
    by (simp_all add: disk_Lock_def split: option.split)
  have "(ip_string b, c) \<in> set (files ?s)" using map_of_SomeD [OF c(1)] s(2) by simp
  then have "disk_FindByKey F m ?s" if "k = m" for m
    unfolding disk_FindByKey_eq [OF s(1)] using c(2) that assms(2)
    by (intro bexI [of _ "(ip_string b, c)"]) (simp_all add: fault_free_def no_faults_def)
  then show ?thesis using assms(4) by (auto simp: disk_FindByID_def Let_def disk_held_def)
qed

section \<open>The commands\<close>

definition dir_owner :: "data_dirs \<Rightarrow> string \<Rightarrow> ip \<Rightarrow> string option" where
  "dir_owner w p = (case w p of None \<Rightarrow> (\<lambda>_. None) | Some d \<Rightarrow> disk_owner d)"

definition dirs_inv :: "data_dirs \<Rightarrow> bool" where
  "dirs_inv w \<longleftrightarrow> (\<forall>p d. w p = Some d \<longrightarrow> disk_inv d)"

lemma dir_owner_upd: "dir_owner (w(p \<mapsto> d)) = (dir_owner w)(p := disk_owner d)"
  by (auto simp: dir_owner_def)

lemma dir_owner_at: "w p = Some d \<Longrightarrow> dir_owner w p = disk_owner d"
  by (simp add: dir_owner_def)

lemma dirs_inv_upd: "dirs_inv w \<Longrightarrow> disk_inv d \<Longrightarrow> dirs_inv (w(p \<mapsto> d))"
  by (simp add: dirs_inv_def)

lemma dirs_invD: "dirs_inv w \<Longrightarrow> w p = Some d \<Longrightarrow> disk_inv d"
  by (auto simp: dirs_inv_def)

lemma disk_New_view:
  assumes "disk_New mf opf network dataDir w = (r, w')" "dirs_inv w"
  shows "dirs_inv w'" "dir_owner w' = dir_owner w" "r = Inr dir \<Longrightarrow> w' dir \<noteq> None"
proof -
  have nolock: "ParseIP ''lock'' = []" by (rule ParseIP_none) simp_all
  let ?dir = "path_Join (if dataDir = '''' then defaultDataDir else dataDir) network"
  define d where "d = (case w ?dir of None \<Rightarrow> \<lparr>files = [], flocked = False\<rparr> | Some d \<Rightarrow> d)"
  have i: "disk_inv d"
    using assms(2) by (cases "w ?dir") (auto simp: d_def dirs_inv_def disk_inv_def distinct_names_def)
  have o: "disk_owner d = dir_owner w ?dir"
    by (cases "w ?dir") (auto simp: d_def dir_owner_def disk_owner_def fun_eq_iff)
  have "\<exists>d'. (w' = w \<and> r \<noteq> Inr dir) \<or> (w' = w(?dir \<mapsto> d') \<and> disk_inv d' \<and> disk_owner d' = disk_owner d \<and> (r = Inr dir \<longrightarrow> dir = ?dir))"
    using assms(1) i disk_inv_put [OF i, of "''lock''"] disk_owner_put_other [OF nolock, of _ d] nolock
    by (auto simp: disk_New_def Let_def d_def [symmetric] split: option.splits if_splits)
  then consider "w' = w" "r \<noteq> Inr dir"
    | d' where "w' = w(?dir \<mapsto> d')" "disk_inv d'" "disk_owner d' = disk_owner d" "r = Inr dir \<longrightarrow> dir = ?dir"
    by blast
  then have "dirs_inv w' \<and> dir_owner w' = dir_owner w \<and> (r = Inr dir \<longrightarrow> w' dir \<noteq> None)"
  proof cases
    case 1
    then show ?thesis using assms(2) by simp
  next
    case 2
    then have "dir_owner w' = dir_owner w" using o by (simp add: dir_owner_upd fun_upd_idem)
    then show ?thesis using 2 dirs_inv_upd [OF assms(2) 2(2)] by simp
  qed
  then show "dirs_inv w'" "dir_owner w' = dir_owner w" "r = Inr dir \<Longrightarrow> w' dir \<noteq> None" by blast+
qed

lemma Close_view:
  assumes "disk_inv s"
  shows "disk_inv (snd (disk_Close F s))" "disk_owner (snd (disk_Close F s)) = disk_owner s"
  using disk_lock_ops(2) [OF assms, of F "fst (disk_Close F s)" "snd (disk_Close F s)"]
  by (simp_all add: disk_Close_def)

lemma with_store_Some:
  "with_store E f s = Some (r, s') \<longleftrightarrow> (\<exists>s1. f s = Some (r, s1) \<and> s' = snd (disk_Close (he_faults E) s1))"
  by (auto simp: with_store_def)

text \<open>
  C12: when the host-local \<open>ADD\<close> succeeds, it has reserved one address per configured range set, each
  from its set, with the mask and gateway of its range, all different and all free before; every
  requested address is among them; and no other reservation in any data directory has changed.
\<close>

theorem host_local_add_success:
  assumes "host_cmdAdd E args w = Some (Inr res, w')" and "dirs_inv w" and "order_ok E"
    and "LoadIPAMConfig (he_decode E) (he_load_args E) (StdinData args) (CniArgs args) = Inr (c, v)"
    and "\<forall>s\<in>set (icRanges c). \<forall>r\<in>set s. regular r"
  shows "\<exists>dir. dirs_inv w'
    \<and> added (disk_key (ContainerID args) (IfName args)) (dir_owner w dir) (dir_owner w' dir) (icRanges c) (IPs res)
    \<and> (\<forall>p. p \<noteq> dir \<longrightarrow> dir_owner w' p = dir_owner w p)
    \<and> (\<forall>a\<in>set (icIPArgs c). To16 a \<in> addr16 ` set (IPs res))
    \<and> Routes res = icRoutes c"
proof -
  have ok: "config_ok c" by (rule LoadIPAMConfig_ok [OF assms(4,5)])
  obtain d where d: "(if icResolvConf c \<noteq> '''' then parseResolvConf (he_read_file E) (icResolvConf c)
      else Inr empty_dns) = Inr d"
    using assms(1,4) by (auto simp: host_cmdAdd_def split: sum.splits)
  obtain q w1 where q: "disk_New (he_mkdir_fault E) (he_open_fault E) (icName c) (icDataDir c) w = (q, w1)"
    by fastforce
  obtain dir where dir: "q = Inr dir"
    using assms(1,4) d q by (cases q) (auto simp: host_cmdAdd_def)
  note nv = disk_New_view [OF q assms(2)]
  obtain s0 where s0: "w1 dir = Some s0" using nv(3) dir by blast
  then have i0: "disk_inv s0" "disk_owner s0 = dir_owner w dir"
    using dirs_invD [OF nv(1) s0] dir_owner_at [of w1 dir s0] nv(2) s0 by simp_all
  obtain ips s1 where ws: "with_store E (add_store E c (ContainerID args) (IfName args)) s0 = Some (Inr ips, s1)"
    and res: "res = empty_result\<lparr>DNS := d, IPs := ips, Routes := icRoutes c\<rparr>" and w': "w' = w1(dir \<mapsto> s1)"
    using assms(1,4) d q dir s0 by (auto simp: host_cmdAdd_def Let_def split: option.splits sum.splits)
  obtain s2 where a: "add_store E c (ContainerID args) (IfName args) s0 = Some (Inr ips, s2)"
    and s1: "s1 = snd (disk_Close (he_faults E) s2)"
    using ws by (auto simp: with_store_Some)
  note ao = add_store_ok [OF a ok i0(1) assms(3)]
  have cl: "disk_inv s1" "disk_owner s1 = disk_owner s2"
    using Close_view [of s2] ao s1 by simp_all
  have "dirs_inv w'" "dir_owner w' dir = disk_owner s1" "\<And>p. p \<noteq> dir \<Longrightarrow> dir_owner w' p = dir_owner w p"
    using dirs_inv_upd [OF nv(1) cl(1)] nv(2) by (simp_all add: w' dir_owner_upd)
  then show ?thesis using ao cl(2) i0(2) by (intro exI [of _ dir]) (simp add: res)
qed

text \<open>How an \<open>ADD\<close> whose configuration loads may fail: before the store is opened, while it is, or in the store.\<close>

lemma host_cmdAdd_InlE:
  assumes "host_cmdAdd E args w = Some (Inl e, w')"
    and "LoadIPAMConfig (he_decode E) (he_load_args E) (StdinData args) (CniArgs args) = Inr (c, v)"
    and "disk_New (he_mkdir_fault E) (he_open_fault E) (icName c) (icDataDir c) w = (q, w1)"
    and "\<And>dir. q = Inr dir \<Longrightarrow> w1 dir \<noteq> None"
    and "he_faults E = no_faults" and "\<forall>r v. he_print E r v = None"
  obtains "w' = w" | "w' = w1"
    | dir s0 s1 where "q = Inr dir" "w1 dir = Some s0"
        "add_store E c (ContainerID args) (IfName args) s0 = Some (Inl e, s1)"
        "w' = w1(dir \<mapsto> snd (disk_Close no_faults s1))"
proof (cases "if icResolvConf c \<noteq> '''' then parseResolvConf (he_read_file E) (icResolvConf c) else Inr empty_dns")
  case (Inl x)
  then have "w' = w" using assms(1,2) by (simp add: host_cmdAdd_def)
  then show ?thesis by (rule that(1))
next
  case d: (Inr d)
  show ?thesis
  proof (cases q)
    case (Inl x)
    then have "w' = w1" using assms(1-3) d by (simp add: host_cmdAdd_def)
    then show ?thesis by (rule that(2))
  next
    case dir: (Inr dir)
    then obtain s0 where s0: "w1 dir = Some s0" using assms(4) by auto
    from assms(1-3,5,6) d dir s0 obtain s1 where
      "add_store E c (ContainerID args) (IfName args) s0 = Some (Inl e, s1)"
      "w' = w1(dir \<mapsto> snd (disk_Close no_faults s1))"
      by (auto simp: host_cmdAdd_def Let_def with_store_def split: option.splits sum.splits)
    with dir s0 show ?thesis by (rule that(3))
  qed
qed

text \<open>A failed \<open>ADD\<close> in the store leaves the free addresses free, there and in the other stores.\<close>

lemma add_failure_view:
  assumes "dirs_inv w1" "dir_owner w1 = dir_owner w" "w1 dir = Some s0"
    and "add_store E c cid ifn s0 = Some (Inl e, s1)" "config_ok c" "order_ok E" "he_faults E = no_faults" "disk_clean cid ifn"
  shows "dirs_inv (w1(dir \<mapsto> snd (disk_Close no_faults s1)))
    \<and> (\<forall>p b. dir_owner w p b = None \<longrightarrow> dir_owner (w1(dir \<mapsto> snd (disk_Close no_faults s1))) p b = None)"
proof -
  let ?w' = "w1(dir \<mapsto> snd (disk_Close no_faults s1))"
  have i0: "disk_inv s0" "disk_owner s0 = dir_owner w dir"
    using dirs_invD [OF assms(1,3)] dir_owner_at [of w1 dir s0] assms(2,3) by simp_all
  have n1: "disk_inv s1 \<and> disk_owner s1 b = None" if "disk_owner s0 b = None" for b
    using add_store_fails [OF assms(4,5) i0(1) assms(6-8) that] by blast
  have "disk_owner s0 [] = None" by (simp add: disk_owner_def)
  note cl = Close_view [OF conjunct1 [OF n1 [OF this]], of no_faults]
  have "dirs_inv ?w'" using dirs_inv_upd [OF assms(1) cl(1)] by simp
  moreover have "dir_owner ?w' p b = None" if "dir_owner w p b = None" for p b
    using that n1 [of b] i0(2) cl(2) assms(2) by (cases "p = dir") (simp_all add: dir_owner_upd)
  ultimately show ?thesis by blast
qed


text \<open>
  C23: after a successful \<open>ADD\<close>, \<open>CHECK\<close> with the same arguments succeeds.
\<close>

theorem host_local_check_after_add:
  assumes "host_cmdAdd E args w = Some (Inr res, w')" and "dirs_inv w" and "order_ok E"
    and "he_faults E = no_faults" and "disk_clean (ContainerID args) (IfName args)"
    and "\<forall>c v. LoadIPAMConfig (he_decode E) (he_load_args E) (StdinData args) (CniArgs args) = Inr (c, v)
           \<longrightarrow> (\<forall>s\<in>set (icRanges c). \<forall>r\<in>set s. regular r)"
    and "\<forall>d. he_mkdir_fault E d = None \<and> he_open_fault E d = None"
  shows "fst (host_cmdCheck E args w') = Inr ()"
proof -
  obtain c v where cv: "LoadIPAMConfig (he_decode E) (he_load_args E) (StdinData args) (CniArgs args) = Inr (c, v)"
    using assms(1) by (cases "LoadIPAMConfig (he_decode E) (he_load_args E) (StdinData args) (CniArgs args)")
      (auto simp: host_cmdAdd_def)
  have ok: "config_ok c" using LoadIPAMConfig_ok [OF cv] assms(6) cv by blast
  let ?dir = "path_Join (if icDataDir c = '''' then defaultDataDir else icDataDir c) (icName c)"
  have New: "\<exists>w2. disk_New (he_mkdir_fault E) (he_open_fault E) (icName c) (icDataDir c) w1 = (Inr ?dir, w2)" for w1
    using assms(7) by (simp add: disk_New_def Let_def)
  obtain w1 where q: "disk_New (he_mkdir_fault E) (he_open_fault E) (icName c) (icDataDir c) w = (Inr ?dir, w1)"
    using New by blast
  note nv = disk_New_view [OF q assms(2)]
  obtain s0 where s0: "w1 ?dir = Some s0" using nv(3) by blast
  obtain d where d: "(if icResolvConf c \<noteq> '''' then parseResolvConf (he_read_file E) (icResolvConf c)
      else Inr empty_dns) = Inr d"
    using assms(1) cv by (auto simp: host_cmdAdd_def split: sum.splits)
  obtain ips s2 where a: "add_store E c (ContainerID args) (IfName args) s0 = Some (Inr ips, s2)"
    and w': "w' = w1(?dir \<mapsto> snd (disk_Close no_faults s2))"
    using assms(1,4) cv d q s0 by (auto simp: host_cmdAdd_def Let_def with_store_def split: option.splits sum.splits)
  note ao = add_store_ok [OF a ok dirs_invD [OF nv(1) s0] assms(3)]
  note cl = Close_view [OF conjunct1 [OF ao], of no_faults]
  have i': "dirs_inv w'" unfolding w' by (rule dirs_inv_upd [OF nv(1) cl(1)])
  have own: "dir_owner w' ?dir = disk_owner s2" unfolding w' by (simp add: dir_owner_upd cl(2))
  obtain w2 where q2: "disk_New (he_mkdir_fault E) (he_open_fault E) (icName c) (icDataDir c) w' = (Inr ?dir, w2)"
    using New by blast
  note nv2 = disk_New_view [OF q2 i']
  obtain s3 where s3: "w2 ?dir = Some s3" using nv2(3) by blast
  have "icRanges c \<noteq> []" using ok by (simp add: config_ok_def)
  then obtain cf where "cf \<in> set ips" using ao by (cases ips) (auto simp: added_def)
  then have "disk_owner s2 (addr16 cf) = Some (disk_key (ContainerID args) (IfName args))"
    using ao by (auto simp: added_def)
  then have "disk_owner s3 (addr16 cf) = Some (disk_key (ContainerID args) (IfName args))"
    using own nv2(2) dir_owner_at [of w2 ?dir s3] s3 by simp
  moreover have "disk_held (ContainerID args) (IfName args) (disk_key (ContainerID args) (IfName args))"
    using assms(5) by (simp add: disk_clean_def disk_held_def disk_key_def)
  ultimately have "fst (disk_FindByID no_faults (ContainerID args) (IfName args) s3)"
    by (intro disk_FindByID_held [OF dirs_invD [OF nv2(1) s3]]) simp_all
  then show ?thesis using cv q2 s3 assms(4) by (auto simp: host_cmdCheck_def split: prod.splits)
qed


section \<open>The statements at work\<close>

definition demo_conf :: "ip list \<Rightarrow> net_conf" where
  "demo_conf ips = \<lparr>ncName = ''net1'', ncCNIVersion = ''0.4.0'', ncIPAM = Some \<lparr>icRange = None, icName = '''',
     icType = ''host-local'', icRoutes = [], icDataDir = '''', icResolvConf = '''', icRanges = [[demo_range]],
     icIPArgs = []\<rparr>, ncIPRanges = [], ncArgs = Some (Some ips)\<rparr>"

definition demo_env :: "ip list \<Rightarrow> host_env" where
  "demo_env ips = \<lparr>he_decode = \<lambda>_. Inr (demo_conf ips), he_load_args = \<lambda>_. Inr [], he_read_file = \<lambda>_. Inr '''',
     he_mkdir_fault = \<lambda>_. None, he_open_fault = \<lambda>_. None, he_faults = no_faults, he_order = \<lambda>_ m. m,
     he_print = \<lambda>_ _. None\<rparr>"

definition demo_args :: cmd_args where
  "demo_args = \<lparr>ContainerID = ''c1'', Netns = '''', IfName = ''eth0'', CniArgs = '''', Path = '''', StdinData = ''''\<rparr>"

definition demo_ipam :: "ip list \<Rightarrow> ipam_config" where
  "demo_ipam ips = \<lparr>icRange = None, icName = ''net1'', icType = ''host-local'', icRoutes = [], icDataDir = '''',
     icResolvConf = '''', icRanges = [[demo_range]], icIPArgs = ips\<rparr>"

lemma demo_canonical: "canonicalize_range demo_range = Inr demo_range"
proof -
  have c: "canon [10, 0, 0, 1]" "canon [10, 0, 0, 3]" by (simp_all add: canon_def)
  have "range_contains demo_range [10, 0, 0, 1]" "range_contains demo_range [10, 0, 0, 3]"
    using range_contains_interval [OF demo_range_wf(1) canonicalizeIP_canon [OF c(1)]]
      range_contains_interval [OF demo_range_wf(1) canonicalizeIP_canon [OF c(2)]]
    by (simp_all add: demo_range_def of_bytes_def)
  moreover have "mask_size [255, 255, 255, 248] = (29, 32)"
    by (simp add: mask_size_def simple_mask_length_def mask_bits_def byte_bits_def)
  ultimately show ?thesis
    by (simp add: canonicalize_range_def demo_range_def demo_subnet_def canonicalizeIP_def Let_def ip_mask_same
        ip_and_def canonicalize_gateway_def canonicalize_start_def canonicalize_end_def)
qed

lemma demo_load:
  assumes "\<forall>a\<in>set ips. canon a"
  shows "LoadIPAMConfig (he_decode (demo_env ips)) (he_load_args (demo_env ips)) (StdinData demo_args)
     (CniArgs demo_args) = Inr (demo_ipam ips, ''0.4.0'')"
proof -
  have "canonicalize_set [demo_range] = Inr [demo_range]"
    by (simp add: canonicalize_set_def demo_canonical)
  moreover have "map_res (\<lambda>a. case canonicalizeIP a of Inl e \<Rightarrow> Inl (Wrap ''cannot understand ip'' e) | Inr b \<Rightarrow> Inr b) ips
      = Inr ips"
    using assms by (induction ips) simp_all
  ultimately show ?thesis
    by (cases "ips = []") (simp_all add: LoadIPAMConfig_def demo_env_def demo_conf_def demo_args_def demo_ipam_def
      load_ip_args_def all_ranges_def SupportedVersions020_def Let_def demo_range_def)
qed

lemma demo_regular: "\<forall>s\<in>set (icRanges (demo_ipam ips)). \<forall>r\<in>set s. regular r"
  by (simp add: demo_ipam_def regular_def demo_range_def demo_subnet_def wide_def broadcast_def)

lemma demo_env_ok: "order_ok (demo_env ips)" "he_faults (demo_env ips) = no_faults" "dirs_inv (\<lambda>_. None)"
  "\<forall>d. he_mkdir_fault (demo_env ips) d = None \<and> he_open_fault (demo_env ips) d = None"
  "\<forall>r v. he_print (demo_env ips) r v = None"
  "disk_clean (ContainerID demo_args) (IfName demo_args)"
  by (simp_all add: order_ok_def demo_env_def dirs_inv_def demo_args_def disk_clean_def match_new_def TrimSpace_def
      trim_left_def is_space_def LineBreak_def)

lemma demo_new_disk:
  obtains d where "disk_New (\<lambda>_. None) (\<lambda>_. None) ''net1'' '''' (\<lambda>_. None)
      = (Inr (path_Join defaultDataDir ''net1''), (\<lambda>_. None)(path_Join defaultDataDir ''net1'' \<mapsto> d))"
    "disk_inv d" "disk_owner d = (\<lambda>_. None)"
proof -
  let ?dir = "path_Join defaultDataDir ''net1''"
  obtain w1 where q: "disk_New (\<lambda>_. None) (\<lambda>_. None) ''net1'' '''' (\<lambda>_. None) = (Inr ?dir, w1)"
    by (simp add: disk_New_def Let_def)
  note nv = disk_New_view [OF q demo_env_ok(3)]
  obtain d where d: "w1 ?dir = Some d" using nv(3) by blast
  have "w1 = (\<lambda>_. None)(?dir \<mapsto> d)" using q d by (auto simp: disk_New_def Let_def)
  moreover have "disk_owner d = (\<lambda>_. None)"
    using nv(2) dir_owner_at [of w1 ?dir d] d by (simp add: dir_owner_def)
  ultimately show ?thesis using that q dirs_invD [OF nv(1) d] by simp
qed

lemma demo_get:
  assumes "disk_inv d" "disk_owner d = (\<lambda>_. None)"
  obtains c s where "alloc_Get (demo_alloc [demo_range]) ''c1'' ''eth0'' [] d = Some (Inr c, s)"
proof -
  have "disk.holds_none [demo_range] ''c1'' ''eth0'' d" by (simp add: disk.holds_none_def assms(2))
  moreover have "usable (disk_owner d) [demo_range] (0, [10, 0, 0, 2])"
    using demo_at(3) by (simp add: assms(2) demo_empty)
  ultimately show ?thesis
    using disk.Get_complete [of "demo_alloc [demo_range]" no_faults d "''c1''" "''eth0''" "(0, [10, 0, 0, 2])"]
      demo_rs_wf(1) assms(1) demo_at(1,2) that by (auto simp: Let_def)
qed

lemma demo_add:
  obtains res w' where "host_cmdAdd (demo_env []) demo_args (\<lambda>_. None) = Some (Inr res, w')"
proof -
  obtain d where d: "disk_New (\<lambda>_. None) (\<lambda>_. None) ''net1'' '''' (\<lambda>_. None)
      = (Inr (path_Join defaultDataDir ''net1''), (\<lambda>_. None)(path_Join defaultDataDir ''net1'' \<mapsto> d))"
    "disk_inv d" "disk_owner d = (\<lambda>_. None)" by (rule demo_new_disk)
  obtain c s where g: "alloc_Get (demo_alloc [demo_range]) ''c1'' ''eth0'' [] d = Some (Inr c, s)"
    using demo_get [OF d(2,3)] .
  have "add_store (demo_env []) (demo_ipam []) ''c1'' ''eth0'' d = Some (Inr [c], s)"
    using g by (simp add: add_store_def demo_ipam_def demo_env_def requested_map_def take_requested_def)
  then have "\<exists>res w'. host_cmdAdd (demo_env []) demo_args (\<lambda>_. None) = Some (Inr res, w')"
    using demo_load [of "[]"] d(1) unfolding host_cmdAdd_def
    by (simp add: demo_ipam_def demo_env_def demo_args_def with_store_def)
  then show ?thesis using that by blast
qed

lemma host_local_add_success_witness:
  "\<exists>res w' dir. host_cmdAdd (demo_env []) demo_args (\<lambda>_. None) = Some (Inr res, w')
     \<and> added (disk_key ''c1'' ''eth0'') (\<lambda>_. None) (dir_owner w' dir) [[demo_range]] (IPs res)"
proof -
  obtain res w' where r: "host_cmdAdd (demo_env []) demo_args (\<lambda>_. None) = Some (Inr res, w')" by (rule demo_add)
  have l: "LoadIPAMConfig (he_decode (demo_env [])) (he_load_args (demo_env [])) (StdinData demo_args)
      (CniArgs demo_args) = Inr (demo_ipam [], ''0.4.0'')" by (rule demo_load) simp
  from host_local_add_success [OF r demo_env_ok(3,1) l demo_regular] r show ?thesis
    by (auto simp: demo_ipam_def demo_args_def dir_owner_def)
qed

lemma host_local_check_after_add_witness:
  "\<exists>res w'. host_cmdAdd (demo_env []) demo_args (\<lambda>_. None) = Some (Inr res, w')
     \<and> fst (host_cmdCheck (demo_env []) demo_args w') = Inr ()"
proof -
  obtain res w' where r: "host_cmdAdd (demo_env []) demo_args (\<lambda>_. None) = Some (Inr res, w')" by (rule demo_add)
  have l: "LoadIPAMConfig (he_decode (demo_env [])) (he_load_args (demo_env [])) (StdinData demo_args)
      (CniArgs demo_args) = Inr (demo_ipam [], ''0.4.0'')" by (rule demo_load) simp
  have reg: "\<forall>c v. LoadIPAMConfig (he_decode (demo_env [])) (he_load_args (demo_env [])) (StdinData demo_args)
      (CniArgs demo_args) = Inr (c, v) \<longrightarrow> (\<forall>s\<in>set (icRanges c). \<forall>r\<in>set s. regular r)"
    unfolding l using demo_regular by simp
  from host_local_check_after_add [OF r demo_env_ok(3,1,2,6) reg demo_env_ok(4)] r show ?thesis by blast
qed


text \<open>An \<open>ADD\<close> that reserves an address and then fails: the requested one lies outside the range.\<close>

lemma demo_add_fails:
  obtains e w' where "host_cmdAdd (demo_env [[10, 0, 0, 9]]) demo_args (\<lambda>_. None) = Some (Inl e, w')"
proof -
  obtain d where d: "disk_New (\<lambda>_. None) (\<lambda>_. None) ''net1'' '''' (\<lambda>_. None)
      = (Inr (path_Join defaultDataDir ''net1''), (\<lambda>_. None)(path_Join defaultDataDir ''net1'' \<mapsto> d))"
    "disk_inv d" "disk_owner d = (\<lambda>_. None)" by (rule demo_new_disk)
  obtain c s where g: "alloc_Get (demo_alloc [demo_range]) ''c1'' ''eth0'' [] d = Some (Inr c, s)"
    using demo_get [OF d(2,3)] .
  have cn: "canon [10, 0, 0, 9]" by (simp add: canon_def)
  have "\<not> range_contains demo_range [10, 0, 0, 9]"
    using range_contains_interval [OF demo_range_wf(1) canonicalizeIP_canon [OF cn]]
    by (simp add: demo_range_def of_bytes_def)
  then have nc: "\<not> rs_contains [demo_range] [10, 0, 0, 9]" by (simp add: rs_contains_iff)
  have "\<exists>e s'. add_store (demo_env [[10, 0, 0, 9]]) (demo_ipam [[10, 0, 0, 9]]) ''c1'' ''eth0'' d = Some (Inl e, s')"
    using g nc by (simp add: add_store_def demo_ipam_def demo_env_def requested_map_def take_requested_def)
  then have "\<exists>e w'. host_cmdAdd (demo_env [[10, 0, 0, 9]]) demo_args (\<lambda>_. None) = Some (Inl e, w')"
    using demo_load [of "[[10, 0, 0, 9]]"] d(1) cn unfolding host_cmdAdd_def
    by (auto simp: demo_ipam_def demo_env_def demo_args_def with_store_def)
  then show ?thesis using that by blast
qed


end
