(* ===== verification/Range_Props.thy ===== *)
theory Range_Props
  imports Host_Local
begin

text \<open>
  What the configuration of the host-local plugin guarantees: the address arithmetic of
  \<open>pkg/ip/cidr.go\<close>, the canonical form of a range, the disjointness of the sets. The two inputs on
  which the guarantees fail are exhibited.
\<close>

section \<open>Address arithmetic\<close>

lemma PrevIP_wide:
  assumes "canon a" "wide b" "of_bytes a = of_bytes b + 1" "length a = length b"
  shows "PrevIP a = b"
proof -
  have "PrevIP a = to_bytes (of_bytes b)"
    using assms(1,3) by (simp add: PrevIP_def intToIP_def ipToInt_canon)
  also have "\<dots> = b" using assms(2) by (intro to_of_bytes) (auto simp: wide_def)
  finally show ?thesis .
qed

text \<open>
  On an address whose first byte is not zero and that is not the last of its family, \<open>NextIP\<close>
  is the next address of the family: greater, with nothing between, and \<open>PrevIP\<close> undoes it.
\<close>

theorem next_ip_successor:
  assumes "wide a" and "of_bytes a + 1 < 256 ^ length a"
  shows "wide (NextIP a) \<and> length (NextIP a) = length a \<and> Cmp a (NextIP a) < 0 \<and> PrevIP (NextIP a) = a
    \<and> (\<forall>b. canon b \<longrightarrow> length b = length a \<longrightarrow> Cmp a b < 0 \<longrightarrow> b = NextIP a \<or> Cmp (NextIP a) b < 0)"
proof -
  note n = NextIP_wide [OF assms]
  have c: "canon a" "canon (NextIP a)" using assms(1) n(1) by blast+
  have "b = NextIP a \<or> Cmp (NextIP a) b < 0" if b: "canon b" "length b = length a" "Cmp a b < 0" for b
  proof -
    have "of_bytes (NextIP a) \<le> of_bytes b" using Cmp_canon(1) [OF c(1) b(1)] b(3) n(3) by simp
    moreover have "of_bytes (NextIP a) = of_bytes b \<Longrightarrow> b = NextIP a"
      using of_bytes_inj [of "NextIP a" b] b(2) n(2) by simp
    ultimately show ?thesis using Cmp_canon(1) [OF c(2) b(1)] by fastforce
  qed
  then show ?thesis
    using n c Cmp_canon(1) [OF c] PrevIP_wide [OF c(2) assms(1)] by simp
qed

lemma next_ip_successor_witness: "Cmp [10, 0, 0, 255] (NextIP [10, 0, 0, 255]) < 0 \<and> PrevIP (NextIP [10, 0, 0, 255]) = [10, 0, 0, 255]"
  using next_ip_successor [of "[10, 0, 0, 255]"] by (simp add: wide_def of_bytes_def)

text \<open>
  C15: \<open>NextIP\<close> drops the leading zero bytes of an address: the successor of an IPv6 address whose
  first byte is zero is never a 16-byte address.
\<close>

theorem next_ip_drops_zeros:
  assumes "length a = 16" and "hd a = 0" and "To4 a = []" and "of_bytes a + 1 < 256 ^ 15"
  shows "length (NextIP a) < 16"
proof -
  have "canon a" using assms(1,3) by (auto simp: canon_def To4_def)
  then have "NextIP a = to_bytes (of_bytes a + 1)"
    by (simp add: NextIP_def intToIP_def ipToInt_canon nat_add_distrib)
  then show ?thesis using length_to_bytes_le [OF assms(4)] by simp
qed

definition nat64 :: ip where
  "nat64 = [0, 0x64, 0xff, 0x9b, 0, 0, 0, 0, 0, 0, 0, 0, 0, 0, 0, 0]"

lemma next_ip_drops_zeros_witness: "length (NextIP nat64) < 16"
  by (rule next_ip_drops_zeros) (simp_all add: nat64_def To4_def v4InV6Prefix_def of_bytes_def)

section \<open>Ranges\<close>

text \<open>
  A range that \<open>Canonicalize\<close> accepts, in a subnet whose first byte is not zero, has its start
  and end in the subnet, in order, in canonical form, and the default gateway and start are the first
  address after the network address; the only exception is a start that is the IPv4 broadcast
  address with no end given, which leaves the start after the end.
\<close>

theorem canonicalize_range_spec:
  assumes "canonicalize_range r0 = Inr r" and "wide (net_ip (Subnet r))"
  shows "(range_wf r
       \<longleftrightarrow> \<not> (RangeEnd r0 = [] \<and> length (RangeStart r) = 4 \<and> RangeStart r = broadcast (Subnet r)))
    \<and> (Gateway r0 = [] \<longrightarrow> of_bytes (Gateway r) = of_bytes (net_ip (Subnet r)) + 1)
    \<and> (RangeStart r0 = [] \<longrightarrow> of_bytes (RangeStart r) = of_bytes (net_ip (Subnet r)) + 1)
    \<and> (RangeEnd r0 = [] \<longrightarrow> of_bytes (RangeEnd r) + (if length (RangeEnd r) = 4 then 1 else 0)
         = of_bytes (broadcast (Subnet r)))"
proof -
  obtain sip r1 r2 where st: "canonicalizeIP (net_ip (Subnet r0)) = Inr sip"
    "canonicalize_gateway (r0\<lparr>Subnet := (Subnet r0)\<lparr>net_ip := sip\<rparr>\<rparr>) = Inr r1"
    "canonicalize_start r1 = Inr r2" "canonicalize_end r2 = Inr r"
    "subnet_ok ((Subnet r0)\<lparr>net_ip := sip\<rparr>)"
    using assms(1) by (rule canonicalize_range_InrE)
  note g = canonicalize_gateway_InrD [OF st(2)]
  have keep: "Subnet r = Subnet r1" "Subnet r2 = Subnet r1" "Gateway r = Gateway r1"
    "RangeEnd r2 = RangeEnd r0" "RangeStart r = RangeStart r2"
    using st(3,4) g(2) unfolding canonicalize_start_Inr canonicalize_end_Inr
    by (elim disjE conjE exE; simp)+
  have ok: "subnet_ok (Subnet r)" using st(5) g(3) keep(1) by simp
  note nx = NextIP_subnet(2) [OF ok assms(2)]
  have "of_bytes (Gateway r) = of_bytes (net_ip (Subnet r)) + 1" if "Gateway r0 = []"
    using st(2) that nx keep(1,3) g(3) by (auto simp: canonicalize_gateway_def)
  moreover have "of_bytes (RangeStart r) = of_bytes (net_ip (Subnet r)) + 1" if "RangeStart r0 = []"
    using st(3) that nx keep g(1) unfolding canonicalize_start_Inr by (auto simp: g(3))
  moreover have "of_bytes (RangeEnd r) + (if length (RangeEnd r) = 4 then 1 else 0) = of_bytes (broadcast (Subnet r))"
    if "RangeEnd r0 = []"
  proof -
    have "RangeEnd r = lastIP (Subnet r)"
      using st(4) that keep unfolding canonicalize_end_Inr by auto
    then show ?thesis using lastIP_subnet [OF ok] by (simp add: in_subnet_def)
  qed
  ultimately show ?thesis using canonicalize_range_iff [OF assms] by blast
qed

lemma canonicalize_range_spec_witness: "range_wf demo_range"
  using canonicalize_range_spec [OF demo_canonical demo_range_wf(1) [unfolded range_wf_def, THEN conjunct2, THEN conjunct1]]
  by (simp add: demo_range_def)

definition bcast_range :: range where
  "bcast_range = \<lparr>RangeStart = [10, 0, 0, 255], RangeEnd = [],
     Subnet = \<lparr>net_ip = [10, 0, 0, 0], net_mask = [255, 255, 255, 0]\<rparr>, Gateway = []\<rparr>"

text \<open>
  The exception of C13 occurs: the start 10.0.0.255 in 10.0.0.0/24 is accepted, and the range
  then ends at 10.0.0.254, before it starts, so the cursor leaves the subnet.
\<close>

theorem canonicalize_accepts_broadcast:
  "canonicalize_range bcast_range = Inr (bcast_range\<lparr>RangeEnd := [10, 0, 0, 254], Gateway := [10, 0, 0, 1]\<rparr>)
   \<and> NextIP [10, 0, 0, 255] = [10, 0, 1, 0]"
proof -
  have "mask_size [255, 255, 255, 0] = (24, 32)"
    by (simp add: mask_size_def simple_mask_length_def mask_bits_def byte_bits_def)
  moreover have nx: "NextIP [10, 0, 0, 0] = [10, 0, 0, 1]" "NextIP [10, 0, 0, 255] = [10, 0, 1, 0]"
    by (simp_all add: NextIP_def ipToInt_def intToIP_def of_bytes_def to_bytes.simps)
  moreover have "ipnet_contains \<lparr>net_ip = [10, 0, 0, 0], net_mask = [255, 255, 255, 0]\<rparr> [10, 0, 0, 255]"
    by (simp add: ipnet_contains_def network_number_and_mask_def ip_and_def)
  ultimately show ?thesis
    by (simp add: canonicalize_range_def bcast_range_def canonicalizeIP_def Let_def ip_mask_same
        ip_and_def canonicalize_gateway_def canonicalize_start_def canonicalize_end_def range_contains_def
        Cmp_def lastIP_def broadcast_def)
qed



end
