(* ===== verification/Utils.thy ===== *)
theory Utils
  imports Go_Roundtrip "HOL-Library.AList" "HOL-Library.Char_ord" "HOL-Library.List_Lexorder"
begin

text \<open>
  \<open>pkg/utils\<close>: names and comments (\<open>utils.go\<close>), the idempotent wrappers around \<open>iptables\<close>
  (\<open>iptables.go\<close>), connection tracking (\<open>conntrack.go\<close>), sysctl names (\<open>sysctl_linux.go\<close>) and
  hardware addresses (\<open>hwaddr.go\<close>). The \<open>iptables\<close> client of the library is a record of calls on an
  environment \<open>'w\<close>; SHA-512 and the kernel's connection table are parameters.
\<close>

section \<open>utils.go\<close>

definition maxChainLength :: nat where
  "maxChainLength = 28"

definition chainPrefix :: string where
  "chainPrefix = ''CNI-''"

definition MaxHashLen :: nat where
  "MaxHashLen = 128"

text \<open>\<open>sha\<close> is the SHA-512 sum in hexadecimal. \<open>None\<close> is the panic on an invalid length.\<close>

definition MustFormatHashWithPrefix :: "(string \<Rightarrow> string) \<Rightarrow> nat \<Rightarrow> string \<Rightarrow> string \<Rightarrow> string option" where
  "MustFormatHashWithPrefix sha len prefix toHash =
     (if len \<le> length prefix \<or> MaxHashLen < len then None
      else Some (take len (prefix @ sha toHash)))"

definition MustFormatChainNameWithPrefix ::
  "(string \<Rightarrow> string) \<Rightarrow> string \<Rightarrow> string \<Rightarrow> string \<Rightarrow> string option" where
  "MustFormatChainNameWithPrefix sha name cid prefix =
     MustFormatHashWithPrefix sha maxChainLength (chainPrefix @ prefix) (name @ cid)"

definition FormatChainName :: "(string \<Rightarrow> string) \<Rightarrow> string \<Rightarrow> string \<Rightarrow> string option" where
  "FormatChainName sha name cid = MustFormatChainNameWithPrefix sha name cid ''''"

text \<open>\<open>quote\<close> is \<open>strconv.Quote\<close>, the verb \<open>%q\<close>.\<close>

definition FormatComment :: "(string \<Rightarrow> string) \<Rightarrow> string \<Rightarrow> string \<Rightarrow> string" where
  "FormatComment quote name cid = ''name: '' @ quote name @ '' id: '' @ quote cid"

lemma MustFormatHashWithPrefix_Some:
  assumes "MustFormatHashWithPrefix sha len prefix h = Some s" "length (sha h) = MaxHashLen"
  shows "length s = len" "has_prefix s prefix"
  using assms by (auto simp: MustFormatHashWithPrefix_def has_prefix_def MaxHashLen_def min_def split: if_splits)

section \<open>iptables.go\<close>

record 'w iptables =
  ipt_ListChains :: "string \<Rightarrow> ('w, string list) io"
  ipt_NewChain :: "string \<Rightarrow> string \<Rightarrow> ('w, unit) io"
  ipt_ClearChain :: "string \<Rightarrow> string \<Rightarrow> ('w, unit) io"
  ipt_DeleteChain :: "string \<Rightarrow> string \<Rightarrow> ('w, unit) io"
  ipt_Exists :: "string \<Rightarrow> string \<Rightarrow> string list \<Rightarrow> ('w, bool) io"
  ipt_Insert :: "string \<Rightarrow> string \<Rightarrow> int \<Rightarrow> string list \<Rightarrow> ('w, unit) io"
  ipt_Append :: "string \<Rightarrow> string \<Rightarrow> string list \<Rightarrow> ('w, unit) io"
  ipt_Delete :: "string \<Rightarrow> string \<Rightarrow> string list \<Rightarrow> ('w, unit) io"
  ipt_List :: "string \<Rightarrow> string \<Rightarrow> ('w, string list) io"

text \<open>\<open>eerr, eok := err.(*iptables.Error)\<close>: the exit status and the not-exist flag of an error.\<close>

definition ipt_status :: "error \<Rightarrow> nat option" where
  "ipt_status e = (case e of IptablesError n _ \<Rightarrow> Some n | _ \<Rightarrow> None)"

definition ipt_not_exist :: "error \<Rightarrow> bool" where
  "ipt_not_exist e = (case e of IptablesError _ b \<Rightarrow> b | _ \<Rightarrow> False)"

lemma not_exist_no_panic: "ipt_not_exist e \<Longrightarrow> \<not> is_panic e"
  by (cases e) (simp_all add: ipt_not_exist_def)

definition statusChainExists :: nat where
  "statusChainExists = 1"

definition ChainExists :: "'w iptables option \<Rightarrow> string \<Rightarrow> string \<Rightarrow> ('w, bool) io" where
  "ChainExists ipt table chain =
     (case ipt of
        None \<Rightarrow> fail (Errorf ''failed to check iptable chain: IPTables was nil'')
      | Some t \<Rightarrow> bind_io (ipt_ListChains t table) (\<lambda>chains. ret (list_ex (\<lambda>ch. ch = chain) chains)))"

definition EnsureChain :: "'w iptables option \<Rightarrow> string \<Rightarrow> string \<Rightarrow> ('w, unit) io" where
  "EnsureChain ipt table chain =
     (case ipt of
        None \<Rightarrow> fail (Errorf ''failed to ensure iptable chain: IPTables was nil'')
      | Some t \<Rightarrow>
          bind_io (wrap_io ''failed to list iptables chains'' (ChainExists ipt table chain)) (\<lambda>exists.
            if \<not> exists then
              attempt (ipt_NewChain t table chain) (\<lambda>r.
                case r of
                  Inl e \<Rightarrow> (case ipt_status e of
                              Some n \<Rightarrow> if n \<noteq> statusChainExists then fail e else ret ()
                            | None \<Rightarrow> ret ())
                | Inr _ \<Rightarrow> ret ())
            else ret ()))"

definition DeleteRule :: "'w iptables option \<Rightarrow> string \<Rightarrow> string \<Rightarrow> string list \<Rightarrow> ('w, unit) io" where
  "DeleteRule ipt table chain rulespec =
     (case ipt of
        None \<Rightarrow> fail (Errorf ''failed to ensure iptable chain: IPTables was nil'')
      | Some t \<Rightarrow>
          attempt (ipt_Delete t table chain rulespec) (\<lambda>r.
            case r of
              Inr _ \<Rightarrow> ret ()
            | Inl e \<Rightarrow> if ipt_not_exist e \<or> ipt_status e = Some 2 then ret ()
                       else fail (Wrap (''Failed to delete referring rule '' @ table @ '' '' @ chain) e)))"

definition DeleteChain :: "'w iptables option \<Rightarrow> string \<Rightarrow> string \<Rightarrow> ('w, unit) io" where
  "DeleteChain ipt table chain =
     (case ipt of
        None \<Rightarrow> fail (Errorf ''failed to ensure iptable chain: IPTables was nil'')
      | Some t \<Rightarrow>
          attempt (ipt_DeleteChain t table chain) (\<lambda>r.
            case r of Inr _ \<Rightarrow> ret () | Inl e \<Rightarrow> if ipt_not_exist e then ret () else fail e))"

definition ClearChain :: "'w iptables option \<Rightarrow> string \<Rightarrow> string \<Rightarrow> ('w, unit) io" where
  "ClearChain ipt table chain =
     (case ipt of
        None \<Rightarrow> fail (Errorf ''failed to ensure iptable chain: IPTables was nil'')
      | Some t \<Rightarrow>
          attempt (ipt_ClearChain t table chain) (\<lambda>r.
            case r of
              Inr _ \<Rightarrow> ret ()
            | Inl e \<Rightarrow> if ipt_not_exist e then EnsureChain ipt table chain else fail e))"

section \<open>conntrack.go\<close>

definition PROTOCOL_TCP :: byte where "PROTOCOL_TCP = 6"
definition PROTOCOL_UDP :: byte where "PROTOCOL_UDP = 17"
definition PROTOCOL_SCTP :: byte where "PROTOCOL_SCTP = 132"

datatype conn_filter = OrigDstIP ip | OrigDstPort "16 word"

text \<open>\<open>conntrack_delete isV6 filter proto\<close> is \<open>netlink.ConntrackDeleteFilter\<close> on the connection table.\<close>

type_synonym 'w conntrack = "bool \<Rightarrow> conn_filter \<Rightarrow> byte \<Rightarrow> ('w, nat) io"

definition DeleteConntrackEntriesForDstIP :: "'w conntrack \<Rightarrow> string \<Rightarrow> byte \<Rightarrow> ('w, unit) io" where
  "DeleteConntrackEntriesForDstIP ct dstIP protocol =
     (let a = ParseIP dstIP
      in if a = [] then fail (Errorf ''error deleting connection tracking state, bad IP <nil>'')
         else bind_io (wrap_io ''error deleting connection tracking state for protocol''
                 (ct (To4 a = []) (OrigDstIP a) protocol)) (\<lambda>_. ret ()))"

definition DeleteConntrackEntriesForDstPort :: "'w conntrack \<Rightarrow> 16 word \<Rightarrow> byte \<Rightarrow> bool \<Rightarrow> ('w, unit) io" where
  "DeleteConntrackEntriesForDstPort ct port protocol isV6 =
     bind_io (wrap_io ''error deleting connection tracking state for protocol''
                 (ct isV6 (OrigDstPort port) protocol)) (\<lambda>_. ret ())"

section \<open>What the code relies on of iptables\<close>

text \<open>
  The view of an environment: the rules of every chain of every table, \<open>None\<close> for a chain that does
  not exist. \<open>iptables_ok\<close> states the documented behaviour of the client on it: queries change
  nothing, \<open>-N\<close> fails with status 1 on an existing chain, \<open>-A\<close> and \<open>-I 1\<close> add at the end and at the
  front, \<open>-D\<close> deletes the first equal rule and fails without effect when there is none, \<open>-F\<close> empties (and the client creates a missing chain),
  \<open>-X\<close> removes an empty chain.
\<close>

type_synonym tables = "string \<times> string \<Rightarrow> string list list option"

definition iptables_ok :: "'w iptables \<Rightarrow> ('w \<Rightarrow> tables) \<Rightarrow> bool" where
  "iptables_ok t view \<longleftrightarrow>
     (\<forall>w tb. \<exists>cs. ipt_ListChains t tb w = (Inr cs, w) \<and> set cs = {c. view w (tb, c) \<noteq> None})
   \<and> (\<forall>w tb c. view w (tb, c) = None \<longrightarrow> (\<exists>w'. ipt_NewChain t tb c w = (Inr (), w') \<and> view w' = (view w)((tb, c) \<mapsto> [])))
   \<and> (\<forall>w tb c. \<exists>w'. ipt_ClearChain t tb c w = (Inr (), w') \<and> view w' = (view w)((tb, c) \<mapsto> []))
   \<and> (\<forall>w tb c. view w (tb, c) = Some [] \<longrightarrow>
        (\<exists>w'. ipt_DeleteChain t tb c w = (Inr (), w') \<and> view w' = (view w)((tb, c) := None)))
   \<and> (\<forall>w tb c r rs. view w (tb, c) = Some rs \<longrightarrow> ipt_Exists t tb c r w = (Inr (r \<in> set rs), w))
   \<and> (\<forall>w tb c r rs. view w (tb, c) = Some rs \<longrightarrow>
        (\<exists>w'. ipt_Append t tb c r w = (Inr (), w') \<and> view w' = (view w)((tb, c) \<mapsto> rs @ [r])))
   \<and> (\<forall>w tb c r rs. view w (tb, c) = Some rs \<longrightarrow>
        (\<exists>w'. ipt_Insert t tb c 1 r w = (Inr (), w') \<and> view w' = (view w)((tb, c) \<mapsto> r # rs)))
   \<and> (\<forall>w tb c r rs. view w (tb, c) = Some rs \<longrightarrow> r \<in> set rs \<longrightarrow>
        (\<exists>w'. ipt_Delete t tb c r w = (Inr (), w') \<and> view w' = (view w)((tb, c) \<mapsto> remove1 r rs)))
   \<and> (\<forall>w tb c r. (\<forall>rs. view w (tb, c) = Some rs \<longrightarrow> r \<notin> set rs) \<longrightarrow>
        (\<exists>e. ipt_Delete t tb c r w = (Inl e, w) \<and> ipt_not_exist e))"

lemma iptables_okD:
  assumes "iptables_ok t view"
  shows "\<exists>cs. ipt_ListChains t tb w = (Inr cs, w) \<and> set cs = {c. view w (tb, c) \<noteq> None}"
    "view w (tb, c) = None \<Longrightarrow> \<exists>w'. ipt_NewChain t tb c w = (Inr (), w') \<and> view w' = (view w)((tb, c) \<mapsto> [])"
    "\<exists>w'. ipt_ClearChain t tb c w = (Inr (), w') \<and> view w' = (view w)((tb, c) \<mapsto> [])"
    "view w (tb, c) = Some [] \<Longrightarrow> \<exists>w'. ipt_DeleteChain t tb c w = (Inr (), w') \<and> view w' = (view w)((tb, c) := None)"
    "view w (tb, c) = Some rs \<Longrightarrow> ipt_Exists t tb c r w = (Inr (r \<in> set rs), w)"
    "view w (tb, c) = Some rs \<Longrightarrow> \<exists>w'. ipt_Append t tb c r w = (Inr (), w') \<and> view w' = (view w)((tb, c) \<mapsto> rs @ [r])"
    "view w (tb, c) = Some rs \<Longrightarrow> \<exists>w'. ipt_Insert t tb c 1 r w = (Inr (), w') \<and> view w' = (view w)((tb, c) \<mapsto> r # rs)"
    "view w (tb, c) = Some rs \<Longrightarrow> r \<in> set rs \<Longrightarrow>
       \<exists>w'. ipt_Delete t tb c r w = (Inr (), w') \<and> view w' = (view w)((tb, c) \<mapsto> remove1 r rs)"
    "(\<And>rs. view w (tb, c) = Some rs \<Longrightarrow> r \<notin> set rs) \<Longrightarrow> \<exists>e. ipt_Delete t tb c r w = (Inl e, w) \<and> ipt_not_exist e"
proof -
  note law = assms [unfolded iptables_ok_def]
  note l2 = law [THEN conjunct2] and l3 = law [THEN conjunct2, THEN conjunct2]
  note l4 = l3 [THEN conjunct2] and l5 = l3 [THEN conjunct2, THEN conjunct2]
  note l6 = l5 [THEN conjunct2] and l7 = l5 [THEN conjunct2, THEN conjunct2]
  note l8 = l7 [THEN conjunct2] and l9 = l7 [THEN conjunct2, THEN conjunct2]
  show "\<exists>cs. ipt_ListChains t tb w = (Inr cs, w) \<and> set cs = {c. view w (tb, c) \<noteq> None}"
    by (rule law [THEN conjunct1, rule_format])
  show "view w (tb, c) = None \<Longrightarrow> \<exists>w'. ipt_NewChain t tb c w = (Inr (), w') \<and> view w' = (view w)((tb, c) \<mapsto> [])"
    by (rule l2 [THEN conjunct1, rule_format])
  show "\<exists>w'. ipt_ClearChain t tb c w = (Inr (), w') \<and> view w' = (view w)((tb, c) \<mapsto> [])"
    by (rule l3 [THEN conjunct1, rule_format])
  show "view w (tb, c) = Some [] \<Longrightarrow> \<exists>w'. ipt_DeleteChain t tb c w = (Inr (), w') \<and> view w' = (view w)((tb, c) := None)"
    by (rule l4 [THEN conjunct1, rule_format])
  show "view w (tb, c) = Some rs \<Longrightarrow> ipt_Exists t tb c r w = (Inr (r \<in> set rs), w)"
    by (rule l5 [THEN conjunct1, rule_format])
  show "view w (tb, c) = Some rs \<Longrightarrow> \<exists>w'. ipt_Append t tb c r w = (Inr (), w') \<and> view w' = (view w)((tb, c) \<mapsto> rs @ [r])"
    by (rule l6 [THEN conjunct1, rule_format])
  show "view w (tb, c) = Some rs \<Longrightarrow> \<exists>w'. ipt_Insert t tb c 1 r w = (Inr (), w') \<and> view w' = (view w)((tb, c) \<mapsto> r # rs)"
    by (rule l7 [THEN conjunct1, rule_format])
  show "view w (tb, c) = Some rs \<Longrightarrow> r \<in> set rs \<Longrightarrow>
       \<exists>w'. ipt_Delete t tb c r w = (Inr (), w') \<and> view w' = (view w)((tb, c) \<mapsto> remove1 r rs)"
    by (rule l8 [THEN conjunct1, rule_format])
  show "(\<And>rs. view w (tb, c) = Some rs \<Longrightarrow> r \<notin> set rs) \<Longrightarrow> \<exists>e. ipt_Delete t tb c r w = (Inl e, w) \<and> ipt_not_exist e"
    by (rule l9 [rule_format])
qed

lemma ChainExists_ok:
  assumes "iptables_ok t view"
  shows "ChainExists (Some t) tb c w = (Inr (view w (tb, c) \<noteq> None), w)"
proof -
  obtain cs where cs: "ipt_ListChains t tb w = (Inr cs, w)" "set cs = {c. view w (tb, c) \<noteq> None}"
    using iptables_okD(1) [OF assms] by blast
  have "list_ex (\<lambda>ch. ch = c) cs \<longleftrightarrow> view w (tb, c) \<noteq> None" using cs(2) by (auto simp: list_ex_iff)
  then show ?thesis using cs(1) by (simp add: ChainExists_def bind_io_def ret_def)
qed

lemma EnsureChain_ok:
  assumes "iptables_ok t view"
  shows "\<exists>w'. EnsureChain (Some t) tb c w = (Inr (), w')
     \<and> view w' = (if view w (tb, c) = None then (view w)((tb, c) \<mapsto> []) else view w)"
proof (cases "view w (tb, c)")
  case None
  then obtain w' where "ipt_NewChain t tb c w = (Inr (), w')" "view w' = (view w)((tb, c) \<mapsto> [])"
    using iptables_okD(2) [OF assms] by blast
  then show ?thesis using None
    by (simp add: EnsureChain_def bind_io_def wrap_io_def ChainExists_ok [OF assms] attempt_def ret_def)
next
  case (Some rs)
  then show ?thesis
    by (simp add: EnsureChain_def bind_io_def wrap_io_def ChainExists_ok [OF assms] ret_def)
qed

text \<open>\<open>AppendUnique\<close> of the client: \<open>Exists\<close>, then \<open>Append\<close>.\<close>

definition AppendUnique :: "'w iptables \<Rightarrow> string \<Rightarrow> string \<Rightarrow> string list \<Rightarrow> ('w, unit) io" where
  "AppendUnique t table chain rulespec =
     bind_io (ipt_Exists t table chain rulespec) (\<lambda>exists.
       if \<not> exists then ipt_Append t table chain rulespec else ret ())"

section \<open>Calls that leave a part of the environment alone\<close>

text \<open>
  Two clients (IPv4 and IPv6) act on one environment. \<open>undisturbed t f\<close>: no call of \<open>t\<close> changes the
  part \<open>f\<close> of it; then no program built from calls of \<open>t\<close> does.
\<close>

definition leaves :: "('w \<Rightarrow> 'b) \<Rightarrow> ('w, 'a) io \<Rightarrow> bool" where
  "leaves f m \<longleftrightarrow> (\<forall>w. f (snd (m w)) = f w)"

named_theorems leaves_intros

lemma leavesD: "leaves f m \<Longrightarrow> m w = (r, w') \<Longrightarrow> f w' = f w"
  by (metis leaves_def snd_conv)

lemma leaves_ret [leaves_intros]: "leaves f (ret x)" and leaves_fail [leaves_intros]: "leaves f (fail e)"
  by (simp_all add: leaves_def ret_def fail_def)

lemma leaves_bind [leaves_intros]: "leaves f m \<Longrightarrow> (\<And>x. leaves f (g x)) \<Longrightarrow> leaves f (bind_io m g)"
  unfolding leaves_def bind_io_def by (auto split: prod.splits sum.splits) (metis snd_conv)+

lemma leaves_attempt [leaves_intros]: "leaves f m \<Longrightarrow> (\<And>r. leaves f (g r)) \<Longrightarrow> leaves f (attempt m g)"
  unfolding leaves_def attempt_def by (auto split: prod.splits sum.splits) (metis snd_conv)+

lemma leaves_wrap [leaves_intros]: "leaves f m \<Longrightarrow> leaves f (wrap_io s m)"
  unfolding leaves_def wrap_io_def by (auto split: prod.splits sum.splits) (metis snd_conv)+

lemma leaves_each [leaves_intros]: "(\<And>x. leaves f (g x)) \<Longrightarrow> leaves f (each_io g xs)"
  by (induction xs) (auto intro!: leaves_intros)

lemma leaves_if [leaves_intros]: "leaves f m \<Longrightarrow> leaves f n \<Longrightarrow> leaves f (if b then m else n)"
  by simp

lemma leaves_sum [leaves_intros]: "(\<And>x. leaves f (m x)) \<Longrightarrow> (\<And>y. leaves f (n y)) \<Longrightarrow> leaves f (case r of Inl x \<Rightarrow> m x | Inr y \<Rightarrow> n y)"
  by (cases r) simp_all

lemma leaves_option [leaves_intros]: "leaves f m \<Longrightarrow> (\<And>y. leaves f (n y)) \<Longrightarrow> leaves f (case r of None \<Rightarrow> m | Some y \<Rightarrow> n y)"
  by (cases r) simp_all

definition undisturbed :: "'w iptables \<Rightarrow> ('w \<Rightarrow> 'b) \<Rightarrow> bool" where
  "undisturbed t f \<longleftrightarrow>
     (\<forall>tb. leaves f (ipt_ListChains t tb)) \<and> (\<forall>tb c. leaves f (ipt_NewChain t tb c))
   \<and> (\<forall>tb c. leaves f (ipt_ClearChain t tb c)) \<and> (\<forall>tb c. leaves f (ipt_DeleteChain t tb c))
   \<and> (\<forall>tb c r. leaves f (ipt_Exists t tb c r)) \<and> (\<forall>tb c i r. leaves f (ipt_Insert t tb c i r))
   \<and> (\<forall>tb c r. leaves f (ipt_Append t tb c r)) \<and> (\<forall>tb c r. leaves f (ipt_Delete t tb c r))
   \<and> (\<forall>tb c. leaves f (ipt_List t tb c))"

lemma leaves_EnsureChain [leaves_intros]: "undisturbed t f \<Longrightarrow> leaves f (EnsureChain (Some t) tb c)"
  unfolding EnsureChain_def ChainExists_def option.case
  by (intro leaves_intros) (simp_all add: undisturbed_def)

lemma leaves_AppendUnique [leaves_intros]: "undisturbed t f \<Longrightarrow> leaves f (AppendUnique t tb c r)"
  unfolding AppendUnique_def by (intro leaves_intros) (simp_all add: undisturbed_def)

text \<open>
  The listing of a chain: a header and one line per rule, which the shell-word parser reads back as
  \<open>-A chain rule\<close>, and which ends with \<open>-j name\<close> when the rule jumps to \<open>name\<close>. The law speaks of
  the rules of a chain that are \<open>readable\<close>, a parameter: those whose printed form the parser understands.
\<close>

definition jumps_to :: "string list \<Rightarrow> string \<Rightarrow> bool" where
  "jumps_to r name \<longleftrightarrow> 2 \<le> length r \<and> drop (length r - 2) r = [''-j'', name]"

definition lists_rule :: "(string \<Rightarrow> string list res) \<Rightarrow> string \<Rightarrow> string \<Rightarrow> string \<Rightarrow> string list \<Rightarrow> bool" where
  "lists_rule parse name c line r \<longleftrightarrow>
     parse line = Inr (''-A'' # c # r) \<and> has_suffix line (''-j '' @ name) = jumps_to r name"

definition listing_ok ::
  "'w iptables \<Rightarrow> (string \<Rightarrow> string list res) \<Rightarrow> ('w \<Rightarrow> tables) \<Rightarrow> string \<Rightarrow> (string \<Rightarrow> string list \<Rightarrow> bool) \<Rightarrow> bool" where
  "listing_ok t parse view name readable \<longleftrightarrow>
     (\<forall>w tb c rs. view w (tb, c) = Some rs \<longrightarrow> list_all (readable c) rs \<longrightarrow>
        (\<exists>hd lines. ipt_List t tb c w = (Inr (hd # lines), w) \<and> list_all2 (lists_rule parse name c) lines rs))"

text \<open>A client that satisfies the laws: the tables as an association list.\<close>

type_synonym table_list = "((string \<times> string) \<times> string list list) list"

definition table_client :: "table_list iptables" where
  "table_client =
     (let missing = Inl (IptablesError 1 True)
      in \<lparr>ipt_ListChains = \<lambda>tb w. (Inr (map (snd \<circ> fst) (filter (\<lambda>e. fst (fst e) = tb) w)), w),
     ipt_NewChain = \<lambda>tb c w. if map_of w (tb, c) = None then (Inr (), AList.update (tb, c) [] w)
        else (Inl (IptablesError 1 False), w),
     ipt_ClearChain = \<lambda>tb c w. (Inr (), AList.update (tb, c) [] w),
     ipt_DeleteChain = \<lambda>tb c w. if map_of w (tb, c) = Some [] then (Inr (), AList.delete (tb, c) w) else (missing, w),
     ipt_Exists = \<lambda>tb c r w. (case map_of w (tb, c) of None \<Rightarrow> (Inl (IptablesError 1 True), w) | Some rs \<Rightarrow> (Inr (r \<in> set rs), w)),
     ipt_Insert = \<lambda>tb c i r w. (case map_of w (tb, c) of None \<Rightarrow> (missing, w)
        | Some rs \<Rightarrow> (Inr (), AList.update (tb, c) (r # rs) w)),
     ipt_Append = \<lambda>tb c r w. (case map_of w (tb, c) of None \<Rightarrow> (missing, w)
        | Some rs \<Rightarrow> (Inr (), AList.update (tb, c) (rs @ [r]) w)),
     ipt_Delete = \<lambda>tb c r w. (case map_of w (tb, c) of None \<Rightarrow> (missing, w)
        | Some rs \<Rightarrow> if r \<in> set rs then (Inr (), AList.update (tb, c) (remove1 r rs) w) else (missing, w)),
     ipt_List = \<lambda>tb c w. (case map_of w (tb, c) of None \<Rightarrow> (Inl (IptablesError 1 True), w)
        | Some rs \<Rightarrow> (Inr ((''-N '' @ c) # map (\<lambda>r. join '' '' (''-A'' # c # r)) rs), w))\<rparr>)"

lemma table_client_ok: "iptables_ok table_client map_of"
proof -
  have dom: "map_of w (tb, c) \<noteq> None \<longleftrightarrow> c \<in> set (map (snd \<circ> fst) (filter (\<lambda>e. fst (fst e) = tb) w))"
    for w :: table_list and tb c
    by (induction w) auto
  have "set (map (snd \<circ> fst) (filter (\<lambda>e. fst (fst e) = tb) w)) = {c. map_of w (tb, c) \<noteq> None}"
    for w :: table_list and tb
    using dom by blast
  then show ?thesis
    unfolding iptables_ok_def
    by (auto simp: table_client_def Let_def ipt_not_exist_def update_conv' delete_conv' split: option.splits)
qed

end
