(* ===== verification/Portmap_Chain.thy ===== *)
theory Portmap_Chain
  imports Utils
begin

text \<open>
  \<open>plugins/meta/portmap/chain.go\<close>: a chain with the rules it holds and the rules that point to it. The
  lemmas compute the tables after \<open>setup\<close> and \<open>teardown\<close> under the laws of \<open>Utils\<close>.
\<close>

section \<open>The code\<close>

record chain =
  ch_table :: string
  ch_name :: string
  entryChains :: "string list"
  entryRules :: "string list list"
  ch_rules :: "string list list"
  prependEntry :: bool

definition insertUnique :: "'w iptables \<Rightarrow> string \<Rightarrow> string \<Rightarrow> bool \<Rightarrow> string list \<Rightarrow> ('w, unit) io" where
  "insertUnique t table chain prepend rule =
     bind_io (ipt_Exists t table chain rule) (\<lambda>exists.
       if exists then ret ()
       else if prepend then ipt_Insert t table chain 1 rule
       else ipt_Append t table chain rule)"

definition chain_setup :: "chain \<Rightarrow> 'w iptables \<Rightarrow> ('w, unit) io" where
  "chain_setup c t =
     bind_io (EnsureChain (Some t) (ch_table c) (ch_name c)) (\<lambda>_.
     bind_io (each_io (insertUnique t (ch_table c) (ch_name c) False) (ch_rules c)) (\<lambda>_.
     each_io (\<lambda>entryChain.
       each_io (\<lambda>rule. insertUnique t (ch_table c) entryChain (prependEntry c) (rule @ [''-j'', ch_name c]))
         (entryRules c)) (entryChains c)))"

text \<open>The rules of one entry chain that jump to the chain are deleted one by one.\<close>

definition delete_entry :: "chain \<Rightarrow> 'w iptables \<Rightarrow> (string \<Rightarrow> string list res) \<Rightarrow> string \<Rightarrow> string \<Rightarrow> ('w, unit) io" where
  "delete_entry c t parse entryChain entryChainRule =
     (if has_suffix entryChainRule (''-j '' @ ch_name c) then
        (case parse entryChainRule of
           Inl e \<Rightarrow> fail (Wrap (''error parsing iptables rule: '' @ entryChainRule) e)
         | Inr chainParts \<Rightarrow>
             if length chainParts < 2 then fail (Panic ''slice bounds out of range [2:]'')
             else DeleteRule (Some t) (ch_table c) entryChain (drop 2 chainParts))
      else ret ())"

definition delete_entries :: "chain \<Rightarrow> 'w iptables \<Rightarrow> (string \<Rightarrow> string list res) \<Rightarrow> string \<Rightarrow> ('w, unit) io" where
  "delete_entries c t parse entryChain =
     attempt (ipt_List t (ch_table c) entryChain) (\<lambda>r.
       case r of
         Inl _ \<Rightarrow> ret ()
       | Inr rs \<Rightarrow> if length rs < 1 then ret () else each_io (delete_entry c t parse entryChain) (tl rs))"

definition chain_teardown :: "chain \<Rightarrow> 'w iptables \<Rightarrow> (string \<Rightarrow> string list res) \<Rightarrow> ('w, unit) io" where
  "chain_teardown c t parse =
     bind_io (ClearChain (Some t) (ch_table c) (ch_name c)) (\<lambda>_.
     bind_io (each_io (delete_entries c t parse) (entryChains c)) (\<lambda>_.
     DeleteChain (Some t) (ch_table c) (ch_name c)))"

definition checkRule :: "'w iptables \<Rightarrow> string \<Rightarrow> string \<Rightarrow> string list \<Rightarrow> 'w \<Rightarrow> bool \<times> 'w" where
  "checkRule t table chain rule w =
     (case ipt_Exists t table chain rule w of (Inl _, w') \<Rightarrow> (False, w') | (Inr b, w') \<Rightarrow> (b, w'))"

definition require_rule :: "'w iptables \<Rightarrow> string \<Rightarrow> string \<Rightarrow> string list \<Rightarrow> ('w, unit) io" where
  "require_rule t table chain rule w =
     (case checkRule t table chain rule w of
        (match, w') \<Rightarrow> (if \<not> match then Inl (Errorf (''rule in chain '' @ chain @ '' not found in table '' @ table))
                      else Inr (), w'))"

definition chain_check :: "chain \<Rightarrow> 'w iptables \<Rightarrow> ('w, unit) io" where
  "chain_check c t =
     bind_io (ChainExists (Some t) (ch_table c) (ch_name c)) (\<lambda>exists.
       if \<not> exists then fail (Errorf (''chain '' @ ch_name c @ '' not found in iptables table '' @ ch_table c))
       else
         bind_io (each_io (require_rule t (ch_table c) (ch_name c)) (rev (ch_rules c))) (\<lambda>_.
         each_io (\<lambda>entryChain.
           each_io (\<lambda>rule. require_rule t (ch_table c) entryChain (rule @ [''-j'', ch_name c])) (rev (entryRules c)))
           (entryChains c)))"

section \<open>Setup\<close>

definition add_unique :: "bool \<Rightarrow> string list \<Rightarrow> string list list \<Rightarrow> string list list" where
  "add_unique prepend r rs = (if r \<in> set rs then rs else if prepend then r # rs else rs @ [r])"

definition vput :: "bool \<Rightarrow> string \<Rightarrow> string \<Rightarrow> string list \<Rightarrow> tables \<Rightarrow> tables" where
  "vput prepend tb c r v = v((tb, c) := map_option (add_unique prepend r) (v (tb, c)))"

definition has_rule :: "string \<Rightarrow> tables \<Rightarrow> string \<Rightarrow> string list \<Rightarrow> bool" where
  "has_rule tb v c r \<longleftrightarrow> (\<exists>rs. v (tb, c) = Some rs \<and> r \<in> set rs)"

lemma insertUnique_ok:
  assumes "iptables_ok t view" "(tb, c) \<in> dom (view w)"
  shows "\<exists>w'. insertUnique t tb c p r w = (Inr (), w') \<and> view w' = vput p tb c r (view w)"
proof -
  obtain rs where rs: "view w (tb, c) = Some rs" using assms(2) by blast
  note ex = iptables_okD(5) [OF assms(1) rs, of r]
  obtain wa where wa: "ipt_Append t tb c r w = (Inr (), wa)" "view wa = (view w)((tb, c) \<mapsto> rs @ [r])"
    using iptables_okD(6) [OF assms(1) rs] by blast
  obtain wi where wi: "ipt_Insert t tb c 1 r w = (Inr (), wi)" "view wi = (view w)((tb, c) \<mapsto> r # rs)"
    using iptables_okD(7) [OF assms(1) rs] by blast
  show ?thesis
    using rs wa wi by (auto simp: insertUnique_def bind_io_def ex ret_def vput_def add_unique_def fun_upd_idem)
qed

lemma vput_dom [simp]: "dom (vput p tb c r v) = dom v"
  by (auto simp: vput_def dom_def)

lemma fold_vput_dom [simp]: "dom (fold (vput p tb c) rs v) = dom v"
  by (induction rs arbitrary: v) simp_all

lemma each_insert:
  assumes "iptables_ok t view" "(tb, c) \<in> dom (view w)"
  shows "\<exists>w'. each_io (\<lambda>r. insertUnique t tb c p (f r)) rs w = (Inr (), w')
     \<and> view w' = fold (vput p tb c) (map f rs) (view w)"
  using assms(2)
proof (induction rs arbitrary: w)
  case (Cons r rs)
  obtain w1 where w1: "insertUnique t tb c p (f r) w = (Inr (), w1)" "view w1 = vput p tb c (f r) (view w)"
    using insertUnique_ok [OF assms(1) Cons.prems] by blast
  have "(tb, c) \<in> dom (view w1)" using Cons.prems by (simp add: w1(2))
  from Cons.IH [OF this] show ?case using w1 by (simp add: bind_io_def)
qed (simp add: ret_def)

text \<open>The tables after \<open>setup\<close>.\<close>

definition entry_view :: "chain \<Rightarrow> tables \<Rightarrow> tables" where
  "entry_view c = fold (\<lambda>ec. fold (vput (prependEntry c) (ch_table c) ec)
     (map (\<lambda>r. r @ [''-j'', ch_name c]) (entryRules c))) (entryChains c)"

definition setup_view :: "chain \<Rightarrow> tables \<Rightarrow> tables" where
  "setup_view c v =
     entry_view c (fold (vput False (ch_table c) (ch_name c)) (ch_rules c)
       (if v (ch_table c, ch_name c) = None then v((ch_table c, ch_name c) \<mapsto> []) else v))"

lemma each_entry:
  assumes "iptables_ok t view" "\<forall>ec\<in>set ecs. (tb, ec) \<in> dom (view w)"
  shows "\<exists>w'. each_io (\<lambda>ec. each_io (\<lambda>r. insertUnique t tb ec p (f r)) rs) ecs w = (Inr (), w')
     \<and> view w' = fold (\<lambda>ec. fold (vput p tb ec) (map f rs)) ecs (view w)"
  using assms(2)
proof (induction ecs arbitrary: w)
  case (Cons ec ecs)
  obtain w1 where w1: "each_io (\<lambda>r. insertUnique t tb ec p (f r)) rs w = (Inr (), w1)"
    "view w1 = fold (vput p tb ec) (map f rs) (view w)"
    using each_insert [OF assms(1), of tb ec w p f rs] Cons.prems by auto
  have "\<forall>ec\<in>set ecs. (tb, ec) \<in> dom (view w1)" using Cons.prems by (simp add: w1(2))
  from Cons.IH [OF this] show ?case using w1 by (simp add: bind_io_def)
qed (simp add: ret_def)

lemma chain_setup_view:
  assumes "iptables_ok t view" "\<forall>ec\<in>set (entryChains c). (ch_table c, ec) \<in> dom (view w)"
  shows "\<exists>w'. chain_setup c t w = (Inr (), w') \<and> view w' = setup_view c (view w)"
proof -
  let ?n = "(ch_table c, ch_name c)"
  obtain w1 where w1: "EnsureChain (Some t) (ch_table c) (ch_name c) w = (Inr (), w1)"
    "view w1 = (if view w ?n = None then (view w)(?n \<mapsto> []) else view w)"
    using EnsureChain_ok [OF assms(1)] by blast
  then have "?n \<in> dom (view w1)" by (auto split: if_splits)
  from each_insert [OF assms(1) this, of False "\<lambda>r. r" "ch_rules c"]
  obtain w2 where w2: "each_io (insertUnique t (ch_table c) (ch_name c) False) (ch_rules c) w1 = (Inr (), w2)"
    "view w2 = fold (vput False (ch_table c) (ch_name c)) (ch_rules c) (view w1)" by auto
  have "\<forall>ec\<in>set (entryChains c). (ch_table c, ec) \<in> dom (view w2)"
    using assms(2) by (simp add: w2(2) w1(2))
  from each_entry [OF assms(1) this, of "prependEntry c" "\<lambda>r. r @ [''-j'', ch_name c]" "entryRules c"]
  obtain w3 where "each_io (\<lambda>ec. each_io (\<lambda>r. insertUnique t (ch_table c) ec (prependEntry c) (r @ [''-j'', ch_name c]))
      (entryRules c)) (entryChains c) w2 = (Inr (), w3)" "view w3 = entry_view c (view w2)"
    unfolding entry_view_def by blast
  then show ?thesis using w1 w2 by (simp add: chain_setup_def bind_io_def setup_view_def)
qed

subsection \<open>Setup adds what is missing and nothing else\<close>

lemma add_unique_set: "set (add_unique p r rs) = insert r (set rs)"
  by (auto simp: add_unique_def)

lemma has_rule_vput: "has_rule tb v c r \<Longrightarrow> has_rule tb (vput p tb c' r' v) c r"
  by (auto simp: has_rule_def vput_def add_unique_set)

lemma has_rule_put: "(tb, c) \<in> dom v \<Longrightarrow> has_rule tb (vput p tb c r v) c r"
  by (auto simp: has_rule_def vput_def add_unique_set)

lemma vput_idem: "has_rule tb v c r \<Longrightarrow> vput p tb c r v = v"
  by (auto simp: has_rule_def vput_def add_unique_def fun_upd_idem)

lemma has_rule_fold: "has_rule tb v c r \<Longrightarrow> has_rule tb (fold (vput p tb c') rs v) c r"
  by (induction rs arbitrary: v) (simp_all add: has_rule_vput)

lemma has_rule_fold_new: "(tb, c) \<in> dom v \<Longrightarrow> r \<in> set rs \<Longrightarrow> has_rule tb (fold (vput p tb c) rs v) c r"
proof (induction rs arbitrary: v)
  case (Cons a rs)
  show ?case
  proof (cases "r = a")
    case True
    then show ?thesis using has_rule_fold [OF has_rule_put [of tb c v p a]] Cons.prems(1) by simp
  next
    case False
    then show ?thesis using Cons by simp
  qed
qed simp

lemma fold_vput_idem: "\<forall>r\<in>set rs. has_rule tb v c r \<Longrightarrow> fold (vput p tb c) rs v = v"
  by (induction rs) (simp_all add: vput_idem)

lemma entry_view_has:
  assumes "\<forall>ec\<in>set ecs. (tb, ec) \<in> dom v" "ec \<in> set ecs" "r \<in> set rs"
  shows "has_rule tb (fold (\<lambda>ec. fold (vput p tb ec) rs) ecs v) ec r"
  using assms
proof (induction ecs arbitrary: v)
  case (Cons a ecs)
  have keep: "has_rule tb v' ec r \<Longrightarrow> has_rule tb (fold (\<lambda>ec. fold (vput p tb ec) rs) l v') ec r" for l v'
    by (induction l arbitrary: v') (simp_all add: has_rule_fold)
  show ?case
  proof (cases "ec = a")
    case True
    then have "has_rule tb (fold (vput p tb a) rs v) ec r" using has_rule_fold_new Cons.prems by simp
    then show ?thesis using keep by simp
  next
    case False
    then show ?thesis using Cons by simp
  qed
qed simp

lemma entry_view_keeps: "has_rule tb v c r \<Longrightarrow> has_rule tb (fold (\<lambda>ec. fold (vput p tb ec) rs) l v) c r"
  by (induction l arbitrary: v) (simp_all add: has_rule_fold)

lemma setup_view_has:
  assumes "\<forall>ec\<in>set (entryChains c). (ch_table c, ec) \<in> dom v"
  shows "r \<in> set (ch_rules c) \<Longrightarrow> has_rule (ch_table c) (setup_view c v) (ch_name c) r"
    "ec \<in> set (entryChains c) \<Longrightarrow> r \<in> set (entryRules c) \<Longrightarrow>
       has_rule (ch_table c) (setup_view c v) ec (r @ [''-j'', ch_name c])"
    "has_rule (ch_table c) v ec r \<Longrightarrow> has_rule (ch_table c) (setup_view c v) ec r"
proof -
  let ?n = "(ch_table c, ch_name c)"
  let ?v1 = "if v ?n = None then v(?n \<mapsto> []) else v"
  have n1: "?n \<in> dom ?v1" by auto
  show "r \<in> set (ch_rules c) \<Longrightarrow> has_rule (ch_table c) (setup_view c v) (ch_name c) r"
    unfolding setup_view_def entry_view_def by (rule entry_view_keeps, rule has_rule_fold_new) (use n1 in auto)
  show "ec \<in> set (entryChains c) \<Longrightarrow> r \<in> set (entryRules c) \<Longrightarrow>
       has_rule (ch_table c) (setup_view c v) ec (r @ [''-j'', ch_name c])"
    unfolding setup_view_def entry_view_def using assms
    by (intro entry_view_has) auto
  show "has_rule (ch_table c) v ec r \<Longrightarrow> has_rule (ch_table c) (setup_view c v) ec r"
    unfolding setup_view_def entry_view_def
    by (rule entry_view_keeps, rule has_rule_fold) (auto simp: has_rule_def)
qed

lemma setup_view_dom: "dom (setup_view c v) = insert (ch_table c, ch_name c) (dom v)"
proof -
  have e: "dom (fold (\<lambda>ec. fold (vput p tb ec) rs) ecs v') = dom v'" for p tb rs ecs v'
    by (induction ecs arbitrary: v') simp_all
  show ?thesis unfolding setup_view_def entry_view_def e fold_vput_dom by auto
qed

lemma setup_view_idem:
  assumes "\<forall>ec\<in>set (entryChains c). (ch_table c, ec) \<in> dom v"
  shows "setup_view c (setup_view c v) = setup_view c v"
proof -
  let ?w = "setup_view c v"
  have d: "(if ?w (ch_table c, ch_name c) = None then ?w((ch_table c, ch_name c) \<mapsto> []) else ?w) = ?w"
    using setup_view_dom [of c v] by auto
  have 1: "fold (vput False (ch_table c) (ch_name c)) (ch_rules c) ?w = ?w"
    by (rule fold_vput_idem) (use setup_view_has(1) [OF assms] in blast)
  have 2: "fold (\<lambda>ec. fold (vput p (ch_table c) ec) (map (\<lambda>r. r @ [''-j'', ch_name c]) (entryRules c))) ecs ?w = ?w"
    if "set ecs \<subseteq> set (entryChains c)" for ecs p
    using that
  proof (induction ecs)
    case (Cons ec ecs)
    have "fold (vput p (ch_table c) ec) (map (\<lambda>r. r @ [''-j'', ch_name c]) (entryRules c)) ?w = ?w"
      by (rule fold_vput_idem) (use setup_view_has(2) [OF assms] Cons.prems in auto)
    then show ?case using Cons by simp
  qed simp
  show ?thesis
    by (subst setup_view_def) (simp only: d 1 2 [OF order_refl] entry_view_def)
qed

section \<open>Teardown\<close>

definition vdrop :: "chain \<Rightarrow> string \<Rightarrow> tables \<Rightarrow> tables" where
  "vdrop c ec v = v((ch_table c, ec) := map_option (filter (\<lambda>r. \<not> jumps_to r (ch_name c))) (v (ch_table c, ec)))"

lemma remove1_filter:
  "P r \<Longrightarrow> remove1 r (filter (\<lambda>r. \<not> P r) xs @ r # ys) = filter (\<lambda>r. \<not> P r) xs @ ys"
  by (induction xs) auto

lemma delete_loop:
  assumes "iptables_ok t view"
    "list_all2 (lists_rule parse (ch_name c) ec) lines suf"
    "view w (ch_table c, ec) = Some (filter (\<lambda>r. \<not> jumps_to r (ch_name c)) pre @ suf)"
  shows "\<exists>w'. each_io (delete_entry c t parse ec) lines w = (Inr (), w')
     \<and> view w' = (view w)((ch_table c, ec) \<mapsto> filter (\<lambda>r. \<not> jumps_to r (ch_name c)) (pre @ suf))"
  using assms(2,3)
proof (induction lines arbitrary: suf pre w)
  case Nil
  then show ?case by (auto simp: ret_def fun_upd_idem)
next
  case (Cons line lines)
  let ?J = "\<lambda>r. jumps_to r (ch_name c)"
  obtain r suf' where suf: "suf = r # suf'" and p: "parse line = Inr (''-A'' # ec # r)"
    and j: "has_suffix line (''-j '' @ ch_name c) = ?J r"
    and rest: "list_all2 (lists_rule parse (ch_name c) ec) lines suf'"
    using Cons.prems(1) by (cases suf) (simp_all add: lists_rule_def [of parse "ch_name c" ec line])
  show ?case
  proof (cases "?J r")
    case True
    have "r \<in> set (filter (\<lambda>r. \<not> ?J r) pre @ suf)" by (simp add: suf)
    from iptables_okD(8) [OF assms(1) Cons.prems(2) this] obtain w1 where
      w1: "ipt_Delete t (ch_table c) ec r w = (Inr (), w1)"
      "view w1 = (view w)((ch_table c, ec) \<mapsto> remove1 r (filter (\<lambda>r. \<not> ?J r) pre @ suf))" by blast
    have v1: "view w1 = (view w)((ch_table c, ec) \<mapsto> filter (\<lambda>r. \<not> ?J r) pre @ suf')"
      using w1(2) remove1_filter [of ?J r pre suf'] True by (simp add: suf)
    have step: "delete_entry c t parse ec line w = (Inr (), w1)"
      using w1(1) j p True by (simp add: delete_entry_def DeleteRule_def attempt_def ret_def)
    have "view w1 (ch_table c, ec) = Some (filter (\<lambda>r. \<not> ?J r) pre @ suf')" by (simp add: v1)
    from Cons.IH [OF rest this] obtain w' where
      loop: "each_io (delete_entry c t parse ec) lines w1 = (Inr (), w')"
      and w': "view w' = (view w1)((ch_table c, ec) \<mapsto> filter (\<lambda>r. \<not> ?J r) (pre @ suf'))" by blast
    have "view w' = (view w)((ch_table c, ec) \<mapsto> filter (\<lambda>r. \<not> ?J r) (pre @ suf))"
      unfolding w' v1 fun_upd_upd using True by (simp add: suf)
    then show ?thesis using step loop by (simp add: bind_io_def del: fun_upd_apply filter_append)
  next
    case False
    have step: "delete_entry c t parse ec line w = (Inr (), w)"
      using j False by (simp add: delete_entry_def ret_def)
    have "view w (ch_table c, ec) = Some (filter (\<lambda>r. \<not> ?J r) (pre @ [r]) @ suf')"
      using Cons.prems(2) False by (simp add: suf)
    from Cons.IH [OF rest this] obtain w' where
      "each_io (delete_entry c t parse ec) lines w = (Inr (), w')"
      "view w' = (view w)((ch_table c, ec) \<mapsto> filter (\<lambda>r. \<not> ?J r) (pre @ suf))"
      by (auto simp only: suf append_assoc append_Cons append_Nil)
    then show ?thesis using step by (simp add: bind_io_def del: fun_upd_apply filter_append)
  qed
qed

lemma delete_entries_ok:
  assumes "iptables_ok t view" "listing_ok t parse view (ch_name c) readable" "view w (ch_table c, ec) = Some rs" "list_all (readable ec) rs"
  shows "\<exists>w'. delete_entries c t parse ec w = (Inr (), w') \<and> view w' = vdrop c ec (view w)"
proof -
  note rs = assms(3)
  then obtain hd lines where l: "ipt_List t (ch_table c) ec w = (Inr (hd # lines), w)"
    "list_all2 (lists_rule parse (ch_name c) ec) lines rs"
    using assms(2,4) unfolding listing_ok_def by blast
  have "view w (ch_table c, ec) = Some (filter (\<lambda>r. \<not> jumps_to r (ch_name c)) [] @ rs)" using rs by simp
  from delete_loop [OF assms(1) l(2) this] obtain w1 where
    "each_io (delete_entry c t parse ec) lines w = (Inr (), w1)" "view w1 = vdrop c ec (view w)"
    using rs by (auto simp: vdrop_def)
  then show ?thesis by (simp add: delete_entries_def attempt_def l(1))
qed

definition all_readable :: "(string \<Rightarrow> string list \<Rightarrow> bool) \<Rightarrow> string \<Rightarrow> string list \<Rightarrow> tables \<Rightarrow> bool" where
  "all_readable readable tb ecs v \<longleftrightarrow> list_all (\<lambda>ec. \<exists>rs. v (tb, ec) = Some rs \<and> list_all (readable ec) rs) ecs"

lemma all_readable_vdrop: "all_readable rd (ch_table c) ecs v \<Longrightarrow> all_readable rd (ch_table c) ecs (vdrop c ec v)"
  by (fastforce simp: all_readable_def vdrop_def list_all_iff)

lemma drop_loop:
  assumes "iptables_ok t view" "listing_ok t parse view (ch_name c) readable"
    "all_readable readable (ch_table c) ecs (view w)"
  shows "\<exists>w'. each_io (delete_entries c t parse) ecs w = (Inr (), w') \<and> view w' = fold (vdrop c) ecs (view w)"
  using assms(3)
proof (induction ecs arbitrary: w)
  case (Cons ec ecs)
  obtain rs where rs: "view w (ch_table c, ec) = Some rs" "list_all (readable ec) rs"
    using Cons.prems by (auto simp: all_readable_def)
  obtain w1 where w1: "delete_entries c t parse ec w = (Inr (), w1)" "view w1 = vdrop c ec (view w)"
    using delete_entries_ok [OF assms(1,2) rs] by blast
  have "all_readable readable (ch_table c) ecs (view w)" using Cons.prems by (simp add: all_readable_def)
  then have "all_readable readable (ch_table c) ecs (view w1)" by (simp add: w1(2) all_readable_vdrop)
  from Cons.IH [OF this] show ?case using w1 by (simp add: bind_io_def)
qed (simp add: ret_def)

lemma fold_vdrop:
  "fold (vdrop c) ecs v (tb, x) =
     (if tb = ch_table c \<and> x \<in> set ecs then map_option (filter (\<lambda>r. \<not> jumps_to r (ch_name c))) (v (tb, x))
      else v (tb, x))"
proof (induction ecs arbitrary: v)
  case (Cons ec ecs)
  have "map_option (filter P) (map_option (filter P) y) = map_option (filter P) y"
    for P :: "string list \<Rightarrow> bool" and y
    by (cases y) simp_all
  then show ?case using Cons by (auto simp: vdrop_def)
qed simp

lemma fold_vdrop_upd:
  assumes "ch_name c \<notin> set ecs"
  shows "fold (vdrop c) ecs (v((ch_table c, ch_name c) := x)) = (fold (vdrop c) ecs v)((ch_table c, ch_name c) := x)"
  using assms by (auto simp: fun_eq_iff fold_vdrop)

lemma chain_teardown_view:
  assumes "iptables_ok t view" "listing_ok t parse view (ch_name c) readable"
    "all_readable readable (ch_table c) (entryChains c) (view w)" "ch_name c \<notin> set (entryChains c)"
  shows "\<exists>w'. chain_teardown c t parse w = (Inr (), w')
     \<and> view w' = (fold (vdrop c) (entryChains c) (view w))((ch_table c, ch_name c) := None)"
proof -
  let ?n = "(ch_table c, ch_name c)"
  obtain w1 where w1: "ipt_ClearChain t (ch_table c) (ch_name c) w = (Inr (), w1)" "view w1 = (view w)(?n \<mapsto> [])"
    using iptables_okD(3) [OF assms(1)] by blast
  have "all_readable readable (ch_table c) (entryChains c) (view w1)"
    using assms(3,4) by (auto simp: w1(2) all_readable_def list_all_iff)
  from drop_loop [OF assms(1,2) this] obtain w2 where
    w2: "each_io (delete_entries c t parse) (entryChains c) w1 = (Inr (), w2)" "view w2 = fold (vdrop c) (entryChains c) (view w1)" by blast
  have other: "fold (vdrop c) (entryChains c) (v(?n := x)) = (fold (vdrop c) (entryChains c) v)(?n := x)" for v x
    by (rule fold_vdrop_upd [OF assms(4)])
  have v2: "view w2 = (fold (vdrop c) (entryChains c) (view w))(?n \<mapsto> [])"
    using w2(2) by (simp only: w1(2) other)
  then have "view w2 (ch_table c, ch_name c) = Some []" by simp
  from iptables_okD(4) [OF assms(1) this] obtain w3 where
    "ipt_DeleteChain t (ch_table c) (ch_name c) w2 = (Inr (), w3)" "view w3 = (view w2)(?n := None)" by blast
  then show ?thesis
    using w1(1) w2(1) v2 by (simp add: chain_teardown_def ClearChain_def DeleteChain_def bind_io_def attempt_def ret_def)
qed

section \<open>Check\<close>

lemma require_rule_ok:
  assumes "iptables_ok t view" "has_rule tb (view w) c r"
  shows "require_rule t tb c r w = (Inr (), w)"
proof -
  obtain rs where rs: "view w (tb, c) = Some rs" "r \<in> set rs" using assms(2) by (auto simp: has_rule_def)
  show ?thesis using iptables_okD(5) [OF assms(1) rs(1), of r] rs(2) by (simp add: require_rule_def checkRule_def)
qed

lemma each_io_skip: "(\<And>x. x \<in> set xs \<Longrightarrow> f x w = (Inr (), w)) \<Longrightarrow> each_io f xs w = (Inr (), w)"
  by (induction xs) (simp_all add: ret_def bind_io_def)

lemma chain_check_ok:
  assumes "iptables_ok t view" "(ch_table c, ch_name c) \<in> dom (view w)"
    "\<And>r. r \<in> set (ch_rules c) \<Longrightarrow> has_rule (ch_table c) (view w) (ch_name c) r"
    "\<And>ec r. ec \<in> set (entryChains c) \<Longrightarrow> r \<in> set (entryRules c) \<Longrightarrow>
       has_rule (ch_table c) (view w) ec (r @ [''-j'', ch_name c])"
  shows "chain_check c t w = (Inr (), w)"
proof -
  have 1: "each_io (require_rule t (ch_table c) (ch_name c)) (rev (ch_rules c)) w = (Inr (), w)"
    by (rule each_io_skip) (use assms(3) require_rule_ok [OF assms(1)] in simp)
  have 2: "each_io (\<lambda>ec. each_io (\<lambda>rule. require_rule t (ch_table c) ec (rule @ [''-j'', ch_name c]))
      (rev (entryRules c))) (entryChains c) w = (Inr (), w)"
    by (intro each_io_skip) (use assms(4) require_rule_ok [OF assms(1)] in simp)
  show ?thesis
    using assms(2) 1 2 by (auto simp: chain_check_def bind_io_def ChainExists_ok [OF assms(1)])
qed

section \<open>Teardown undoes setup\<close>

lemma filter_add_unique: "\<not> P r \<Longrightarrow> filter P (add_unique p r rs) = filter P rs"
  by (auto simp: add_unique_def)

lemma jumps_to_app [simp]: "jumps_to (r @ [''-j'', n]) n"
  by (simp add: jumps_to_def)

lemma vput_other: "(tb', x) \<noteq> (tb, c) \<Longrightarrow> vput p tb c r v (tb', x) = v (tb', x)"
  by (auto simp: vput_def)

lemma fold_vput_other: "(tb', x) \<noteq> (tb, c) \<Longrightarrow> fold (vput p tb c) rs v (tb', x) = v (tb', x)"
  by (induction rs arbitrary: v) (simp_all add: vput_other)

lemma fold_vput_filter:
  assumes "\<forall>r\<in>set rs. \<not> P r"
  shows "map_option (filter P) (fold (vput p tb c) rs v (tb', x)) = map_option (filter P) (v (tb', x))"
  using assms
proof (induction rs arbitrary: v)
  case (Cons r rs)
  have "map_option (filter P) (vput p tb c r v (tb', x)) = map_option (filter P) (v (tb', x))"
    using Cons.prems by (cases "v (tb, c)") (simp_all add: vput_def filter_add_unique)
  then show ?case using Cons by simp
qed simp

lemma entry_view_other:
  assumes "\<not> (tb' = ch_table c \<and> x \<in> set (entryChains c))"
  shows "entry_view c v (tb', x) = v (tb', x)"
proof -
  have "fold (\<lambda>ec. fold (vput p (ch_table c) ec) rs) ecs v (tb', x) = v (tb', x)"
    if "\<not> (tb' = ch_table c \<and> x \<in> set ecs)" for ecs p rs v
    using that by (induction ecs arbitrary: v) (simp_all add: fold_vput_other)
  then show ?thesis using assms by (simp add: entry_view_def)
qed

lemma entry_view_filter:
  "map_option (filter (\<lambda>r. \<not> jumps_to r (ch_name c))) (entry_view c v (tb', x)) =
     map_option (filter (\<lambda>r. \<not> jumps_to r (ch_name c))) (v (tb', x))"
proof -
  let ?P = "\<lambda>r. \<not> jumps_to r (ch_name c)"
  have "map_option (filter ?P) (fold (\<lambda>ec. fold (vput p (ch_table c) ec) (map (\<lambda>r. r @ [''-j'', ch_name c]) rs)) ecs v (tb', x))
      = map_option (filter ?P) (v (tb', x))" for ecs p rs v
    by (induction ecs arbitrary: v) (simp_all add: fold_vput_filter)
  then show ?thesis by (simp add: entry_view_def)
qed

lemma setup_view_other:
  assumes "(tb', x) \<noteq> (ch_table c, ch_name c)"
  shows "\<not> (tb' = ch_table c \<and> x \<in> set (entryChains c)) \<Longrightarrow> setup_view c v (tb', x) = v (tb', x)"
    "map_option (filter (\<lambda>r. \<not> jumps_to r (ch_name c))) (setup_view c v (tb', x)) =
       map_option (filter (\<lambda>r. \<not> jumps_to r (ch_name c))) (v (tb', x))"
  using assms by (auto simp: setup_view_def entry_view_other entry_view_filter fold_vput_other)

lemma teardown_setup_view:
  assumes "ch_name c \<notin> set (entryChains c)" "v (ch_table c, ch_name c) = None"
    "\<forall>ec\<in>set (entryChains c). \<forall>rs. v (ch_table c, ec) = Some rs \<longrightarrow> (\<forall>r\<in>set rs. \<not> jumps_to r (ch_name c))"
  shows "(fold (vdrop c) (entryChains c) (setup_view c v))((ch_table c, ch_name c) := None) = v"
proof
  fix k :: "string \<times> string"
  obtain tb x where k: "k = (tb, x)" by (cases k)
  show "((fold (vdrop c) (entryChains c) (setup_view c v))((ch_table c, ch_name c) := None)) k = v k"
  proof (cases "k = (ch_table c, ch_name c)")
    case False
    have "map_option (filter (\<lambda>r. \<not> jumps_to r (ch_name c))) (v (tb, x)) = v (tb, x)"
      if "tb = ch_table c" "x \<in> set (entryChains c)"
      using assms(3) that by (cases "v (tb, x)") (auto simp: filter_id_conv)
    then show ?thesis
      using False setup_view_other [of tb x c v] assms(2) by (auto simp: k fold_vdrop)
  qed (use assms(2) in simp)
qed

section \<open>Properties\<close>

text \<open>
  C15: when the entry chains exist, \<open>setup\<close> succeeds; afterwards the chain holds its rules, each entry
  chain holds its jump rules, no rule of an entry chain was lost, no other chain was touched, a second
  \<open>setup\<close> changes no table, and \<open>check\<close> accepts the result.
\<close>

theorem portmap_chain_setup:
  assumes "iptables_ok t view" "\<forall>ec\<in>set (entryChains c). (ch_table c, ec) \<in> dom (view w)"
  shows "\<exists>w'. chain_setup c t w = (Inr (), w')
     \<and> (\<forall>r\<in>set (ch_rules c). has_rule (ch_table c) (view w') (ch_name c) r)
     \<and> (\<forall>ec\<in>set (entryChains c). \<forall>r\<in>set (entryRules c). has_rule (ch_table c) (view w') ec (r @ [''-j'', ch_name c]))
     \<and> (\<forall>ec r. has_rule (ch_table c) (view w) ec r \<longrightarrow> has_rule (ch_table c) (view w') ec r)
     \<and> (\<forall>tb x. \<not> (tb = ch_table c \<and> x \<in> insert (ch_name c) (set (entryChains c))) \<longrightarrow> view w' (tb, x) = view w (tb, x))
     \<and> (\<exists>w''. chain_setup c t w' = (Inr (), w'') \<and> view w'' = view w')
     \<and> chain_check c t w' = (Inr (), w')"
proof -
  obtain w' where w': "chain_setup c t w = (Inr (), w')" "view w' = setup_view c (view w)"
    using chain_setup_view [OF assms] by blast
  have dom: "dom (view w') = insert (ch_table c, ch_name c) (dom (view w))"
    by (simp add: w'(2) setup_view_dom)
  then have "\<forall>ec\<in>set (entryChains c). (ch_table c, ec) \<in> dom (view w')" using assms(2) by simp
  from chain_setup_view [OF assms(1) this] have again: "\<exists>w''. chain_setup c t w' = (Inr (), w'') \<and> view w'' = view w'"
    by (simp add: w'(2) setup_view_idem [OF assms(2)])
  note has = setup_view_has [OF assms(2)]
  have check: "chain_check c t w' = (Inr (), w')"
    by (rule chain_check_ok [OF assms(1)]) (use dom has in \<open>auto simp: w'(2)\<close>)
  show ?thesis
    by (rule exI [of _ w'], intro conjI again check w'(1); use has in \<open>auto simp: w'(2) setup_view_other\<close>)
qed


section \<open>Witnesses\<close>

text \<open>A chain of the DNAT kind on the client over association lists; its lines are split at spaces.\<close>

definition demo_chain :: chain where
  "demo_chain = \<lparr>ch_table = ''nat'', ch_name = ''HP'', entryChains = [''PRE''], entryRules = [[''-m'', ''local'']],
     ch_rules = [[''-j'', ''DN'']], prependEntry = False\<rparr>"

definition demo_tables :: table_list where
  "demo_tables = [((''nat'', ''PRE''), [[''-j'', ''KUBE'']])]"

definition demo_readable :: "string \<Rightarrow> string list \<Rightarrow> bool" where
  "demo_readable c r \<longleftrightarrow> c = ''PRE'' \<and> (r = [''-j'', ''KUBE''] \<or> r = [''-m'', ''local'', ''-j'', ''HP''])"

lemma demo_listing: "listing_ok table_client (\<lambda>l. Inr (split_on (CHR '' '') l)) map_of ''HP'' demo_readable"
proof -
  have "lists_rule (\<lambda>l. Inr (split_on (CHR '' '') l)) ''HP'' c (join '' '' (''-A'' # c # r)) r"
    if "demo_readable c r" for c r
    using that by (auto simp: demo_readable_def lists_rule_def jumps_to_def has_suffix_def)
  then show ?thesis
    unfolding listing_ok_def by (auto simp: table_client_def list_all2_conv_all_nth list_all_length Let_def)
qed

theorem portmap_chain_setup_witness:
  "\<exists>w'. chain_setup demo_chain table_client demo_tables = (Inr (), w') \<and> has_rule ''nat'' (map_of w') ''HP'' [''-j'', ''DN'']"
proof -
  have "\<forall>ec\<in>set (entryChains demo_chain). (ch_table demo_chain, ec) \<in> dom (map_of demo_tables)"
    by (simp add: demo_chain_def demo_tables_def)
  from portmap_chain_setup [OF table_client_ok this] show ?thesis by (auto simp: demo_chain_def)
qed


end
