(* ===== verification/Ns.thy ===== *)
theory Ns
  imports Utils
begin

text \<open>
  \<open>pkg/ns/ns_linux.go\<close>: network namespaces and running a function in one. The calls of the operating
  system act on an environment that holds the threads; the lemmas show that \<open>Do\<close> leaves the namespace of
  the calling thread as it was on every path and runs the function in the requested one.
\<close>

section \<open>Deferred calls\<close>

text \<open>\<open>defer c()\<close>: \<open>c\<close> runs after \<open>m\<close> on every path, a panic included; its result is dropped.\<close>

definition finally_io :: "('w, 'a) io \<Rightarrow> ('w, 'b) io \<Rightarrow> ('w, 'a) io" where
  "finally_io m c w = (case m w of (r, w') \<Rightarrow> (r, snd (c w')))"

lemma leaves_finally [leaves_intros]: "leaves f m \<Longrightarrow> leaves f c \<Longrightarrow> leaves f (finally_io m c)"
  by (simp add: leaves_def finally_io_def split: prod.splits) (metis snd_conv)

section \<open>The code\<close>

text \<open>
  \<open>os_go\<close> enters the thread of a new goroutine, \<open>os_join\<close> comes back to the thread that waits for it
  (\<open>wg.Wait()\<close>).
\<close>

record 'w os =
  os_Statfs :: "string \<Rightarrow> ('w, nat) io"
  os_Open :: "string \<Rightarrow> ('w, int) io"
  os_Close :: "int \<Rightarrow> ('w, unit) io"
  os_Setns :: "int \<Rightarrow> ('w, unit) io"
  os_thread_path :: "'w \<Rightarrow> string"
  os_go :: "'w \<Rightarrow> 'w"
  os_join :: "'w \<Rightarrow> 'w"

record netns =
  ns_file :: string
  ns_fd :: int
  ns_closed :: bool

definition NSFS_MAGIC :: nat where "NSFS_MAGIC = 0x6e736673"
definition PROCFS_MAGIC :: nat where "PROCFS_MAGIC = 0x9fa0"

definition IsNSorErr :: "'w os \<Rightarrow> string \<Rightarrow> ('w, unit) io" where
  "IsNSorErr P nspath =
     bind_io (wrap_io (''failed to Statfs '' @ nspath) (os_Statfs P nspath)) (\<lambda>magic.
       if magic = PROCFS_MAGIC \<or> magic = NSFS_MAGIC then ret ()
       else fail (Errorf (''unknown FS magic on '' @ nspath)))"

definition GetNS :: "'w os \<Rightarrow> string \<Rightarrow> ('w, netns) io" where
  "GetNS P nspath =
     bind_io (IsNSorErr P nspath) (\<lambda>_.
     bind_io (os_Open P nspath) (\<lambda>fd. ret \<lparr>ns_file = nspath, ns_fd = fd, ns_closed = False\<rparr>))"

definition GetCurrentNS :: "'w os \<Rightarrow> ('w, netns) io" where
  "GetCurrentNS P w = GetNS P (os_thread_path P w) w"

definition errorIfClosed :: "netns \<Rightarrow> ('w, unit) io" where
  "errorIfClosed ns = (if ns_closed ns then fail (Errorf (ns_file ns @ '' has already been closed'')) else ret ())"

definition ns_Close :: "'w os \<Rightarrow> netns \<Rightarrow> ('w, netns) io" where
  "ns_Close P ns =
     bind_io (errorIfClosed ns) (\<lambda>_.
     bind_io (wrap_io (''Failed to close '' @ ns_file ns) (os_Close P (ns_fd ns))) (\<lambda>_.
     ret (ns\<lparr>ns_closed := True\<rparr>)))"

definition ns_Set :: "'w os \<Rightarrow> netns \<Rightarrow> ('w, unit) io" where
  "ns_Set P ns =
     bind_io (errorIfClosed ns) (\<lambda>_.
     wrap_io (''Error switching to ns '' @ ns_file ns) (os_Setns P (ns_fd ns)))"

definition containedCall :: "'w os \<Rightarrow> netns \<Rightarrow> (netns \<Rightarrow> ('w, 'a) io) \<Rightarrow> netns \<Rightarrow> ('w, 'a) io" where
  "containedCall P ns toRun hostNS =
     bind_io (wrap_io ''failed to open current netns'' (GetCurrentNS P)) (\<lambda>threadNS.
       finally_io
         (bind_io (wrap_io (''error switching to ns '' @ ns_file ns) (ns_Set P ns)) (\<lambda>_.
            finally_io (toRun hostNS) (ns_Set P threadNS)))
         (ns_Close P threadNS))"

definition on_thread :: "'w os \<Rightarrow> ('w, 'a) io \<Rightarrow> ('w, 'a) io" where
  "on_thread P m w = (case m (os_go P w) of (r, w') \<Rightarrow> (r, os_join P w'))"

definition ns_Do :: "'w os \<Rightarrow> netns \<Rightarrow> (netns \<Rightarrow> ('w, 'a) io) \<Rightarrow> ('w, 'a) io" where
  "ns_Do P ns toRun =
     bind_io (errorIfClosed ns) (\<lambda>_.
     bind_io (wrap_io ''Failed to open current namespace'' (GetCurrentNS P)) (\<lambda>hostNS.
       finally_io (on_thread P (containedCall P ns toRun hostNS)) (ns_Close P hostNS)))"

definition WithNetNSPath :: "'w os \<Rightarrow> string \<Rightarrow> (netns \<Rightarrow> ('w, 'a) io) \<Rightarrow> ('w, 'a) io" where
  "WithNetNSPath P nspath toRun =
     bind_io (GetNS P nspath) (\<lambda>ns. finally_io (ns_Do P ns toRun) (ns_Close P ns))"

section \<open>What the code relies on\<close>

text \<open>
  \<open>threads w\<close>: the namespaces of the threads, the running one first; \<open>fds w\<close>: what the open descriptors
  refer to; \<open>inode\<close>: the namespace a path names. A descriptor that is open is not handed out again;
  \<open>setns\<close> moves the running thread alone.
\<close>

definition os_ok :: "'w os \<Rightarrow> ('w \<Rightarrow> 'n list) \<Rightarrow> ('w \<Rightarrow> int \<Rightarrow> 'n option) \<Rightarrow> (string \<Rightarrow> 'n) \<Rightarrow> bool" where
  "os_ok P threads fds inode \<longleftrightarrow>
     (\<forall>p. leaves threads (os_Statfs P p) \<and> leaves fds (os_Statfs P p))
   \<and> (\<forall>p. leaves threads (os_Open P p))
   \<and> (\<forall>p w fd w'. os_Open P p w = (Inr fd, w') \<longrightarrow> fds w fd = None \<and>
        fds w' = (fds w)(fd \<mapsto> (if p = os_thread_path P w then hd (threads w) else inode p)))
   \<and> (\<forall>fd. leaves threads (os_Close P fd))
   \<and> (\<forall>fd w. tl (threads (snd (os_Setns P fd w))) = tl (threads w))
   \<and> (\<forall>fd w w'. os_Setns P fd w = (Inr (), w') \<longrightarrow> hd (threads w') = the (fds w fd))
   \<and> (\<forall>w. \<exists>n. threads (os_go P w) = n # threads w) \<and> (\<forall>w. fds (os_go P w) = fds w)
   \<and> (\<forall>w. threads (os_join P w) = tl (threads w))"

lemma os_okD:
  assumes "os_ok P threads fds inode"
  shows "leaves threads (os_Statfs P p)" "leaves fds (os_Statfs P p)" "leaves threads (os_Open P p)"
    "os_Open P p w = (Inr fd, w') \<Longrightarrow> fds w fd = None"
    "os_Open P p w = (Inr fd, w') \<Longrightarrow> fds w' = (fds w)(fd \<mapsto> (if p = os_thread_path P w then hd (threads w) else inode p))"
    "leaves threads (os_Close P k)" "tl (threads (snd (os_Setns P k w))) = tl (threads w)"
    "os_Setns P k w = (Inr (), w') \<Longrightarrow> hd (threads w') = the (fds w k)"
    "\<exists>n. threads (os_go P w) = n # threads w" "fds (os_go P w) = fds w" "threads (os_join P w) = tl (threads w)"
  using assms unfolding os_ok_def by blast+

lemma leaves_GetNS:
  assumes "os_ok P threads fds inode"
  shows "leaves threads (GetNS P p)" "leaves threads (ns_Close P n)"
  unfolding GetNS_def IsNSorErr_def ns_Close_def errorIfClosed_def
  by (intro leaves_intros os_okD [OF assms])+

lemma leaves_GetCurrentNS: "os_ok P threads fds inode \<Longrightarrow> leaves threads (GetCurrentNS P)"
  using leaves_GetNS(1) unfolding leaves_def GetCurrentNS_def by blast

text \<open>Everything the goroutine does leaves the threads below it alone.\<close>

lemma leaves_tl: "leaves threads m \<Longrightarrow> leaves (\<lambda>w. tl (threads w)) m"
  by (simp add: leaves_def)

lemma leaves_containedCall:
  assumes "os_ok P threads fds inode" "\<And>h. leaves (\<lambda>w. tl (threads w)) (toRun h)"
  shows "leaves (\<lambda>w. tl (threads w)) (containedCall P ns toRun h)"
proof -
  have s: "leaves (\<lambda>w. tl (threads w)) (os_Setns P fd)" for fd
    using os_okD(7) [OF assms(1)] by (simp add: leaves_def)
  have "leaves (\<lambda>w. tl (threads w)) (ns_Set P n)" for n
    unfolding ns_Set_def errorIfClosed_def by (intro leaves_intros s)
  then show ?thesis
    unfolding containedCall_def
    by (intro leaves_intros assms(2) leaves_tl [OF leaves_GetNS(2) [OF assms(1)]] leaves_tl [OF leaves_GetCurrentNS [OF assms(1)]])
qed

lemma leaves_Do:
  assumes "os_ok P threads fds inode" "\<And>h. leaves (\<lambda>w. tl (threads w)) (toRun h)"
  shows "leaves threads (ns_Do P ns toRun)"
proof -
  have t: "leaves threads (on_thread P (containedCall P ns toRun h))" for h
    unfolding leaves_def
  proof
    fix w
    obtain r w' where c: "containedCall P ns toRun h (os_go P w) = (r, w')" by (cases "containedCall P ns toRun h (os_go P w)")
    obtain n where "threads (os_go P w) = n # threads w" using os_okD(9) [OF assms(1)] by blast
    moreover have "tl (threads w') = tl (threads (os_go P w))"
      using leavesD [OF leaves_containedCall [OF assms] c] .
    ultimately show "threads (snd (on_thread P (containedCall P ns toRun h) w)) = threads w"
      by (simp add: on_thread_def c os_okD(11) [OF assms(1)])
  qed
  show ?thesis
    unfolding ns_Do_def errorIfClosed_def
    by (intro leaves_intros t leaves_GetCurrentNS [OF assms(1)] leaves_GetNS(2) [OF assms(1)])
qed


lemma bind_ret: "bind_io (ret x) f = f x"
  by (simp add: bind_io_def ret_def fun_eq_iff)

lemma fst_finally [simp]: "fst (finally_io m c w) = fst (m w)"
  by (simp add: finally_io_def split: prod.splits)

lemma fst_on_thread: "fst (on_thread P m w) = fst (m (os_go P w))"
  by (simp add: on_thread_def split: prod.splits)

lemma GetNS_opens:
  assumes "os_ok P threads fds inode" "GetNS P p w = (Inr n, w')"
  shows "\<not> ns_closed n \<and> fds w (ns_fd n) = None
     \<and> (\<exists>v. fds w' = (fds w)(ns_fd n := v) \<and> v = Some (if p = os_thread_path P (snd (IsNSorErr P p w)) then hd (threads w) else inode p))"
proof -
  obtain w1 where w1: "IsNSorErr P p w = (Inr (), w1)" and o: "os_Open P p w1 = (Inr (ns_fd n), w')" and c: "\<not> ns_closed n"
    using assms(2) by (auto simp: GetNS_def ret_def elim!: bind_io_InrE)
  have lv: "leaves fds (IsNSorErr P p)" "leaves threads (IsNSorErr P p)"
    unfolding IsNSorErr_def by (intro leaves_intros os_okD [OF assms(1)])+
  have eq: "fds w1 = fds w" "threads w1 = threads w" using leavesD [OF lv(1) w1] leavesD [OF lv(2) w1] by simp_all
  show ?thesis using os_okD(4,5) [OF assms(1), OF o] c by (simp add: eq w1)
qed

lemma GetNS_keeps_fd:
  assumes "os_ok P threads fds inode" "GetNS P p w = (Inr n, w')" "fds w k = Some v"
  shows "fds w' k = Some v"
  using GetNS_opens [OF assms(1,2)] assms(3) by auto

lemma ns_Set_runs:
  assumes "os_ok P threads fds inode" "ns_Set P n w = (Inr (), w')"
  shows "hd (threads w') = the (fds w (ns_fd n))"
  using assms(2) os_okD(8) [OF assms(1)]
  by (auto simp: ns_Set_def errorIfClosed_def ret_def fail_def elim!: bind_io_InrE dest!: wrap_io_InrE split: if_splits)

lemma containedCall_inside:
  assumes "os_ok P threads fds inode" "containedCall P ns toRun h w = (Inr x, w')" "fds w (ns_fd ns) = Some n"
  shows "\<exists>u. hd (threads u) = n \<and> fst (toRun h u) = Inr x"
proof -
  obtain t w1 where t': "wrap_io ''failed to open current netns'' (GetCurrentNS P) w = (Inr t, w1)"
    and f: "finally_io (bind_io (wrap_io (''error switching to ns '' @ ns_file ns) (ns_Set P ns)) (\<lambda>_.
              finally_io (toRun h) (ns_Set P t))) (ns_Close P t) w1 = (Inr x, w')"
    using assms(2) unfolding containedCall_def by (rule bind_io_InrE)
  note t = wrap_io_InrE [OF t']
  have fd: "fds w1 (ns_fd ns) = Some n"
    using GetNS_keeps_fd [OF assms(1) t [unfolded GetCurrentNS_def] assms(3)] .
  have "fst (bind_io (wrap_io (''error switching to ns '' @ ns_file ns) (ns_Set P ns)) (\<lambda>_.
              finally_io (toRun h) (ns_Set P t)) w1) = Inr x"
    using arg_cong [OF f, of fst] by (simp only: fst_finally fst_conv)
  then obtain w2 where b: "bind_io (wrap_io (''error switching to ns '' @ ns_file ns) (ns_Set P ns)) (\<lambda>_.
              finally_io (toRun h) (ns_Set P t)) w1 = (Inr x, w2)" by (metis prod.collapse)
  then obtain v u where s': "wrap_io (''error switching to ns '' @ ns_file ns) (ns_Set P ns) w1 = (Inr v, u)"
    and r: "finally_io (toRun h) (ns_Set P t) u = (Inr x, w2)" by (rule bind_io_InrE)
  have s: "ns_Set P ns w1 = (Inr (), u)" using wrap_io_InrE [OF s'] by simp
  have "hd (threads u) = n" using ns_Set_runs [OF assms(1) s] fd by simp
  moreover have "fst (toRun h u) = Inr x" using arg_cong [OF r, of fst] by (simp only: fst_finally fst_conv)
  ultimately show ?thesis by blast
qed

text \<open>
  A value that \<open>WithNetNSPath\<close> returns was computed by the function on a thread in the namespace
  that the path names.
\<close>

theorem with_netns_runs_inside:
  assumes "os_ok P threads fds inode" "WithNetNSPath P nspath toRun w = (Inr x, w')"
    "nspath \<noteq> os_thread_path P (snd (IsNSorErr P nspath w))"
  shows "\<exists>h u. hd (threads u) = inode nspath \<and> fst (toRun h u) = Inr x"
proof -
  obtain n w1 where n: "GetNS P nspath w = (Inr n, w1)" and f: "finally_io (ns_Do P n toRun) (ns_Close P n) w1 = (Inr x, w')"
    using assms(2) unfolding WithNetNSPath_def by (rule bind_io_InrE)
  have fd: "fds w1 (ns_fd n) = Some (inode nspath)" using GetNS_opens [OF assms(1) n] assms(3) by auto
  have "fst (ns_Do P n toRun w1) = Inr x" using arg_cong [OF f, of fst] by (simp only: fst_finally fst_conv)
  then obtain w2 where d: "ns_Do P n toRun w1 = (Inr x, w2)" by (metis prod.collapse)
  moreover have "\<not> ns_closed n" using GetNS_opens [OF assms(1) n] by blast
  ultimately have "bind_io (wrap_io ''Failed to open current namespace'' (GetCurrentNS P)) (\<lambda>hostNS.
       finally_io (on_thread P (containedCall P n toRun hostNS)) (ns_Close P hostNS)) w1 = (Inr x, w2)"
    by (simp only: ns_Do_def errorIfClosed_def if_False bind_ret)
  then obtain h w3 where h': "wrap_io ''Failed to open current namespace'' (GetCurrentNS P) w1 = (Inr h, w3)"
    and g: "finally_io (on_thread P (containedCall P n toRun h)) (ns_Close P h) w3 = (Inr x, w2)"
    by (rule bind_io_InrE)
  note h = wrap_io_InrE [OF h']
  have fd3: "fds (os_go P w3) (ns_fd n) = Some (inode nspath)"
    using GetNS_keeps_fd [OF assms(1) h [unfolded GetCurrentNS_def] fd] by (simp add: os_okD(10) [OF assms(1)])
  have "fst (containedCall P n toRun h (os_go P w3)) = Inr x"
    using arg_cong [OF g, of fst] by (simp only: fst_finally fst_on_thread fst_conv)
  then obtain w4 where "containedCall P n toRun h (os_go P w3) = (Inr x, w4)" by (metis prod.collapse)
  from containedCall_inside [OF assms(1) this fd3] show ?thesis by blast
qed

section \<open>A concrete environment\<close>

text \<open>Threads and descriptors as lists; the namespaces are the paths themselves.\<close>

type_synonym demo_os = "string list \<times> (int \<times> string) list"

definition next_fd :: "(int \<times> string) list \<Rightarrow> int" where
  "next_fd l = fold max (map fst l) 0 + 1"

lemma fold_max_ge: "x \<in> set l \<or> x \<le> a \<Longrightarrow> (x :: int) \<le> fold max l a"
proof (induction l arbitrary: a)
  case (Cons y l)
  then consider "x = y" | "x \<in> set l" | "x \<le> a" by auto
  then have "x \<in> set l \<or> x \<le> max y a" by cases (simp_all add: le_max_iff_disj)
  from Cons.IH [OF this] show ?case by simp
qed simp

lemma next_fd_fresh: "map_of l (next_fd l) = None"
proof -
  have "k < next_fd l" if "k \<in> fst ` set l" for k
    using fold_max_ge [of k "map fst l" 0] that by (simp add: next_fd_def)
  then have "next_fd l \<notin> fst ` set l" by (metis less_irrefl)
  then show ?thesis by (simp add: map_of_eq_None_iff)
qed

definition demo_P :: "demo_os os" where
  "demo_P = \<lparr>os_Statfs = \<lambda>p. ret NSFS_MAGIC,
     os_Open = \<lambda>p w. (Inr (next_fd (snd w)), (fst w, (next_fd (snd w), if p = ''self'' then hd (fst w) else p) # snd w)),
     os_Close = \<lambda>fd. ret (),
     os_Setns = \<lambda>fd w. (case map_of (snd w) fd of None \<Rightarrow> (Inl (EnvError 9), w) | Some n \<Rightarrow> (Inr (), (n # tl (fst w), snd w))),
     os_thread_path = \<lambda>w. ''self'', os_go = \<lambda>w. (''host'' # fst w, snd w), os_join = \<lambda>w. (tl (fst w), snd w)\<rparr>"

lemma demo_P_ok: "os_ok demo_P fst (\<lambda>w. map_of (snd w)) (\<lambda>p. p)"
  unfolding os_ok_def
  by (intro conjI allI impI) (auto simp: demo_P_def leaves_def ret_def next_fd_fresh split: option.splits)

text \<open>The function reads the namespace of its thread.\<close>

definition demo_read :: "netns \<Rightarrow> (demo_os, string) io" where
  "demo_read h w = (Inr (hd (fst w)), w)"


lemma demo_GetNS:
  "GetNS demo_P p w = (Inr \<lparr>ns_file = p, ns_fd = next_fd (snd w), ns_closed = False\<rparr>,
     (fst w, (next_fd (snd w), if p = ''self'' then hd (fst w) else p) # snd w))"
  by (simp add: GetNS_def IsNSorErr_def bind_io_def wrap_io_def demo_P_def ret_def NSFS_MAGIC_def)

lemma demo_Current: "GetCurrentNS demo_P w = GetNS demo_P ''self'' w"
  by (simp add: GetCurrentNS_def demo_P_def)

lemma demo_Close: "ns_Close demo_P n w = (if ns_closed n then (Inl (Errorf (ns_file n @ '' has already been closed'')), w)
    else (Inr (n\<lparr>ns_closed := True\<rparr>), w))"
  by (simp add: ns_Close_def errorIfClosed_def bind_io_def wrap_io_def demo_P_def ret_def fail_def)

lemma demo_Set: "ns_closed n = False \<Longrightarrow> map_of (snd w) (ns_fd n) = Some m \<Longrightarrow>
    ns_Set demo_P n w = (Inr (), (m # tl (fst w), snd w))"
  by (simp add: ns_Set_def errorIfClosed_def bind_io_def wrap_io_def demo_P_def ret_def)

lemma demo_go: "os_go demo_P w = (''host'' # fst w, snd w)" "os_join demo_P w = (tl (fst w), snd w)"
  by (simp_all add: demo_P_def)

theorem with_netns_runs_inside_witness:
  "fst (WithNetNSPath demo_P ''/var/run/netns/c1'' demo_read ([''host''], [])) = Inr ''/var/run/netns/c1''
     \<and> (\<exists>h u. hd (fst u) = ''/var/run/netns/c1'' \<and> fst (demo_read h u) = Inr ''/var/run/netns/c1'')"
proof -
  have r: "fst (WithNetNSPath demo_P ''/var/run/netns/c1'' demo_read ([''host''], [])) = Inr ''/var/run/netns/c1''"
    by (simp add: WithNetNSPath_def ns_Do_def containedCall_def on_thread_def finally_io_def bind_io_def wrap_io_def
        demo_GetNS demo_Close demo_Set demo_Current errorIfClosed_def ret_def demo_read_def demo_go next_fd_def)
  obtain w' where w': "WithNetNSPath demo_P ''/var/run/netns/c1'' demo_read ([''host''], []) = (Inr ''/var/run/netns/c1'', w')"
    using r by (cases "WithNetNSPath demo_P ''/var/run/netns/c1'' demo_read ([''host''], [])") simp
  have "''/var/run/netns/c1'' \<noteq> os_thread_path demo_P (snd (IsNSorErr demo_P ''/var/run/netns/c1'' ([''host''], [])))"
    by (simp add: demo_P_def)
  from with_netns_runs_inside [OF demo_P_ok w' this] show ?thesis by (rule conjI [OF r])
qed

end
