(* ===== verification/Sysctl.thy ===== *)
theory Sysctl
  imports Utils
begin

text \<open>
  \<open>pkg/utils/sysctl/sysctl_linux.go\<close> and \<open>pkg/utils/hwaddr/hwaddr.go\<close>. The file system is a record of two
  calls on the environment.
\<close>

record 'w files =
  ReadFile :: "string \<Rightarrow> ('w, string) io"
  WriteFile :: "string \<Rightarrow> string \<Rightarrow> ('w, unit) io"

section \<open>sysctl\<close>

text \<open>The first separator decides: \<open>interchange\<close> when it is a dot.\<close>

definition toNormalName :: "string \<Rightarrow> string" where
  "toNormalName name =
     (case find (\<lambda>c. c = CHR ''.'' \<or> c = CHR ''/'') name of
        None \<Rightarrow> name
      | Some c \<Rightarrow>
          if c = CHR ''.''
          then map (\<lambda>c. if c = CHR ''.'' then CHR ''/'' else if c = CHR ''/'' then CHR ''.'' else c) name
          else name)"

definition sysctl_path :: "string \<Rightarrow> string" where
  "sysctl_path name = path_Join ''/proc/sys'' (toNormalName name)"

text \<open>The slice \<open>data[:len(data)-1]\<close> panics on an empty file.\<close>

definition getSysctl :: "'w files \<Rightarrow> string \<Rightarrow> ('w, string) io" where
  "getSysctl F name =
     bind_io (ReadFile F (sysctl_path name)) (\<lambda>data.
       if data = [] then fail (Panic ''slice bounds out of range [:-1]'') else ret (butlast data))"

definition setSysctl :: "'w files \<Rightarrow> string \<Rightarrow> string \<Rightarrow> ('w, string) io" where
  "setSysctl F name value =
     bind_io (WriteFile F (sysctl_path name) value) (\<lambda>_. getSysctl F name)"

definition Sysctl :: "'w files \<Rightarrow> string \<Rightarrow> string list \<Rightarrow> ('w, string) io" where
  "Sysctl F name params =
     (if 1 < length params then fail (Errorf ''unexcepted additional parameters'')
      else if length params = 1 then setSysctl F name (params ! 0)
      else getSysctl F name)"

section \<open>hwaddr\<close>

definition PrivateMACPrefix :: "byte list" where
  "PrivateMACPrefix = [0x0a, 0x58]"

definition GenerateHardwareAddr4 :: "ip \<Rightarrow> byte list \<Rightarrow> byte list res" where
  "GenerateHardwareAddr4 a prefix =
     (if To4 a = [] then Inl (Errorf ''GenerateHardwareAddr4 only supports valid IPv4 address as input'')
      else if length prefix \<noteq> length PrivateMACPrefix then Inl (Errorf ''Prefix has length'')
      else Inr (prefix @ drop (length a - 4) a))"

section \<open>Properties\<close>

definition swap_sep :: "string \<Rightarrow> string" where
  "swap_sep = map (\<lambda>c. if c = CHR ''.'' then CHR ''/'' else if c = CHR ''/'' then CHR ''.'' else c)"

lemma swap_sep_swap: "swap_sep (swap_sep s) = s"
  by (induction s) (auto simp: swap_sep_def)

lemma find_swap: "find (\<lambda>c. c = CHR ''.'' \<or> c = CHR ''/'') (swap_sep s) =
   map_option (\<lambda>c. if c = CHR ''.'' then CHR ''/'' else CHR ''.'') (find (\<lambda>c. c = CHR ''.'' \<or> c = CHR ''/'') s)"
  by (induction s) (auto simp: swap_sep_def)

text \<open>
  C38: the two spellings of a sysctl name denote one file: a name whose first separator is a slash is its
  own normal form, and exchanging dots and slashes in it gives a name with the same normal form. A write
  followed by a read of the other spelling uses the same path.
\<close>

theorem sysctl_spellings:
  assumes "find (\<lambda>c. c = CHR ''.'' \<or> c = CHR ''/'') name = Some (CHR ''/'')"
  shows "toNormalName name = name \<and> toNormalName (swap_sep name) = name
     \<and> getSysctl F (swap_sep name) w = getSysctl F name w \<and> setSysctl F (swap_sep name) v w = setSysctl F name v w"
proof -
  have 1: "toNormalName name = name" using assms by (simp add: toNormalName_def)
  have "toNormalName (swap_sep name) = swap_sep (swap_sep name)"
    unfolding toNormalName_def find_swap assms by (simp only: option.map option.case if_True if_False swap_sep_def [symmetric]) simp
  then have 2: "toNormalName (swap_sep name) = name" by (simp only: swap_sep_swap)
  then show ?thesis using 1 by (simp add: getSysctl_def setSysctl_def sysctl_path_def)
qed

theorem sysctl_spellings_witness:
  "toNormalName ''net/ipv4/conf/eth0.100/route_localnet'' = ''net/ipv4/conf/eth0.100/route_localnet''
     \<and> toNormalName ''net.ipv4.conf.eth0/100.route_localnet'' = ''net/ipv4/conf/eth0.100/route_localnet''"
proof -
  have "find (\<lambda>c. c = CHR ''.'' \<or> c = CHR ''/'') ''net/ipv4/conf/eth0.100/route_localnet'' = Some (CHR ''/'')" by simp
  from sysctl_spellings [OF this, THEN conjunct1]
    sysctl_spellings [OF this, THEN conjunct2, THEN conjunct1] show ?thesis by (simp add: swap_sep_def)
qed

text \<open>
  A hardware address generated from an IPv4 address with the private prefix is the prefix and the
  four bytes of the address, for both forms of the address; other addresses are rejected.
\<close>

theorem generate_hardware_addr:
  "GenerateHardwareAddr4 a PrivateMACPrefix =
     (if To4 a = [] then Inl (Errorf ''GenerateHardwareAddr4 only supports valid IPv4 address as input'')
      else Inr (PrivateMACPrefix @ To4 a))"
proof (cases "To4 a = []")
  case False
  then have "drop (length a - 4) a = To4 a" by (auto simp: To4_def split: if_splits)
  then show ?thesis using False by (simp add: GenerateHardwareAddr4_def)
qed (simp add: GenerateHardwareAddr4_def)

end
