(* ===== verification/Netlink.thy ===== *)
theory Netlink
  imports Ns Sysctl Cni_Types
begin

text \<open>
  The kernel as the repository sees it through \<open>vishvananda/netlink\<close>: links, addresses and routes as
  records, and the calls on an environment as a record of operations. Beside it stand the address
  predicates of \<open>net\<close> that the callers use.
\<close>

section \<open>Links, addresses, routes\<close>

datatype macvlan_mode = MODE_DEFAULT | MODE_PRIVATE | MODE_VEPA | MODE_BRIDGE | MODE_PASSTHRU | MODE_SOURCE

datatype link_kind =
    Device
  | Veth string
  | Vrf "32 word"
  | Bridge "bool option"
  | Macvlan macvlan_mode
  | Ifb
  | Vlan

text \<open>
  The operational state is the number of the kernel (6 is up); the namespace is the descriptor a new link
  is to be put in; a bridge has its VLAN filtering only where it was asked for.
\<close>

record link =
  lk_Index :: int
  lk_Name :: string
  lk_MTU :: int
  lk_HardwareAddr :: "byte list"
  lk_Up :: bool
  lk_Promisc :: int
  lk_MasterIndex :: int
  lk_ParentIndex :: int
  lk_OperState :: nat
  lk_TxQLen :: int
  lk_NsFd :: "int option"
  lk_Kind :: link_kind

definition OperUp :: nat where
  "OperUp = 6"

definition new_link :: "string \<Rightarrow> link_kind \<Rightarrow> link" where
  "new_link name kind = \<lparr>lk_Index = 0, lk_Name = name, lk_MTU = 0, lk_HardwareAddr = [], lk_Up = False,
     lk_Promisc = 0, lk_MasterIndex = 0, lk_ParentIndex = 0, lk_OperState = 0, lk_TxQLen = 0, lk_NsFd = None,
     lk_Kind = kind\<rparr>"

text \<open>The flags of an address that matter here are \<open>IFA_F_TENTATIVE\<close> and \<open>IFA_F_DADFAILED\<close>.\<close>

record nladdr =
  ad_IPNet :: ipnet
  ad_Flags :: "32 word"

definition addr_equal :: "nladdr \<Rightarrow> nladdr \<Rightarrow> bool" where
  "addr_equal a x \<longleftrightarrow> ip_equal (net_ip (ad_IPNet a)) (net_ip (ad_IPNet x))
     \<and> fst (mask_size (net_mask (ad_IPNet a))) = fst (mask_size (net_mask (ad_IPNet x)))"

datatype family = FAMILY_ALL | FAMILY_V4 | FAMILY_V6

datatype scope = SCOPE_UNIVERSE | SCOPE_HOST | SCOPE_LINK

record nlroute =
  rt_LinkIndex :: int
  rt_Scope :: scope
  rt_Dst :: "ipnet option"
  rt_Gw :: ip
  rt_Table :: int
  rt_Flags :: int
  rt_others :: nat

text \<open>\<open>rt_others\<close> and \<open>ru_others\<close> stand for the attributes that no code of the repository reads or writes.\<close>

definition new_route :: "int \<Rightarrow> ipnet option \<Rightarrow> ip \<Rightarrow> nlroute" where
  "new_route index dst gw = \<lparr>rt_LinkIndex = index, rt_Scope = SCOPE_UNIVERSE, rt_Dst = dst, rt_Gw = gw, rt_Table = 0,
     rt_Flags = 0, rt_others = 0\<rparr>"

record nlrule =
  ru_Table :: int
  ru_Src :: "ipnet option"
  ru_others :: nat

text \<open>\<open>netlink.NewRule\<close>\<close>

definition NewRule :: nlrule where
  "NewRule = \<lparr>ru_Table = 0, ru_Src = None, ru_others = 0\<rparr>"

text \<open>Queueing disciplines: the link, the handle and the parent, and for a token bucket its parameters.\<close>

record qdisc_attrs =
  qa_LinkIndex :: int
  qa_Handle :: "32 word"
  qa_Parent :: "32 word"

datatype qdisc =
    Tbf (tbf_attrs: qdisc_attrs) (tbf_Limit: "32 word") (tbf_Rate: "64 word") (tbf_Buffer: "32 word")
  | Ingress qdisc_attrs
  | PfifoFast qdisc_attrs
  | OtherQdisc qdisc_attrs

text \<open>The one filter the repository adds: a redirection of everything to another link.\<close>

record u32_filter =
  uf_LinkIndex :: int
  uf_Parent :: "32 word"
  uf_Priority :: "16 word"
  uf_Protocol :: "16 word"
  uf_ClassId :: "32 word"
  uf_RedirIndex :: int
  uf_MirredIfindex :: int

text \<open>
  The calls. \<open>LinkAdd\<close> writes the index of the new link back into its argument, so it returns it;
  \<open>RouteListFiltered\<close> takes the destination and the gateway it is to filter on, \<open>None\<close> where the mask
  leaves one out.
\<close>

record 'w netlink =
  nl_LinkByName :: "string \<Rightarrow> ('w, link) io"
  nl_LinkByIndex :: "int \<Rightarrow> ('w, link) io"
  nl_LinkList :: "('w, link list) io"
  nl_LinkAdd :: "link \<Rightarrow> ('w, int) io"
  nl_LinkDel :: "link \<Rightarrow> ('w, unit) io"
  nl_LinkSetUp :: "link \<Rightarrow> ('w, unit) io"
  nl_LinkSetDown :: "link \<Rightarrow> ('w, unit) io"
  nl_LinkSetName :: "link \<Rightarrow> string \<Rightarrow> ('w, unit) io"
  nl_LinkSetMTU :: "link \<Rightarrow> int \<Rightarrow> ('w, unit) io"
  nl_LinkSetMaster :: "link \<Rightarrow> link \<Rightarrow> ('w, unit) io"
  nl_LinkSetNoMaster :: "link \<Rightarrow> ('w, unit) io"
  nl_LinkSetNsFd :: "link \<Rightarrow> int \<Rightarrow> ('w, unit) io"
  nl_LinkSetHardwareAddr :: "link \<Rightarrow> byte list \<Rightarrow> ('w, unit) io"
  nl_SetPromiscOn :: "link \<Rightarrow> ('w, unit) io"
  nl_SetPromiscOff :: "link \<Rightarrow> ('w, unit) io"
  nl_AddrList :: "link \<Rightarrow> family \<Rightarrow> ('w, nladdr list) io"
  nl_AddrAdd :: "link \<Rightarrow> nladdr \<Rightarrow> ('w, unit) io"
  nl_AddrDel :: "link \<Rightarrow> nladdr \<Rightarrow> ('w, unit) io"
  nl_LinkSetHairpin :: "link \<Rightarrow> bool \<Rightarrow> ('w, unit) io"
  nl_BridgeVlanAdd :: "link \<Rightarrow> 16 word \<Rightarrow> bool \<Rightarrow> bool \<Rightarrow> bool \<Rightarrow> bool \<Rightarrow> ('w, unit) io"
  nl_InterfaceByName :: "string \<Rightarrow> ('w, unit) io"
  nl_GratuitousArp :: "ip \<Rightarrow> string \<Rightarrow> ('w, unit) io"
  nl_RouteAdd :: "nlroute \<Rightarrow> ('w, unit) io"
  nl_RouteDel :: "nlroute \<Rightarrow> ('w, unit) io"
  nl_RouteReplace :: "nlroute \<Rightarrow> ('w, unit) io"
  nl_RouteList :: "link option \<Rightarrow> family \<Rightarrow> ('w, nlroute list) io"
  nl_RuleList :: "family \<Rightarrow> ('w, nlrule list) io"
  nl_RuleAdd :: "nlrule \<Rightarrow> ('w, unit) io"
  nl_RuleDel :: "nlrule \<Rightarrow> ('w, unit) io"
  nl_QdiscList :: "link \<Rightarrow> ('w, qdisc list) io"
  nl_QdiscAdd :: "qdisc \<Rightarrow> ('w, unit) io"
  nl_FilterAdd :: "u32_filter \<Rightarrow> ('w, unit) io"
  nl_RouteListFiltered :: "family \<Rightarrow> ipnet option option \<Rightarrow> ip option \<Rightarrow> ('w, nlroute list) io"
  nl_ethtool_New :: "('w, unit) io"
  nl_ethtool_Stats :: "string \<Rightarrow> ('w, (string \<times> nat) list) io"
  nl_ethtool_Close :: "('w, unit) io"
  nl_rand :: "nat \<Rightarrow> ('w, byte list) io"
  nl_Now :: "'w \<Rightarrow> int"
  nl_Sleep :: "int \<Rightarrow> 'w \<Rightarrow> 'w"
  nl_files :: "'w files"
  nl_os :: "'w os"

section \<open>Addresses\<close>

definition IsUnspecified :: "ip \<Rightarrow> bool" where
  "IsUnspecified a \<longleftrightarrow> ip_equal a [0, 0, 0, 0] \<or> ip_equal a (replicate 16 0)"

definition IsLoopback :: "ip \<Rightarrow> bool" where
  "IsLoopback a \<longleftrightarrow> (if To4 a \<noteq> [] then To4 a ! 0 = 127 else ip_equal a (replicate 15 0 @ [1]))"

definition IsMulticast :: "ip \<Rightarrow> bool" where
  "IsMulticast a \<longleftrightarrow> (if To4 a \<noteq> [] then and (To4 a ! 0) 0xf0 = 0xe0 else length a = 16 \<and> a ! 0 = 0xff)"

definition IsLinkLocalUnicast :: "ip \<Rightarrow> bool" where
  "IsLinkLocalUnicast a \<longleftrightarrow>
     (if To4 a \<noteq> [] then To4 a ! 0 = 169 \<and> To4 a ! 1 = 254
      else length a = 16 \<and> a ! 0 = 0xfe \<and> and (a ! 1) 0xc0 = 0x80)"

definition IsGlobalUnicast :: "ip \<Rightarrow> bool" where
  "IsGlobalUnicast a \<longleftrightarrow> (length a = 4 \<or> length a = 16) \<and> \<not> ip_equal a [255, 255, 255, 255]
     \<and> \<not> IsUnspecified a \<and> \<not> IsLoopback a \<and> \<not> IsMulticast a \<and> \<not> IsLinkLocalUnicast a"

section \<open>Sequencing helpers\<close>

definition lift_res :: "'a res \<Rightarrow> ('w, 'a) io" where
  "lift_res r = (case r of Inl e \<Rightarrow> fail e | Inr x \<Rightarrow> ret x)"

definition nil_deref :: error where
  "nil_deref = Panic ''invalid memory address or nil pointer dereference''"

lemma is_panic_nil_deref [simp]: "is_panic nil_deref"
  by (simp add: nil_deref_def)

lemma leaves_lift [leaves_intros]: "leaves f (lift_res r)"
  by (simp add: lift_res_def leaves_def ret_def fail_def split: sum.splits)

text \<open>A loop that collects results and stops at the first error.\<close>

fun map_io :: "('a \<Rightarrow> ('w, 'b) io) \<Rightarrow> 'a list \<Rightarrow> ('w, 'b list) io" where
  "map_io f [] = ret []"
| "map_io f (x # xs) = bind_io (f x) (\<lambda>y. bind_io (map_io f xs) (\<lambda>ys. ret (y # ys)))"

end
