(* ===== verification/Portmap.thy ===== *)
theory Portmap
  imports Portmap_Chain Netlink
begin

text \<open>
  \<open>plugins/meta/portmap\<close>: the port-mapping plugin (\<open>main.go\<close>), the chains and rules it generates
  (\<open>portmap.go\<close>) and its helpers (\<open>utils.go\<close>). iptables, routes, connection tracking and files are
  calls on an environment.
\<close>

section \<open>Data\<close>

record port_map_entry =
  HostPort :: int
  ContainerPort :: int
  Protocol :: string
  HostIP :: string

record portmap_conf = netconf +
  SNAT :: "bool option"
  ConditionsV4 :: "string list option"
  ConditionsV6 :: "string list option"
  MarkMasqBit :: "int option"
  ExternalSetMarkChain :: "string option"
  PortMaps :: "port_map_entry list"
  PMContainerID :: string
  ContIPv4 :: ipnet
  ContIPv6 :: ipnet

record 'w pm_env =
  pm_iptables :: "bool \<Rightarrow> ('w, 'w iptables) io"
  pm_RouteGet :: "ip \<Rightarrow> ('w, int list) io"
  pm_LinkByIndex :: "int \<Rightarrow> ('w, string) io"
  pm_files :: "'w files"
  pm_conntrack :: "'w conntrack"
  pm_sha :: "string \<Rightarrow> string"
  pm_shellwords :: "string \<Rightarrow> string list res"
  pm_decode :: "string \<Rightarrow> portmap_conf res"
  pm_lib :: "'w cni_lib"

section \<open>utils.go\<close>

definition fmtIpPort :: "ip \<Rightarrow> int \<Rightarrow> string" where
  "fmtIpPort a port =
     (if To4 a = [] then ''['' @ ip_string a @ '']:'' @ itoa port else ip_string a @ '':'' @ itoa port)"

definition localhostIP :: "bool \<Rightarrow> string" where
  "localhostIP isV6 = (if isV6 then ''::1'' else ''127.0.0.1'')"

text \<open>The interface of the first route whose link can be looked up.\<close>

fun first_link :: "(int \<Rightarrow> ('w, string) io) \<Rightarrow> int list \<Rightarrow> ('w, string) io" where
  "first_link link_by_index [] = ret ''''"
| "first_link link_by_index (i # is) =
     attempt (link_by_index i) (\<lambda>r. case r of Inl _ \<Rightarrow> first_link link_by_index is | Inr name \<Rightarrow> ret name)"

definition getRoutableHostIF :: "'w pm_env \<Rightarrow> ip \<Rightarrow> ('w, string) io" where
  "getRoutableHostIF E containerIP =
     attempt (pm_RouteGet E containerIP) (\<lambda>r.
       case r of Inl _ \<Rightarrow> ret '''' | Inr routes \<Rightarrow> first_link (pm_LinkByIndex E) routes)"

definition group_step :: "(string \<times> int list) list \<Rightarrow> port_map_entry \<Rightarrow> (string \<times> int list) list" where
  "group_step out e =
     (case map_of out (Protocol e) of
        Some l \<Rightarrow> AList.update (Protocol e) (l @ [HostPort e]) out
      | None \<Rightarrow> AList.update (Protocol e) [HostPort e] out)"

definition groupByProto :: "port_map_entry list \<Rightarrow> (string \<times> int list) list" where
  "groupByProto entries = (if length entries = 0 then [] else foldl group_step [] entries)"

definition split_step :: "string list \<times> string list \<Rightarrow> int \<Rightarrow> string list \<times> string list" where
  "split_step st i =
     (case st of (out, acc0) \<Rightarrow>
        let acc = acc0 @ [itoa i]
        in if length acc = 15 then (out @ [join '','' acc], []) else (out, acc))"

definition splitPortList :: "int list \<Rightarrow> string list" where
  "splitPortList l =
     (case foldl split_step ([], []) l of (out, acc) \<Rightarrow>
        if 0 < length acc then out @ [join '','' acc] else out)"

definition trimComment :: "string \<Rightarrow> string" where
  "trimComment val = (if length val \<le> 255 then val else take 253 val @ ''...'')"

section \<open>portmap.go: the generated chains\<close>

definition TopLevelDNATChainName :: string where "TopLevelDNATChainName = ''CNI-HOSTPORT-DNAT''"
definition SetMarkChainName :: string where "SetMarkChainName = ''CNI-HOSTPORT-SETMARK''"
definition MarkMasqChainName :: string where "MarkMasqChainName = ''CNI-HOSTPORT-MASQ''"
definition OldTopLevelSNATChainName :: string where "OldTopLevelSNATChainName = ''CNI-HOSTPORT-SNAT''"

definition genToplevelDnatChain :: chain where
  "genToplevelDnatChain =
     \<lparr>ch_table = ''nat'', ch_name = TopLevelDNATChainName,
      entryChains = [''PREROUTING'', ''OUTPUT''],
      entryRules = [[''-m'', ''addrtype'', ''--dst-type'', ''LOCAL'']],
      ch_rules = [], prependEntry = False\<rparr>"

text \<open>The generators call \<open>MustFormatChainNameWithPrefix\<close>, which may panic.\<close>

definition genDnatChain :: "(string \<Rightarrow> string) \<Rightarrow> string \<Rightarrow> string \<Rightarrow> chain option" where
  "genDnatChain sha netName containerID =
     map_option (\<lambda>nm. \<lparr>ch_table = ''nat'', ch_name = nm, entryChains = [TopLevelDNATChainName],
         entryRules = [], ch_rules = [], prependEntry = False\<rparr>)
       (MustFormatChainNameWithPrefix sha netName containerID ''DN-'')"

definition genOldSnatChain :: "(string \<Rightarrow> string) \<Rightarrow> string \<Rightarrow> string \<Rightarrow> chain option" where
  "genOldSnatChain sha netName containerID =
     map_option (\<lambda>nm. \<lparr>ch_table = ''nat'', ch_name = nm, entryChains = [OldTopLevelSNATChainName],
         entryRules = [], ch_rules = [], prependEntry = False\<rparr>)
       (MustFormatChainNameWithPrefix sha netName containerID ''SN-'')"

text \<open>\<open>1 << uint(markBit)\<close> as a 64-bit \<open>int\<close>, printed with \<open>%#x\<close>.\<close>

definition mark_value :: "int \<Rightarrow> int" where
  "mark_value markBit = (if markBit < 0 then 0 else sint (push_bit (nat markBit) (1 :: 64 word)))"

definition fmt_hex :: "int \<Rightarrow> string" where
  "fmt_hex v = (if v < 0 then ''-0x'' @ hex (nat (- v)) else ''0x'' @ hex (nat v))"

definition markDef :: "int \<Rightarrow> string" where
  "markDef markBit = fmt_hex (mark_value markBit) @ ''/'' @ fmt_hex (mark_value markBit)"

definition genSetMarkChain :: "int \<Rightarrow> chain" where
  "genSetMarkChain markBit =
     \<lparr>ch_table = ''nat'', ch_name = SetMarkChainName, entryChains = [], entryRules = [],
      ch_rules = [[''-m'', ''comment'', ''--comment'', ''CNI portfwd masquerade mark'',
                   ''-j'', ''MARK'', ''--set-xmark'', markDef markBit]],
      prependEntry = False\<rparr>"

definition genMarkMasqChain :: "int \<Rightarrow> chain" where
  "genMarkMasqChain markBit =
     \<lparr>ch_table = ''nat'', ch_name = MarkMasqChainName, entryChains = [''POSTROUTING''],
      entryRules = [[''-m'', ''comment'', ''--comment'', ''CNI portfwd requiring masquerade'']],
      ch_rules = [[''-m'', ''mark'', ''--mark'', markDef markBit, ''-j'', ''MASQUERADE'']],
      prependEntry = True\<rparr>"

section \<open>portmap.go: the forwarding rules\<close>

definition conditions :: "portmap_conf \<Rightarrow> bool \<Rightarrow> string list" where
  "conditions config isV6 =
     (if isV6 \<and> ConditionsV6 config \<noteq> None \<and> 0 < length (the (ConditionsV6 config)) then the (ConditionsV6 config)
      else if \<not> isV6 \<and> ConditionsV4 config \<noteq> None \<and> 0 < length (the (ConditionsV4 config)) then the (ConditionsV4 config)
      else [])"

definition dnat_comment :: "portmap_conf \<Rightarrow> string" where
  "dnat_comment config =
     trimComment (''dnat name: \"'' @ ConfName config @ ''\" id: \"'' @ PMContainerID config @ ''\"'')"

text \<open>The entry rules: one per protocol, in the order of their names, and per group of 15 ports.\<close>

definition dnat_entry_rules :: "portmap_conf \<Rightarrow> bool \<Rightarrow> string list list" where
  "dnat_entry_rules config isV6 =
     (let protoPorts = groupByProto (PortMaps config)
      in concat (map (\<lambda>proto.
           map (\<lambda>portSpec.
             [''-m'', ''comment'', ''--comment'', dnat_comment config, ''-m'', ''multiport'',
              ''-p'', proto, ''--destination-ports'', portSpec] @ conditions config isV6)
             (splitPortList (the (map_of protoPorts proto))))
           (sort (map fst protoPorts))))"

text \<open>The rules of one port mapping; an empty list when the families do not match.\<close>

definition set_mark_chain :: "portmap_conf \<Rightarrow> string" where
  "set_mark_chain config = (case ExternalSetMarkChain config of None \<Rightarrow> SetMarkChainName | Some ch \<Rightarrow> ch)"

definition dnat_rules_of :: "portmap_conf \<Rightarrow> ipnet \<Rightarrow> port_map_entry \<Rightarrow> string list list res" where
  "dnat_rules_of config containerNet entry =
     (let isV6 = (To4 (net_ip containerNet) = []);
          hostIP = ParseIP (HostIP entry);
          isHostV6 = (To4 hostIP = [])
      in if HostIP entry \<noteq> '''' \<and> isV6 \<noteq> isHostV6 then Inr []
         else
           let addRuleBaseDst = (HostIP entry \<noteq> '''' \<and> \<not> IsUnspecified hostIP);
               ruleBase = [''-p'', Protocol entry, ''--dport'', itoa (HostPort entry)]
                 @ (if addRuleBaseDst then [''-d'', HostIP entry] else []);
               hpRule = ruleBase @ [''-s'', ipnet_string containerNet, ''-j'', set_mark_chain config];
               localRule = ruleBase @ [''-s'', ''127.0.0.1'', ''-j'', set_mark_chain config];
               dnatRule = ruleBase @ [''-j'', ''DNAT'', ''--to-destination'',
                 fmtIpPort (net_ip containerNet) (ContainerPort entry)]
           in case SNAT config of
                None \<Rightarrow> Inl nil_deref
              | Some snat \<Rightarrow> Inr ((if snat then hpRule # (if \<not> isV6 then [localRule] else []) else []) @ [dnatRule]))"

definition fillDnatRules :: "chain \<Rightarrow> portmap_conf \<Rightarrow> ipnet \<Rightarrow> chain res" where
  "fillDnatRules c config containerNet =
     bind_res (map_res (dnat_rules_of config containerNet) (PortMaps config)) (\<lambda>rs.
       Inr (c\<lparr>entryRules := entryRules c @ dnat_entry_rules config (To4 (net_ip containerNet) = []),
              ch_rules := concat rs\<rparr>))"

section \<open>portmap.go: the operations\<close>

definition must :: "'a option \<Rightarrow> ('w, 'a) io" where
  "must x = (case x of None \<Rightarrow> fail (Panic ''invalid length'') | Some y \<Rightarrow> ret y)"

definition enableLocalnetRouting :: "'w pm_env \<Rightarrow> string \<Rightarrow> ('w, unit) io" where
  "enableLocalnetRouting E ifName =
     bind_io (Sysctl (pm_files E) (''net.ipv4.conf.'' @ ifName @ ''.route_localnet'') [''1'']) (\<lambda>_. ret ())"

definition setup_masq :: "portmap_conf \<Rightarrow> 'w iptables \<Rightarrow> ('w, unit) io" where
  "setup_masq config ipt =
     (if ExternalSetMarkChain config = None then
        (case MarkMasqBit config of
           None \<Rightarrow> fail nil_deref
         | Some markBit \<Rightarrow>
             let setMarkChain = genSetMarkChain markBit; masqChain = genMarkMasqChain markBit
             in bind_io (wrap_io (''unable to create chain '' @ ch_name setMarkChain) (chain_setup setMarkChain ipt)) (\<lambda>_.
                wrap_io (''unable to create chain '' @ ch_name setMarkChain) (chain_setup masqChain ipt)))
      else ret ())"

definition route_localnet :: "'w pm_env \<Rightarrow> ip \<Rightarrow> ('w, unit) io" where
  "route_localnet E a =
     bind_io (getRoutableHostIF E a) (\<lambda>hostIfName.
       if hostIfName \<noteq> '''' then
         wrap_io ''unable to enable route_localnet'' (enableLocalnetRouting E hostIfName)
       else ret ())"

definition forwardPorts :: "'w pm_env \<Rightarrow> portmap_conf \<Rightarrow> ipnet \<Rightarrow> ('w, unit) io" where
  "forwardPorts E config containerNet =
     (let isV6 = (To4 (net_ip containerNet) = [])
      in bind_io (wrap_io ''failed to open iptables'' (pm_iptables E isV6)) (\<lambda>ipt.
         bind_io (case SNAT config of
                    None \<Rightarrow> fail nil_deref
                  | Some snat \<Rightarrow>
                      if snat then
                        bind_io (setup_masq config ipt) (\<lambda>_.
                          if \<not> isV6 then route_localnet E (net_ip containerNet) else ret ())
                      else ret ()) (\<lambda>_.
         bind_io (wrap_io ''failed to create top-level DNAT chain'' (chain_setup genToplevelDnatChain ipt)) (\<lambda>_.
         bind_io (must (genDnatChain (pm_sha E) (ConfName config) (PMContainerID config))) (\<lambda>dnat.
         bind_io (lift_res (fillDnatRules dnat config containerNet)) (\<lambda>dnatChain.
         wrap_io ''unable to setup DNAT'' (chain_setup dnatChain ipt)))))))"

text \<open>\<open>maybeGetIptables\<close>: nil when iptables cannot be used.\<close>

definition maybeGetIptables :: "'w pm_env \<Rightarrow> bool \<Rightarrow> ('w, 'w iptables option) io" where
  "maybeGetIptables E isV6 =
     attempt (pm_iptables E isV6) (\<lambda>r.
       case r of
         Inl _ \<Rightarrow> ret None
       | Inr ipt \<Rightarrow> attempt (ipt_List ipt ''nat'' ''OUTPUT'') (\<lambda>l. ret (case l of Inl _ \<Rightarrow> None | Inr _ \<Rightarrow> Some ipt)))"

text \<open>One family of \<open>checkPorts\<close>; \<open>False\<close> when the function returns early (its error is nil there).\<close>

definition check_family :: "chain \<Rightarrow> string \<Rightarrow> 'w iptables option \<Rightarrow> ('w, bool) io" where
  "check_family dnatChain msg ipt =
     (case ipt of
        None \<Rightarrow> ret True
      | Some t \<Rightarrow>
          bind_io (ChainExists ipt (ch_table dnatChain) (ch_name dnatChain)) (\<lambda>exists.
            if \<not> exists then ret False
            else bind_io (wrap_io msg (chain_check dnatChain t)) (\<lambda>_. ret True)))"

definition checkPorts :: "'w pm_env \<Rightarrow> portmap_conf \<Rightarrow> ipnet \<Rightarrow> ('w, unit) io" where
  "checkPorts E config containerNet =
     bind_io (must (genDnatChain (pm_sha E) (ConfName config) (PMContainerID config))) (\<lambda>dnat.
     bind_io (lift_res (fillDnatRules dnat config containerNet)) (\<lambda>dnatChain.
     bind_io (maybeGetIptables E False) (\<lambda>ip4t.
     bind_io (maybeGetIptables E True) (\<lambda>ip6t.
       if ip4t = None \<and> ip6t = None then fail (Errorf ''neither iptables nor ip6tables usable'')
       else
         bind_io (check_family dnatChain ''could not check ipv4 dnat'' ip4t) (\<lambda>go_on.
           if \<not> go_on then ret ()
           else bind_io (check_family dnatChain ''could not check ipv6 dnat'' ip6t) (\<lambda>_. ret ()))))))"

definition teardown_family :: "'w pm_env \<Rightarrow> chain \<Rightarrow> chain \<Rightarrow> string \<Rightarrow> 'w iptables option \<Rightarrow> ('w, unit) io" where
  "teardown_family E dnatChain oldSnatChain msg ipt =
     (case ipt of
        None \<Rightarrow> ret ()
      | Some t \<Rightarrow>
          bind_io (wrap_io msg (chain_teardown dnatChain t (pm_shellwords E))) (\<lambda>_.
            attempt (chain_teardown oldSnatChain t (pm_shellwords E)) (\<lambda>_. ret ())))"

definition unforwardPorts :: "'w pm_env \<Rightarrow> portmap_conf \<Rightarrow> ('w, unit) io" where
  "unforwardPorts E config =
     bind_io (must (genDnatChain (pm_sha E) (ConfName config) (PMContainerID config))) (\<lambda>dnatChain.
     bind_io (must (genOldSnatChain (pm_sha E) (ConfName config) (PMContainerID config))) (\<lambda>oldSnatChain.
     bind_io (maybeGetIptables E False) (\<lambda>ip4t.
     bind_io (maybeGetIptables E True) (\<lambda>ip6t.
       if ip4t = None \<and> ip6t = None then fail (Errorf ''neither iptables nor ip6tables usable'')
       else
         bind_io (teardown_family E dnatChain oldSnatChain ''could not teardown ipv4 dnat'' ip4t) (\<lambda>_.
         teardown_family E dnatChain oldSnatChain ''could not teardown ipv6 dnat'' ip6t)))))"

definition ToLower :: "string \<Rightarrow> string" where
  "ToLower = map (\<lambda>c. let n = of_char c :: nat in if 65 \<le> n \<and> n \<le> 90 then char_of (n + 32) else c)"

definition deletePortmapStaleConnections :: "'w pm_env \<Rightarrow> port_map_entry list \<Rightarrow> bool \<Rightarrow> ('w, unit) io" where
  "deletePortmapStaleConnections E portMappings isV6 =
     each_io (\<lambda>pm.
       if ToLower (Protocol pm) \<noteq> ''udp'' then ret ()
       else DeleteConntrackEntriesForDstPort (pm_conntrack E) (word_of_int (HostPort pm)) PROTOCOL_UDP isV6)
       portMappings"

section \<open>main.go\<close>

definition DefaultMarkBit :: int where
  "DefaultMarkBit = 13"

definition check_ports_positive :: "port_map_entry list \<Rightarrow> unit res" where
  "check_ports_positive pms =
     bind_res (map_res (\<lambda>pm.
       if ContainerPort pm \<le> 0 then Inl (Errorf ''Invalid container port number'')
       else if HostPort pm \<le> 0 then Inl (Errorf ''Invalid host port number'')
       else Inr ()) pms) (\<lambda>_. Inr ())"

text \<open>The addresses of the container: the first of each family on a sandbox interface of that name.\<close>

definition pick_ip :: "string \<Rightarrow> cni_result \<Rightarrow> portmap_conf \<Rightarrow> ipconfig \<Rightarrow> portmap_conf" where
  "pick_ip ifName result conf ipc =
     (if Version ipc = ''6'' \<and> net_ip (ContIPv6 conf) \<noteq> [] then conf
      else if Version ipc = ''4'' \<and> net_ip (ContIPv4 conf) \<noteq> [] then conf
      else if (case Interface ipc of
                 None \<Rightarrow> False
               | Some intIdx \<Rightarrow>
                   0 \<le> intIdx \<and> intIdx < int (length (Interfaces result)) \<and>
                   (Name (Interfaces result ! nat intIdx) \<noteq> ifName \<or> Sandbox (Interfaces result ! nat intIdx) = ''''))
      then conf
      else if Version ipc = ''6'' then conf\<lparr>ContIPv6 := Address ipc\<rparr>
      else if Version ipc = ''4'' then conf\<lparr>ContIPv4 := Address ipc\<rparr>
      else conf)"

definition check_mark_bit :: "portmap_conf \<Rightarrow> portmap_conf res" where
  "check_mark_bit conf =
     (if MarkMasqBit conf \<noteq> None \<and> ExternalSetMarkChain conf \<noteq> None
      then Inl (Errorf ''Cannot specify externalSetMarkChain and markMasqBit'')
      else
        let markBit = (case MarkMasqBit conf of None \<Rightarrow> DefaultMarkBit | Some b \<Rightarrow> b)
        in if markBit < 0 \<or> 31 < markBit then Inl (Errorf ''MasqMarkBit must be between 0 and 31'')
           else Inr (conf\<lparr>MarkMasqBit := Some markBit\<rparr>))"

definition parseConfig :: "'w pm_env \<Rightarrow> string \<Rightarrow> string \<Rightarrow> (portmap_conf \<times> cni_result option) res" where
  "parseConfig E stdin ifName =
     (case pm_decode E stdin of
        Inl e \<Rightarrow> Inl (Wrap ''failed to parse network configuration'' e)
      | Inr conf0 \<Rightarrow>
          bind_res (parse_prev (pm_lib E) conf0) (\<lambda>(conf1, result).
          let conf2 = (if SNAT conf1 = None then conf1\<lparr>SNAT := Some True\<rparr> else conf1)
          in bind_res (check_mark_bit conf2) (\<lambda>conf3.
             bind_res (check_ports_positive (PortMaps conf3)) (\<lambda>_.
               case result of
                 None \<Rightarrow> Inr (conf3, None)
               | Some r \<Rightarrow> Inr (foldl (pick_ip ifName r) conf3 (IPs r), Some r)))))"

definition add_family :: "'w pm_env \<Rightarrow> portmap_conf \<Rightarrow> ipnet \<Rightarrow> bool \<Rightarrow> ('w, unit) io" where
  "add_family E netConf contNet isV6 =
     (if net_ip contNet \<noteq> [] then
        bind_io (forwardPorts E netConf contNet) (\<lambda>_.
          attempt (deletePortmapStaleConnections E (PortMaps netConf) isV6) (\<lambda>_. ret ()))
      else ret ())"

definition portmap_cmdAdd :: "'w pm_env \<Rightarrow> cmd_args \<Rightarrow> ('w, unit) io" where
  "portmap_cmdAdd E args =
     bind_io (wrap_io ''failed to parse config'' (lift_res (parseConfig E (StdinData args) (IfName args)))) (\<lambda>(conf, _).
       case PrevResult conf of
         None \<Rightarrow> fail (Errorf ''must be called as chained plugin'')
       | Some prev \<Rightarrow>
           if length (PortMaps conf) = 0 then PrintResult (pm_lib E) prev (ConfVersion conf)
           else
             let netConf = conf\<lparr>PMContainerID := ContainerID args\<rparr>
             in bind_io (add_family E netConf (ContIPv4 netConf) False) (\<lambda>_.
                bind_io (add_family E netConf (ContIPv6 netConf) True) (\<lambda>_.
                PrintResult (pm_lib E) prev (ConfVersion netConf))))"

definition portmap_cmdDel :: "'w pm_env \<Rightarrow> cmd_args \<Rightarrow> ('w, unit) io" where
  "portmap_cmdDel E args =
     bind_io (wrap_io ''failed to parse config'' (lift_res (parseConfig E (StdinData args) (IfName args)))) (\<lambda>(conf, _).
       if length (PortMaps conf) = 0 then ret ()
       else unforwardPorts E (conf\<lparr>PMContainerID := ContainerID args\<rparr>))"

definition portmap_cmdCheck :: "'w pm_env \<Rightarrow> cmd_args \<Rightarrow> ('w, unit) io" where
  "portmap_cmdCheck E args =
     bind_io (lift_res (parseConfig E (StdinData args) (IfName args))) (\<lambda>(conf0, result).
       if result = None then fail (Errorf ''Required prevResult missing'')
       else if length (PortMaps conf0) = 0 then ret ()
       else
         let conf = conf0\<lparr>PMContainerID := ContainerID args\<rparr>
         in bind_io (if net_ip (ContIPv4 conf) \<noteq> [] then checkPorts E conf (ContIPv4 conf) else ret ()) (\<lambda>_.
            if net_ip (ContIPv6 conf) \<noteq> [] then checkPorts E conf (ContIPv6 conf) else ret ()))"

end
