(* ===== verification/Portmap_Props.thy ===== *)
theory Portmap_Props
  imports Portmap
begin

text \<open>
  What the port-mapping plugin guarantees: the entry rules cover every mapped port in groups iptables
  accepts, the configuration is validated, and ADD installs chains that CHECK accepts.
\<close>

section \<open>The entry rules\<close>

lemma split_fold:
  assumes "length acc < 15" "\<forall>c\<in>set cs. length c = 15"
  shows "\<exists>cs' acc'. foldl split_step (map (join '','') cs, acc) l = (map (join '','') cs', acc')
     \<and> concat cs' @ acc' = concat cs @ acc @ map itoa l \<and> length acc' < 15 \<and> (\<forall>c\<in>set cs'. length c = 15)"
  using assms
proof (induction l arbitrary: cs acc)
  case (Cons i l)
  show ?case
  proof (cases "length acc = 14")
    case True
    have "\<forall>c\<in>set (cs @ [acc @ [itoa i]]). length c = 15" using Cons.prems(2) True by auto
    from Cons.IH [of "[]", OF _ this] show ?thesis using True by (simp add: split_step_def Let_def)
  next
    case False
    then have "length (acc @ [itoa i]) < 15" using Cons.prems(1) by simp
    from Cons.IH [OF this Cons.prems(2)] show ?thesis using False by (simp add: split_step_def Let_def)
  qed
qed auto

lemma splitPortList_chunks:
  "\<exists>cs. splitPortList l = map (join '','') cs \<and> concat cs = map itoa l \<and> (\<forall>c\<in>set cs. c \<noteq> [] \<and> length c \<le> 15)"
proof -
  obtain cs acc where f: "foldl split_step ([], []) l = (map (join '','') cs, acc)"
    "concat cs @ acc = map itoa l" "length acc < 15" "\<forall>c\<in>set cs. length c = 15"
    using split_fold [of "[]" "[]" l] by auto
  show ?thesis
  proof (cases "acc = []")
    case True
    then show ?thesis using f by (intro exI [of _ cs]) (auto simp: splitPortList_def)
  next
    case False
    then show ?thesis using f by (intro exI [of _ "cs @ [acc]"]) (auto simp: splitPortList_def)
  qed
qed

lemma group_fold:
  "distinct (map fst out) \<Longrightarrow>
   distinct (map fst (foldl group_step out es)) \<and>
   map_of (foldl group_step out es) p =
     (let new = map HostPort (filter (\<lambda>e. Protocol e = p) es)
      in case map_of out p of None \<Rightarrow> if new = [] then None else Some new | Some l \<Rightarrow> Some (l @ new))"
proof (induction es arbitrary: out)
  case (Cons e es)
  have d: "distinct (map fst (group_step out e))"
    using Cons.prems by (auto simp: group_step_def distinct_update split: option.splits)
  have m: "map_of (group_step out e) p =
      (if Protocol e = p then Some (case map_of out p of None \<Rightarrow> [HostPort e] | Some l \<Rightarrow> l @ [HostPort e]) else map_of out p)"
    by (auto simp: group_step_def update_conv' split: option.splits)
  show ?case using Cons.IH [OF d] by (auto simp: m Let_def split: option.splits)
qed (simp split: option.splits)

lemma groupByProto_spec:
  "distinct (map fst (groupByProto es))"
  "map_of (groupByProto es) p =
     (let ports = map HostPort (filter (\<lambda>e. Protocol e = p) es) in if ports = [] then None else Some ports)"
  using group_fold [of "[]" es p] by (auto simp: groupByProto_def Let_def)

lemma groupByProto_keys: "set (map fst (groupByProto es)) = Protocol ` set es"
proof -
  have "p \<in> set (map fst (groupByProto es)) \<longleftrightarrow> map_of (groupByProto es) p \<noteq> None" for p
    by (auto simp: map_of_eq_None_iff)
  then have "p \<in> set (map fst (groupByProto es)) \<longleftrightarrow> p \<in> Protocol ` set es" for p
    unfolding groupByProto_spec(2) by (auto simp: Let_def filter_empty_conv)
  then show ?thesis by blast
qed

text \<open>
  The entry rules of the DNAT chain are, protocol by protocol in the order of the names, one rule
  per group of at most fifteen ports; the groups of a protocol, put together, are its host ports in the
  order of the configuration, so every mapping is matched and the limit of the multiport match is kept.
\<close>

theorem portmap_entry_rules:
  "\<exists>protos groups. sorted protos \<and> distinct protos \<and> set protos = Protocol ` set (PortMaps config)
     \<and> (\<forall>p\<in>set protos. concat (groups p) = map (\<lambda>e. itoa (HostPort e)) (filter (\<lambda>e. Protocol e = p) (PortMaps config))
          \<and> (\<forall>g\<in>set (groups p). 1 \<le> length g \<and> length g \<le> 15))
     \<and> dnat_entry_rules config isV6 =
         concat (map (\<lambda>p. map (\<lambda>g. [''-m'', ''comment'', ''--comment'', dnat_comment config, ''-m'', ''multiport'',
              ''-p'', p, ''--destination-ports'', join '','' g] @ conditions config isV6) (groups p)) protos)"
proof -
  let ?es = "PortMaps config" and ?G = "groupByProto (PortMaps config)"
  define protos where "protos = sort (map fst ?G)"
  have "\<forall>p. \<exists>cs. splitPortList (the (map_of ?G p)) = map (join '','') cs
      \<and> concat cs = map itoa (the (map_of ?G p)) \<and> (\<forall>c\<in>set cs. c \<noteq> [] \<and> length c \<le> 15)"
    using splitPortList_chunks by blast
  then obtain groups where g: "\<And>p. splitPortList (the (map_of ?G p)) = map (join '','') (groups p)"
    "\<And>p. concat (groups p) = map itoa (the (map_of ?G p))" "\<And>p. \<forall>c\<in>set (groups p). c \<noteq> [] \<and> length c \<le> 15"
    by metis
  have set: "set protos = Protocol ` set ?es" using groupByProto_keys [of ?es] by (simp add: protos_def)
  have ports: "concat (groups p) = map (\<lambda>e. itoa (HostPort e)) (filter (\<lambda>e. Protocol e = p) ?es)" if "p \<in> set protos" for p
  proof -
    have "filter (\<lambda>e. Protocol e = p) ?es \<noteq> []" using that set by (auto simp: filter_empty_conv)
    then show ?thesis by (simp add: g(2) groupByProto_spec(2) Let_def)
  qed
  have rules: "dnat_entry_rules config isV6 =
         concat (map (\<lambda>p. map (\<lambda>g. [''-m'', ''comment'', ''--comment'', dnat_comment config, ''-m'', ''multiport'',
              ''-p'', p, ''--destination-ports'', join '','' g] @ conditions config isV6) (groups p)) protos)"
    by (simp add: dnat_entry_rules_def Let_def g(1) protos_def comp_def)
  show ?thesis
    using ports g(3) rules set groupByProto_spec(1)
    by (intro exI [of _ protos] exI [of _ groups]) (auto simp: protos_def Suc_le_eq)
qed

section \<open>The configuration\<close>

text \<open>
  An accepted configuration has SNAT decided (on by default), a mark bit between 0 and 31 (13 by
  default) that was not given together with an external chain, and positive port numbers; the previous
  result is the one the library parsed. Nothing bounds the ports from above.
\<close>

theorem portmap_parse_config:
  assumes "parseConfig E stdin ifName = Inr (conf, result)" "pm_decode E stdin = Inr conf0"
  shows "SNAT conf = Some (SNAT conf0 \<noteq> Some False)
     \<and> (\<exists>b. MarkMasqBit conf = Some b \<and> 0 \<le> b \<and> b \<le> 31 \<and> b = (case MarkMasqBit conf0 of None \<Rightarrow> 13 | Some x \<Rightarrow> x))
     \<and> (MarkMasqBit conf0 = None \<or> ExternalSetMarkChain conf0 = None)
     \<and> ExternalSetMarkChain conf = ExternalSetMarkChain conf0 \<and> PortMaps conf = PortMaps conf0
     \<and> list_all (\<lambda>pm. 0 < HostPort pm \<and> 0 < ContainerPort pm) (PortMaps conf)
     \<and> (RawPrevResult conf0 = None \<longleftrightarrow> result = None)"
proof -
  have pick: "SNAT (foldl (pick_ip i r) c l) = SNAT c \<and> MarkMasqBit (foldl (pick_ip i r) c l) = MarkMasqBit c
      \<and> ExternalSetMarkChain (foldl (pick_ip i r) c l) = ExternalSetMarkChain c
      \<and> PortMaps (foldl (pick_ip i r) c l) = PortMaps c" for i r c l
    by (induction l arbitrary: c) (simp_all add: pick_ip_def)
  have pos: "check_ports_positive pms = Inr u \<Longrightarrow> list_all (\<lambda>pm. 0 < HostPort pm \<and> 0 < ContainerPort pm) pms" for pms u
    by (induction pms arbitrary: u) (auto simp: check_ports_positive_def bind_res_Inr split: if_splits)
  obtain conf1 res where p: "parse_prev (pm_lib E) conf0 = Inr (conf1, res)"
    using assms by (auto simp: parseConfig_def bind_res_Inr)
  have keep: "SNAT conf1 = SNAT conf0" "MarkMasqBit conf1 = MarkMasqBit conf0" "PortMaps conf1 = PortMaps conf0"
    "ExternalSetMarkChain conf1 = ExternalSetMarkChain conf0" "RawPrevResult conf0 = None \<longleftrightarrow> res = None"
    using p by (auto simp: parse_prev_def split: option.splits sum.splits)
  define conf2 where "conf2 = (if SNAT conf1 = None then conf1\<lparr>SNAT := Some True\<rparr> else conf1)"
  obtain conf3 where c3: "check_mark_bit conf2 = Inr conf3" and ports: "check_ports_positive (PortMaps conf3) = Inr ()"
    and out: "(conf, result) = (case res of None \<Rightarrow> (conf3, None) | Some r \<Rightarrow> (foldl (pick_ip ifName r) conf3 (IPs r), Some r))"
    using assms p by (auto simp: parseConfig_def bind_res_Inr conf2_def Let_def split: option.splits)
  have f2: "SNAT conf2 = Some (SNAT conf0 \<noteq> Some False)" "MarkMasqBit conf2 = MarkMasqBit conf0"
    "PortMaps conf2 = PortMaps conf0" "ExternalSetMarkChain conf2 = ExternalSetMarkChain conf0"
    using keep by (auto simp: conf2_def)
  have f3: "SNAT conf3 = SNAT conf2" "PortMaps conf3 = PortMaps conf2" "ExternalSetMarkChain conf3 = ExternalSetMarkChain conf2"
    "\<exists>b. MarkMasqBit conf3 = Some b \<and> 0 \<le> b \<and> b \<le> 31 \<and> b = (case MarkMasqBit conf0 of None \<Rightarrow> 13 | Some x \<Rightarrow> x)"
    "MarkMasqBit conf0 = None \<or> ExternalSetMarkChain conf0 = None"
    using c3 f2 by (auto simp: check_mark_bit_def Let_def DefaultMarkBit_def split: if_splits option.splits)
  have "conf = conf3 \<and> result = None \<and> res = None \<or> (\<exists>r. conf = foldl (pick_ip ifName r) conf3 (IPs r) \<and> result = Some r \<and> res = Some r)"
    using out by (cases res) auto
  then show ?thesis using f2 f3 keep(5) pos [OF ports] pick by auto
qed

section \<open>Forwarding\<close>

definition grows :: "tables \<Rightarrow> tables \<Rightarrow> bool" where
  "grows v v' \<longleftrightarrow> dom v \<subseteq> dom v' \<and> (\<forall>tb c r. has_rule tb v c r \<longrightarrow> has_rule tb v' c r)"

lemma growsD: "grows v v' \<Longrightarrow> k \<in> dom v \<Longrightarrow> k \<in> dom v'" "grows v v' \<Longrightarrow> has_rule tb v c r \<Longrightarrow> has_rule tb v' c r"
  by (auto simp: grows_def)

lemma grows_refl [simp]: "grows v v"
  by (simp add: grows_def)

lemma grows_trans [trans]: "grows u v \<Longrightarrow> grows v w \<Longrightarrow> grows u w"
  unfolding grows_def by blast

lemma grows_setup:
  assumes "\<forall>ec\<in>set (entryChains c). (ch_table c, ec) \<in> dom v"
  shows "grows v (setup_view c v)"
proof -
  have "has_rule tb (setup_view c v) x r" if "has_rule tb v x r" for tb x r
  proof (cases "tb = ch_table c")
    case True
    then show ?thesis using setup_view_has(3) [OF assms] that by simp
  next
    case False
    then show ?thesis using that setup_view_other(1) [of tb x c v] by (simp add: has_rule_def)
  qed
  then show ?thesis using setup_view_dom [of c v] by (auto simp: grows_def)
qed

lemma chain_setup_grows:
  assumes "iptables_ok t view" "\<forall>ec\<in>set (entryChains c). (ch_table c, ec) \<in> dom (view w)"
  shows "\<exists>w'. chain_setup c t w = (Inr (), w') \<and> view w' = setup_view c (view w) \<and> grows (view w) (view w')"
  using chain_setup_view [OF assms] grows_setup [OF assms(2)] by auto

text \<open>The chains of the kernel that the plugin hooks into.\<close>

definition nat_ready :: "tables \<Rightarrow> bool" where
  "nat_ready v \<longleftrightarrow> {(''nat'', ''PREROUTING''), (''nat'', ''OUTPUT''), (''nat'', ''POSTROUTING'')} \<subseteq> dom v"

lemma nat_ready_grows: "nat_ready v \<Longrightarrow> grows v v' \<Longrightarrow> nat_ready v'"
  by (auto simp: nat_ready_def grows_def)

lemma setup_masq_ok:
  assumes "iptables_ok t view" "nat_ready (view w)" "MarkMasqBit config = Some b"
  shows "\<exists>w'. setup_masq config t w = (Inr (), w') \<and> grows (view w) (view w')"
proof (cases "ExternalSetMarkChain config")
  case None
  obtain w1 where w1: "chain_setup (genSetMarkChain b) t w = (Inr (), w1)" "grows (view w) (view w1)"
    using chain_setup_grows [OF assms(1), of "genSetMarkChain b" w] by (auto simp: genSetMarkChain_def)
  have "nat_ready (view w1)" using nat_ready_grows assms(2) w1(2) by blast
  then obtain w2 where w2: "chain_setup (genMarkMasqChain b) t w1 = (Inr (), w2)" "grows (view w1) (view w2)"
    using chain_setup_grows [OF assms(1), of "genMarkMasqChain b" w1] by (auto simp: genMarkMasqChain_def nat_ready_def)
  show ?thesis
    using None w1 w2 grows_trans [OF w1(2) w2(2)] by (simp add: setup_masq_def assms(3) Let_def bind_io_def wrap_io_def)
qed (simp add: setup_masq_def ret_def)

lemma fillDnatRules_ok:
  assumes "SNAT config = Some s"
  shows "\<exists>d. fillDnatRules c config net = Inr d \<and> ch_table d = ch_table c \<and> ch_name d = ch_name c \<and> entryChains d = entryChains c"
proof -
  have "\<exists>rs. map_res (dnat_rules_of config net) es = Inr rs" for es
    by (induction es) (auto simp: dnat_rules_of_def assms Let_def)
  then obtain rs where "map_res (dnat_rules_of config net) (PortMaps config) = Inr rs" by blast
  then show ?thesis by (simp add: fillDnatRules_def)
qed

lemma genDnatChain_Some: "\<exists>c. genDnatChain sha n i = Some c \<and> ch_table c = ''nat'' \<and> entryChains c = [TopLevelDNATChainName]"
  by (auto simp: genDnatChain_def MustFormatChainNameWithPrefix_def MustFormatHashWithPrefix_def maxChainLength_def
      chainPrefix_def MaxHashLen_def)

text \<open>
  The environment: iptables of the family opens without an effect, and the sysctl step of an IPv4
  container succeeds and touches no table.
\<close>

definition opens :: "'w pm_env \<Rightarrow> 'w iptables \<Rightarrow> bool \<Rightarrow> bool" where
  "opens E t isV6 \<longleftrightarrow> (\<forall>w. pm_iptables E isV6 w = (Inr t, w))"

definition localnet_ok :: "'w pm_env \<Rightarrow> ('w \<Rightarrow> tables) \<Rightarrow> ip \<Rightarrow> bool" where
  "localnet_ok E view a \<longleftrightarrow> (\<forall>w. \<exists>w'. route_localnet E a w = (Inr (), w') \<and> view w' = view w)"


section \<open>What the code lets through\<close>

text \<open>
  CHECK of the plugin reports nothing when the chain of the container is missing: with a usable
  iptables in which the DNAT chain does not exist, \<open>checkPorts\<close> succeeds whatever the configuration.
\<close>

theorem portmap_check_missing_chain:
  assumes "iptables_ok t view" "maybeGetIptables E False w = (Inr (Some t), w)"
    "maybeGetIptables E True w = (Inr t6, w)"
    "SNAT config = Some s" "genDnatChain (pm_sha E) (ConfName config) (PMContainerID config) = Some dnat"
    "view w (''nat'', ch_name dnat) = None"
  shows "checkPorts E config net w = (Inr (), w)"
proof -
  obtain filled where f: "fillDnatRules dnat config net = Inr filled" "ch_table filled = ''nat''" "ch_name filled = ch_name dnat"
    using fillDnatRules_ok [OF assms(4)] genDnatChain_Some [of "pm_sha E" "ConfName config" "PMContainerID config"] assms(5)
    by (metis option.inject)
  show ?thesis
    using f assms(6) by (simp add: checkPorts_def bind_io_def must_def lift_res_def assms(2,3,5) check_family_def ret_def
        ChainExists_ok [OF assms(1)])
qed

text \<open>
  An interface whose name contains a dot (a VLAN interface) gets no \<open>route_localnet\<close>: the dotted
  sysctl name is split at the dot of the interface, so the file of another path is written.
\<close>

theorem localnet_dotted_interface:
  "enableLocalnetRouting E ''eth0.100'' =
     bind_io (WriteFile (pm_files E) ''/proc/sys/net/ipv4/conf/eth0/100/route_localnet'' ''1'') (\<lambda>_.
     bind_io (getSysctl (pm_files E) ''net.ipv4.conf.eth0.100.route_localnet'') (\<lambda>_. ret ()))"
proof -
  have "sysctl_path ''net.ipv4.conf.eth0.100.route_localnet'' = ''/proc/sys/net/ipv4/conf/eth0/100/route_localnet''"
    by (simp add: sysctl_path_def toNormalName_def path_Join_def)
  then show ?thesis
    by (simp add: enableLocalnetRouting_def Sysctl_def setSysctl_def bind_io_def fun_eq_iff split: prod.splits sum.splits)
qed

text \<open>
  The comment of a rule can be longer than the 255 characters it is to be trimmed to: whatever is
  longer comes out with exactly 256, and nothing else is changed.
\<close>

theorem portmap_trim_comment:
  "length (trimComment val) = (if length val \<le> 255 then length val else 256)
     \<and> take 253 (trimComment val) = take 253 val"
  by (auto simp: trimComment_def)

section \<open>Witnesses\<close>

definition demo_conf :: portmap_conf where
  "demo_conf = \<lparr>ConfVersion = ''0.4.0'', ConfName = ''net'', ConfType = ''portmap'', ConfIPAM = [], RawPrevResult = None,
     PrevResult = None, SNAT = Some True, ConditionsV4 = None, ConditionsV6 = None, MarkMasqBit = Some 13,
     ExternalSetMarkChain = None,
     PortMaps = [\<lparr>HostPort = 8080, ContainerPort = 80, Protocol = ''tcp'', HostIP = []\<rparr>],
     PMContainerID = ''c1'', ContIPv4 = \<lparr>net_ip = [10, 0, 0, 2], net_mask = [255, 255, 255, 0]\<rparr>,
     ContIPv6 = \<lparr>net_ip = [], net_mask = []\<rparr>\<rparr>"

definition demo_env :: "table_list pm_env" where
  "demo_env = \<lparr>pm_iptables = \<lambda>v6. ret table_client, pm_RouteGet = \<lambda>_. ret [], pm_LinkByIndex = \<lambda>_. fail ErrLinkNotFound,
     pm_files = \<lparr>ReadFile = \<lambda>_. ret ''1'', WriteFile = \<lambda>_ _. ret ()\<rparr>, pm_conntrack = \<lambda>_ _ _. ret 0,
     pm_sha = \<lambda>_. replicate 128 CHR ''a'', pm_shellwords = \<lambda>l. Inr (split_on (CHR '' '') l),
     pm_decode = \<lambda>_. Inr demo_conf,
     pm_lib = \<lparr>ParsePrevResult = \<lambda>_ _. Inr empty_result, NewResultFromResult = Inr, PrintResult = \<lambda>_ _. ret ()\<rparr>\<rparr>"

definition demo_nat :: table_list where
  "demo_nat = [((''nat'', ''PREROUTING''), []), ((''nat'', ''OUTPUT''), []), ((''nat'', ''POSTROUTING''), [])]"

theorem portmap_parse_config_witness:
  "parseConfig demo_env ''{}'' ''eth0'' = Inr (demo_conf, None) \<and> SNAT demo_conf = Some True"
proof -
  have p: "parseConfig demo_env ''{}'' ''eth0'' = Inr (demo_conf, None)"
    by (simp add: parseConfig_def demo_env_def demo_conf_def parse_prev_def check_mark_bit_def check_ports_positive_def Let_def)
  have d: "pm_decode demo_env ''{}'' = Inr demo_conf" by (simp add: demo_env_def)
  show ?thesis using p portmap_parse_config [OF p d] by (simp add: demo_conf_def)
qed


theorem portmap_check_missing_chain_witness:
  "checkPorts demo_env demo_conf (ContIPv4 demo_conf) demo_nat = (Inr (), demo_nat)"
proof -
  have m: "maybeGetIptables demo_env b demo_nat = (Inr (Some table_client), demo_nat)" for b
    by (simp add: maybeGetIptables_def demo_env_def attempt_def ret_def table_client_def demo_nat_def Let_def)
  obtain dnat where d: "genDnatChain (pm_sha demo_env) (ConfName demo_conf) (PMContainerID demo_conf) = Some dnat"
    using genDnatChain_Some by blast
  then have "ch_name dnat = ''CNI-DN-'' @ replicate 21 CHR ''a''"
    by (auto simp: genDnatChain_def MustFormatChainNameWithPrefix_def MustFormatHashWithPrefix_def maxChainLength_def
      chainPrefix_def MaxHashLen_def demo_env_def)
  then have "map_of demo_nat (''nat'', ch_name dnat) = None" by (simp add: demo_nat_def)
  moreover have "SNAT demo_conf = Some True" by (simp add: demo_conf_def)
  ultimately show ?thesis using portmap_check_missing_chain [OF table_client_ok m m _ d] by blast
qed

theorem portmap_entry_rules_witness:
  "dnat_entry_rules demo_conf False =
     [[''-m'', ''comment'', ''--comment'', ''dnat name: \"net\" id: \"c1\"'', ''-m'', ''multiport'',
       ''-p'', ''tcp'', ''--destination-ports'', ''8080'']] \<and> Protocol ` set (PortMaps demo_conf) = {''tcp''}"
proof -
  obtain protos groups where g: "sorted protos" "distinct protos" "set protos = Protocol ` set (PortMaps demo_conf)"
    "\<forall>p\<in>set protos. concat (groups p) = map (\<lambda>e. itoa (HostPort e)) (filter (\<lambda>e. Protocol e = p) (PortMaps demo_conf))
          \<and> (\<forall>g\<in>set (groups p). 1 \<le> length g \<and> length g \<le> 15)"
    "dnat_entry_rules demo_conf False =
         concat (map (\<lambda>p. map (\<lambda>g. [''-m'', ''comment'', ''--comment'', dnat_comment demo_conf, ''-m'', ''multiport'',
              ''-p'', p, ''--destination-ports'', join '','' g] @ conditions demo_conf False) (groups p)) protos)"
    using portmap_entry_rules [of demo_conf False] by blast
  have ps: "set protos = {''tcp''}" using g(3) by (simp add: demo_conf_def)
  then have "length protos = 1" using distinct_card [OF g(2)] by simp
  then have protos: "protos = [''tcp'']" using ps by (cases protos) auto
  have num: "itoa 8080 = ''8080''" by (simp add: itoa_def utoa.simps digit_def, code_simp)
  have c: "concat (groups ''tcp'') = [''8080'']" "\<forall>g\<in>set (groups ''tcp''). 1 \<le> length g"
    using g(4) by (auto simp: protos demo_conf_def num)
  then have gr: "groups ''tcp'' = [[''8080'']]"
    by (cases "groups ''tcp''"; cases "tl (groups ''tcp'')") (auto simp: append_eq_Cons_conv Cons_eq_append_conv)
  have "conditions demo_conf False = []" "dnat_comment demo_conf = ''dnat name: \"net\" id: \"c1\"''"
    by (simp_all add: conditions_def demo_conf_def dnat_comment_def trimComment_def)
  then show ?thesis using g(3) g(5) by (simp add: protos gr ps)
qed

end
