(* ===== verification/Firewall.thy ===== *)
theory Firewall
  imports Portmap
begin

text \<open>
  \<open>plugins/meta/firewall\<close>: the plugin (\<open>firewall.go\<close>) and its two backends (\<open>iptables.go\<close>,
  \<open>firewalld.go\<close>). The interface \<open>FirewallBackend\<close> is a record of three operations; its contract is a
  locale in \<open>Firewall_Spec\<close>, interpreted on both backends.
\<close>

section \<open>firewall.go: the configuration\<close>

record firewall_conf = netconf +
  Backend :: string
  IptablesAdminChainName :: string
  FirewalldZone :: string

definition ipString :: "ipnet \<Rightarrow> string" where
  "ipString n = (if To4 (net_ip n) = [] then ip_string (net_ip n) @ ''/128'' else ip_string (net_ip n) @ ''/32'')"

definition firewall_parseConf :: "'w cni_lib \<Rightarrow> (string \<Rightarrow> firewall_conf res) \<Rightarrow> string
    \<Rightarrow> (firewall_conf \<times> cni_result) res" where
  "firewall_parseConf L decode data =
     (case decode data of
        Inl e \<Rightarrow> Inl (Wrap ''failed to load netconf'' e)
      | Inr conf0 \<Rightarrow>
          let conf = (if FirewalldZone conf0 = '''' then conf0\<lparr>FirewalldZone := ''trusted''\<rparr> else conf0)
          in bind_res (parse_prev L conf) (\<lambda>(conf', result).
               Inr (conf', case result of None \<Rightarrow> empty_result | Some r \<Rightarrow> r)))"

text \<open>The interface \<open>FirewallBackend\<close>.\<close>

record 'w firewall_backend =
  fb_Add :: "firewall_conf \<Rightarrow> cni_result \<Rightarrow> ('w, unit) io"
  fb_Del :: "firewall_conf \<Rightarrow> cni_result \<Rightarrow> ('w, unit) io"
  fb_Check :: "firewall_conf \<Rightarrow> cni_result \<Rightarrow> ('w, unit) io"

section \<open>iptables.go\<close>

text \<open>A protocol is \<open>True\<close> for IPv6.\<close>

record 'w iptables_backend =
  ib_protos :: "(bool \<times> 'w iptables) list"
  privChainName :: string
  adminChainName :: string

definition getPrivChainRules :: "string \<Rightarrow> string list list" where
  "getPrivChainRules a =
     [[''-d'', a, ''-m'', ''conntrack'', ''--ctstate'', ''RELATED,ESTABLISHED'', ''-j'', ''ACCEPT''],
      [''-s'', a, ''-j'', ''ACCEPT'']]"

definition generateFilterRule :: "string \<Rightarrow> string list" where
  "generateFilterRule priv = [''-m'', ''comment'', ''--comment'', ''CNI firewall plugin rules'', ''-j'', priv]"

definition generateAdminRule :: "string \<Rightarrow> string list" where
  "generateAdminRule admin = [''-m'', ''comment'', ''--comment'', ''CNI firewall plugin admin overrides'', ''-j'', admin]"

text \<open>The errors of the deletions are dropped.\<close>

definition cleanupRules :: "'w iptables \<Rightarrow> string \<Rightarrow> string list list \<Rightarrow> ('w, unit) io" where
  "cleanupRules ipt priv rules = each_io (\<lambda>rule. attempt (ipt_Delete ipt ''filter'' priv rule) (\<lambda>_. ret ())) rules"

definition ensureFirstChainRule :: "'w iptables \<Rightarrow> string \<Rightarrow> string list \<Rightarrow> ('w, unit) io" where
  "ensureFirstChainRule ipt chain rule =
     bind_io (ipt_Exists ipt ''filter'' chain rule) (\<lambda>exists.
       if \<not> exists then ipt_Insert ipt ''filter'' chain 1 rule else ret ())"

definition setupChains :: "'w iptables_backend \<Rightarrow> 'w iptables \<Rightarrow> ('w, unit) io" where
  "setupChains ib ipt =
     (let privRule = generateFilterRule (privChainName ib); adminRule = generateAdminRule (adminChainName ib)
      in bind_io (EnsureChain (Some ipt) ''filter'' (privChainName ib)) (\<lambda>_.
         bind_io (EnsureChain (Some ipt) ''filter'' (adminChainName ib)) (\<lambda>_.
         bind_io (ensureFirstChainRule ipt ''FORWARD'' privRule) (\<lambda>_.
         ensureFirstChainRule ipt (privChainName ib) adminRule))))"

definition protoForIP :: "ipnet \<Rightarrow> bool" where
  "protoForIP n = (if To4 (net_ip n) \<noteq> [] then False else True)"

definition rules_for :: "cni_result \<Rightarrow> bool \<Rightarrow> string list list" where
  "rules_for result proto =
     concat (map (\<lambda>a. if protoForIP (Address a) = proto then getPrivChainRules (ipString (Address a)) else [])
       (IPs result))"

text \<open>The deferred function: on an error value of \<open>m\<close>, run \<open>c\<close> and return the error.\<close>

definition on_error :: "('w, 'a) io \<Rightarrow> ('w, unit) io \<Rightarrow> ('w, 'a) io" where
  "on_error m c w =
     (case m w of
        (Inl e, w') \<Rightarrow> if is_panic e then (Inl e, w') else (Inl e, snd (c w'))
      | (Inr x, w') \<Rightarrow> (Inr x, w'))"

definition addRules :: "'w iptables_backend \<Rightarrow> cni_result \<Rightarrow> 'w iptables \<Rightarrow> bool \<Rightarrow> ('w, unit) io" where
  "addRules ib result ipt proto =
     (let rules = rules_for result proto
      in if 0 < length rules then
           bind_io (setupChains ib ipt) (\<lambda>_.
             on_error (each_io (AppendUnique ipt ''filter'' (privChainName ib)) rules)
               (cleanupRules ipt (privChainName ib) rules))
         else ret ())"

definition delRules :: "'w iptables_backend \<Rightarrow> cni_result \<Rightarrow> 'w iptables \<Rightarrow> bool \<Rightarrow> ('w, unit) io" where
  "delRules ib result ipt proto =
     (let rules = rules_for result proto
      in if 0 < length rules then cleanupRules ipt (privChainName ib) rules else ret ())"

definition require_filter_rule :: "'w iptables \<Rightarrow> string \<Rightarrow> string list \<Rightarrow> ('w, unit) io" where
  "require_filter_rule ipt chain rule =
     bind_io (ipt_Exists ipt ''filter'' chain rule) (\<lambda>exists.
       if \<not> exists then fail (Errorf ''expected rule not found'') else ret ())"

definition checkRules :: "'w iptables_backend \<Rightarrow> cni_result \<Rightarrow> 'w iptables \<Rightarrow> bool \<Rightarrow> ('w, unit) io" where
  "checkRules ib result ipt proto =
     (let rules = rules_for result proto
      in if length rules \<le> 0 then ret ()
         else
           bind_io (EnsureChain (Some ipt) ''filter'' (privChainName ib)) (\<lambda>_.
           bind_io (EnsureChain (Some ipt) ''filter'' (adminChainName ib)) (\<lambda>_.
           bind_io (require_filter_rule ipt ''FORWARD'' (generateFilterRule (privChainName ib))) (\<lambda>_.
           bind_io (require_filter_rule ipt (privChainName ib) (generateAdminRule (adminChainName ib))) (\<lambda>_.
           each_io (require_filter_rule ipt (privChainName ib)) rules)))))"

definition findProtos :: "'w cni_lib \<Rightarrow> firewall_conf \<Rightarrow> bool list res" where
  "findProtos L conf =
     (case PrevResult conf of
        None \<Rightarrow> Inr [False, True]
      | Some prev \<Rightarrow>
          (case NewResultFromResult L prev of
             Inl _ \<Rightarrow> Inl nil_deref
           | Inr result \<Rightarrow> Inr (map (\<lambda>a. if To4 (net_ip (Address a)) \<noteq> [] then False else True) (IPs result))))"

text \<open>The loops over \<open>ib.protos\<close> run in the order Go chooses for the map: the parameter \<open>order\<close>.\<close>

type_synonym 'w proto_order = "(bool \<times> 'w iptables) list \<Rightarrow> (bool \<times> 'w iptables) list"

definition iptables_Add :: "'w proto_order \<Rightarrow> 'w iptables_backend \<Rightarrow> firewall_conf \<Rightarrow> cni_result \<Rightarrow> ('w, unit) io" where
  "iptables_Add order ib conf result = each_io (\<lambda>(proto, ipt). addRules ib result ipt proto) (order (ib_protos ib))"

definition iptables_Del :: "'w proto_order \<Rightarrow> 'w iptables_backend \<Rightarrow> firewall_conf \<Rightarrow> cni_result \<Rightarrow> ('w, unit) io" where
  "iptables_Del order ib conf result =
     each_io (\<lambda>(proto, ipt). attempt (delRules ib result ipt proto) (\<lambda>_. ret ())) (order (ib_protos ib))"

definition iptables_Check :: "'w proto_order \<Rightarrow> 'w iptables_backend \<Rightarrow> firewall_conf \<Rightarrow> cni_result \<Rightarrow> ('w, unit) io" where
  "iptables_Check order ib conf result = each_io (\<lambda>(proto, ipt). checkRules ib result ipt proto) (order (ib_protos ib))"

definition newIptablesBackend :: "(bool \<Rightarrow> ('w, 'w iptables) io) \<Rightarrow> firewall_conf \<Rightarrow> ('w, 'w iptables_backend) io" where
  "newIptablesBackend NewWithProtocol conf =
     (let admin = (if IptablesAdminChainName conf = '''' then ''CNI-ADMIN'' else IptablesAdminChainName conf)
      in bind_io (wrap_io ''could not initialize iptables protocol'' (NewWithProtocol False)) (\<lambda>ipt4.
         bind_io (wrap_io ''could not initialize iptables protocol'' (NewWithProtocol True)) (\<lambda>ipt6.
         ret \<lparr>ib_protos = [(False, ipt4), (True, ipt6)], privChainName = ''CNI-FORWARD'', adminChainName = admin\<rparr>)))"

section \<open>firewalld.go\<close>

text \<open>
  The bus is a call on the environment: destination, object path, method and arguments to a reply value;
  \<open>Store\<close> fails on a value of the wrong type.
\<close>

datatype dbus_value = DString string | DBool bool

type_synonym 'w dbus_conn = "string \<Rightarrow> string \<Rightarrow> string \<Rightarrow> string list \<Rightarrow> ('w, dbus_value) io"

definition store_string :: "dbus_value \<Rightarrow> ('w, string) io" where
  "store_string v = (case v of DString s \<Rightarrow> ret s | DBool _ \<Rightarrow> fail (Errorf ''dbus.Store: type mismatch''))"

definition store_bool :: "dbus_value \<Rightarrow> ('w, bool) io" where
  "store_bool v = (case v of DBool b \<Rightarrow> ret b | DString _ \<Rightarrow> fail (Errorf ''dbus.Store: type mismatch''))"

definition firewalldName :: string where "firewalldName = ''org.fedoraproject.FirewallD1''"
definition firewalldPath :: string where "firewalldPath = ''/org/fedoraproject/FirewallD1''"
definition firewalldZoneInterface :: string where "firewalldZoneInterface = ''org.fedoraproject.FirewallD1.zone''"
definition errZoneAlreadySet :: string where "errZoneAlreadySet = ''ZONE_ALREADY_SET''"

fun contains_sub :: "string \<Rightarrow> string \<Rightarrow> bool" where
  "contains_sub [] p = (p = [])"
| "contains_sub (c # cs) p = (take (length p) (c # cs) = p \<or> contains_sub cs p)"

definition getConn :: "'w dbus_conn option \<Rightarrow> ('w, 'w dbus_conn) io \<Rightarrow> ('w, 'w dbus_conn) io" where
  "getConn testConn SystemBus = (case testConn of Some c \<Rightarrow> ret c | None \<Rightarrow> SystemBus)"

definition isFirewalldRunning :: "('w, 'w dbus_conn) io \<Rightarrow> ('w, bool) io" where
  "isFirewalldRunning get_conn =
     attempt get_conn (\<lambda>r.
       case r of
         Inl _ \<Rightarrow> ret False
       | Inr conn \<Rightarrow>
           attempt (bind_io (conn ''org.freedesktop.DBus'' ''/org/freedesktop/DBus'' ''org.freedesktop.DBus.GetNameOwner''
               [firewalldName]) store_string) (\<lambda>r. case r of Inl _ \<Rightarrow> ret False | Inr _ \<Rightarrow> ret True))"

definition zone_call :: "'w dbus_conn \<Rightarrow> string \<Rightarrow> string \<Rightarrow> string \<Rightarrow> ('w, dbus_value) io" where
  "zone_call conn meth zone ipStr = conn firewalldName firewalldPath (firewalldZoneInterface @ ''.'' @ meth) [zone, ipStr]"

definition add_source :: "(error \<Rightarrow> string) \<Rightarrow> 'w dbus_conn \<Rightarrow> string \<Rightarrow> string \<Rightarrow> ('w, unit) io" where
  "add_source err_text conn zone ipStr =
     attempt (bind_io (zone_call conn ''addSource'' zone ipStr) store_string) (\<lambda>r.
       case r of
         Inr _ \<Rightarrow> ret ()
       | Inl e \<Rightarrow>
           if \<not> contains_sub (err_text e) errZoneAlreadySet
           then fail (Wrap (''failed to add the address '' @ ipStr) e) else ret ())"

definition firewalld_Add :: "(error \<Rightarrow> string) \<Rightarrow> 'w dbus_conn \<Rightarrow> firewall_conf \<Rightarrow> cni_result \<Rightarrow> ('w, unit) io" where
  "firewalld_Add err_text conn conf result =
     each_io (\<lambda>a. add_source err_text conn (FirewalldZone conf) (ipString (Address a))) (IPs result)"

definition remove_source :: "'w dbus_conn \<Rightarrow> string \<Rightarrow> string \<Rightarrow> ('w, unit) io" where
  "remove_source conn zone ipStr =
     attempt (bind_io (zone_call conn ''removeSource'' zone ipStr) store_string) (\<lambda>_. ret ())"

definition firewalld_Del :: "'w dbus_conn \<Rightarrow> firewall_conf \<Rightarrow> cni_result \<Rightarrow> ('w, unit) io" where
  "firewalld_Del conn conf result =
     each_io (\<lambda>a. remove_source conn (FirewalldZone conf) (ipString (Address a))) (IPs result)"

text \<open>The answer \<open>res\<close> of the query is not looked at.\<close>

definition firewalld_Check :: "'w dbus_conn \<Rightarrow> firewall_conf \<Rightarrow> cni_result \<Rightarrow> ('w, unit) io" where
  "firewalld_Check conn conf result =
     each_io (\<lambda>a.
       attempt (bind_io (zone_call conn ''querySource'' (FirewalldZone conf) (ipString (Address a))) store_bool) (\<lambda>r.
         case r of
           Inr res \<Rightarrow> ret ()
         | Inl e \<Rightarrow> fail (Errorf (''failed to find the address '' @ ipString (Address a))))) (IPs result)"

definition newFirewalldBackend :: "(error \<Rightarrow> string) \<Rightarrow> ('w, 'w dbus_conn) io \<Rightarrow> ('w, 'w firewall_backend) io" where
  "newFirewalldBackend err_text get_conn =
     bind_io get_conn (\<lambda>conn. ret \<lparr>fb_Add = firewalld_Add err_text conn, fb_Del = firewalld_Del conn,
        fb_Check = firewalld_Check conn\<rparr>)"

section \<open>firewall.go: the commands\<close>

record 'w firewall_env =
  fe_lib :: "'w cni_lib"
  fe_decode :: "string \<Rightarrow> firewall_conf res"
  fe_iptables :: "bool \<Rightarrow> ('w, 'w iptables) io"
  fe_order :: "'w proto_order"
  fe_testConn :: "'w dbus_conn option"
  fe_SystemBus :: "('w, 'w dbus_conn) io"
  fe_err_text :: "error \<Rightarrow> string"

definition iptables_backend_of :: "'w firewall_env \<Rightarrow> firewall_conf \<Rightarrow> ('w, 'w firewall_backend) io" where
  "iptables_backend_of E conf =
     bind_io (newIptablesBackend (fe_iptables E) conf) (\<lambda>ib.
       ret \<lparr>fb_Add = iptables_Add (fe_order E) ib, fb_Del = iptables_Del (fe_order E) ib,
            fb_Check = iptables_Check (fe_order E) ib\<rparr>)"

definition getBackend :: "'w firewall_env \<Rightarrow> firewall_conf \<Rightarrow> ('w, 'w firewall_backend) io" where
  "getBackend E conf =
     (let conn = getConn (fe_testConn E) (fe_SystemBus E)
      in if Backend conf = ''iptables'' then iptables_backend_of E conf
         else if Backend conf = ''firewalld'' then newFirewalldBackend (fe_err_text E) conn
         else bind_io (isFirewalldRunning conn) (\<lambda>running.
                if running then newFirewalldBackend (fe_err_text E) conn else iptables_backend_of E conf))"

definition firewall_cmdAdd :: "'w firewall_env \<Rightarrow> cmd_args \<Rightarrow> ('w, unit) io" where
  "firewall_cmdAdd E args =
     bind_io (lift_res (firewall_parseConf (fe_lib E) (fe_decode E) (StdinData args))) (\<lambda>(conf, result).
       if PrevResult conf = None then fail (Errorf ''missing prevResult from earlier plugin'')
       else
         bind_io (getBackend E conf) (\<lambda>backend.
         bind_io (fb_Add backend conf result) (\<lambda>_.
         PrintResult (fe_lib E) result (ConfVersion conf))))"

definition firewall_cmdDel :: "'w firewall_env \<Rightarrow> cmd_args \<Rightarrow> ('w, unit) io" where
  "firewall_cmdDel E args =
     bind_io (lift_res (firewall_parseConf (fe_lib E) (fe_decode E) (StdinData args))) (\<lambda>(conf, result).
       bind_io (getBackend E conf) (\<lambda>backend. fb_Del backend conf result))"

definition firewall_cmdCheck :: "'w firewall_env \<Rightarrow> cmd_args \<Rightarrow> ('w, unit) io" where
  "firewall_cmdCheck E args =
     bind_io (lift_res (firewall_parseConf (fe_lib E) (fe_decode E) (StdinData args))) (\<lambda>(conf, result).
       if PrevResult conf = None then fail (Errorf ''missing prevResult from earlier plugin'')
       else bind_io (getBackend E conf) (\<lambda>backend. fb_Check backend conf result))"

end
