(* ===== verification/Firewall_Spec.thy ===== *)
theory Firewall_Spec
  imports Firewall
begin

text \<open>
  The contract of \<open>FirewallBackend\<close> as a locale, what a client may conclude from it, and its
  interpretations on the iptables and the firewalld backend.
\<close>

section \<open>The contract\<close>

definition addrs_of :: "cni_result \<Rightarrow> string set" where
  "addrs_of result = (\<lambda>a. ipString (Address a)) ` set (IPs result)"

text \<open>
  \<open>inv\<close>: what the backend relies on of the environment; \<open>allowed w n\<close>: traffic of \<open>n\<close> is let through;
  \<open>passes w r\<close>: everything \<open>Check\<close> looks for is there for the result \<open>r\<close>.
\<close>

locale firewall_backend =
  fixes add del check :: "firewall_conf \<Rightarrow> cni_result \<Rightarrow> ('w, unit) io"
    and inv :: "firewall_conf \<Rightarrow> 'w \<Rightarrow> bool"
    and allowed :: "firewall_conf \<Rightarrow> 'w \<Rightarrow> ipnet \<Rightarrow> bool"
    and passes :: "firewall_conf \<Rightarrow> 'w \<Rightarrow> cni_result \<Rightarrow> bool"
  assumes add_law: "inv c w \<Longrightarrow> \<exists>w'. add c r w = (Inr (), w') \<and> inv c w' \<and> passes c w' r
      \<and> (\<forall>n. allowed c w' n \<longleftrightarrow> allowed c w n \<or> ipString n \<in> addrs_of r)
      \<and> (\<forall>r'. passes c w r' \<longrightarrow> passes c w' r')"
    and del_law: "inv c w \<Longrightarrow> \<exists>w'. del c r w = (Inr (), w') \<and> inv c w'
      \<and> (\<forall>n. allowed c w' n \<longleftrightarrow> allowed c w n \<and> ipString n \<notin> addrs_of r)"
    and check_law: "inv c w \<Longrightarrow> passes c w r \<Longrightarrow> check c r w = (Inr (), w)"
begin

lemma add_then_check:
  assumes "inv c w"
  shows "\<exists>w'. add c r w = (Inr (), w') \<and> check c r w' = (Inr (), w') \<and> inv c w'"
  using add_law [OF assms] check_law by blast

lemma add_del:
  assumes "inv c w" "\<forall>n. ipString n \<in> addrs_of r \<longrightarrow> \<not> allowed c w n"
  shows "\<exists>w1 w2. add c r w = (Inr (), w1) \<and> del c r w1 = (Inr (), w2) \<and> inv c w2 \<and> allowed c w2 = allowed c w"
proof -
  obtain w1 where w1: "add c r w = (Inr (), w1)" "inv c w1"
    "\<forall>n. allowed c w1 n \<longleftrightarrow> allowed c w n \<or> ipString n \<in> addrs_of r" using add_law [OF assms(1)] by blast
  obtain w2 where w2: "del c r w1 = (Inr (), w2)" "inv c w2"
    "\<forall>n. allowed c w2 n \<longleftrightarrow> allowed c w1 n \<and> ipString n \<notin> addrs_of r" using del_law [OF w1(2)] by blast
  have "allowed c w2 = allowed c w" using w1(3) w2(3) assms(2) by (auto simp: fun_eq_iff)
  then show ?thesis using w1 w2 by blast
qed

text \<open>A second container does not disturb the first: its CHECK still passes and its DEL still works.\<close>

lemma two_containers:
  assumes "inv c w" "addrs_of r \<inter> addrs_of s = {}"
  shows "\<exists>w1 w2 w3. add c r w = (Inr (), w1) \<and> add c s w1 = (Inr (), w2) \<and> check c r w2 = (Inr (), w2)
     \<and> del c s w2 = (Inr (), w3) \<and> (\<forall>n. ipString n \<in> addrs_of r \<longrightarrow> allowed c w3 n)"
proof -
  obtain w1 where w1: "add c r w = (Inr (), w1)" "inv c w1" "passes c w1 r"
    "\<forall>n. allowed c w1 n \<longleftrightarrow> allowed c w n \<or> ipString n \<in> addrs_of r" using add_law [OF assms(1)] by blast
  obtain w2 where w2: "add c s w1 = (Inr (), w2)" "inv c w2" "\<forall>r'. passes c w1 r' \<longrightarrow> passes c w2 r'"
    "\<forall>n. allowed c w2 n \<longleftrightarrow> allowed c w1 n \<or> ipString n \<in> addrs_of s" using add_law [OF w1(2)] by blast
  obtain w3 where w3: "del c s w2 = (Inr (), w3)"
    "\<forall>n. allowed c w3 n \<longleftrightarrow> allowed c w2 n \<and> ipString n \<notin> addrs_of s" using del_law [OF w2(2)] by blast
  have "allowed c w3 n" if "ipString n \<in> addrs_of r" for n
    using that assms(2) w1(4) w2(4) w3(2) by blast
  moreover have "check c r w2 = (Inr (), w2)" using check_law [OF w2(2)] w1(3) w2(3) by blast
  ultimately show ?thesis using w1(1) w2(1) w3(1) by blast
qed

end

section \<open>The iptables backend\<close>

text \<open>Every chain of the filter table lists a rule once, and the chain \<open>FORWARD\<close> exists.\<close>

definition filter_ok :: "tables \<Rightarrow> bool" where
  "filter_ok v \<longleftrightarrow> (''filter'', ''FORWARD'') \<in> dom v \<and> (\<forall>c rs. v (''filter'', c) = Some rs \<longrightarrow> distinct rs)"

abbreviation frule :: "tables \<Rightarrow> string \<Rightarrow> string list \<Rightarrow> bool" where
  "frule v c r \<equiv> has_rule ''filter'' v c r"

lemma ensure_frule:
  assumes "iptables_ok t view" "filter_ok (view w)"
  shows "\<exists>w'. EnsureChain (Some t) ''filter'' c w = (Inr (), w') \<and> filter_ok (view w')
     \<and> frule (view w') = frule (view w) \<and> dom (view w') = insert (''filter'', c) (dom (view w))
     \<and> (view w (''filter'', c) \<noteq> None \<longrightarrow> view w' = view w)"
proof -
  obtain w' where w': "EnsureChain (Some t) ''filter'' c w = (Inr (), w')"
    "view w' = (if view w (''filter'', c) = None then (view w)((''filter'', c) \<mapsto> []) else view w)"
    using EnsureChain_ok [OF assms(1)] by blast
  have "frule (view w') c' r' = frule (view w) c' r'" for c' r'
    by (cases "view w (''filter'', c)") (simp_all add: w'(2) has_rule_def)
  then have fr: "frule (view w') = frule (view w)" by blast
  have fo: "filter_ok (view w')" using assms(2) by (cases "view w (''filter'', c)") (simp_all add: w'(2) filter_ok_def)
  have dm: "dom (view w') = insert (''filter'', c) (dom (view w))"
    by (cases "view w (''filter'', c)") (auto simp add: w'(2))
  show ?thesis using w' fr fo dm by (intro exI [of _ w']) simp
qed

lemma vput_filter_ok: "filter_ok v \<Longrightarrow> filter_ok (vput p ''filter'' c r v)"
  by (auto simp: filter_ok_def vput_def add_unique_def split: if_splits)

lemma frule_vput:
  "(''filter'', c) \<in> dom v \<Longrightarrow> frule (vput p ''filter'' c r v) c' r' \<longleftrightarrow> frule v c' r' \<or> (c' = c \<and> r' = r)"
proof -
  assume "(''filter'', c) \<in> dom v"
  then obtain l where "v (''filter'', c) = Some l" by blast
  then show ?thesis by (simp add: has_rule_def vput_def add_unique_set) blast
qed

lemma append_unique_is: "AppendUnique t tb c r = insertUnique t tb c False r"
  by (simp add: AppendUnique_def insertUnique_def bind_io_def fun_eq_iff split: prod.splits sum.splits)

lemma ensure_first_is: "ensureFirstChainRule t c r = insertUnique t ''filter'' c True r"
  by (simp add: ensureFirstChainRule_def insertUnique_def bind_io_def fun_eq_iff split: prod.splits sum.splits)

lemma put_frule:
  assumes "iptables_ok t view" "filter_ok (view w)" "(''filter'', c) \<in> dom (view w)"
  shows "\<exists>w'. insertUnique t ''filter'' c p r w = (Inr (), w') \<and> filter_ok (view w')
     \<and> dom (view w') = dom (view w) \<and> (\<forall>c' r'. frule (view w') c' r' \<longleftrightarrow> frule (view w) c' r' \<or> (c' = c \<and> r' = r))"
proof -
  obtain w' where "insertUnique t ''filter'' c p r w = (Inr (), w')" "view w' = vput p ''filter'' c r (view w)"
    using insertUnique_ok [OF assms(1,3)] by blast
  then show ?thesis using vput_filter_ok [OF assms(2)] frule_vput [OF assms(3)] by auto
qed

lemma append_loop:
  assumes "iptables_ok t view" "filter_ok (view w)" "(''filter'', c) \<in> dom (view w)"
  shows "\<exists>w'. each_io (AppendUnique t ''filter'' c) rs w = (Inr (), w') \<and> filter_ok (view w')
     \<and> dom (view w') = dom (view w) \<and> (\<forall>c' r'. frule (view w') c' r' \<longleftrightarrow> frule (view w) c' r' \<or> (c' = c \<and> r' \<in> set rs))"
  using assms(2,3)
proof (induction rs arbitrary: w)
  case (Cons r rs)
  obtain w1 where w1: "AppendUnique t ''filter'' c r w = (Inr (), w1)" "filter_ok (view w1)" "dom (view w1) = dom (view w)"
    "\<forall>c' r'. frule (view w1) c' r' \<longleftrightarrow> frule (view w) c' r' \<or> (c' = c \<and> r' = r)"
    using put_frule [OF assms(1) Cons.prems] unfolding append_unique_is by blast
  have "(''filter'', c) \<in> dom (view w1)" using Cons.prems w1 by simp
  from Cons.IH [OF w1(2) this] show ?case using w1 by (auto simp: bind_io_def)
qed (simp add: ret_def)

definition vdel :: "string \<Rightarrow> string list \<Rightarrow> tables \<Rightarrow> tables" where
  "vdel c r v = v((''filter'', c) := map_option (remove1 r) (v (''filter'', c)))"

lemma map_remove1_idem:
  assumes n: "\<And>rs. x = Some rs \<Longrightarrow> r \<notin> set rs"
  shows "map_option (remove1 r) x = x"
proof (cases x)
  case (Some a)
  have "r \<notin> set a" by (rule n) (rule Some)
  then show ?thesis by (simp add: Some remove1_idem)
qed simp

lemma delete_step:
  assumes "iptables_ok t view"
  shows "\<exists>w'. attempt (ipt_Delete t ''filter'' c r) (\<lambda>_. ret ()) w = (Inr (), w') \<and> view w' = vdel c r (view w)"
proof (cases "frule (view w) c r")
  case True
  then obtain l where l: "view w (''filter'', c) = Some l" "r \<in> set l" by (auto simp: has_rule_def)
  from iptables_okD(8) [OF assms, OF l] obtain w1 where
    w1: "ipt_Delete t ''filter'' c r w = (Inr (), w1)" and v1: "view w1 = (view w)((''filter'', c) \<mapsto> remove1 r l)"
    by (elim exE conjE)
  have "attempt (ipt_Delete t ''filter'' c r) (\<lambda>_. ret ()) w = (Inr (), w1)" by (simp add: attempt_def ret_def w1)
  moreover have "view w1 = vdel c r (view w)" by (simp only: v1 vdel_def l(1) option.map)
  ultimately show ?thesis by blast
next
  case False
  then have n: "\<And>rs. view w (''filter'', c) = Some rs \<Longrightarrow> r \<notin> set rs" by (auto simp: has_rule_def)
  have "map_option (remove1 r) (view w (''filter'', c)) = view w (''filter'', c)"
    by (rule map_remove1_idem) (rule n)
  then have 1: "vdel c r (view w) = view w" by (simp only: vdel_def fun_upd_triv)
  have "\<exists>e. ipt_Delete t ''filter'' c r w = (Inl e, w) \<and> ipt_not_exist e"
    by (rule iptables_okD(9) [OF assms]) (rule n)
  then obtain e where 2: "ipt_Delete t ''filter'' c r w = (Inl e, w)" "ipt_not_exist e" by (elim exE conjE)
  show ?thesis by (rule exI [of _ w]) (simp add: attempt_def ret_def 1 2 not_exist_no_panic)
qed

lemma cleanup_view:
  assumes "iptables_ok t view"
  shows "\<exists>w'. cleanupRules t c rs w = (Inr (), w') \<and> view w' = fold (vdel c) rs (view w)"
proof (induction rs arbitrary: w)
  case (Cons r rs)
  obtain w1 where w1: "attempt (ipt_Delete t ''filter'' c r) (\<lambda>_. ret ()) w = (Inr (), w1)" "view w1 = vdel c r (view w)"
    using delete_step [OF assms] by blast
  from Cons.IH [of w1] show ?case using w1 by (simp add: cleanupRules_def bind_io_def)
qed (simp add: cleanupRules_def ret_def)

lemma vdel_effect:
  assumes "filter_ok v"
  shows "filter_ok (vdel c r v)" "dom (vdel c r v) = dom v"
    "frule (vdel c r v) c' r' \<longleftrightarrow> frule v c' r' \<and> \<not> (c' = c \<and> r' = r)"
proof -
  show "filter_ok (vdel c r v)" using assms by (auto simp: filter_ok_def vdel_def)
  show "dom (vdel c r v) = dom v" by (auto simp: vdel_def)
  show "frule (vdel c r v) c' r' \<longleftrightarrow> frule v c' r' \<and> \<not> (c' = c \<and> r' = r)"
    using assms by (cases "v (''filter'', c)"; cases "c' = c") (simp_all add: has_rule_def filter_ok_def vdel_def)
qed

lemma fold_vdel_effect:
  "filter_ok v \<Longrightarrow> filter_ok (fold (vdel c) rs v) \<and> dom (fold (vdel c) rs v) = dom v
     \<and> (frule (fold (vdel c) rs v) c' r' \<longleftrightarrow> frule v c' r' \<and> \<not> (c' = c \<and> r' \<in> set rs))"
proof (induction rs arbitrary: v)
  case (Cons r rs)
  show ?case using Cons.IH [OF vdel_effect(1) [OF Cons.prems]] by (auto simp: vdel_effect [OF Cons.prems])
qed simp

lemma cleanup_loop:
  assumes "iptables_ok t view" "filter_ok (view w)"
  shows "\<exists>w'. cleanupRules t c rs w = (Inr (), w') \<and> filter_ok (view w')
     \<and> dom (view w') = dom (view w) \<and> (\<forall>c' r'. frule (view w') c' r' \<longleftrightarrow> frule (view w) c' r' \<and> \<not> (c' = c \<and> r' \<in> set rs))"
  using cleanup_view [OF assms(1), of c rs w] fold_vdel_effect [OF assms(2)] by force

subsection \<open>One protocol\<close>

text \<open>The hooks: the jump from \<open>FORWARD\<close> and the jump to the chain of the administrator.\<close>

definition hooked :: "'w iptables_backend \<Rightarrow> tables \<Rightarrow> bool" where
  "hooked ib v \<longleftrightarrow> {(''filter'', privChainName ib), (''filter'', adminChainName ib)} \<subseteq> dom v
     \<and> frule v ''FORWARD'' (generateFilterRule (privChainName ib))
     \<and> frule v (privChainName ib) (generateAdminRule (adminChainName ib))"

lemma setupChains_ok:
  assumes "iptables_ok t view" "filter_ok (view w)"
  shows "\<exists>w'. setupChains ib t w = (Inr (), w') \<and> filter_ok (view w') \<and> hooked ib (view w')
     \<and> (\<forall>c r. frule (view w') c r \<longleftrightarrow> frule (view w) c r \<or> (c = ''FORWARD'' \<and> r = generateFilterRule (privChainName ib))
          \<or> (c = privChainName ib \<and> r = generateAdminRule (adminChainName ib)))
     \<and> dom (view w) \<subseteq> dom (view w')"
proof -
  obtain w1 where w1: "EnsureChain (Some t) ''filter'' (privChainName ib) w = (Inr (), w1)" "filter_ok (view w1)"
    "frule (view w1) = frule (view w)" "dom (view w1) = insert (''filter'', privChainName ib) (dom (view w))"
    using ensure_frule [OF assms] by blast
  obtain w2 where w2: "EnsureChain (Some t) ''filter'' (adminChainName ib) w1 = (Inr (), w2)" "filter_ok (view w2)"
    "frule (view w2) = frule (view w1)" "dom (view w2) = insert (''filter'', adminChainName ib) (dom (view w1))"
    using ensure_frule [OF assms(1) w1(2)] by blast
  have "(''filter'', ''FORWARD'') \<in> dom (view w2)" using w2(2) by (simp add: filter_ok_def)
  then obtain w3 where w3: "ensureFirstChainRule t ''FORWARD'' (generateFilterRule (privChainName ib)) w2 = (Inr (), w3)"
    "filter_ok (view w3)" "dom (view w3) = dom (view w2)"
    "\<forall>c' r'. frule (view w3) c' r' \<longleftrightarrow> frule (view w2) c' r' \<or> (c' = ''FORWARD'' \<and> r' = generateFilterRule (privChainName ib))"
    using put_frule [OF assms(1) w2(2)] unfolding ensure_first_is by blast
  have "(''filter'', privChainName ib) \<in> dom (view w3)" using w1(4) w2(4) w3(3) by blast
  then obtain w4 where w4: "ensureFirstChainRule t (privChainName ib) (generateAdminRule (adminChainName ib)) w3 = (Inr (), w4)"
    "filter_ok (view w4)" "dom (view w4) = dom (view w3)"
    "\<forall>c' r'. frule (view w4) c' r' \<longleftrightarrow> frule (view w3) c' r' \<or> (c' = privChainName ib \<and> r' = generateAdminRule (adminChainName ib))"
    using put_frule [OF assms(1) w3(2)] unfolding ensure_first_is by blast
  have d: "dom (view w4) = insert (''filter'', adminChainName ib) (insert (''filter'', privChainName ib) (dom (view w)))"
    by (simp only: w4(3) w3(3) w2(4) w1(4))
  show ?thesis
    using w1(1,3) w2(1,3) w3(1,4) w4(1,2,4) d
    by (intro exI [of _ w4]) (simp add: setupChains_def Let_def bind_io_def hooked_def, blast)
qed

text \<open>The rules of an address determine it; none of them is one of the hooks.\<close>

lemma rules_for_mem:
  "r \<in> set (rules_for result proto) \<longleftrightarrow>
     (\<exists>a\<in>set (IPs result). protoForIP (Address a) = proto \<and> r \<in> set (getPrivChainRules (ipString (Address a))))"
  by (auto simp: rules_for_def)

lemma ipString_proto: "ipString m = ipString n \<Longrightarrow> protoForIP m = protoForIP n"
  by (auto simp: ipString_def protoForIP_def split: if_splits dest: arg_cong [where f = last])

lemma priv_rules_inj: "r \<in> set (getPrivChainRules s) \<Longrightarrow> r \<in> set (getPrivChainRules s') \<Longrightarrow> s = s'"
  by (auto simp: getPrivChainRules_def)

lemma priv_rule_of:
  assumes "r \<in> set (getPrivChainRules (ipString n))"
  shows "r \<in> set (rules_for result (protoForIP n)) \<longleftrightarrow> ipString n \<in> addrs_of result"
proof
  assume "r \<in> set (rules_for result (protoForIP n))"
  then obtain a where a: "a \<in> set (IPs result)" "r \<in> set (getPrivChainRules (ipString (Address a)))"
    unfolding rules_for_mem by blast
  then show "ipString n \<in> addrs_of result"
    using a(1) unfolding addrs_of_def priv_rules_inj [OF assms a(2)] by blast
next
  assume "ipString n \<in> addrs_of result"
  then obtain a where a: "a \<in> set (IPs result)" "ipString n = ipString (Address a)" unfolding addrs_of_def by blast
  show "r \<in> set (rules_for result (protoForIP n))"
    unfolding rules_for_mem using a(1) assms ipString_proto [OF a(2) [symmetric]] by (metis a(2))
qed

lemma priv_rule_not_hook:
  assumes "r \<in> set (getPrivChainRules a)"
  shows "r \<noteq> generateAdminRule b" "r \<noteq> generateFilterRule b"
  using assms by (auto simp: getPrivChainRules_def generateAdminRule_def generateFilterRule_def)

text \<open>What one protocol lets through, and what its check looks for.\<close>

definition lets :: "'w iptables_backend \<Rightarrow> tables \<Rightarrow> ipnet \<Rightarrow> bool" where
  "lets ib v n \<longleftrightarrow> (\<forall>r\<in>set (getPrivChainRules (ipString n)). frule v (privChainName ib) r)"

definition satisfied :: "'w iptables_backend \<Rightarrow> tables \<Rightarrow> bool \<Rightarrow> cni_result \<Rightarrow> bool" where
  "satisfied ib v proto result \<longleftrightarrow> (rules_for result proto \<noteq> [] \<longrightarrow>
     hooked ib v \<and> (\<forall>r\<in>set (rules_for result proto). frule v (privChainName ib) r))"

definition fgrows :: "tables \<Rightarrow> tables \<Rightarrow> bool" where
  "fgrows v v' \<longleftrightarrow> dom v \<subseteq> dom v' \<and> (\<forall>c r. frule v c r \<longrightarrow> frule v' c r)"

lemma satisfied_grows: "satisfied ib v p r \<Longrightarrow> fgrows v v' \<Longrightarrow> satisfied ib v' p r"
  unfolding satisfied_def hooked_def fgrows_def by blast

lemma fgrows_trans: "fgrows u v \<Longrightarrow> fgrows v w \<Longrightarrow> fgrows u w"
  unfolding fgrows_def by blast

lemma addRules_ok:
  assumes "iptables_ok t view" "filter_ok (view w)"
  shows "\<exists>w'. addRules ib result t proto w = (Inr (), w') \<and> filter_ok (view w') \<and> fgrows (view w) (view w')
     \<and> satisfied ib (view w') proto result
     \<and> (\<forall>n. protoForIP n = proto \<longrightarrow> lets ib (view w') n \<longleftrightarrow> lets ib (view w) n \<or> ipString n \<in> addrs_of result)"
proof (cases "rules_for result proto = []")
  case True
  have "ipString n \<notin> addrs_of result" if "protoForIP n = proto" for n
    using priv_rule_of [of "hd (getPrivChainRules (ipString n))" n result] that True by (simp add: getPrivChainRules_def)
  then show ?thesis
    using True assms(2) by (intro exI [of _ w]) (auto simp: addRules_def ret_def fgrows_def satisfied_def)
next
  case False
  let ?rules = "rules_for result proto" and ?p = "privChainName ib"
  obtain w1 where w1: "setupChains ib t w = (Inr (), w1)" "filter_ok (view w1)" "hooked ib (view w1)"
    "\<forall>c r. frule (view w1) c r \<longleftrightarrow> frule (view w) c r \<or> (c = ''FORWARD'' \<and> r = generateFilterRule ?p)
          \<or> (c = ?p \<and> r = generateAdminRule (adminChainName ib))" "dom (view w) \<subseteq> dom (view w1)"
    using setupChains_ok [OF assms] by blast
  have "(''filter'', ?p) \<in> dom (view w1)" using w1(3) by (simp add: hooked_def)
  then obtain w2 where w2: "each_io (AppendUnique t ''filter'' ?p) ?rules w1 = (Inr (), w2)" "filter_ok (view w2)"
    "dom (view w2) = dom (view w1)" "\<forall>c r. frule (view w2) c r \<longleftrightarrow> frule (view w1) c r \<or> (c = ?p \<and> r \<in> set ?rules)"
    using append_loop [OF assms(1) w1(2)] by blast
  have run: "addRules ib result t proto w = (Inr (), w2)"
    using False w1(1) w2(1) by (simp add: addRules_def Let_def bind_io_def on_error_def)
  have grow: "fgrows (view w) (view w2)" using w1(4,5) w2(3,4) by (auto simp: fgrows_def)
  have sat: "satisfied ib (view w2) proto result" using w1(3) w2(3,4) by (auto simp: satisfied_def hooked_def)
  have "lets ib (view w2) n \<longleftrightarrow> lets ib (view w) n \<or> ipString n \<in> addrs_of result" if "protoForIP n = proto" for n
  proof -
    have "frule (view w2) ?p r \<longleftrightarrow> frule (view w) ?p r \<or> ipString n \<in> addrs_of result"
      if "r \<in> set (getPrivChainRules (ipString n))" for r
      using w2(4) w1(4) priv_rule_of [OF that, of result] priv_rule_not_hook [OF that] \<open>protoForIP n = proto\<close> by auto
    then show ?thesis by (auto simp: lets_def getPrivChainRules_def)
  qed
  then show ?thesis using run w2(2) grow sat by blast
qed

lemma delRules_ok:
  assumes "iptables_ok t view" "filter_ok (view w)"
  shows "\<exists>w'. delRules ib result t proto w = (Inr (), w') \<and> filter_ok (view w')
     \<and> (\<forall>n. protoForIP n = proto \<longrightarrow> lets ib (view w') n \<longleftrightarrow> lets ib (view w) n \<and> ipString n \<notin> addrs_of result)"
proof (cases "rules_for result proto = []")
  case True
  have "ipString n \<notin> addrs_of result" if "protoForIP n = proto" for n
    using priv_rule_of [of "hd (getPrivChainRules (ipString n))" n result] that True by (simp add: getPrivChainRules_def)
  then show ?thesis
    using True assms(2) by (intro exI [of _ w]) (auto simp: delRules_def ret_def)
next
  case False
  let ?rules = "rules_for result proto" and ?p = "privChainName ib"
  obtain w1 where w1: "cleanupRules t ?p ?rules w = (Inr (), w1)" "filter_ok (view w1)"
    "\<forall>c r. frule (view w1) c r \<longleftrightarrow> frule (view w) c r \<and> \<not> (c = ?p \<and> r \<in> set ?rules)"
    using cleanup_loop [OF assms] by blast
  have "lets ib (view w1) n \<longleftrightarrow> lets ib (view w) n \<and> ipString n \<notin> addrs_of result" if "protoForIP n = proto" for n
  proof -
    have "frule (view w1) ?p r \<longleftrightarrow> frule (view w) ?p r \<and> ipString n \<notin> addrs_of result"
      if "r \<in> set (getPrivChainRules (ipString n))" for r
      using w1(3) priv_rule_of [OF that, of result] \<open>protoForIP n = proto\<close> by auto
    then show ?thesis by (auto simp: lets_def getPrivChainRules_def)
  qed
  then show ?thesis using False w1(1,2) by (intro exI [of _ w1]) (simp add: delRules_def Let_def)
qed

lemma require_filter_rule_ok:
  "iptables_ok t view \<Longrightarrow> frule (view w) c r \<Longrightarrow> require_filter_rule t c r w = (Inr (), w)"
  using iptables_okD(5) [of t view w "''filter''" c] by (auto simp: has_rule_def require_filter_rule_def bind_io_def ret_def)

lemma EnsureChain_present:
  "iptables_ok t view \<Longrightarrow> (tb, c) \<in> dom (view w) \<Longrightarrow> EnsureChain (Some t) tb c w = (Inr (), w)"
  by (auto simp: EnsureChain_def bind_io_def wrap_io_def ChainExists_ok ret_def)

lemma checkRules_ok:
  assumes "iptables_ok t view" "satisfied ib (view w) proto result"
  shows "checkRules ib result t proto w = (Inr (), w)"
proof (cases "rules_for result proto = []")
  case False
  then have h: "hooked ib (view w)" and r: "\<forall>r\<in>set (rules_for result proto). frule (view w) (privChainName ib) r"
    using assms(2) by (auto simp: satisfied_def)
  note req = require_filter_rule_ok [OF assms(1)]
  have "each_io (require_filter_rule t (privChainName ib)) (rules_for result proto) w = (Inr (), w)"
    by (rule each_io_skip) (use r req in blast)
  then show ?thesis
    using False h by (simp add: checkRules_def Let_def bind_io_def hooked_def EnsureChain_present [OF assms(1)] req)
qed (simp add: checkRules_def ret_def)

subsection \<open>Both protocols\<close>

lemma leaves_on_error [leaves_intros]: "leaves f m \<Longrightarrow> leaves f c \<Longrightarrow> leaves f (on_error m c)"
  unfolding leaves_def on_error_def by (auto split: prod.splits sum.splits) (metis snd_conv)+

lemma leaves_addRules: "undisturbed t f \<Longrightarrow> leaves f (addRules ib r t p)"
  unfolding addRules_def setupChains_def ensureFirstChainRule_def cleanupRules_def Let_def
  by (intro leaves_intros) (simp_all add: undisturbed_def)

lemma leaves_delRules: "undisturbed t f \<Longrightarrow> leaves f (delRules ib r t p)"
  unfolding delRules_def cleanupRules_def Let_def
  by (intro leaves_intros) (simp_all add: undisturbed_def)

definition protos_ok :: "(bool \<Rightarrow> 'w \<Rightarrow> tables) \<Rightarrow> (bool \<times> 'w iptables) list \<Rightarrow> bool" where
  "protos_ok V ps \<longleftrightarrow> distinct (map fst ps)
     \<and> list_all (\<lambda>(p, t). iptables_ok t (V p) \<and> undisturbed t (V (\<not> p))) ps"

lemma protos_ok_Cons:
  "protos_ok V ((p, t) # ps) \<longleftrightarrow> p \<notin> fst ` set ps \<and> iptables_ok t (V p) \<and> undisturbed t (V (\<not> p)) \<and> protos_ok V ps"
  by (auto simp: protos_ok_def)

lemma both_protos: "P p \<Longrightarrow> P (\<not> p) \<Longrightarrow> P (q :: bool)"
  by (cases "q = p") auto

lemma add_protos:
  assumes "protos_ok V ps" "\<forall>p. filter_ok (V p w)"
  shows "\<exists>w'. each_io (\<lambda>(p, t). addRules ib r t p) ps w = (Inr (), w') \<and> (\<forall>p. filter_ok (V p w') \<and> fgrows (V p w) (V p w'))
     \<and> (\<forall>p. p \<in> fst ` set ps \<longrightarrow> satisfied ib (V p w') p r)
     \<and> (\<forall>n. lets ib (V (protoForIP n) w') n \<longleftrightarrow>
          lets ib (V (protoForIP n) w) n \<or> (protoForIP n \<in> fst ` set ps \<and> ipString n \<in> addrs_of r))"
  using assms
proof (induction ps arbitrary: w)
  case (Cons pt ps)
  obtain p t where pt: "pt = (p, t)" by (cases pt)
  then have ok: "p \<notin> fst ` set ps" "iptables_ok t (V p)" "undisturbed t (V (\<not> p))" "protos_ok V ps"
    using Cons.prems(1) unfolding pt protos_ok_Cons by blast+
  obtain w1 where w1: "addRules ib r t p w = (Inr (), w1)" "filter_ok (V p w1)" "fgrows (V p w) (V p w1)"
    "satisfied ib (V p w1) p r"
    "\<forall>n. protoForIP n = p \<longrightarrow> lets ib (V p w1) n \<longleftrightarrow> lets ib (V p w) n \<or> ipString n \<in> addrs_of r"
    using addRules_ok [OF ok(2), of w ib r p] Cons.prems(2) by blast
  have other: "V (\<not> p) w1 = V (\<not> p) w" by (rule leavesD [OF leaves_addRules [OF ok(3)] w1(1)])
  have "filter_ok (V q w1) \<and> fgrows (V q w) (V q w1)" for q
    by (rule both_protos [of _ p]) (use w1(2,3) Cons.prems(2) other in \<open>simp_all add: fgrows_def\<close>)
  then have all: "\<forall>q. filter_ok (V q w1)" "\<forall>q. fgrows (V q w) (V q w1)" by blast+
  from Cons.IH [OF ok(4) all(1)] obtain w2 where
    w2: "each_io (\<lambda>(p, t). addRules ib r t p) ps w1 = (Inr (), w2)" "\<forall>p. filter_ok (V p w2) \<and> fgrows (V p w1) (V p w2)"
    "\<forall>p. p \<in> fst ` set ps \<longrightarrow> satisfied ib (V p w2) p r"
    "\<forall>n. lets ib (V (protoForIP n) w2) n \<longleftrightarrow>
          lets ib (V (protoForIP n) w1) n \<or> (protoForIP n \<in> fst ` set ps \<and> ipString n \<in> addrs_of r)" by blast
  have run: "each_io (\<lambda>(p, t). addRules ib r t p) (pt # ps) w = (Inr (), w2)"
    using w1(1) w2(1) by (simp add: pt bind_io_def)
  have grow: "\<forall>q. filter_ok (V q w2) \<and> fgrows (V q w) (V q w2)"
    using all(2) w2(2) fgrows_trans by blast
  have "satisfied ib (V p w2) p r" using satisfied_grows [OF w1(4)] w2(2) by blast
  then have sat: "\<forall>q. q \<in> fst ` set (pt # ps) \<longrightarrow> satisfied ib (V q w2) q r"
    using w2(3) by (simp add: pt)
  have "lets ib (V (protoForIP n) w2) n \<longleftrightarrow>
      lets ib (V (protoForIP n) w) n \<or> (protoForIP n \<in> fst ` set (pt # ps) \<and> ipString n \<in> addrs_of r)" for n
  proof (cases "protoForIP n = p")
    case True
    then show ?thesis using w2(4) [rule_format, of n] w1(5) [rule_format, of n] ok(1) by (simp add: pt)
  next
    case False
    then have "protoForIP n = (\<not> p)" by blast
    then show ?thesis using w2(4) [rule_format, of n] other by (simp add: pt)
  qed
  then have l: "\<forall>n. lets ib (V (protoForIP n) w2) n \<longleftrightarrow>
      lets ib (V (protoForIP n) w) n \<or> (protoForIP n \<in> fst ` set (pt # ps) \<and> ipString n \<in> addrs_of r)" by (intro allI)
  show ?case by (rule exI [of _ w2], intro conjI run grow sat l)
qed (simp add: ret_def fgrows_def)

lemma del_protos:
  assumes "protos_ok V ps" "\<forall>p. filter_ok (V p w)"
  shows "\<exists>w'. each_io (\<lambda>(p, t). attempt (delRules ib r t p) (\<lambda>_. ret ())) ps w = (Inr (), w') \<and> (\<forall>p. filter_ok (V p w'))
     \<and> (\<forall>n. lets ib (V (protoForIP n) w') n \<longleftrightarrow>
          lets ib (V (protoForIP n) w) n \<and> \<not> (protoForIP n \<in> fst ` set ps \<and> ipString n \<in> addrs_of r))"
  using assms
proof (induction ps arbitrary: w)
  case (Cons pt ps)
  obtain p t where pt: "pt = (p, t)" by (cases pt)
  then have ok: "p \<notin> fst ` set ps" "iptables_ok t (V p)" "undisturbed t (V (\<not> p))" "protos_ok V ps"
    using Cons.prems(1) unfolding pt protos_ok_Cons by blast+
  obtain w1 where w1: "delRules ib r t p w = (Inr (), w1)" "filter_ok (V p w1)"
    "\<forall>n. protoForIP n = p \<longrightarrow> lets ib (V p w1) n \<longleftrightarrow> lets ib (V p w) n \<and> ipString n \<notin> addrs_of r"
    using delRules_ok [OF ok(2), of w ib r p] Cons.prems(2) by blast
  have other: "V (\<not> p) w1 = V (\<not> p) w" by (rule leavesD [OF leaves_delRules [OF ok(3)] w1(1)])
  have "filter_ok (V q w1)" for q
    by (rule both_protos [of _ p]) (use w1(2) Cons.prems(2) other in simp_all)
  then have all: "\<forall>q. filter_ok (V q w1)" by blast
  from Cons.IH [OF ok(4) all(1)] obtain w2 where
    w2: "each_io (\<lambda>(p, t). attempt (delRules ib r t p) (\<lambda>_. ret ())) ps w1 = (Inr (), w2)" "\<forall>p. filter_ok (V p w2)"
    "\<forall>n. lets ib (V (protoForIP n) w2) n \<longleftrightarrow>
          lets ib (V (protoForIP n) w1) n \<and> \<not> (protoForIP n \<in> fst ` set ps \<and> ipString n \<in> addrs_of r)" by blast
  have "attempt (delRules ib r t p) (\<lambda>_. ret ()) w = (Inr (), w1)" by (simp add: attempt_def ret_def w1(1))
  then have run: "each_io (\<lambda>(p, t). attempt (delRules ib r t p) (\<lambda>_. ret ())) (pt # ps) w = (Inr (), w2)"
    using w2(1) by (simp add: pt bind_io_def)
  have "lets ib (V (protoForIP n) w2) n \<longleftrightarrow>
      lets ib (V (protoForIP n) w) n \<and> \<not> (protoForIP n \<in> fst ` set (pt # ps) \<and> ipString n \<in> addrs_of r)" for n
  proof (cases "protoForIP n = p")
    case True
    then show ?thesis using w2(3) [rule_format, of n] w1(3) [rule_format, of n] ok(1) by (simp add: pt)
  next
    case False
    then have "protoForIP n = (\<not> p)" by blast
    then show ?thesis using w2(3) [rule_format, of n] other by (simp add: pt)
  qed
  then have l: "\<forall>n. lets ib (V (protoForIP n) w2) n \<longleftrightarrow>
      lets ib (V (protoForIP n) w) n \<and> \<not> (protoForIP n \<in> fst ` set (pt # ps) \<and> ipString n \<in> addrs_of r)" by (intro allI)
  show ?case by (rule exI [of _ w2], intro conjI run w2(2) l)
qed (simp add: ret_def)

text \<open>The environment of the backend: one client per family, in the order the loop takes them.\<close>

definition iptables_inv :: "'w proto_order \<Rightarrow> (bool \<Rightarrow> 'w \<Rightarrow> tables) \<Rightarrow> 'w iptables_backend \<Rightarrow> 'w \<Rightarrow> bool" where
  "iptables_inv order V ib w \<longleftrightarrow>
     protos_ok V (order (ib_protos ib)) \<and> fst ` set (order (ib_protos ib)) = UNIV \<and> (\<forall>p. filter_ok (V p w))"

lemma iptables_Add_ok:
  assumes "iptables_inv order V ib w"
  shows "\<exists>w'. iptables_Add order ib c r w = (Inr (), w') \<and> iptables_inv order V ib w' \<and> (\<forall>p. satisfied ib (V p w') p r)
     \<and> (\<forall>n. lets ib (V (protoForIP n) w') n \<longleftrightarrow> lets ib (V (protoForIP n) w) n \<or> ipString n \<in> addrs_of r)
     \<and> (\<forall>r'. (\<forall>p. satisfied ib (V p w) p r') \<longrightarrow> (\<forall>p. satisfied ib (V p w') p r'))"
proof -
  have ok: "protos_ok V (order (ib_protos ib))" "\<And>p. p \<in> fst ` set (order (ib_protos ib))" "\<forall>p. filter_ok (V p w)"
    using assms by (simp_all add: iptables_inv_def)
  from add_protos [OF ok(1,3), of ib r] obtain w' where w':
    "each_io (\<lambda>(p, t). addRules ib r t p) (order (ib_protos ib)) w = (Inr (), w')"
    "\<forall>p. filter_ok (V p w') \<and> fgrows (V p w) (V p w')"
    "\<forall>p. p \<in> fst ` set (order (ib_protos ib)) \<longrightarrow> satisfied ib (V p w') p r"
    "\<forall>n. lets ib (V (protoForIP n) w') n \<longleftrightarrow>
          lets ib (V (protoForIP n) w) n \<or> (protoForIP n \<in> fst ` set (order (ib_protos ib)) \<and> ipString n \<in> addrs_of r)"
    by (elim exE conjE)
  have "iptables_inv order V ib w'" using assms w'(2) by (simp add: iptables_inv_def)
  moreover have "\<forall>r'. (\<forall>p. satisfied ib (V p w) p r') \<longrightarrow> (\<forall>p. satisfied ib (V p w') p r')"
    using satisfied_grows w'(2) by blast
  moreover have "\<forall>p. satisfied ib (V p w') p r" using w'(3) ok(2) by blast
  moreover have "\<forall>n. lets ib (V (protoForIP n) w') n \<longleftrightarrow> lets ib (V (protoForIP n) w) n \<or> ipString n \<in> addrs_of r"
    using w'(4) ok(2) by simp
  ultimately show ?thesis using w'(1) unfolding iptables_Add_def by (intro exI conjI)
qed

lemma iptables_Del_ok:
  assumes "iptables_inv order V ib w"
  shows "\<exists>w'. iptables_Del order ib c r w = (Inr (), w') \<and> iptables_inv order V ib w'
     \<and> (\<forall>n. lets ib (V (protoForIP n) w') n \<longleftrightarrow> lets ib (V (protoForIP n) w) n \<and> ipString n \<notin> addrs_of r)"
proof -
  have ok: "protos_ok V (order (ib_protos ib))" "\<And>p. p \<in> fst ` set (order (ib_protos ib))" "\<forall>p. filter_ok (V p w)"
    using assms by (simp_all add: iptables_inv_def)
  from del_protos [OF ok(1,3), of ib r] obtain w' where w':
    "each_io (\<lambda>(p, t). attempt (delRules ib r t p) (\<lambda>_. ret ())) (order (ib_protos ib)) w = (Inr (), w')"
    "\<forall>p. filter_ok (V p w')"
    "\<forall>n. lets ib (V (protoForIP n) w') n \<longleftrightarrow>
          lets ib (V (protoForIP n) w) n \<and> \<not> (protoForIP n \<in> fst ` set (order (ib_protos ib)) \<and> ipString n \<in> addrs_of r)"
    by (elim exE conjE)
  have "iptables_inv order V ib w'" using assms w'(2) by (simp add: iptables_inv_def)
  moreover have "\<forall>n. lets ib (V (protoForIP n) w') n \<longleftrightarrow> lets ib (V (protoForIP n) w) n \<and> ipString n \<notin> addrs_of r"
    using w'(3) ok(2) by simp
  ultimately show ?thesis using w'(1) unfolding iptables_Del_def by (intro exI conjI)
qed

lemma iptables_Check_ok:
  assumes "iptables_inv order V ib w" "\<forall>p. satisfied ib (V p w) p r"
  shows "iptables_Check order ib c r w = (Inr (), w)"
  unfolding iptables_Check_def
proof (rule each_io_skip)
  fix pt :: "bool \<times> 'a iptables"
  assume "pt \<in> set (order (ib_protos ib))"
  then have "iptables_ok (snd pt) (V (fst pt))"
    using assms(1) by (auto simp: iptables_inv_def protos_ok_def list_all_iff)
  from checkRules_ok [OF this] assms(2) show "(case pt of (p, t) \<Rightarrow> checkRules ib r t p) w = (Inr (), w)"
    by (simp add: case_prod_beta)
qed

interpretation ipt: firewall_backend "iptables_Add order ib" "iptables_Del order ib" "iptables_Check order ib"
  "\<lambda>_. iptables_inv order V ib" "\<lambda>_ w n. lets ib (V (protoForIP n) w) n" "\<lambda>_ w r. \<forall>p. satisfied ib (V p w) p r"
  for order :: "'w proto_order" and ib :: "'w iptables_backend" and V :: "bool \<Rightarrow> 'w \<Rightarrow> tables"
  by (rule firewall_backend.intro [OF iptables_Add_ok iptables_Del_ok iptables_Check_ok])

section \<open>The firewalld backend\<close>

text \<open>
  The bus, as firewalld documents it: a source is added to a zone when no other zone has it, a second
  addition fails with \<open>ZONE_ALREADY_SET\<close>, removal fails on an unknown source, a query answers.
\<close>

definition firewalld_ok :: "(error \<Rightarrow> string) \<Rightarrow> 'w dbus_conn \<Rightarrow> ('w \<Rightarrow> string \<Rightarrow> string set) \<Rightarrow> bool" where
  "firewalld_ok err_text conn zones \<longleftrightarrow>
     (\<forall>w z s. s \<notin> zones w z \<longrightarrow> (\<forall>z'. z' \<noteq> z \<longrightarrow> s \<notin> zones w z') \<longrightarrow>
        (\<exists>w' v. zone_call conn ''addSource'' z s w = (Inr (DString v), w') \<and> zones w' = (zones w)(z := insert s (zones w z))))
   \<and> (\<forall>w z s. s \<in> zones w z \<longrightarrow>
        (\<exists>e. zone_call conn ''addSource'' z s w = (Inl e, w) \<and> \<not> is_panic e \<and> contains_sub (err_text e) errZoneAlreadySet))
   \<and> (\<forall>w z s. s \<in> zones w z \<longrightarrow>
        (\<exists>w' v. zone_call conn ''removeSource'' z s w = (Inr (DString v), w') \<and> zones w' = (zones w)(z := zones w z - {s})))
   \<and> (\<forall>w z s. s \<notin> zones w z \<longrightarrow> (\<exists>e. zone_call conn ''removeSource'' z s w = (Inl e, w) \<and> \<not> is_panic e))
   \<and> (\<forall>w z s. zone_call conn ''querySource'' z s w = (Inr (DBool (s \<in> zones w z)), w))"

lemma firewalld_okD:
  assumes "firewalld_ok err_text conn zones"
  shows "s \<notin> zones w z \<Longrightarrow> (\<And>z'. z' \<noteq> z \<Longrightarrow> s \<notin> zones w z') \<Longrightarrow>
        \<exists>w' v. zone_call conn ''addSource'' z s w = (Inr (DString v), w') \<and> zones w' = (zones w)(z := insert s (zones w z))"
    "s \<in> zones w z \<Longrightarrow> \<exists>e. zone_call conn ''addSource'' z s w = (Inl e, w) \<and> \<not> is_panic e \<and> contains_sub (err_text e) errZoneAlreadySet"
    "s \<in> zones w z \<Longrightarrow> \<exists>w' v. zone_call conn ''removeSource'' z s w = (Inr (DString v), w') \<and> zones w' = (zones w)(z := zones w z - {s})"
    "s \<notin> zones w z \<Longrightarrow> \<exists>e. zone_call conn ''removeSource'' z s w = (Inl e, w) \<and> \<not> is_panic e"
    "zone_call conn ''querySource'' z s w = (Inr (DBool (s \<in> zones w z)), w)"
proof -
  note law = assms [unfolded firewalld_ok_def]
  note l2 = law [THEN conjunct2] and l3 = law [THEN conjunct2, THEN conjunct2]
  note l4 = l3 [THEN conjunct2] and l5 = l3 [THEN conjunct2, THEN conjunct2]
  show "s \<notin> zones w z \<Longrightarrow> (\<And>z'. z' \<noteq> z \<Longrightarrow> s \<notin> zones w z') \<Longrightarrow>
        \<exists>w' v. zone_call conn ''addSource'' z s w = (Inr (DString v), w') \<and> zones w' = (zones w)(z := insert s (zones w z))"
    by (rule law [THEN conjunct1, rule_format])
  show "s \<in> zones w z \<Longrightarrow> \<exists>e. zone_call conn ''addSource'' z s w = (Inl e, w) \<and> \<not> is_panic e \<and> contains_sub (err_text e) errZoneAlreadySet"
    by (rule l2 [THEN conjunct1, rule_format])
  show "s \<in> zones w z \<Longrightarrow> \<exists>w' v. zone_call conn ''removeSource'' z s w = (Inr (DString v), w') \<and> zones w' = (zones w)(z := zones w z - {s})"
    by (rule l3 [THEN conjunct1, rule_format])
  show "s \<notin> zones w z \<Longrightarrow> \<exists>e. zone_call conn ''removeSource'' z s w = (Inl e, w) \<and> \<not> is_panic e"
    by (rule l4 [THEN conjunct1, rule_format])
  show "zone_call conn ''querySource'' z s w = (Inr (DBool (s \<in> zones w z)), w)"
    by (rule l5 [rule_format])
qed

text \<open>No zone but the one of the configuration has sources.\<close>

definition firewalld_inv :: "(error \<Rightarrow> string) \<Rightarrow> 'w dbus_conn \<Rightarrow> ('w \<Rightarrow> string \<Rightarrow> string set) \<Rightarrow> firewall_conf \<Rightarrow> 'w \<Rightarrow> bool" where
  "firewalld_inv err_text conn zones c w \<longleftrightarrow>
     firewalld_ok err_text conn zones \<and> (\<forall>z. z \<noteq> FirewalldZone c \<longrightarrow> zones w z = {})"

lemma add_source_ok:
  assumes "firewalld_inv err_text conn zones c w"
  shows "\<exists>w'. add_source err_text conn (FirewalldZone c) s w = (Inr (), w') \<and> firewalld_inv err_text conn zones c w'
     \<and> zones w' (FirewalldZone c) = insert s (zones w (FirewalldZone c))"
proof (cases "s \<in> zones w (FirewalldZone c)")
  case True
  have ok: "firewalld_ok err_text conn zones" using assms by (simp add: firewalld_inv_def)
  from firewalld_okD(2) [OF ok, OF True] obtain e where "zone_call conn ''addSource'' (FirewalldZone c) s w = (Inl e, w)"
    "\<not> is_panic e" "contains_sub (err_text e) errZoneAlreadySet" by (elim exE conjE)
  then have "add_source err_text conn (FirewalldZone c) s w = (Inr (), w)"
    by (simp add: add_source_def attempt_def bind_io_def ret_def)
  then show ?thesis using assms True by blast
next
  case False
  have ok: "firewalld_ok err_text conn zones" using assms by (simp add: firewalld_inv_def)
  have "\<exists>w' v. zone_call conn ''addSource'' (FirewalldZone c) s w = (Inr (DString v), w')
      \<and> zones w' = (zones w)(FirewalldZone c := insert s (zones w (FirewalldZone c)))"
    by (rule firewalld_okD(1) [OF ok]) (use False assms in \<open>simp_all add: firewalld_inv_def\<close>)
  then obtain w1 v where w1: "zone_call conn ''addSource'' (FirewalldZone c) s w = (Inr (DString v), w1)"
    "zones w1 = (zones w)(FirewalldZone c := insert s (zones w (FirewalldZone c)))" by (elim exE conjE)
  have "add_source err_text conn (FirewalldZone c) s w = (Inr (), w1)"
    by (simp add: add_source_def attempt_def bind_io_def ret_def w1(1) store_string_def)
  moreover have "firewalld_inv err_text conn zones c w1" using assms by (simp add: firewalld_inv_def w1(2))
  ultimately show ?thesis using w1(2) by simp
qed

lemma remove_source_ok:
  assumes "firewalld_inv err_text conn zones c w"
  shows "\<exists>w'. remove_source conn (FirewalldZone c) s w = (Inr (), w') \<and> firewalld_inv err_text conn zones c w'
     \<and> zones w' (FirewalldZone c) = zones w (FirewalldZone c) - {s}"
proof (cases "s \<in> zones w (FirewalldZone c)")
  case True
  have ok: "firewalld_ok err_text conn zones" using assms by (simp add: firewalld_inv_def)
  from firewalld_okD(3) [OF ok, OF True] obtain w1 v where
    w1: "zone_call conn ''removeSource'' (FirewalldZone c) s w = (Inr (DString v), w1)"
    "zones w1 = (zones w)(FirewalldZone c := zones w (FirewalldZone c) - {s})" by (elim exE conjE)
  have "remove_source conn (FirewalldZone c) s w = (Inr (), w1)"
    by (simp add: remove_source_def attempt_def bind_io_def ret_def w1(1) store_string_def)
  moreover have "firewalld_inv err_text conn zones c w1" using assms by (simp add: firewalld_inv_def w1(2))
  ultimately show ?thesis using w1(2) by simp
next
  case False
  have ok: "firewalld_ok err_text conn zones" using assms by (simp add: firewalld_inv_def)
  from firewalld_okD(4) [OF ok, OF False] obtain e where
    "zone_call conn ''removeSource'' (FirewalldZone c) s w = (Inl e, w)" "\<not> is_panic e" by (elim exE conjE)
  then have "remove_source conn (FirewalldZone c) s w = (Inr (), w)"
    by (simp add: remove_source_def attempt_def bind_io_def ret_def)
  then show ?thesis using assms False by blast
qed

lemma firewalld_Add_view:
  assumes "firewalld_inv err_text conn zones c w"
  shows "\<exists>w'. firewalld_Add err_text conn c r w = (Inr (), w') \<and> firewalld_inv err_text conn zones c w'
     \<and> zones w' (FirewalldZone c) = zones w (FirewalldZone c) \<union> addrs_of r"
proof -
  have "\<exists>w'. each_io (\<lambda>a. add_source err_text conn (FirewalldZone c) (ipString (Address a))) l w = (Inr (), w')
     \<and> firewalld_inv err_text conn zones c w'
     \<and> zones w' (FirewalldZone c) = zones w (FirewalldZone c) \<union> (\<lambda>a. ipString (Address a)) ` set l" for l
    using assms
  proof (induction l arbitrary: w)
    case (Cons a l)
    obtain w1 where w1: "add_source err_text conn (FirewalldZone c) (ipString (Address a)) w = (Inr (), w1)"
      "firewalld_inv err_text conn zones c w1"
      "zones w1 (FirewalldZone c) = insert (ipString (Address a)) (zones w (FirewalldZone c))"
      using add_source_ok [OF Cons.prems, of "ipString (Address a)"] by (elim exE conjE)
    from Cons.IH [OF w1(2)] show ?case by (simp add: bind_io_def w1(1,3))
  qed (simp add: ret_def)
  from this [of "IPs r"] show ?thesis unfolding firewalld_Add_def addrs_of_def .
qed

lemma firewalld_Del_view:
  assumes "firewalld_inv err_text conn zones c w"
  shows "\<exists>w'. firewalld_Del conn c r w = (Inr (), w') \<and> firewalld_inv err_text conn zones c w'
     \<and> zones w' (FirewalldZone c) = zones w (FirewalldZone c) - addrs_of r"
proof -
  have "\<exists>w'. each_io (\<lambda>a. remove_source conn (FirewalldZone c) (ipString (Address a))) l w = (Inr (), w')
     \<and> firewalld_inv err_text conn zones c w'
     \<and> zones w' (FirewalldZone c) = zones w (FirewalldZone c) - (\<lambda>a. ipString (Address a)) ` set l" for l
    using assms
  proof (induction l arbitrary: w)
    case (Cons a l)
    obtain w1 where w1: "remove_source conn (FirewalldZone c) (ipString (Address a)) w = (Inr (), w1)"
      "firewalld_inv err_text conn zones c w1"
      "zones w1 (FirewalldZone c) = zones w (FirewalldZone c) - {ipString (Address a)}"
      using remove_source_ok [OF Cons.prems, of "ipString (Address a)"] by (elim exE conjE)
    obtain w2 where w2: "each_io (\<lambda>a. remove_source conn (FirewalldZone c) (ipString (Address a))) l w1 = (Inr (), w2)"
      "firewalld_inv err_text conn zones c w2"
      "zones w2 (FirewalldZone c) = zones w1 (FirewalldZone c) - (\<lambda>a. ipString (Address a)) ` set l"
      using Cons.IH [OF w1(2)] by (elim exE conjE)
    have "zones w2 (FirewalldZone c) = zones w (FirewalldZone c) - (\<lambda>a. ipString (Address a)) ` set (a # l)"
      unfolding w2(3) w1(3) by auto
    then show ?case using w2(1,2) by (simp add: bind_io_def w1(1))
  qed (simp add: ret_def)
  from this [of "IPs r"] show ?thesis unfolding firewalld_Del_def addrs_of_def .
qed

lemma firewalld_Check_any:
  assumes "firewalld_ok err_text conn zones"
  shows "firewalld_Check conn c r w = (Inr (), w)"
  unfolding firewalld_Check_def
  by (rule each_io_skip) (simp add: attempt_def bind_io_def ret_def firewalld_okD(5) [OF assms] store_bool_def)

interpretation fwd: firewall_backend "firewalld_Add err_text conn" "firewalld_Del conn" "firewalld_Check conn"
  "firewalld_inv err_text conn zones" "\<lambda>c w n. ipString n \<in> zones w (FirewalldZone c)"
  "\<lambda>c w r. addrs_of r \<subseteq> zones w (FirewalldZone c)"
  for err_text and conn :: "'w dbus_conn" and zones :: "'w \<Rightarrow> string \<Rightarrow> string set"
proof (unfold_locales, goal_cases)
  case (1 c w r)
  from firewalld_Add_view [OF this, of r] show ?case by auto
next
  case (2 c w r)
  from firewalld_Del_view [OF this, of r] show ?case by auto
next
  case (3 c w r)
  then have "firewalld_ok err_text conn zones" by (simp add: firewalld_inv_def)
  then show ?case by (rule firewalld_Check_any)
qed

end
