(* ===== verification/Firewall_Props.thy ===== *)
theory Firewall_Props
  imports Firewall_Spec
begin

text \<open>
  The properties of the firewall plugin, from the contract of its backends, and a concrete environment:
  two tables of association lists, one per family, and a bus with a set of sources per zone.
\<close>

section \<open>Properties\<close>



text \<open>
  CHECK with the firewalld backend looks at no answer: it succeeds for every result, whatever
  sources the zone has.
\<close>

theorem firewalld_check_blind:
  assumes "firewalld_ok err_text conn zones"
  shows "firewalld_Check conn conf r w = (Inr (), w)"
  by (rule firewalld_Check_any [OF assms])

text \<open>
  CHECK with the iptables backend is no pure query: when the private chain is missing, the check of
  a family that has addresses fails, but creates the chain on the way.
\<close>

theorem firewall_check_creates_chains:
  assumes "iptables_ok t view" "filter_ok (view w)" "rules_for r proto \<noteq> []"
    "view w (''filter'', privChainName ib) = None" "privChainName ib \<noteq> ''FORWARD''" "privChainName ib \<noteq> adminChainName ib"
  shows "\<exists>e w'. checkRules ib r t proto w = (Inl e, w') \<and> view w' (''filter'', privChainName ib) = Some []"
proof -
  let ?p = "privChainName ib"
  obtain w1 where w1: "EnsureChain (Some t) ''filter'' ?p w = (Inr (), w1)" "view w1 = (view w)((''filter'', ?p) \<mapsto> [])"
    using EnsureChain_ok [OF assms(1), of "''filter''" ?p w] assms(4) by (elim exE conjE) simp
  obtain w2 where w2: "EnsureChain (Some t) ''filter'' (adminChainName ib) w1 = (Inr (), w2)"
    "view w2 = (if view w1 (''filter'', adminChainName ib) = None then (view w1)((''filter'', adminChainName ib) \<mapsto> []) else view w1)"
    using EnsureChain_ok [OF assms(1), of "''filter''" "adminChainName ib" w1] by (elim exE conjE)
  have p: "view w2 (''filter'', ?p) = Some []"
    using assms(6) by (simp add: w2(2) w1(2))
  obtain f where "view w (''filter'', ''FORWARD'') = Some f" using assms(2) by (auto simp: filter_ok_def)
  then have "\<exists>f. view w2 (''filter'', ''FORWARD'') = Some f"
    using assms(5) by (cases "adminChainName ib = ''FORWARD''") (simp_all add: w2(2) w1(2))
  then obtain f where f: "view w2 (''filter'', ''FORWARD'') = Some f" ..
  note ex = iptables_okD(5) [OF assms(1), OF f] and exp = iptables_okD(5) [OF assms(1), OF p]
  show ?thesis
    using assms(3) w1(1) w2(1) p
    by (simp add: checkRules_def Let_def bind_io_def require_filter_rule_def ex exp ret_def fail_def)
qed

section \<open>A concrete environment\<close>

definition at_fst :: "('a, 'r) io \<Rightarrow> ('a \<times> 'b, 'r) io" where
  "at_fst m w = (case m (fst w) of (r, a) \<Rightarrow> (r, (a, snd w)))"

definition at_snd :: "('b, 'r) io \<Rightarrow> ('a \<times> 'b, 'r) io" where
  "at_snd m w = (case m (snd w) of (r, b) \<Rightarrow> (r, (fst w, b)))"

definition on_fst :: "'a iptables \<Rightarrow> ('a \<times> 'b) iptables" where
  "on_fst t = \<lparr>ipt_ListChains = \<lambda>tb. at_fst (ipt_ListChains t tb), ipt_NewChain = \<lambda>tb c. at_fst (ipt_NewChain t tb c),
     ipt_ClearChain = \<lambda>tb c. at_fst (ipt_ClearChain t tb c), ipt_DeleteChain = \<lambda>tb c. at_fst (ipt_DeleteChain t tb c),
     ipt_Exists = \<lambda>tb c r. at_fst (ipt_Exists t tb c r), ipt_Insert = \<lambda>tb c i r. at_fst (ipt_Insert t tb c i r),
     ipt_Append = \<lambda>tb c r. at_fst (ipt_Append t tb c r), ipt_Delete = \<lambda>tb c r. at_fst (ipt_Delete t tb c r),
     ipt_List = \<lambda>tb c. at_fst (ipt_List t tb c)\<rparr>"

definition on_snd :: "'b iptables \<Rightarrow> ('a \<times> 'b) iptables" where
  "on_snd t = \<lparr>ipt_ListChains = \<lambda>tb. at_snd (ipt_ListChains t tb), ipt_NewChain = \<lambda>tb c. at_snd (ipt_NewChain t tb c),
     ipt_ClearChain = \<lambda>tb c. at_snd (ipt_ClearChain t tb c), ipt_DeleteChain = \<lambda>tb c. at_snd (ipt_DeleteChain t tb c),
     ipt_Exists = \<lambda>tb c r. at_snd (ipt_Exists t tb c r), ipt_Insert = \<lambda>tb c i r. at_snd (ipt_Insert t tb c i r),
     ipt_Append = \<lambda>tb c r. at_snd (ipt_Append t tb c r), ipt_Delete = \<lambda>tb c r. at_snd (ipt_Delete t tb c r),
     ipt_List = \<lambda>tb c. at_snd (ipt_List t tb c)\<rparr>"

lemma leaves_at: "leaves (\<lambda>w. g (snd w)) (at_fst m)" "leaves (\<lambda>w. g (fst w)) (at_snd n)"
  by (simp_all add: leaves_def at_fst_def at_snd_def split: prod.splits)

lemma on_undisturbed: "undisturbed (on_fst t) (\<lambda>w. g (snd w))" "undisturbed (on_snd u) (\<lambda>w. g (fst w))"
  by (simp_all add: undisturbed_def on_fst_def on_snd_def leaves_at)

lemma on_fst_client: "iptables_ok (on_fst table_client) (\<lambda>w. map_of (fst w))"
  and on_snd_client: "iptables_ok (on_snd table_client) (\<lambda>w. map_of (snd w))"
  using table_client_ok [unfolded iptables_ok_def]
  unfolding iptables_ok_def on_fst_def on_snd_def at_fst_def at_snd_def
  by (auto simp: table_client_def Let_def ipt_not_exist_def update_conv' delete_conv' split: option.splits)

definition demo_ib :: "(table_list \<times> table_list) iptables_backend" where
  "demo_ib = \<lparr>ib_protos = [(False, on_fst table_client), (True, on_snd table_client)],
     privChainName = ''CNI-FORWARD'', adminChainName = ''CNI-ADMIN''\<rparr>"

definition demo_filter :: "table_list \<times> table_list" where
  "demo_filter = ([((''filter'', ''FORWARD''), [])], [((''filter'', ''FORWARD''), [])])"

definition demo_V :: "bool \<Rightarrow> table_list \<times> table_list \<Rightarrow> tables" where
  "demo_V p w = map_of (if p then snd w else fst w)"

lemma demo_inv: "iptables_inv rev demo_V demo_ib demo_filter"
proof -
  have V: "demo_V True = (\<lambda>w. map_of (snd w))" "demo_V False = (\<lambda>w. map_of (fst w))"
    by (simp_all add: demo_V_def fun_eq_iff)
  have "protos_ok demo_V (rev (ib_protos demo_ib))"
    by (simp add: protos_ok_def demo_ib_def V on_fst_client on_snd_client on_undisturbed)
  moreover have "filter_ok (demo_V p demo_filter)" for p
    by (simp add: filter_ok_def demo_V_def demo_filter_def dom_def)
  ultimately show ?thesis by (auto simp: iptables_inv_def demo_ib_def image_iff)
qed

definition demo_fw_conf :: firewall_conf where
  "demo_fw_conf = \<lparr>ConfVersion = ''0.4.0'', ConfName = ''net'', ConfType = ''firewall'', ConfIPAM = [], RawPrevResult = None,
     PrevResult = None, Backend = [], IptablesAdminChainName = [], FirewalldZone = ''trusted''\<rparr>"

definition demo_result :: "byte \<Rightarrow> cni_result" where
  "demo_result b = empty_result\<lparr>IPs := [\<lparr>Version = ''4'', Interface = None,
     Address = \<lparr>net_ip = [10, 0, 0, b], net_mask = [255, 255, 255, 0]\<rparr>, IPGateway = []\<rparr>]\<rparr>"

text \<open>A bus with a list of pairs of a zone and a source.\<close>

definition demo_text :: "error \<Rightarrow> string" where
  "demo_text e = (case e of Errorf m \<Rightarrow> m | _ \<Rightarrow> [])"

definition demo_bus :: "(string \<times> string) list dbus_conn" where
  "demo_bus dest path meth args w =
     (if meth = firewalldZoneInterface @ ''.addSource'' then
        (if (args ! 0, args ! 1) \<in> set w then (Inl (Errorf ''ZONE_ALREADY_SET''), w)
         else (Inr (DString (args ! 0)), (args ! 0, args ! 1) # w))
      else if meth = firewalldZoneInterface @ ''.removeSource'' then
        (if (args ! 0, args ! 1) \<in> set w then (Inr (DString (args ! 0)), removeAll (args ! 0, args ! 1) w)
         else (Inl (Errorf ''UNKNOWN_SOURCE''), w))
      else (Inr (DBool ((args ! 0, args ! 1) \<in> set w)), w))"

definition demo_zones :: "(string \<times> string) list \<Rightarrow> string \<Rightarrow> string set" where
  "demo_zones w z = {s. (z, s) \<in> set w}"

lemma demo_bus_ok: "firewalld_ok demo_text demo_bus demo_zones"
  unfolding firewalld_ok_def
  by (auto simp: zone_call_def demo_bus_def demo_zones_def demo_text_def firewalldZoneInterface_def
      errZoneAlreadySet_def fun_eq_iff)

section \<open>Witnesses\<close>



theorem firewalld_check_blind_witness:
  "firewalld_Check demo_bus demo_fw_conf (demo_result 2) [] = (Inr (), []) \<and> demo_zones [] ''trusted'' = {}"
  using firewalld_check_blind [OF demo_bus_ok] by (simp add: demo_zones_def)

theorem firewall_check_creates_chains_witness:
  "\<exists>e w'. checkRules demo_ib (demo_result 2) (on_fst table_client) False demo_filter = (Inl e, w')
     \<and> map_of (fst w') (''filter'', ''CNI-FORWARD'') = Some []"
proof -
  have "filter_ok (map_of (fst demo_filter))" by (simp add: filter_ok_def demo_filter_def dom_def)
  moreover have "rules_for (demo_result 2) False \<noteq> []"
    by (simp add: rules_for_def demo_result_def protoForIP_def To4_def getPrivChainRules_def)
  ultimately show ?thesis
    using firewall_check_creates_chains [OF on_fst_client, of demo_filter "demo_result 2" False demo_ib]
    by (simp add: demo_ib_def demo_filter_def)
qed

end
