(* ===== verification/Ip_Link.thy ===== *)
theory Ip_Link
  imports Netlink
begin

text \<open>
  \<open>pkg/ip\<close>: links (\<open>link_linux.go\<close>), routes (\<open>route_linux.go\<close>), waiting for addresses
  (\<open>addr_linux.go\<close>), the checks of CHECK (\<open>utils_linux.go\<close>), forwarding (\<open>ipforward_linux.go\<close>) and
  masquerading (\<open>ipmasq_linux.go\<close>).
\<close>

section \<open>link\_linux.go\<close>

definition makeVethPair :: "'w netlink \<Rightarrow> string \<Rightarrow> string \<Rightarrow> int \<Rightarrow> ('w, link) io" where
  "makeVethPair N name peer mtu =
     (let veth = (new_link name (Veth peer))\<lparr>lk_Up := True, lk_MTU := mtu\<rparr>
      in bind_io (nl_LinkAdd N veth) (\<lambda>index.
         attempt (nl_LinkByName N name) (\<lambda>r.
           case r of
             Inl e \<Rightarrow> attempt (nl_LinkDel N (veth\<lparr>lk_Index := index\<rparr>)) (\<lambda>_. fail e)
           | Inr veth2 \<Rightarrow> ret veth2)))"

definition peerExists :: "'w netlink \<Rightarrow> string \<Rightarrow> ('w, bool) io" where
  "peerExists N name = attempt (nl_LinkByName N name) (\<lambda>r. case r of Inl _ \<Rightarrow> ret False | Inr _ \<Rightarrow> ret True)"

definition RandomVethName :: "'w netlink \<Rightarrow> ('w, string) io" where
  "RandomVethName N =
     bind_io (wrap_io ''failed to generate random veth name'' (nl_rand N 4)) (\<lambda>entropy.
       ret (''veth'' @ hex_string entropy))"

definition veth_peer_name :: "'w netlink \<Rightarrow> string \<Rightarrow> ('w, string) io" where
  "veth_peer_name N vethPeerName = (if vethPeerName \<noteq> '''' then ret vethPeerName else RandomVethName N)"

text \<open>The loop of ten attempts: \<open>i\<close> attempts are left.\<close>

primrec makeVeth_loop :: "nat \<Rightarrow> 'w netlink \<Rightarrow> string \<Rightarrow> string \<Rightarrow> int \<Rightarrow> ('w, string \<times> link) io" where
  "makeVeth_loop 0 N name vethPeerName mtu = fail (Errorf ''failed to find a unique veth name'')"
| "makeVeth_loop (Suc i) N name vethPeerName mtu =
     bind_io (veth_peer_name N vethPeerName) (\<lambda>peerName.
       attempt (makeVethPair N name peerName mtu) (\<lambda>r.
         case r of
           Inr veth \<Rightarrow> ret (peerName, veth)
         | Inl e \<Rightarrow>
             if e = ErrExist then
               bind_io (peerExists N peerName) (\<lambda>exists.
                 if exists \<and> vethPeerName = '''' then makeVeth_loop i N name vethPeerName mtu
                 else fail (Errorf (''container veth name provided ('' @ name @ '') already exists'')))
             else fail (Wrap ''failed to make veth pair'' e)))"

definition makeVeth :: "'w netlink \<Rightarrow> string \<Rightarrow> string \<Rightarrow> int \<Rightarrow> ('w, string \<times> link) io" where
  "makeVeth N name vethPeerName mtu = makeVeth_loop 10 N name vethPeerName mtu"

definition RenameLink :: "'w netlink \<Rightarrow> string \<Rightarrow> string \<Rightarrow> ('w, unit) io" where
  "RenameLink N curName newName = bind_io (nl_LinkByName N curName) (\<lambda>l. nl_LinkSetName N l newName)"

record net_interface =
  if_Index :: int
  if_MTU :: int
  if_Name :: string
  if_HardwareAddr :: "byte list"
  if_Up :: bool

definition ifaceFromNetlinkLink :: "link \<Rightarrow> net_interface" where
  "ifaceFromNetlinkLink a = \<lparr>if_Index = lk_Index a, if_MTU = lk_MTU a, if_Name = lk_Name a,
     if_HardwareAddr = lk_HardwareAddr a, if_Up = lk_Up a\<rparr>"

definition SetupVethWithName ::
  "'w netlink \<Rightarrow> string \<Rightarrow> string \<Rightarrow> int \<Rightarrow> netns \<Rightarrow> ('w, net_interface \<times> net_interface) io" where
  "SetupVethWithName N contVethName hostVethName0 mtu hostNS =
     bind_io (makeVeth N contVethName hostVethName0 mtu) (\<lambda>(hostVethName, contVeth).
     bind_io (wrap_io (''failed to set '' @ contVethName @ '' up'') (nl_LinkSetUp N contVeth)) (\<lambda>_.
     bind_io (wrap_io (''failed to lookup '' @ hostVethName) (nl_LinkByName N hostVethName)) (\<lambda>hostVeth0.
     bind_io (wrap_io ''failed to move veth to host netns'' (nl_LinkSetNsFd N hostVeth0 (ns_fd hostNS))) (\<lambda>_.
     bind_io (ns_Do (nl_os N) hostNS (\<lambda>_.
       bind_io (wrap_io (''failed to lookup '' @ hostVethName @ '' in '' @ ns_file hostNS) (nl_LinkByName N hostVethName)) (\<lambda>hostVeth.
       bind_io (wrap_io (''failed to set '' @ hostVethName @ '' up'') (nl_LinkSetUp N hostVeth)) (\<lambda>_.
       attempt (Sysctl (nl_files N) (''net/ipv6/conf/'' @ hostVethName @ ''/accept_ra'') [''0'']) (\<lambda>_.
       ret hostVeth))))) (\<lambda>hostVeth.
     ret (ifaceFromNetlinkLink hostVeth, ifaceFromNetlinkLink contVeth))))))"

definition SetupVeth :: "'w netlink \<Rightarrow> string \<Rightarrow> int \<Rightarrow> netns \<Rightarrow> ('w, net_interface \<times> net_interface) io" where
  "SetupVeth N contVethName mtu hostNS = SetupVethWithName N contVethName '''' mtu hostNS"

text \<open>The two lookups of the deletions: a missing link has an error of its own.\<close>

definition link_to_delete :: "'w netlink \<Rightarrow> string \<Rightarrow> ('w, link) io" where
  "link_to_delete N ifName =
     attempt (nl_LinkByName N ifName) (\<lambda>r.
       case r of
         Inl e \<Rightarrow> if e = ErrLinkNotFound then fail ErrLinkNotFound else fail (Wrap (''failed to lookup '' @ ifName) e)
       | Inr l \<Rightarrow> ret l)"

definition DelLinkByName :: "'w netlink \<Rightarrow> string \<Rightarrow> ('w, unit) io" where
  "DelLinkByName N ifName =
     bind_io (link_to_delete N ifName) (\<lambda>l. wrap_io (''failed to delete '' @ ifName) (nl_LinkDel N l))"

definition DelLinkByNameAddr :: "'w netlink \<Rightarrow> string \<Rightarrow> ('w, ipnet list) io" where
  "DelLinkByNameAddr N ifName =
     bind_io (link_to_delete N ifName) (\<lambda>l.
     bind_io (wrap_io (''failed to get IP addresses for '' @ ifName) (nl_AddrList N l FAMILY_ALL)) (\<lambda>addrs.
     bind_io (wrap_io (''failed to delete '' @ ifName) (nl_LinkDel N l)) (\<lambda>_.
     ret (map ad_IPNet (filter (\<lambda>a. IsGlobalUnicast (net_ip (ad_IPNet a))) addrs)))))"

definition SetHWAddrByIP :: "'w netlink \<Rightarrow> string \<Rightarrow> ip \<Rightarrow> ip \<Rightarrow> ('w, unit) io" where
  "SetHWAddrByIP N ifName ip4 ip6 =
     bind_io (wrap_io (''failed to lookup '' @ ifName) (nl_LinkByName N ifName)) (\<lambda>l.
       if ip4 = [] \<and> ip6 = [] then fail (Errorf ''neither ip4 or ip6 specified'')
       else if ip4 \<noteq> [] then
         bind_io (wrap_io ''failed to generate hardware addr'' (lift_res (GenerateHardwareAddr4 ip4 PrivateMACPrefix))) (\<lambda>hwAddr.
         wrap_io (''failed to add hardware addr to '' @ ifName) (nl_LinkSetHardwareAddr N l hwAddr))
       else ret ())"

text \<open>\<open>int(n)\<close> of a value up to 32767 is the value.\<close>

definition ethtool_peer :: "'w netlink \<Rightarrow> link \<Rightarrow> ('w, int) io" where
  "ethtool_peer N l =
     bind_io (wrap_io ''failed to initialize ethtool'' (nl_ethtool_New N)) (\<lambda>_.
     finally_io
       (bind_io (wrap_io ''failed to request ethtool stats'' (nl_ethtool_Stats N (lk_Name l))) (\<lambda>stats.
          case map_of stats ''peer_ifindex'' of
            None \<Rightarrow> fail (Errorf ''failed to find peer_ifindex in ethtool stats'')
          | Some n \<Rightarrow> if n > 32767 \<or> n = 0 then fail (Errorf ''invalid peer_ifindex'') else ret (int n)))
       (nl_ethtool_Close N))"

definition GetVethPeerIfindex :: "'w netlink \<Rightarrow> string \<Rightarrow> ('w, link \<times> int) io" where
  "GetVethPeerIfindex N ifName =
     bind_io (wrap_io (''could not look up '' @ ifName) (nl_LinkByName N ifName)) (\<lambda>l.
       if (case lk_Kind l of Veth _ \<Rightarrow> False | _ \<Rightarrow> True)
       then fail (Errorf (''interface '' @ ifName @ '' was not a veth interface''))
       else if lk_ParentIndex l \<le> 0 then bind_io (ethtool_peer N l) (\<lambda>i. ret (l, i))
       else ret (l, lk_ParentIndex l))"

section \<open>route\_linux.go\<close>

definition AddRoute :: "'w netlink \<Rightarrow> ipnet \<Rightarrow> ip \<Rightarrow> link \<Rightarrow> ('w, unit) io" where
  "AddRoute N ipn gw dev =
     nl_RouteAdd N (new_route (lk_Index dev) (Some ipn) gw)"

definition AddHostRoute :: "'w netlink \<Rightarrow> ipnet \<Rightarrow> ip \<Rightarrow> link \<Rightarrow> ('w, unit) io" where
  "AddHostRoute N ipn gw dev =
     nl_RouteAdd N ((new_route (lk_Index dev) (Some ipn) gw)\<lparr>rt_Scope := SCOPE_HOST\<rparr>)"

text \<open>\<open>ParseCIDR("0.0.0.0/0")\<close> is evaluated here.\<close>

definition AddDefaultRoute :: "'w netlink \<Rightarrow> ip \<Rightarrow> link \<Rightarrow> ('w, unit) io" where
  "AddDefaultRoute N gw dev = AddRoute N \<lparr>net_ip = [0, 0, 0, 0], net_mask = [0, 0, 0, 0]\<rparr> gw dev"

section \<open>addr\_linux.go\<close>

text \<open>Milliseconds. The loop may go on for ever, so its result is optional.\<close>

definition SETTLE_INTERVAL :: int where
  "SETTLE_INTERVAL = 50"

definition tentative :: "nladdr \<Rightarrow> bool" where
  "tentative a \<longleftrightarrow> and (ad_Flags a) (or 0x40 0x08) > 0"

text \<open>One round: the result of the function, or the environment after the pause.\<close>

definition settle_round :: "'w netlink \<Rightarrow> link \<Rightarrow> int \<Rightarrow> string \<Rightarrow> 'w \<Rightarrow> (unit res \<times> 'w) + 'w" where
  "settle_round N l deadline ifName w =
     (case wrap_io ''could not list addresses'' (nl_AddrList N l FAMILY_ALL) w of
        (Inl e, w') \<Rightarrow> Inl (Inl e, w')
      | (Inr addrs, w') \<Rightarrow>
          if length addrs = 0 then Inl (Inr (), w')
          else if \<not> list_ex tentative addrs then Inl (Inr (), w')
          else if deadline < nl_Now N w'
          then Inl (Inl (Errorf (''link '' @ ifName @ '' still has tentative addresses'')), w')
          else Inr (nl_Sleep N SETTLE_INTERVAL w'))"

partial_function (option) settle_loop ::
  "'w netlink \<Rightarrow> link \<Rightarrow> int \<Rightarrow> string \<Rightarrow> 'w \<Rightarrow> (unit res \<times> 'w) option" where
  "settle_loop N l deadline ifName w =
     (case settle_round N l deadline ifName w of
        Inl r \<Rightarrow> Some r
      | Inr w' \<Rightarrow> settle_loop N l deadline ifName w')"

definition SettleAddresses :: "'w netlink \<Rightarrow> string \<Rightarrow> int \<Rightarrow> 'w \<Rightarrow> (unit res \<times> 'w) option" where
  "SettleAddresses N ifName timeout w =
     (case wrap_io ''failed to retrieve link'' (nl_LinkByName N ifName) w of
        (Inl e, w') \<Rightarrow> Some (Inl e, w')
      | (Inr l, w') \<Rightarrow> settle_loop N l (nl_Now N w' + timeout * 1000) ifName w')"

section \<open>utils\_linux.go\<close>

definition family_of_version :: "string \<Rightarrow> string \<Rightarrow> family res" where
  "family_of_version v ifName =
     (if v = ''4'' then Inr FAMILY_V4 else if v = ''6'' then Inr FAMILY_V6
      else Inl (Errorf (''Invalid IP Version '' @ v @ '' for interface '' @ ifName)))"

definition validate_ip :: "'w netlink \<Rightarrow> string \<Rightarrow> ipconfig \<Rightarrow> ('w, unit) io" where
  "validate_ip N ifName ips =
     (let ourAddr = \<lparr>ad_IPNet = Address ips, ad_Flags = 0\<rparr>
      in attempt (nl_LinkByName N ifName) (\<lambda>rl.
         case rl of Inl _ \<Rightarrow> fail (Errorf (''Cannot find container link '' @ ifName)) | Inr l \<Rightarrow>
         attempt (nl_AddrList N l FAMILY_ALL) (\<lambda>ra.
         case ra of Inl _ \<Rightarrow> fail (Errorf ''Cannot obtain List of IP Addresses'') | Inr addrList \<Rightarrow>
           if \<not> list_ex (\<lambda>a. addr_equal a ourAddr) addrList
           then fail (Errorf (''Failed to match addr on interface '' @ ifName))
           else
             let ourPrefix = map_option snd (ParseCIDR (TrimSpace (ipnet_string (Address ips))))
             in bind_io (lift_res (family_of_version (Version ips) ifName)) (\<lambda>fam.
                bind_io (wrap_io ''Error trying to find Gateway'' (nl_RouteListFiltered N fam (Some ourPrefix) None)) (\<lambda>gwy.
                  if gwy = [] then fail (Errorf ''Failed to find Gateway'') else ret ())))))"

definition ValidateExpectedInterfaceIPs :: "'w netlink \<Rightarrow> string \<Rightarrow> ipconfig list \<Rightarrow> ('w, unit) io" where
  "ValidateExpectedInterfaceIPs N ifName resultIPs = each_io (validate_ip N ifName) resultIPs"

text \<open>What to look for: the family, the destination and the gateway of the filter.\<close>

definition route_filter :: "route \<Rightarrow> (family \<times> ipnet option option \<times> ip option) res" where
  "route_filter r =
     (if To4 (net_ip (Dst r)) \<noteq> [] then
        Inr (FAMILY_V4, if ipnet_string (Dst r) = ''0.0.0.0/0'' then (Some None, None) else (Some (Some (Dst r)), Some (GW r)))
      else if length (net_ip (Dst r)) = 16 then
        Inr (FAMILY_V6, if ipnet_string (Dst r) = ''::/0'' then (Some None, None) else (Some (Some (Dst r)), Some (GW r)))
      else Inl (Errorf ''Invalid static route found''))"

definition validate_route :: "'w netlink \<Rightarrow> route \<Rightarrow> ('w, unit) io" where
  "validate_route N r =
     bind_io (lift_res (route_filter r)) (\<lambda>(fam, dst, gw).
     bind_io (wrap_io ''Expected Route not route table lookup error'' (nl_RouteListFiltered N fam dst gw)) (\<lambda>found.
       if found = [] then fail (Errorf ''Expected Route not found in routing table'') else ret ()))"

definition ValidateExpectedRoute :: "'w netlink \<Rightarrow> route list \<Rightarrow> ('w, unit) io" where
  "ValidateExpectedRoute N resultRoutes = each_io (validate_route N) resultRoutes"

section \<open>ipforward\_linux.go\<close>

definition echo1 :: "'w files \<Rightarrow> string \<Rightarrow> ('w, unit) io" where
  "echo1 F f =
     attempt (ReadFile F f) (\<lambda>r.
       case r of
         Inr content \<Rightarrow> if TrimSpace content = ''1'' then ret () else WriteFile F f ''1''
       | Inl _ \<Rightarrow> WriteFile F f ''1'')"

definition EnableIP4Forward :: "'w files \<Rightarrow> ('w, unit) io" where
  "EnableIP4Forward F = echo1 F ''/proc/sys/net/ipv4/ip_forward''"

definition EnableIP6Forward :: "'w files \<Rightarrow> ('w, unit) io" where
  "EnableIP6Forward F = echo1 F ''/proc/sys/net/ipv6/conf/all/forwarding''"

fun enable_forward :: "'w files \<Rightarrow> bool \<Rightarrow> bool \<Rightarrow> ipconfig list \<Rightarrow> ('w, unit) io" where
  "enable_forward F v4 v6 [] = ret ()"
| "enable_forward F v4 v6 (a # as) =
     (if Version a = ''4'' \<and> \<not> v4 then bind_io (EnableIP4Forward F) (\<lambda>_. enable_forward F True v6 as)
      else if Version a = ''6'' \<and> \<not> v6 then bind_io (EnableIP6Forward F) (\<lambda>_. enable_forward F v4 True as)
      else enable_forward F v4 v6 as)"

definition EnableForward :: "'w files \<Rightarrow> ipconfig list \<Rightarrow> ('w, unit) io" where
  "EnableForward F ips = enable_forward F False False ips"

section \<open>ipmasq\_linux.go\<close>

definition masq_rules :: "ipnet \<Rightarrow> string \<Rightarrow> string \<Rightarrow> (string \<times> string list) list" where
  "masq_rules ipn chain comment =
     (let multicastNet = (if To4 (net_ip ipn) = [] then ''ff00::/8'' else ''224.0.0.0/4'');
          c = [''-m'', ''comment'', ''--comment'', comment]
      in [(chain, [''-d'', ipnet_string ipn, ''-j'', ''ACCEPT''] @ c),
          (chain, [''!'', ''-d'', multicastNet, ''-j'', ''MASQUERADE''] @ c),
          (''POSTROUTING'', [''-s'', ip_string (net_ip ipn), ''-j'', chain] @ c)])"

definition SetupIPMasq :: "(bool \<Rightarrow> ('w, 'w iptables) io) \<Rightarrow> ipnet \<Rightarrow> string \<Rightarrow> string \<Rightarrow> ('w, unit) io" where
  "SetupIPMasq NewWithProtocol ipn chain comment =
     bind_io (wrap_io ''failed to locate iptables'' (NewWithProtocol (To4 (net_ip ipn) = []))) (\<lambda>ipt.
     bind_io (wrap_io ''failed to list chains'' (ipt_ListChains ipt ''nat'')) (\<lambda>chains.
     bind_io (if \<not> list_ex (\<lambda>ch. ch = chain) chains then ipt_NewChain ipt ''nat'' chain else ret ()) (\<lambda>_.
     each_io (\<lambda>(c, r). AppendUnique ipt ''nat'' c r) (masq_rules ipn chain comment))))"

definition isNotExist :: "error \<Rightarrow> bool" where
  "isNotExist err = ipt_not_exist err"

definition unless_missing :: "('w, unit) io \<Rightarrow> ('w, unit) io" where
  "unless_missing m =
     attempt m (\<lambda>r. case r of Inr _ \<Rightarrow> ret () | Inl e \<Rightarrow> if \<not> isNotExist e then fail e else ret ())"

definition TeardownIPMasq :: "(bool \<Rightarrow> ('w, 'w iptables) io) \<Rightarrow> ipnet \<Rightarrow> string \<Rightarrow> string \<Rightarrow> ('w, unit) io" where
  "TeardownIPMasq NewWithProtocol ipn chain comment =
     (let c = [''-m'', ''comment'', ''--comment'', comment]
      in bind_io (wrap_io ''failed to locate iptables'' (NewWithProtocol (To4 (net_ip ipn) = []))) (\<lambda>ipt.
         bind_io (unless_missing (ipt_Delete ipt ''nat'' ''POSTROUTING''
            ([''-s'', ip_string (net_ip ipn), ''-j'', chain] @ c))) (\<lambda>_.
         bind_io (unless_missing (ipt_Delete ipt ''nat'' ''POSTROUTING''
            ([''-s'', ipnet_string ipn, ''-j'', chain] @ c))) (\<lambda>_.
         bind_io (unless_missing (ipt_ClearChain ipt ''nat'' chain)) (\<lambda>_.
         unless_missing (ipt_DeleteChain ipt ''nat'' chain))))))"

end
