(* ===== verification/Ipam_Iface.thy ===== *)
theory Ipam_Iface
  imports Ip_Link
begin

text \<open>
  \<open>pkg/ipam\<close>: applying the result of an IPAM plugin to an interface (\<open>ipam_linux.go\<close>), and what the
  waiting and masquerading code of \<open>pkg/ip\<close> guarantees.
\<close>

section \<open>ipam\_linux.go\<close>

definition disable_ipv6_name :: "string \<Rightarrow> string" where
  "disable_ipv6_name ifn = ''net.ipv6.conf.'' @ ifn @ ''.disable_ipv6''"

definition enable_ipv6_on :: "'w netlink \<Rightarrow> string \<Rightarrow> ('w, unit) io" where
  "enable_ipv6_on N ifn =
     attempt (Sysctl (nl_files N) (disable_ipv6_name ifn) []) (\<lambda>r.
       if (case r of Inl _ \<Rightarrow> True | Inr value \<Rightarrow> value = ''0'') then ret ()
       else bind_io (wrap_io (''failed to enable IPv6 for interface '' @ ifn)
              (Sysctl (nl_files N) (disable_ipv6_name ifn) [''0''])) (\<lambda>_. ret ()))"

text \<open>The variables of the loop over the addresses: the gateways and \<open>has_enabled_ipv6\<close>.\<close>

record iface_vars =
  v4gw :: ip
  v6gw :: ip
  has_enabled_ipv6 :: bool

definition add_ipconfig :: "'w netlink \<Rightarrow> string \<Rightarrow> cni_result \<Rightarrow> link \<Rightarrow> iface_vars \<Rightarrow> ipconfig \<Rightarrow> ('w, iface_vars) io" where
  "add_ipconfig N ifName res l v ipc =
     (case Interface ipc of
        None \<Rightarrow> ret v
      | Some intIdx \<Rightarrow>
          if intIdx < 0 \<or> int (length (Interfaces res)) \<le> intIdx \<or> Name (Interfaces res ! nat intIdx) \<noteq> ifName
          then fail (Errorf ''failed to add IP addr: invalid interface index'')
          else
            bind_io (if \<not> has_enabled_ipv6 v \<and> Version ipc = ''6''
                     then bind_io (each_io (enable_ipv6_on N) [''lo'', ifName]) (\<lambda>_. ret (v\<lparr>has_enabled_ipv6 := True\<rparr>))
                     else ret v) (\<lambda>v1.
            bind_io (wrap_io ''failed to add IP addr'' (nl_AddrAdd N l \<lparr>ad_IPNet = Address ipc, ad_Flags = 0\<rparr>)) (\<lambda>_.
              let gwIsV4 = (To4 (IPGateway ipc) \<noteq> [])
              in ret (if gwIsV4 \<and> v4gw v1 = [] then v1\<lparr>v4gw := IPGateway ipc\<rparr>
                      else if \<not> gwIsV4 \<and> v6gw v1 = [] then v1\<lparr>v6gw := IPGateway ipc\<rparr> else v1))))"

fun add_ipconfigs :: "'w netlink \<Rightarrow> string \<Rightarrow> cni_result \<Rightarrow> link \<Rightarrow> iface_vars \<Rightarrow> ipconfig list \<Rightarrow> ('w, iface_vars) io" where
  "add_ipconfigs N ifName res l v [] = ret v"
| "add_ipconfigs N ifName res l v (ipc # ips) =
     bind_io (add_ipconfig N ifName res l v ipc) (\<lambda>v'. add_ipconfigs N ifName res l v' ips)"

definition route_gw :: "iface_vars \<Rightarrow> route \<Rightarrow> ip" where
  "route_gw v r =
     (let routeIsV4 = (To4 (net_ip (Dst r)) \<noteq> [])
      in if GW r = [] then
           (if routeIsV4 \<and> v4gw v \<noteq> [] then v4gw v else if \<not> routeIsV4 \<and> v6gw v \<noteq> [] then v6gw v else GW r)
         else GW r)"

definition add_result_route :: "'w netlink \<Rightarrow> link \<Rightarrow> iface_vars \<Rightarrow> route \<Rightarrow> ('w, unit) io" where
  "add_result_route N l v r =
     attempt (AddRoute N (Dst r) (route_gw v r) l) (\<lambda>x.
       case x of Inr _ \<Rightarrow> ret () | Inl e \<Rightarrow> if e \<noteq> ErrExist then fail (Wrap ''failed to add route'' e) else ret ())"

text \<open>
  The part before the wait returns the link and the gateways. The result of \<open>SettleAddresses\<close> is not
  looked at; \<open>None\<close> when it does not return.
\<close>

definition configure_addrs :: "'w netlink \<Rightarrow> string \<Rightarrow> cni_result \<Rightarrow> ('w, link \<times> iface_vars) io" where
  "configure_addrs N ifName res =
     (if length (Interfaces res) = 0 then fail (Errorf ''no interfaces to configure'')
      else
        bind_io (wrap_io (''failed to lookup '' @ ifName) (nl_LinkByName N ifName)) (\<lambda>l.
        bind_io (wrap_io (''failed to set '' @ ifName @ '' UP'') (nl_LinkSetUp N l)) (\<lambda>_.
        bind_io (add_ipconfigs N ifName res l \<lparr>v4gw = [], v6gw = [], has_enabled_ipv6 = False\<rparr> (IPs res)) (\<lambda>v.
        ret (l, v)))))"

definition ConfigureIface :: "'w netlink \<Rightarrow> string \<Rightarrow> cni_result \<Rightarrow> 'w \<Rightarrow> (unit res \<times> 'w) option" where
  "ConfigureIface N ifName res w =
     (case configure_addrs N ifName res w of
        (Inl e, w') \<Rightarrow> Some (Inl e, w')
      | (Inr (l, v), w') \<Rightarrow>
          (case (if v6gw v \<noteq> [] then SettleAddresses N ifName 10 w' else Some (Inr (), w')) of
             None \<Rightarrow> None
           | Some (_, w'') \<Rightarrow> Some (each_io (add_result_route N l v) (Routes res) w'')))"

section \<open>Waiting ends\<close>

text \<open>
  The clock: a pause advances it by at least its length, and the queries of the loop do not turn it back.
\<close>

definition clock_ok :: "'w netlink \<Rightarrow> bool" where
  "clock_ok N \<longleftrightarrow>
     (\<forall>d w. nl_Now N w + d \<le> nl_Now N (nl_Sleep N d w))
   \<and> (\<forall>l f w. nl_Now N w \<le> nl_Now N (snd (nl_AddrList N l f w)))"

lemma settle_round_later:
  assumes "clock_ok N" "settle_round N l deadline ifName w = Inr w'"
  shows "nl_Now N w + SETTLE_INTERVAL \<le> nl_Now N w' \<and> nl_Now N w \<le> deadline"
proof -
  obtain r w1 where a: "nl_AddrList N l FAMILY_ALL w = (r, w1)" by (cases "nl_AddrList N l FAMILY_ALL w")
  have le: "nl_Now N w \<le> nl_Now N w1" using assms(1) a unfolding clock_ok_def by (metis snd_conv)
  have "w' = nl_Sleep N SETTLE_INTERVAL w1" "nl_Now N w1 \<le> deadline"
    using assms(2) a by (auto simp: settle_round_def wrap_io_def not_less split: sum.splits if_splits)
  moreover have "nl_Now N w1 + SETTLE_INTERVAL \<le> nl_Now N (nl_Sleep N SETTLE_INTERVAL w1)"
    using assms(1) by (simp add: clock_ok_def)
  ultimately show ?thesis using le by simp
qed

lemma settle_loop_returns:
  assumes "clock_ok N"
  shows "\<exists>r. settle_loop N l deadline ifName w = Some r"
proof (induction "nat (deadline + 1 - nl_Now N w)" arbitrary: w rule: less_induct)
  case less
  show ?case
  proof (cases "settle_round N l deadline ifName w")
    case (Inl r)
    then show ?thesis by (subst settle_loop.simps) simp
  next
    case (Inr w')
    have "nat (deadline + 1 - nl_Now N w') < nat (deadline + 1 - nl_Now N w)"
      using settle_round_later [OF assms Inr] by (simp add: SETTLE_INTERVAL_def)
    from less [OF this] show ?thesis by (subst settle_loop.simps) (simp add: Inr)
  qed
qed

text \<open>
  Configuring an interface always ends, also when its IPv6 addresses stay tentative for ever: when
  every pause advances the clock, the wait runs into its deadline.
\<close>

theorem configure_iface_returns:
  assumes "clock_ok N"
  shows "\<exists>r w'. ConfigureIface N ifName res w = Some (r, w')"
proof -
  have settle: "\<exists>r. SettleAddresses N n t u = Some r" for n t u
    using settle_loop_returns [OF assms] by (auto simp: SettleAddresses_def split: prod.splits sum.splits)
  obtain r w1 where c: "configure_addrs N ifName res w = (r, w1)" by (cases "configure_addrs N ifName res w")
  show ?thesis
  proof (cases r)
    case (Inl e)
    then show ?thesis by (simp add: ConfigureIface_def c)
  next
    case (Inr lv)
    obtain l v where lv: "lv = (l, v)" by (cases lv)
    obtain x w2 where s: "(if v6gw v \<noteq> [] then SettleAddresses N ifName 10 w1 else Some (Inr (), w1)) = Some (x, w2)"
      using settle [of ifName 10 w1] by (cases "v6gw v = []") auto
    obtain y w3 where "each_io (add_result_route N l v) (Routes res) w2 = (y, w3)"
      by (cases "each_io (add_result_route N l v) (Routes res) w2")
    then have "ConfigureIface N ifName res w = Some (y, w3)"
      using s by (simp only: ConfigureIface_def c Inr lv prod.case sum.case option.case)
    then show ?thesis by blast
  qed
qed

section \<open>Masquerading and back\<close>

lemma AppendUnique_ok:
  assumes "iptables_ok t view" "view w (tb, c) = Some rs"
  shows "\<exists>w'. AppendUnique t tb c r w = (Inr (), w') \<and> view w' = (view w)((tb, c) \<mapsto> (if r \<in> set rs then rs else rs @ [r]))"
proof (cases "r \<in> set rs")
  case True
  then have "AppendUnique t tb c r w = (Inr (), w)"
    by (simp add: AppendUnique_def bind_io_def iptables_okD(5) [OF assms(1), OF assms(2)] ret_def)
  moreover have "view w = (view w)((tb, c) \<mapsto> rs)" using assms(2) by (simp add: fun_upd_idem)
  ultimately show ?thesis using True by (intro exI [of _ w]) simp
next
  case False
  obtain w' where "ipt_Append t tb c r w = (Inr (), w')" "view w' = (view w)((tb, c) \<mapsto> rs @ [r])"
    using iptables_okD(6) [OF assms(1), OF assms(2), of r] by (elim exE conjE)
  then show ?thesis using False
    by (intro exI [of _ w']) (simp add: AppendUnique_def bind_io_def iptables_okD(5) [OF assms(1), OF assms(2)])
qed

lemma unless_missing_ok: "m w = (Inr (), w') \<Longrightarrow> unless_missing m w = (Inr (), w')"
  "m w = (Inl e, w') \<Longrightarrow> ipt_not_exist e \<Longrightarrow> unless_missing m w = (Inr (), w')"
  by (simp_all add: unless_missing_def attempt_def ret_def isNotExist_def not_exist_no_panic)

definition masq_jump :: "string \<Rightarrow> string \<Rightarrow> string \<Rightarrow> string list" where
  "masq_jump src chain comment = [''-s'', src, ''-j'', chain] @ [''-m'', ''comment'', ''--comment'', comment]"

definition opens_with :: "(bool \<Rightarrow> ('w, 'w iptables) io) \<Rightarrow> bool \<Rightarrow> 'w iptables \<Rightarrow> bool" where
  "opens_with NewWithProtocol isV6 t \<longleftrightarrow> (\<forall>w. NewWithProtocol isV6 w = (Inr t, w))"

lemma masq_setup_view:
  assumes "iptables_ok t view" "opens_with NewWithProtocol (To4 (net_ip ipn) = []) t" "view w (''nat'', chain) = None"
    "view w (''nat'', ''POSTROUTING'') = Some rs" "chain \<noteq> ''POSTROUTING''"
    "masq_jump (ip_string (net_ip ipn)) chain comment \<notin> set rs"
  shows "\<exists>w1 c. SetupIPMasq NewWithProtocol ipn chain comment w = (Inr (), w1)
     \<and> view w1 = (view w)((''nat'', chain) \<mapsto> c, (''nat'', ''POSTROUTING'') \<mapsto> rs @ [masq_jump (ip_string (net_ip ipn)) chain comment])"
proof -
  obtain r1 r2 where rules: "masq_rules ipn chain comment =
      [(chain, r1), (chain, r2), (''POSTROUTING'', masq_jump (ip_string (net_ip ipn)) chain comment)]"
    by (simp add: masq_rules_def Let_def masq_jump_def)
  obtain cs where cs: "ipt_ListChains t ''nat'' w = (Inr cs, w)" "set cs = {c. view w (''nat'', c) \<noteq> None}"
    using iptables_okD(1) [OF assms(1), of "''nat''" w] by (elim exE conjE)
  have no: "\<not> list_ex (\<lambda>ch. ch = chain) cs" using cs(2) assms(3) by (auto simp: list_ex_iff)
  obtain wa where wa: "ipt_NewChain t ''nat'' chain w = (Inr (), wa)" "view wa = (view w)((''nat'', chain) \<mapsto> [])"
    using iptables_okD(2) [OF assms(1), OF assms(3)] by (elim exE conjE)
  have "view wa (''nat'', chain) = Some []" by (simp add: wa(2))
  from AppendUnique_ok [OF assms(1), OF this, of r1] obtain wb where
    wb: "AppendUnique t ''nat'' chain r1 wa = (Inr (), wb)"
    "view wb = (view wa)((''nat'', chain) \<mapsto> (if r1 \<in> set [] then [] else [] @ [r1]))" by (elim exE conjE)
  define c1 where "c1 = (if r1 \<in> set [] then [] else [] @ [r1])"
  have "view wb (''nat'', chain) = Some c1" by (simp add: wb(2) c1_def)
  from AppendUnique_ok [OF assms(1), OF this, of r2] obtain wc where
    wc: "AppendUnique t ''nat'' chain r2 wb = (Inr (), wc)"
    "view wc = (view wb)((''nat'', chain) \<mapsto> (if r2 \<in> set c1 then c1 else c1 @ [r2]))" by (elim exE conjE)
  have "view wc (''nat'', ''POSTROUTING'') = Some rs" using assms(4,5) by (simp add: wc(2) wb(2) wa(2))
  from AppendUnique_ok [OF assms(1), OF this, of "masq_jump (ip_string (net_ip ipn)) chain comment"] obtain wd where
    wd: "AppendUnique t ''nat'' ''POSTROUTING'' (masq_jump (ip_string (net_ip ipn)) chain comment) wc = (Inr (), wd)"
    "view wd = (view wc)((''nat'', ''POSTROUTING'') \<mapsto> (if masq_jump (ip_string (net_ip ipn)) chain comment \<in> set rs then rs
       else rs @ [masq_jump (ip_string (net_ip ipn)) chain comment]))"
    by (elim exE conjE)
  have "view wd = (view w)((''nat'', chain) \<mapsto> (if r2 \<in> set c1 then c1 else c1 @ [r2]), (''nat'', ''POSTROUTING'') \<mapsto> rs @ [masq_jump (ip_string (net_ip ipn)) chain comment])"
    by (simp only: wd(2) wc(2) wb(2) wa(2) fun_upd_upd assms(6) if_False)
  moreover have "SetupIPMasq NewWithProtocol ipn chain comment w = (Inr (), wd)"
    using assms(2) no
    by (simp add: SetupIPMasq_def bind_io_def wrap_io_def opens_with_def cs(1) wa(1) rules wb(1) wc(1) wd(1) ret_def)
  ultimately show ?thesis by blast
qed

lemma delete_missing:
  assumes "iptables_ok t view" "view w (tb, c) = Some rs" "r \<notin> set rs"
  shows "unless_missing (ipt_Delete t tb c r) w = (Inr (), w)"
proof -
  obtain e where e: "ipt_Delete t tb c r w = (Inl e, w)" "ipt_not_exist e"
    using iptables_okD(9) [OF assms(1), of w tb c r] assms(2,3) by auto
  show ?thesis by (rule unless_missing_ok(2)) (rule e)+
qed

lemma delete_present:
  assumes "iptables_ok t view" "view w (tb, c) = Some rs" "r \<in> set rs"
  shows "\<exists>w'. unless_missing (ipt_Delete t tb c r) w = (Inr (), w') \<and> view w' = (view w)((tb, c) \<mapsto> remove1 r rs)"
proof -
  obtain w' where w': "ipt_Delete t tb c r w = (Inr (), w')" "view w' = (view w)((tb, c) \<mapsto> remove1 r rs)"
    using iptables_okD(8) [OF assms(1), OF assms(2), OF assms(3)] by (elim exE conjE)
  have "unless_missing (ipt_Delete t tb c r) w = (Inr (), w')" by (rule unless_missing_ok(1)) (rule w'(1))
  then show ?thesis using w'(2) by (intro exI [of _ w'] conjI)
qed

lemma drop_chain:
  assumes "iptables_ok t view"
  shows "\<exists>wb wc. unless_missing (ipt_ClearChain t tb c) w = (Inr (), wb) \<and> unless_missing (ipt_DeleteChain t tb c) wb = (Inr (), wc)
     \<and> view wc = (view w)((tb, c) := None)"
proof -
  obtain wb where wb: "ipt_ClearChain t tb c w = (Inr (), wb)" "view wb = (view w)((tb, c) \<mapsto> [])"
    using iptables_okD(3) [OF assms(1), of tb c w] by (elim exE conjE)
  have "view wb (tb, c) = Some []" by (simp only: wb(2) fun_upd_same)
  from iptables_okD(4) [OF assms(1), OF this] obtain wc where
    wc: "ipt_DeleteChain t tb c wb = (Inr (), wc)" "view wc = (view wb)((tb, c) := None)" by (elim exE conjE)
  have "view wc = (view w)((tb, c) := None)" by (simp only: wc(2) wb(2) fun_upd_upd)
  moreover have "unless_missing (ipt_ClearChain t tb c) w = (Inr (), wb)" by (rule unless_missing_ok(1)) (rule wb(1))
  moreover have "unless_missing (ipt_DeleteChain t tb c) wb = (Inr (), wc)" by (rule unless_missing_ok(1)) (rule wc(1))
  ultimately show ?thesis by (intro exI [of _ wb] exI [of _ wc] conjI)
qed

lemma masq_teardown_view:
  assumes "iptables_ok t view" "opens_with NewWithProtocol (To4 (net_ip ipn) = []) t"
    "view w (''nat'', ''POSTROUTING'') = Some (rs @ [masq_jump (ip_string (net_ip ipn)) chain comment])"
    "masq_jump (ip_string (net_ip ipn)) chain comment \<notin> set rs" "masq_jump (ipnet_string ipn) chain comment \<notin> set rs"
  shows "\<exists>w'. TeardownIPMasq NewWithProtocol ipn chain comment w = (Inr (), w')
     \<and> view w' = (view w)((''nat'', ''POSTROUTING'') \<mapsto> rs, (''nat'', chain) := None)"
proof -
  define j where "j = masq_jump (ip_string (net_ip ipn)) chain comment"
  define k where "k = masq_jump (ipnet_string ipn) chain comment"
  have j: "j \<in> set (rs @ [j])" "remove1 j (rs @ [j]) = rs" using assms(4) by (simp_all add: j_def [symmetric] remove1_append)
  obtain wa where wa: "unless_missing (ipt_Delete t ''nat'' ''POSTROUTING'' j) w = (Inr (), wa)"
    "view wa = (view w)((''nat'', ''POSTROUTING'') \<mapsto> remove1 j (rs @ [j]))"
    using delete_present [OF assms(1), OF assms(3) [folded j_def], OF j(1)] by (elim exE conjE)
  have "view wa (''nat'', ''POSTROUTING'') = Some rs" by (simp only: wa(2) j(2) fun_upd_same)
  from delete_missing [OF assms(1), OF this, OF assms(5) [folded k_def]]
  have k: "unless_missing (ipt_Delete t ''nat'' ''POSTROUTING'' k) wa = (Inr (), wa)" .
  obtain wb wc where wb: "unless_missing (ipt_ClearChain t ''nat'' chain) wa = (Inr (), wb)"
    "unless_missing (ipt_DeleteChain t ''nat'' chain) wb = (Inr (), wc)" and wc: "view wc = (view wa)((''nat'', chain) := None)"
    using drop_chain [OF assms(1), of "''nat''" chain wa] by (elim exE conjE)
  have open_t: "wrap_io m (NewWithProtocol (To4 (net_ip ipn) = [])) w = (Inr t, w)" for m
    using assms(2) by (simp add: opens_with_def wrap_io_def)
  have "TeardownIPMasq NewWithProtocol ipn chain comment w =
      bind_io (wrap_io ''failed to locate iptables'' (NewWithProtocol (To4 (net_ip ipn) = []))) (\<lambda>ipt.
      bind_io (unless_missing (ipt_Delete ipt ''nat'' ''POSTROUTING'' j)) (\<lambda>_.
      bind_io (unless_missing (ipt_Delete ipt ''nat'' ''POSTROUTING'' k)) (\<lambda>_.
      bind_io (unless_missing (ipt_ClearChain ipt ''nat'' chain)) (\<lambda>_.
      unless_missing (ipt_DeleteChain ipt ''nat'' chain))))) w"
    by (simp only: TeardownIPMasq_def Let_def j_def k_def masq_jump_def)
  also have "\<dots> = (Inr (), wc)" by (simp only: bind_io_def open_t wa(1) k wb prod.case sum.case)
  finally show ?thesis by (rule exI [of _ wc, OF conjI]) (simp only: wc wa(2) j(2))
qed


section \<open>Witnesses\<close>

text \<open>A kernel that answers every call and keeps no state but what the clock needs.\<close>

definition idle_kernel :: "('w \<Rightarrow> int) \<Rightarrow> (int \<Rightarrow> 'w \<Rightarrow> 'w) \<Rightarrow> 'w netlink" where
  "idle_kernel now sleep = \<lparr>nl_LinkByName = \<lambda>n. ret ((new_link n Device)\<lparr>lk_Index := 1\<rparr>), nl_LinkByIndex = \<lambda>i. fail ErrLinkNotFound,
     nl_LinkList = ret [], nl_LinkAdd = \<lambda>l. ret 1, nl_LinkDel = \<lambda>l. ret (), nl_LinkSetUp = \<lambda>l. ret (),
     nl_LinkSetDown = \<lambda>l. ret (), nl_LinkSetName = \<lambda>l n. ret (), nl_LinkSetMTU = \<lambda>l m. ret (),
     nl_LinkSetMaster = \<lambda>l m. ret (), nl_LinkSetNoMaster = \<lambda>l. ret (), nl_LinkSetNsFd = \<lambda>l f. ret (),
     nl_LinkSetHardwareAddr = \<lambda>l a. ret (), nl_SetPromiscOn = \<lambda>l. ret (), nl_SetPromiscOff = \<lambda>l. ret (),
     nl_AddrList = \<lambda>l f. ret [],
     nl_AddrAdd = \<lambda>l a. ret (), nl_AddrDel = \<lambda>l a. ret (), nl_LinkSetHairpin = \<lambda>l b. ret (),
     nl_BridgeVlanAdd = \<lambda>l v a b c d. ret (), nl_InterfaceByName = \<lambda>n. ret (), nl_GratuitousArp = \<lambda>a n. ret (),
     nl_RouteAdd = \<lambda>r. ret (), nl_RouteDel = \<lambda>r. ret (), nl_RouteReplace = \<lambda>r. ret (), nl_RouteList = \<lambda>l f. ret [],
     nl_RuleList = \<lambda>f. ret [], nl_RuleAdd = \<lambda>r. ret (), nl_RuleDel = \<lambda>r. ret (),
     nl_QdiscList = \<lambda>l. ret [], nl_QdiscAdd = \<lambda>q. ret (), nl_FilterAdd = \<lambda>f. ret (), nl_RouteListFiltered = \<lambda>f d g. ret [],
     nl_ethtool_New = ret (), nl_ethtool_Stats = \<lambda>n. ret [], nl_ethtool_Close = ret (), nl_rand = \<lambda>n. ret (replicate n 0),
     nl_Now = now, nl_Sleep = sleep,
     nl_files = \<lparr>ReadFile = \<lambda>_. ret ''0'', WriteFile = \<lambda>_ _. ret ()\<rparr>,
     nl_os = \<lparr>os_Statfs = \<lambda>p. ret NSFS_MAGIC, os_Open = \<lambda>p. ret 3, os_Close = \<lambda>f. ret (), os_Setns = \<lambda>f. ret (),
       os_thread_path = \<lambda>w. ''self'', os_go = \<lambda>w. w, os_join = \<lambda>w. w\<rparr>\<rparr>"

text \<open>A clock on which every address stays tentative.\<close>

definition demo_clock :: "int netlink" where
  "demo_clock = (idle_kernel (\<lambda>w. w) (\<lambda>d w. w + d))\<lparr>nl_AddrList := \<lambda>l f.
     ret [\<lparr>ad_IPNet = \<lparr>net_ip = replicate 16 1, net_mask = replicate 16 255\<rparr>, ad_Flags = 0x40\<rparr>]\<rparr>"

theorem configure_iface_returns_witness:
  "\<exists>r w'. ConfigureIface demo_clock ''eth0'' empty_result 0 = Some (r, w')"
proof (rule configure_iface_returns)
  show "clock_ok demo_clock" by (simp add: clock_ok_def demo_clock_def idle_kernel_def ret_def)
qed


end
