(* ===== verification/Vrf.thy ===== *)
theory Vrf
  imports Ipam_Iface
begin

text \<open>
  \<open>plugins/meta/vrf\<close>: the helpers (\<open>vrf.go\<close>) and the plugin (\<open>main.go\<close>), which puts an interface of a
  container into a virtual routing table, creating the VRF device for its first interface and deleting it
  with its last.
\<close>

section \<open>vrf.go\<close>

definition vrf_table :: "link \<Rightarrow> 32 word option" where
  "vrf_table l = (case lk_Kind l of Vrf t \<Rightarrow> Some t | _ \<Rightarrow> None)"

definition findVRF :: "'w netlink \<Rightarrow> string \<Rightarrow> ('w, link) io" where
  "findVRF N name =
     bind_io (nl_LinkByName N name) (\<lambda>l.
       if vrf_table l = None then fail (Errorf (''Netlink '' @ name @ '' is not a VRF'')) else ret l)"

lemma unat_max32: "unat (- 1 :: 32 word) = 2 ^ 32 - 1"
  by (simp add: unat_eq_nat_uint uint_word_ariths)

text \<open>The search for a free table, from \<open>res\<close> up to but not including \<open>math.MaxUint32\<close>.\<close>

function first_free :: "32 word set \<Rightarrow> 32 word \<Rightarrow> 32 word option" where
  "first_free taken res =
     (if res < - 1 then if res \<notin> taken then Some res else first_free taken (res + 1) else None)"
  by pat_completeness auto
termination
proof (relation "measure (\<lambda>(_, res). 2 ^ 32 - unat res)")
  fix taken and res :: "32 word"
  assume "res < - 1"
  then have lt: "unat res < 2 ^ 32 - 1" by (simp add: word_less_nat_alt unat_max32)
  then have "unat (res + 1) = unat res + 1" by (simp add: unat_word_ariths)
  then show "((taken, res + 1), (taken, res)) \<in> measure (\<lambda>(_, res). 2 ^ 32 - unat res)" using lt by simp
qed simp

declare first_free.simps [simp del]

definition findFreeRoutingTableID :: "link list \<Rightarrow> 32 word res" where
  "findFreeRoutingTableID links =
     (let takenTables = set (List.map_filter vrf_table links)
      in case first_free takenTables 1 of
           Some res \<Rightarrow> Inr res
         | None \<Rightarrow> Inl (Errorf ''findFreeRoutingTableID: Failed to find an available routing id''))"

definition createVRF :: "'w netlink \<Rightarrow> string \<Rightarrow> 32 word \<Rightarrow> ('w, link) io" where
  "createVRF N name tableID0 =
     bind_io (wrap_io ''createVRF: Failed to find links'' (nl_LinkList N)) (\<lambda>links.
     bind_io (if tableID0 = 0 then lift_res (findFreeRoutingTableID links) else ret tableID0) (\<lambda>tableID.
     let vrf0 = new_link name (Vrf tableID)
     in bind_io (wrap_io (''could not add VRF '' @ name) (nl_LinkAdd N vrf0)) (\<lambda>index.
        let vrf = vrf0\<lparr>lk_Index := index\<rparr>
        in bind_io (wrap_io (''could not set link up for VRF '' @ name) (nl_LinkSetUp N vrf)) (\<lambda>_. ret vrf))))"

definition assignedInterfaces :: "'w netlink \<Rightarrow> link \<Rightarrow> ('w, link list) io" where
  "assignedInterfaces N vrf =
     bind_io (wrap_io ''getAssignedInterfaces: Failed to find links'' (nl_LinkList N)) (\<lambda>links.
       ret (filter (\<lambda>l. lk_MasterIndex l = lk_Index vrf) links))"

text \<open>The addresses that the move lost are added again.\<close>

definition restore_addr :: "'w netlink \<Rightarrow> link \<Rightarrow> nladdr list \<Rightarrow> nladdr \<Rightarrow> ('w, unit) io" where
  "restore_addr N i afterAddresses toFind =
     (if list_ex (addr_equal toFind) afterAddresses then ret ()
      else wrap_io ''could not restore address'' (nl_AddrAdd N i toFind))"

definition addInterface :: "'w netlink \<Rightarrow> link \<Rightarrow> string \<Rightarrow> ('w, unit) io" where
  "addInterface N vrf intf =
     attempt (nl_LinkByName N intf) (\<lambda>r.
       case r of Inl _ \<Rightarrow> fail (Errorf (''could not get link by name '' @ intf)) | Inr i \<Rightarrow>
       if lk_MasterIndex i \<noteq> 0 then
         bind_io (wrap_io (''interface '' @ intf @ '' has already a master set, could not retrieve the name'')
             (nl_LinkByIndex N (lk_MasterIndex i))) (\<lambda>master.
           fail (Errorf (''interface '' @ intf @ '' has already a master set: '' @ lk_Name master)))
       else
         attempt (nl_AddrList N i FAMILY_V6) (\<lambda>r.
           case r of Inl _ \<Rightarrow> fail (Errorf (''failed getting ipv6 addresses for '' @ intf)) | Inr beforeAddresses \<Rightarrow>
           bind_io (wrap_io (''could not set vrf '' @ lk_Name vrf @ '' as master of '' @ intf) (nl_LinkSetMaster N i vrf)) (\<lambda>_.
           attempt (nl_AddrList N i FAMILY_V6) (\<lambda>r.
             case r of Inl _ \<Rightarrow> fail (Errorf (''failed getting ipv6 new addresses for '' @ intf)) | Inr afterAddresses \<Rightarrow>
             each_io (restore_addr N i afterAddresses) beforeAddresses))))"

definition resetMaster :: "'w netlink \<Rightarrow> string \<Rightarrow> ('w, unit) io" where
  "resetMaster N interfaceName =
     attempt (nl_LinkByName N interfaceName) (\<lambda>r.
       case r of Inl _ \<Rightarrow> fail (Errorf (''resetMaster: could not get link by name '' @ interfaceName)) | Inr intf \<Rightarrow>
       attempt (nl_LinkSetNoMaster N intf) (\<lambda>r.
         case r of Inl _ \<Rightarrow> fail (Errorf (''resetMaster: could reset master to '' @ interfaceName)) | Inr _ \<Rightarrow> ret ()))"

section \<open>main.go\<close>

record vrf_conf = netconf +
  VRFName :: string
  VTable :: "32 word"

record 'w vrf_env =
  ve_netlink :: "'w netlink"
  ve_lib :: "'w cni_lib"
  ve_decode :: "string \<Rightarrow> vrf_conf res"

definition vrf_parseConf :: "'w vrf_env \<Rightarrow> string \<Rightarrow> (vrf_conf \<times> cni_result) res" where
  "vrf_parseConf E data =
     (case ve_decode E data of
        Inl e \<Rightarrow> Inl (Wrap ''failed to load netconf'' e)
      | Inr conf \<Rightarrow>
          if VRFName conf = '''' then Inl (Errorf ''configuration is expected to have a valid vrf name'')
          else bind_res (parse_prev (ve_lib E) conf) (\<lambda>(conf', result).
            Inr (conf', case result of None \<Rightarrow> empty_result | Some r \<Rightarrow> r)))"

text \<open>The function that \<open>cmdAdd\<close> runs in the namespace of the container.\<close>

definition vrf_add_inside :: "'w netlink \<Rightarrow> vrf_conf \<Rightarrow> string \<Rightarrow> ('w, unit) io" where
  "vrf_add_inside N conf ifName =
     attempt (findVRF N (VRFName conf)) (\<lambda>r.
       bind_io
         (case r of
            Inr vrf \<Rightarrow>
              if VTable conf \<noteq> 0 \<and> vrf_table vrf \<noteq> Some (VTable conf)
              then fail (Errorf (''VRF '' @ VRFName conf @ '' already exist with different routing table'')) else ret vrf
          | Inl e \<Rightarrow> if e = ErrLinkNotFound then createVRF N (VRFName conf) (VTable conf) else fail e)
         (\<lambda>vrf. addInterface N vrf ifName))"

definition vrf_cmdAdd :: "'w vrf_env \<Rightarrow> cmd_args \<Rightarrow> ('w, unit) io" where
  "vrf_cmdAdd E args =
     bind_io (lift_res (vrf_parseConf E (StdinData args))) (\<lambda>(conf, result).
       if PrevResult conf = None then fail (Errorf ''missing prevResult from earlier plugin'')
       else
         bind_io (wrap_io ''cmdAdd failed'' (WithNetNSPath (nl_os (ve_netlink E)) (Netns args)
             (\<lambda>_. vrf_add_inside (ve_netlink E) conf (IfName args)))) (\<lambda>_.
         PrintResult (ve_lib E) result (ConfVersion conf)))"

definition vrf_del_inside :: "'w netlink \<Rightarrow> vrf_conf \<Rightarrow> string \<Rightarrow> ('w, unit) io" where
  "vrf_del_inside N conf ifName =
     attempt (findVRF N (VRFName conf)) (\<lambda>r.
       case r of
         Inl e \<Rightarrow> if e = ErrLinkNotFound then ret () else fail e
       | Inr vrf \<Rightarrow>
           bind_io (resetMaster N ifName) (\<lambda>_.
           bind_io (assignedInterfaces N vrf) (\<lambda>interfaces.
             if length interfaces = 0 then nl_LinkDel N vrf else ret ())))"

definition vrf_cmdDel :: "'w vrf_env \<Rightarrow> cmd_args \<Rightarrow> ('w, unit) io" where
  "vrf_cmdDel E args =
     bind_io (lift_res (vrf_parseConf E (StdinData args))) (\<lambda>(conf, _).
       wrap_io ''cmdDel failed'' (WithNetNSPath (nl_os (ve_netlink E)) (Netns args)
         (\<lambda>_. vrf_del_inside (ve_netlink E) conf (IfName args))))"

text \<open>The error of \<open>assignedInterfaces\<close> is dropped: its slice is then nil.\<close>

definition vrf_check_inside :: "'w netlink \<Rightarrow> vrf_conf \<Rightarrow> string \<Rightarrow> ('w, unit) io" where
  "vrf_check_inside N conf ifName =
     bind_io (findVRF N (VRFName conf)) (\<lambda>vrf.
     attempt (assignedInterfaces N vrf) (\<lambda>r.
       let vrfInterfaces = (case r of Inl _ \<Rightarrow> [] | Inr l \<Rightarrow> l)
       in if \<not> list_ex (\<lambda>intf. lk_Name intf = ifName) vrfInterfaces
          then fail (Errorf (''Failed to find '' @ ifName @ '' associated to vrf '' @ VRFName conf))
          else ret ()))"

text \<open>The error of \<open>WithNetNSPath\<close> is assigned and never returned.\<close>

definition vrf_cmdCheck :: "'w vrf_env \<Rightarrow> cmd_args \<Rightarrow> ('w, unit) io" where
  "vrf_cmdCheck E args =
     bind_io (lift_res (vrf_parseConf E (StdinData args))) (\<lambda>(conf, _).
       if PrevResult conf = None then fail (Errorf ''missing prevResult from earlier plugin'')
       else
         attempt (WithNetNSPath (nl_os (ve_netlink E)) (Netns args)
             (\<lambda>_. vrf_check_inside (ve_netlink E) conf (IfName args))) (\<lambda>_. ret ()))"

section \<open>Properties\<close>

lemma first_free_spec:
  "(case first_free taken res of
      Some r \<Rightarrow> res \<le> r \<and> r < - 1 \<and> r \<notin> taken \<and> (\<forall>s. res \<le> s \<longrightarrow> s < r \<longrightarrow> s \<in> taken)
    | None \<Rightarrow> \<forall>s. res \<le> s \<longrightarrow> s < - 1 \<longrightarrow> s \<in> taken)"
proof (induction taken res rule: first_free.induct)
  case (1 taken res)
  show ?case
  proof (cases "res < - 1 \<and> res \<in> taken")
    case True
    then have lt: "unat res < 2 ^ 32 - 1" by (simp add: word_less_nat_alt unat_max32)
    then have suc: "unat (res + 1) = unat res + 1" by (simp add: unat_word_ariths)
    have split: "res \<le> s \<longleftrightarrow> s = res \<or> res + 1 \<le> s" for s
      using suc by (auto simp: word_le_nat_alt word_unat_eq_iff)
    have "first_free taken res = first_free taken (res + 1)" using True by (subst first_free.simps) simp
    then show ?thesis
      using 1 True suc unfolding split by (auto simp: word_le_nat_alt split: option.splits)
  next
    case False
    then show ?thesis by (subst first_free.simps) (auto simp: word_le_nat_alt word_less_nat_alt)
  qed
qed

text \<open>
  The table chosen for a new VRF is between 1 and \<open>MaxUint32 - 1\<close>, no VRF of the namespace uses it,
  and every smaller table is in use; the search fails only when all of them are.
\<close>

theorem vrf_free_table:
  "(case findFreeRoutingTableID links of
      Inr t \<Rightarrow> 1 \<le> t \<and> t < - 1 \<and> (\<forall>l\<in>set links. vrf_table l \<noteq> Some t)
         \<and> (\<forall>s. 1 \<le> s \<longrightarrow> s < t \<longrightarrow> (\<exists>l\<in>set links. vrf_table l = Some s))
    | Inl e \<Rightarrow> \<forall>s. 1 \<le> s \<longrightarrow> s < - 1 \<longrightarrow> (\<exists>l\<in>set links. vrf_table l = Some s))"
proof -
  have mem: "s \<in> set (List.map_filter vrf_table links) \<longleftrightarrow> (\<exists>l\<in>set links. vrf_table l = Some s)" for s
    by (force simp: List.map_filter_def)
  show ?thesis
    using first_free_spec [of 1 "set (List.map_filter vrf_table links)"]
    by (cases "first_free (set (List.map_filter vrf_table links)) 1")
      (auto simp: findFreeRoutingTableID_def Let_def mem)
qed

text \<open>
  CHECK never reports a missing VRF or interface: for every configuration that parses with a previous
  result, whatever the namespace holds, it ends without an error value.
\<close>

theorem vrf_check_ignores_result:
  assumes "vrf_parseConf E (StdinData args) = Inr (conf, result)" "PrevResult conf \<noteq> None"
  shows "case fst (vrf_cmdCheck E args w) of Inl e \<Rightarrow> is_panic e | Inr _ \<Rightarrow> True"
  using assms by (auto simp: vrf_cmdCheck_def bind_io_def lift_res_def attempt_def ret_def split: sum.splits prod.splits)

section \<open>Witnesses\<close>

definition demo_vrf_conf :: vrf_conf where
  "demo_vrf_conf = \<lparr>ConfVersion = ''0.4.0'', ConfName = ''n'', ConfType = ''vrf'', ConfIPAM = [], RawPrevResult = Some ''{}'',
     PrevResult = None, VRFName = ''blue'', VTable = 0\<rparr>"

definition demo_vrf_env :: "int vrf_env" where
  "demo_vrf_env = \<lparr>ve_netlink = demo_clock,
     ve_lib = \<lparr>ParsePrevResult = \<lambda>_ _. Inr empty_result, NewResultFromResult = \<lambda>r. Inr r, PrintResult = \<lambda>_ _. ret ()\<rparr>,
     ve_decode = \<lambda>_. Inr demo_vrf_conf\<rparr>"

definition demo_vrf_args :: cmd_args where
  "demo_vrf_args = \<lparr>ContainerID = ''c1'', Netns = ''/run/netns/c1'', IfName = ''eth0'', CniArgs = [], Path = [], StdinData = ''{}''\<rparr>"

theorem vrf_free_table_witness:
  "findFreeRoutingTableID [new_link ''a'' (Vrf 1), new_link ''b'' (Vrf 2), new_link ''c'' (Bridge None)] = Inr 3
     \<and> (\<exists>l\<in>set [new_link ''a'' (Vrf 1), new_link ''b'' (Vrf 2), new_link ''c'' (Bridge None)]. vrf_table l = Some (2 :: 32 word))"
proof -
  let ?L = "[new_link ''a'' (Vrf 1), new_link ''b'' (Vrf 2), new_link ''c'' (Bridge None)]"
  have taken: "set (List.map_filter vrf_table ?L) = {1, 2}"
    by (simp add: List.map_filter_def vrf_table_def new_link_def)
  have lt: "(1 :: 32 word) < - 1" "(2 :: 32 word) < - 1" "(3 :: 32 word) < - 1"
    by (simp_all add: word_less_nat_alt unat_max32)
  have "first_free {1, 2} (1 :: 32 word) = Some 3"
    by (subst first_free.simps, simp add: lt, subst first_free.simps, simp add: lt, subst first_free.simps, simp add: lt)
  then have r: "findFreeRoutingTableID ?L = Inr 3" unfolding findFreeRoutingTableID_def Let_def taken by simp
  from vrf_free_table [of ?L, unfolded r] have "\<forall>s. 1 \<le> s \<longrightarrow> s < 3 \<longrightarrow> (\<exists>l\<in>set ?L. vrf_table l = Some s)"
    unfolding sum.case by (elim conjE)
  from this [rule_format, of 2] r show ?thesis by simp
qed

theorem vrf_check_ignores_result_witness:
  "case fst (vrf_cmdCheck demo_vrf_env demo_vrf_args 0) of Inl e \<Rightarrow> is_panic e | Inr _ \<Rightarrow> True"
  by (rule vrf_check_ignores_result [of _ _ "demo_vrf_conf\<lparr>PrevResult := Some empty_result\<rparr>" empty_result])
    (simp_all add: vrf_parseConf_def parse_prev_def demo_vrf_env_def demo_vrf_conf_def bind_res_def)

end
