(* ===== verification/Go_Mac.thy ===== *)
theory Go_Mac
  imports Go_Text
begin

text \<open>
  Hardware addresses as text (\<open>net.ParseMAC\<close> and \<open>HardwareAddr.String\<close> of Go's standard library) and the
  round trip of the two, on which saving and restoring an address in a file rests.
\<close>

definition mac_byte :: "byte \<Rightarrow> string" where
  "mac_byte b = [digit (unat b div 16), digit (unat b mod 16)]"

definition mac_string :: "byte list \<Rightarrow> string" where
  "mac_string hw = join '':'' (map mac_byte hw)"

text \<open>\<open>xtoi2\<close>: two hexadecimal digits, then the end or the separator.\<close>

definition xtoi2 :: "string \<Rightarrow> char \<Rightarrow> byte option" where
  "xtoi2 s e =
     (if length s > 2 \<and> s ! 2 \<noteq> e then None
      else case xtoi (take 2 s) of
             None \<Rightarrow> None
           | Some (n, rest) \<Rightarrow> if length (take 2 s) - length rest = 2 then Some (of_nat n) else None)"

text \<open>\<open>n\<close> bytes, each in a field of three characters.\<close>

fun mac_fields :: "nat \<Rightarrow> char \<Rightarrow> string \<Rightarrow> byte list option" where
  "mac_fields 0 e s = Some []"
| "mac_fields (Suc n) e s =
     (case xtoi2 s e of None \<Rightarrow> None | Some b \<Rightarrow> map_option (\<lambda>bs. b # bs) (mac_fields n e (drop 3 s)))"

text \<open>\<open>n\<close> pairs of bytes, each pair in a field of five characters.\<close>

fun mac_pairs :: "nat \<Rightarrow> char \<Rightarrow> string \<Rightarrow> byte list option" where
  "mac_pairs 0 e s = Some []"
| "mac_pairs (Suc n) e s =
     (case xtoi2 (take 2 s) (CHR 0x00) of
        None \<Rightarrow> None
      | Some a \<Rightarrow>
          (case xtoi2 (drop 2 s) e of
             None \<Rightarrow> None
           | Some b \<Rightarrow> map_option (\<lambda>bs. a # b # bs) (mac_pairs n e (drop 5 s))))"

definition mac_length :: "nat \<Rightarrow> bool" where
  "mac_length n \<longleftrightarrow> n = 6 \<or> n = 8 \<or> n = 20"

definition ParseMAC :: "string \<Rightarrow> byte list res" where
  "ParseMAC s =
     (let bad = Inl (Errorf ''invalid MAC address'');
          check = (\<lambda>r. case r of None \<Rightarrow> bad | Some hw \<Rightarrow> Inr hw)
      in if length s < 14 then bad
         else if s ! 2 = CHR '':'' \<or> s ! 2 = CHR ''-'' then
           (if (length s + 1) mod 3 \<noteq> 0 then bad
            else let n = (length s + 1) div 3 in if \<not> mac_length n then bad else check (mac_fields n (s ! 2) s))
         else if s ! 4 = CHR ''.'' then
           (if (length s + 1) mod 5 \<noteq> 0 then bad
            else let n = 2 * (length s + 1) div 5 in if \<not> mac_length n then bad else check (mac_pairs (n div 2) (s ! 4) s))
         else bad)"

section \<open>Reading back a printed address\<close>

lemma length_mac_byte [simp]: "length (mac_byte b) = 2"
  by (simp add: mac_byte_def)

lemma xtoi_mac_byte: "xtoi (mac_byte b) = Some (unat b, [])"
proof -
  have "unat b div 16 < 16" "unat b mod 16 < 16" using unat_byte [of b] by simp_all
  then show ?thesis by (simp add: mac_byte_def scan_number_def digit_val_digit big_def)
qed

lemma xtoi2_mac_byte: "xtoi2 (mac_byte b) e = Some b" "xtoi2 (mac_byte b @ e # rest) e = Some b"
  by (simp_all add: xtoi2_def xtoi_mac_byte nth_append)

lemma length_mac_string: "hw \<noteq> [] \<Longrightarrow> length (mac_string hw) + 1 = 3 * length hw"
proof (induction hw)
  case (Cons b hw)
  then show ?case by (cases hw) (simp_all add: mac_string_def)
qed simp

lemma mac_string_Cons: "hw \<noteq> [] \<Longrightarrow> mac_string (b # hw) = mac_byte b @ CHR '':'' # mac_string hw"
  by (cases hw) (simp_all add: mac_string_def)

lemma mac_fields_string: "mac_fields (length hw) (CHR '':'') (mac_string hw) = Some hw"
proof (induction hw)
  case Nil
  then show ?case by simp
next
  case (Cons b hw)
  show ?case
  proof (cases "hw = []")
    case True
    then show ?thesis by (simp add: mac_string_def xtoi2_mac_byte)
  next
    case False
    then show ?thesis using Cons.IH by (simp add: mac_string_Cons xtoi2_mac_byte)
  qed
qed

theorem ParseMAC_string:
  assumes "mac_length (length hw)"
  shows "ParseMAC (mac_string hw) = Inr hw"
proof -
  have ge: "6 \<le> length hw" using assms by (auto simp: mac_length_def)
  then obtain b c hw' where hw: "hw = b # hw'" "hw' = c # tl hw'" by (cases hw; cases "tl hw") auto
  then have sep: "mac_string hw ! 2 = CHR '':''"
    by (subst hw(1), subst mac_string_Cons) (use hw(2) in \<open>auto simp: nth_append\<close>)
  have len: "length (mac_string hw) + 1 = 3 * length hw" using hw by (intro length_mac_string) simp
  then have "14 \<le> length (mac_string hw)" using ge by linarith
  then show ?thesis using len assms sep mac_fields_string [of hw] by (simp add: ParseMAC_def Let_def)
qed

end
