(* ===== verification/Village_Conf.thy ===== *)
theory Village_Conf
  imports Ipam_Iface Go_Mac
begin

text \<open>
  The configuration of the \<open>village\<close> plugin (\<open>pkg/types/netconfig.go\<close>), which its two interface
  controllers share, and what they need beside the kernel.
\<close>

record macvlan_conf =
  mv_Master :: string
  mv_Mode :: string
  mv_Mac :: string
  mv_MTU :: int

record ipam_conf =
  ic_Name :: string
  ic_Type :: string
  ic_SocketPath :: string

text \<open>
  \<open>NetConf\<close> embeds \<open>types.NetConf\<close> (the parent record) and declares \<open>name\<close>, \<open>cniVersion\<close> and \<open>ipam\<close>
  again; \<open>encoding/json\<close> fills the outer fields of these names and leaves the embedded ones alone. \<open>vc_DNS\<close>
  is the DNS field of the embedded part. \<open>vc_RuntimeMac\<close> and \<open>vc_RuntimeIPs\<close> are \<open>RuntimeConfig\<close>,
  \<open>vc_Kubeconfig\<close> is \<open>Cluster.Kubeconfig\<close>.
\<close>

record village_conf = netconf +
  vc_Name :: string
  vc_CNIVersion :: string
  vc_IPAM :: "ipam_conf option"
  vc_DNS :: dns
  vc_MacVlan :: "macvlan_conf option"
  BrName :: string
  IsGW :: bool
  IsDefaultGW :: bool
  ForceAddress :: bool
  BrMTU :: int
  IPMasq :: bool
  HairpinMode :: bool
  PromiscMode :: bool
  Vlan_id :: int
  vc_RuntimeIPs :: "string list"
  vc_RuntimeMac :: string
  vc_Kubeconfig :: string

text \<open>
  The surroundings of a controller: the kernel, the CNI library, the way to open iptables for a protocol,
  SHA-512, \<open>strconv.Quote\<close> and the error a test may ask for (\<open>debugPostIPAMError\<close>, nil in the plugin).
\<close>

record 'w if_env =
  ie_netlink :: "'w netlink"
  ie_lib :: "'w cni_lib"
  ie_iptables :: "bool \<Rightarrow> ('w, 'w iptables) io"
  ie_sha :: "string \<Rightarrow> string"
  ie_quote :: "string \<Rightarrow> string"
  ie_debugPostIPAMError :: "error option"

text \<open>
  A call that may not return, as a step of a handler: like a panic it ends every caller, so nothing after
  it runs.
\<close>

definition diverges :: error where
  "diverges = Panic ''does not return''"

definition run_partial :: "('w \<Rightarrow> ('a res \<times> 'w) option) \<Rightarrow> ('w, 'a) io" where
  "run_partial m w = (case m w of None \<Rightarrow> (Inl diverges, w) | Some r \<Rightarrow> r)"

lemma run_partial_Some: "m w = Some r \<Longrightarrow> run_partial m w = r"
  by (simp add: run_partial_def)

text \<open>
  The state of one call of the plugin: the world outside, and the two structures that the handler and the
  controllers share by pointer, the configuration and the arguments.
\<close>

record 'w call =
  world :: 'w
  the_conf :: village_conf
  the_args :: cmd_args

definition on_world :: "('w, 'a) io \<Rightarrow> ('w call, 'a) io" where
  "on_world m s = (case m (world s) of (r, w) \<Rightarrow> (r, s\<lparr>world := w\<rparr>))"

lemma on_world_simps [simp]:
  "the_conf (snd (on_world m s)) = the_conf s" "the_args (snd (on_world m s)) = the_args s"
  "fst (on_world m s) = fst (m (world s))" "world (snd (on_world m s)) = snd (m (world s))"
  by (simp_all add: on_world_def split: prod.splits)

text \<open>The interface \<open>IfCtrl\<close> of the controllers (\<open>interface.go\<close>).\<close>

record 'w if_ctrl =
  ctrl_Add :: "('w call, unit) io"
  ctrl_Del :: "('w call, unit) io"
  ctrl_Check :: "('w call, unit) io"

text \<open>
  \<open>version.ParsePrevResult\<close> and \<open>current.NewResultFromResult\<close> on the embedded configuration: the raw result
  is cleared, whatever the parser answers.
\<close>

definition take_prev_result :: "'w cni_lib \<Rightarrow> string \<Rightarrow> ('w call, cni_result) io" where
  "take_prev_result L missing s =
     (case RawPrevResult (the_conf s) of
        None \<Rightarrow> (Inl (Errorf missing), s)
      | Some raw \<Rightarrow>
          (case ParsePrevResult L (ConfVersion (the_conf s)) raw of
             Inl e \<Rightarrow> (Inl e, s\<lparr>the_conf := (the_conf s)\<lparr>RawPrevResult := None, PrevResult := None\<rparr>\<rparr>)
           | Inr prev \<Rightarrow>
               (NewResultFromResult L prev, s\<lparr>the_conf := (the_conf s)\<lparr>RawPrevResult := None, PrevResult := Some prev\<rparr>\<rparr>)))"

text \<open>The zero value of \<open>current.Interface\<close>.\<close>

definition empty_iface :: iface where
  "empty_iface = \<lparr>Name = [], Mac = [], Sandbox = []\<rparr>"

end
