(* ===== verification/Bridge.thy ===== *)
theory Bridge
  imports Village_Conf
begin

text \<open>
  \<open>pkg/bridge/bridge.go\<close>: the operations under the bridge controller of the \<open>village\<close> plugin: gateways,
  addresses of the bridge, the bridge and veth devices, and the comparisons of CHECK.
\<close>

definition defaultBrName :: string where
  "defaultBrName = ''cni0''"

text \<open>The configuration loader of the package, which no plugin of the repository calls.\<close>

record bridge_netconf =
  bn_CNIVersion :: string
  bn_BrName :: string
  bn_Vlan :: int

definition bridge_loadNetConf :: "(string \<Rightarrow> string \<Rightarrow> bridge_netconf res) \<Rightarrow> string \<Rightarrow> (bridge_netconf \<times> string) res" where
  "bridge_loadNetConf decode bytes =
     (case decode defaultBrName bytes of
        Inl e \<Rightarrow> Inl (Wrap ''failed to load netconf'' e)
      | Inr n \<Rightarrow>
          if bn_Vlan n < 0 \<or> 4094 < bn_Vlan n then Inl (Errorf ''invalid VLAN ID (must be between 0 and 4094)'')
          else Inr (n, bn_CNIVersion n))"

section \<open>Gateways\<close>

record gw_info =
  gws :: "ipnet list"
  gi_family :: family
  defaultRouteFound :: bool

definition no_gws :: gw_info where
  "no_gws = \<lparr>gws = [], gi_family = FAMILY_ALL, defaultRouteFound = False\<rparr>"

text \<open>\<open>net.IPv4zero\<close> has sixteen bytes, and the mask is made of the same bytes.\<close>

definition default_net :: "bool \<Rightarrow> ipnet" where
  "default_net v4 = (let z = (if v4 then v4InV6Prefix @ [0, 0, 0, 0] else replicate 16 0)
     in \<lparr>net_ip = z, net_mask = z\<rparr>)"

definition calcGatewayIP :: "ipnet \<Rightarrow> ip" where
  "calcGatewayIP ipn = NextIP (ip_mask (net_ip ipn) (net_mask ipn))"

text \<open>
  The variables of the loop: the routes of the result and the gateways of the two families; each address
  is changed on the way.
\<close>

record calc_vars =
  cv_routes :: "route list"
  gwsV4 :: gw_info
  gwsV6 :: gw_info

definition calc_ip :: "village_conf \<Rightarrow> bool \<Rightarrow> route list \<Rightarrow> gw_info \<Rightarrow> ipconfig \<Rightarrow> ipconfig \<times> route list \<times> gw_info" where
  "calc_ip n v4 routes g0 ipc0 =
     (let g1 = g0\<lparr>gi_family := if v4 then FAMILY_V4 else FAMILY_V6\<rparr>;
          ipc1 = ipc0\<lparr>Interface := Some 2\<rparr>;
          ipc = (if IPGateway ipc1 = [] \<and> IsGW n then ipc1\<lparr>IPGateway := calcGatewayIP (Address ipc1)\<rparr> else ipc1);
          found = list_ex (\<lambda>r. GW r \<noteq> [] \<and> ipnet_string (default_net v4) = ipnet_string (Dst r)) routes;
          add = (IsDefaultGW n \<and> \<not> defaultRouteFound g1 \<and> \<not> found);
          routes' = (if add then routes @ [\<lparr>Dst = default_net v4, GW = IPGateway ipc\<rparr>] else routes);
          g2 = (if IsDefaultGW n then g1\<lparr>defaultRouteFound := True\<rparr> else g1);
          g3 = (if IsGW n then g2\<lparr>gws := gws g2 @ [\<lparr>net_ip = IPGateway ipc, net_mask = net_mask (Address ipc)\<rparr>]\<rparr> else g2)
      in (ipc, routes', g3))"

fun calc_ips :: "village_conf \<Rightarrow> calc_vars \<Rightarrow> ipconfig list \<Rightarrow> (ipconfig list \<times> calc_vars) res" where
  "calc_ips n v [] = Inr ([], v)"
| "calc_ips n v (ipc # ipcs) =
     (if To4 (net_ip (Address ipc)) \<noteq> [] then
        (case calc_ip n True (cv_routes v) (gwsV4 v) ipc of (ipc', routes, g) \<Rightarrow>
           bind_res (calc_ips n (v\<lparr>cv_routes := routes, gwsV4 := g\<rparr>) ipcs) (\<lambda>(ipcs', v'). Inr (ipc' # ipcs', v')))
      else if length (net_ip (Address ipc)) = 16 then
        (case calc_ip n False (cv_routes v) (gwsV6 v) ipc of (ipc', routes, g) \<Rightarrow>
           bind_res (calc_ips n (v\<lparr>cv_routes := routes, gwsV6 := g\<rparr>) ipcs) (\<lambda>(ipcs', v'). Inr (ipc' # ipcs', v')))
      else Inl (Errorf ''Unknown IP object''))"

definition calcGateways :: "cni_result \<Rightarrow> village_conf \<Rightarrow> (cni_result \<times> gw_info \<times> gw_info) res" where
  "calcGateways result n =
     bind_res (calc_ips n \<lparr>cv_routes = Routes result, gwsV4 = no_gws, gwsV6 = no_gws\<rparr> (IPs result))
       (\<lambda>(ipcs, v). Inr (result\<lparr>IPs := ipcs, Routes := cv_routes v\<rparr>, gwsV4 v, gwsV6 v))"

section \<open>Addresses of the bridge\<close>

definition deleteAddr :: "'w netlink \<Rightarrow> link \<Rightarrow> ipnet \<Rightarrow> ('w, unit) io" where
  "deleteAddr N br ipn =
     wrap_io (''could not remove IP address from '' @ lk_Name br) (nl_AddrDel N br \<lparr>ad_IPNet = ipn, ad_Flags = 0\<rparr>)"

text \<open>The loop over the addresses of the link: \<open>True\<close> when the address is there already.\<close>

fun ensure_addr_loop :: "'w netlink \<Rightarrow> link \<Rightarrow> family \<Rightarrow> ipnet \<Rightarrow> bool \<Rightarrow> nladdr list \<Rightarrow> ('w, bool) io" where
  "ensure_addr_loop N br fam ipn forceAddress [] = ret False"
| "ensure_addr_loop N br fam ipn forceAddress (a # as) =
     (if ipnet_string (ad_IPNet a) = ipnet_string ipn then ret True
      else if fam = FAMILY_V4 \<or> ipnet_contains (ad_IPNet a) (net_ip ipn) \<or> ipnet_contains ipn (net_ip (ad_IPNet a)) then
        (if forceAddress
         then bind_io (deleteAddr N br (ad_IPNet a)) (\<lambda>_. ensure_addr_loop N br fam ipn forceAddress as)
         else fail (Errorf (lk_Name br @ '' already has an IP address different from '' @ ipnet_string ipn)))
      else ensure_addr_loop N br fam ipn forceAddress as)"

text \<open>\<open>ErrNotExist\<close> is \<open>ENOENT\<close> here, \<open>ErrExist\<close> is \<open>EEXIST\<close>; a failed listing leaves the slice nil.\<close>

definition list_addrs :: "'w netlink \<Rightarrow> link \<Rightarrow> family \<Rightarrow> ('w, nladdr list) io" where
  "list_addrs N br fam =
     attempt (nl_AddrList N br fam) (\<lambda>r.
       case r of
         Inl e \<Rightarrow> if e \<noteq> ErrNotExist then fail (Wrap ''could not get list of IP addresses'' e) else ret []
       | Inr addrs \<Rightarrow> ret addrs)"

definition unless_exists :: "string \<Rightarrow> ('w, unit) io \<Rightarrow> ('w, unit) io" where
  "unless_exists msg m =
     attempt m (\<lambda>r. case r of Inl e \<Rightarrow> if e \<noteq> ErrExist then fail (Wrap msg e) else ret () | Inr _ \<Rightarrow> ret ())"

definition ensureAddr :: "'w netlink \<Rightarrow> link \<Rightarrow> family \<Rightarrow> ipnet \<Rightarrow> bool \<Rightarrow> ('w, unit) io" where
  "ensureAddr N br fam ipn forceAddress =
     bind_io (list_addrs N br fam) (\<lambda>addrs.
     bind_io (ensure_addr_loop N br fam ipn forceAddress addrs) (\<lambda>there.
       if there then ret ()
       else
         bind_io (unless_exists (''could not add IP address to '' @ lk_Name br)
             (nl_AddrAdd N br \<lparr>ad_IPNet = ipn, ad_Flags = 0\<rparr>)) (\<lambda>_.
         wrap_io ''could not set bridge's mac'' (nl_LinkSetHardwareAddr N br (lk_HardwareAddr br)))))"

section \<open>The devices\<close>

definition bridgeByName :: "'w netlink \<Rightarrow> string \<Rightarrow> ('w, link) io" where
  "bridgeByName N name =
     bind_io (wrap_io (''could not lookup '' @ name) (nl_LinkByName N name)) (\<lambda>l.
       case lk_Kind l of Bridge _ \<Rightarrow> ret l | _ \<Rightarrow> fail (Errorf (name @ '' already exists but is not a bridge'')))"

text \<open>\<open>LinkAdd\<close> leaves the index in the structure when it adds the bridge.\<close>

definition add_bridge :: "'w netlink \<Rightarrow> link \<Rightarrow> ('w, link) io" where
  "add_bridge N br =
     attempt (nl_LinkAdd N br) (\<lambda>r.
       case r of
         Inl e \<Rightarrow> if e \<noteq> ErrExist then fail (Wrap (''could not add '' @ lk_Name br) e) else ret br
       | Inr index \<Rightarrow> ret (br\<lparr>lk_Index := index\<rparr>))"

definition ensureBridge :: "'w netlink \<Rightarrow> string \<Rightarrow> int \<Rightarrow> bool \<Rightarrow> bool \<Rightarrow> ('w, link) io" where
  "ensureBridge N brName mtu promiscMode vlanFiltering =
     (let br0 = (new_link brName (Bridge (if vlanFiltering then Some True else None)))\<lparr>lk_MTU := mtu, lk_TxQLen := -1\<rparr>
      in bind_io (add_bridge N br0) (\<lambda>br1.
         bind_io (if promiscMode then wrap_io (''could not set promiscuous mode on '' @ brName) (nl_SetPromiscOn N br1) else ret ()) (\<lambda>_.
         bind_io (bridgeByName N brName) (\<lambda>br.
         attempt (Sysctl (nl_files N) (''net/ipv6/conf/'' @ brName @ ''/accept_ra'') [''0'']) (\<lambda>_.
         bind_io (nl_LinkSetUp N br) (\<lambda>_.
         ret br))))))"

definition setupVeth ::
  "'w netlink \<Rightarrow> netns \<Rightarrow> link \<Rightarrow> string \<Rightarrow> int \<Rightarrow> bool \<Rightarrow> int \<Rightarrow> ('w, iface \<times> iface) io" where
  "setupVeth N netns br ifName mtu hairpinMode vlanID =
     bind_io (ns_Do (nl_os N) netns (\<lambda>hostNS.
       bind_io (SetupVeth N ifName mtu hostNS) (\<lambda>(hostVeth, containerVeth).
       ret (if_Name hostVeth, \<lparr>Name = if_Name containerVeth, Mac = mac_string (if_HardwareAddr containerVeth),
         Sandbox = ns_file netns\<rparr>)))) (\<lambda>(hostName, contIface).
     bind_io (wrap_io (''failed to lookup '' @ hostName) (nl_LinkByName N hostName)) (\<lambda>hostVeth.
     let hostIface = \<lparr>Name = hostName, Mac = mac_string (lk_HardwareAddr hostVeth), Sandbox = []\<rparr>
     in bind_io (wrap_io (''failed to connect to bridge '' @ lk_Name br) (nl_LinkSetMaster N hostVeth br)) (\<lambda>_.
        bind_io (wrap_io ''failed to setup hairpin mode'' (nl_LinkSetHairpin N hostVeth hairpinMode)) (\<lambda>_.
        bind_io (if vlanID \<noteq> 0 then wrap_io ''failed to setup vlan tag on interface''
                   (nl_BridgeVlanAdd N hostVeth (word_of_int vlanID) True True False True) else ret ()) (\<lambda>_.
        ret (hostIface, contIface))))))"

definition ensureVlanInterface :: "'w netlink \<Rightarrow> link \<Rightarrow> int \<Rightarrow> ('w, link) io" where
  "ensureVlanInterface N br vlanId =
     (let name = lk_Name br @ ''.'' @ itoa vlanId
      in attempt (nl_LinkByName N name) (\<lambda>r.
           case r of
             Inr l \<Rightarrow> ret l
           | Inl e \<Rightarrow>
               if e \<noteq> ErrLinkNotFound then fail (Wrap (''failed to find interface '' @ name) e)
               else
                 bind_io (wrap_io ''faild to find host namespace'' (GetCurrentNS (nl_os N))) (\<lambda>hostNS.
                 bind_io (wrap_io (''faild to create vlan gateway '' @ name)
                     (setupVeth N hostNS br name (lk_MTU br) False vlanId)) (\<lambda>(_, brGatewayIface).
                 wrap_io (''failed to lookup '' @ Name brGatewayIface) (nl_LinkByName N (Name brGatewayIface))))))"

definition setupBridge :: "'w netlink \<Rightarrow> village_conf \<Rightarrow> ('w, link \<times> iface) io" where
  "setupBridge N n =
     (let vlanFiltering = (Vlan_id n \<noteq> 0)
      in bind_io (wrap_io (''failed to create bridge '' @ BrName n)
             (ensureBridge N (BrName n) (BrMTU n) (PromiscMode n) vlanFiltering)) (\<lambda>br.
         ret (br, \<lparr>Name = lk_Name br, Mac = mac_string (lk_HardwareAddr br), Sandbox = []\<rparr>)))"

definition disableIPV6DAD :: "'w netlink \<Rightarrow> string \<Rightarrow> ('w, unit) io" where
  "disableIPV6DAD N ifName =
     attempt (ReadFile (nl_files N) (''/proc/sys/net/ipv6/conf/'' @ ifName @ ''/enhanced_dad'')) (\<lambda>r.
       if r = Inr (''1'' @ [CHR 0x0A]) then ret ()
       else WriteFile (nl_files N) (''/proc/sys/net/ipv6/conf/'' @ ifName @ ''/accept_dad'') ''0'')"

definition enableIPForward :: "'w netlink \<Rightarrow> family \<Rightarrow> ('w, unit) io" where
  "enableIPForward N fam = (if fam = FAMILY_V4 then EnableIP4Forward (nl_files N) else EnableIP6Forward (nl_files N))"

section \<open>The comparisons of CHECK\<close>

record cni_bridge_if =
  cb_Name :: string
  ifIndex :: int
  peerIndex :: int
  masterIndex :: int
  found :: bool

definition no_bridge_if :: cni_bridge_if where
  "no_bridge_if = \<lparr>cb_Name = [], ifIndex = 0, peerIndex = 0, masterIndex = 0, found = False\<rparr>"

definition validateInterface :: "'w netlink \<Rightarrow> iface \<Rightarrow> bool \<Rightarrow> ('w, link) io" where
  "validateInterface N intf expectInSb =
     (if Name intf = '''' then fail (Errorf ''Interface name missing '')
      else attempt (nl_LinkByName N (Name intf)) (\<lambda>r.
        case r of
          Inl _ \<Rightarrow> fail (Errorf (''Interface name '' @ Name intf @ '' not found''))
        | Inr l \<Rightarrow>
            if expectInSb \<and> Sandbox intf = '''' then fail (Errorf (''Interface '' @ Name intf @ '' is expected to be in a sandbox''))
            else if \<not> expectInSb \<and> Sandbox intf \<noteq> '''' then fail (Errorf (''Interface '' @ Name intf @ '' should not be in sandbox''))
            else ret l))"

definition validateCniBrInterface :: "'w netlink \<Rightarrow> iface \<Rightarrow> village_conf \<Rightarrow> ('w, cni_bridge_if) io" where
  "validateCniBrInterface N intf n =
     bind_io (validateInterface N intf False) (\<lambda>l.
       if (case lk_Kind l of Bridge _ \<Rightarrow> False | _ \<Rightarrow> True)
       then fail (Errorf (''Interface '' @ Name intf @ '' does not have link type of bridge''))
       else if Mac intf \<noteq> '''' \<and> Mac intf \<noteq> mac_string (lk_HardwareAddr l)
       then fail (Errorf (''Bridge interface '' @ Name intf @ '' Mac doesn't match: '' @ Mac intf))
       else if (lk_Promisc l \<noteq> 0) \<noteq> PromiscMode n
       then fail (Errorf (''Bridge interface '' @ Name intf @ '' configured Promisc Mode doesn't match current state''))
       else ret (no_bridge_if\<lparr>found := True, cb_Name := lk_Name l, ifIndex := lk_Index l, masterIndex := lk_MasterIndex l\<rparr>))"

definition validateCniVethInterface ::
  "'w netlink \<Rightarrow> iface \<Rightarrow> cni_bridge_if \<Rightarrow> cni_bridge_if \<Rightarrow> ('w, cni_bridge_if) io" where
  "validateCniVethInterface N intf brIf contIf =
     bind_io (validateInterface N intf False) (\<lambda>l.
       if (case lk_Kind l of Veth _ \<Rightarrow> False | _ \<Rightarrow> True) then ret no_bridge_if
       else attempt (GetVethPeerIfindex N (lk_Name l)) (\<lambda>r.
         case r of
           Inl _ \<Rightarrow> fail (Errorf (''Unable to obtain veth peer index for veth '' @ lk_Name l))
         | Inr (_, peer) \<Rightarrow>
             let vethFound = no_bridge_if\<lparr>peerIndex := peer, ifIndex := lk_Index l, masterIndex := lk_MasterIndex l\<rparr>
             in if ifIndex vethFound \<noteq> peerIndex contIf then ret vethFound
                else if ifIndex contIf \<noteq> peerIndex vethFound then ret vethFound
                else if masterIndex vethFound \<noteq> ifIndex brIf then ret vethFound
                else if Mac intf \<noteq> '''' \<and> Mac intf \<noteq> mac_string (lk_HardwareAddr l)
                then fail (Errorf (''Interface '' @ Name intf @ '' Mac doesn't match: '' @ Mac intf @ '' not found''))
                else ret (vethFound\<lparr>found := True, cb_Name := lk_Name l\<rparr>)))"

definition validateCniContainerInterface :: "'w netlink \<Rightarrow> iface \<Rightarrow> ('w, cni_bridge_if) io" where
  "validateCniContainerInterface N intf =
     bind_io (validateInterface N intf True) (\<lambda>l.
       if (case lk_Kind l of Veth _ \<Rightarrow> False | _ \<Rightarrow> True)
       then fail (Errorf (''Error: Container interface '' @ lk_Name l @ '' not of type veth''))
       else attempt (GetVethPeerIfindex N (lk_Name l)) (\<lambda>r.
         case r of
           Inl _ \<Rightarrow> fail (Errorf (''Unable to obtain veth peer index for veth '' @ lk_Name l))
         | Inr (_, peer) \<Rightarrow>
             if Mac intf \<noteq> '''' \<and> Mac intf \<noteq> mac_string (lk_HardwareAddr l)
             then fail (Errorf (''Interface '' @ Name intf @ '' Mac '' @ Mac intf @ '' doesn't match container Mac''))
             else ret (no_bridge_if\<lparr>peerIndex := peer, ifIndex := lk_Index l, found := True, cb_Name := lk_Name l\<rparr>)))"

end
