(* ===== verification/Bridge_Ctrl.thy ===== *)
theory Bridge_Ctrl
  imports Bridge
begin

text \<open>
  \<open>pkg/bridge/ctrl.go\<close>: the bridge controller. Each handler takes the state of the call, because it holds
  the configuration and the arguments by pointer.
\<close>

section \<open>Add\<close>

definition sleep_io :: "'w netlink \<Rightarrow> int \<Rightarrow> ('w, unit) io" where
  "sleep_io N d w = (Inr (), nl_Sleep N d w)"

text \<open>The wait for the bridge port; the list holds the pauses (milliseconds) that are left.\<close>

definition retries :: "int list" where
  "retries = [0, 50, 500, 1000, 1000]"

fun port_loop :: "'w netlink \<Rightarrow> string \<Rightarrow> int list \<Rightarrow> ('w, unit) io" where
  "port_loop N hostName [] = ret ()"
| "port_loop N hostName (pause # rest) =
     bind_io (sleep_io N pause) (\<lambda>_.
     bind_io (nl_LinkByName N hostName) (\<lambda>hostVeth.
       if lk_OperState hostVeth = OperUp then ret ()
       else if rest = [] then fail (Errorf ''bridge port in error state'')
       else port_loop N hostName rest))"

definition configure_container :: "'w if_env \<Rightarrow> village_conf \<Rightarrow> string \<Rightarrow> cni_result \<Rightarrow> ('w, unit) io" where
  "configure_container E conf ifName result =
     bind_io (if list_ex (\<lambda>ipc. Version ipc = ''6'' \<and> (HairpinMode conf \<or> PromiscMode conf)) (IPs result)
              then disableIPV6DAD (ie_netlink E) ifName else ret ()) (\<lambda>_.
     run_partial (ConfigureIface (ie_netlink E) ifName result))"

definition announce :: "'w netlink \<Rightarrow> string \<Rightarrow> cni_result \<Rightarrow> ('w, unit) io" where
  "announce N ifName result =
     each_io (\<lambda>ipc. if Version ipc = ''4''
       then attempt (nl_GratuitousArp N (net_ip (Address ipc)) ifName) (\<lambda>_. ret ()) else ret ()) (IPs result)"

text \<open>One gateway: the address goes to the bridge, or to the VLAN interface, which is reported once.\<close>

definition vlan_iface :: "link \<Rightarrow> iface" where
  "vlan_iface l = \<lparr>Name = lk_Name l, Mac = mac_string (lk_HardwareAddr l), Sandbox = []\<rparr>"

definition set_gw ::
  "'w netlink \<Rightarrow> village_conf \<Rightarrow> link \<Rightarrow> family \<Rightarrow> ipnet \<Rightarrow> cni_result \<times> iface option \<Rightarrow> ('w, cni_result \<times> iface option) io" where
  "set_gw N conf br fam gw v =
     (case v of (result, vlanInterface) \<Rightarrow>
       if Vlan_id conf \<noteq> 0 then
         bind_io (wrap_io ''failed to create vlan interface'' (ensureVlanInterface N br (Vlan_id conf))) (\<lambda>vlanIface.
           let v' = (case vlanInterface of
                 None \<Rightarrow> (result\<lparr>Interfaces := Interfaces result @ [vlan_iface vlanIface]\<rparr>, Some (vlan_iface vlanIface))
               | Some _ \<Rightarrow> (result, vlanInterface))
           in bind_io (wrap_io ''failed to set vlan interface for bridge with addr''
                (ensureAddr N vlanIface fam gw (ForceAddress conf))) (\<lambda>_. ret v'))
       else
         bind_io (wrap_io ''failed to set bridge addr'' (ensureAddr N br fam gw (ForceAddress conf))) (\<lambda>_. ret v))"

fun set_gws ::
  "'w netlink \<Rightarrow> village_conf \<Rightarrow> link \<Rightarrow> family \<Rightarrow> ipnet list \<Rightarrow> cni_result \<times> iface option \<Rightarrow> ('w, cni_result \<times> iface option) io" where
  "set_gws N conf br fam [] v = ret v"
| "set_gws N conf br fam (gw # more_gws) v =
     bind_io (set_gw N conf br fam gw v) (\<lambda>v'. set_gws N conf br fam more_gws v')"

definition set_family ::
  "'w netlink \<Rightarrow> village_conf \<Rightarrow> link \<Rightarrow> gw_info \<Rightarrow> cni_result \<times> iface option \<Rightarrow> ('w, cni_result \<times> iface option) io" where
  "set_family N conf br g v =
     bind_io (set_gws N conf br (gi_family g) (gws g) v) (\<lambda>v'.
     bind_io (if gws g \<noteq> [] then wrap_io ''failed to enable forwarding'' (enableIPForward N (gi_family g)) else ret ()) (\<lambda>_.
     ret v'))"

definition masq_all :: "'w if_env \<Rightarrow> village_conf \<Rightarrow> string \<Rightarrow> cni_result \<Rightarrow> ('w, unit) io" where
  "masq_all E conf cid result =
     (case FormatChainName (ie_sha E) (vc_Name conf) cid of
        None \<Rightarrow> fail (Panic ''invalid length'')
      | Some chain \<Rightarrow>
          each_io (\<lambda>ipc. SetupIPMasq (ie_iptables E) (Address ipc) chain (FormatComment (ie_quote E) (vc_Name conf) cid)) (IPs result))"

text \<open>What happens when the IPAM plugin gave a result: the layer 3 part of \<open>Add\<close>.\<close>

definition add_layer3 ::
  "'w if_env \<Rightarrow> village_conf \<Rightarrow> cmd_args \<Rightarrow> netns \<Rightarrow> link \<Rightarrow> string \<Rightarrow> cni_result \<Rightarrow> ('w, cni_result) io" where
  "add_layer3 E conf args netns br hostName result =
     (let N = ie_netlink E in
      if length (IPs result) = 0 then fail (Errorf ''IPAM plugin returned missing IP config'')
      else
        bind_io (lift_res (calcGateways result conf)) (\<lambda>(result1, v4, v6).
        bind_io (ns_Do (nl_os N) netns (\<lambda>_. configure_container E conf (IfName args) result1)) (\<lambda>_.
        bind_io (port_loop N hostName retries) (\<lambda>_.
        bind_io (ns_Do (nl_os N) netns (\<lambda>_.
            bind_io (nl_InterfaceByName N (IfName args)) (\<lambda>_. announce N (IfName args) result1))) (\<lambda>_.
        bind_io (if IsGW conf
                 then bind_io (set_family N conf br v4 (result1, None)) (\<lambda>v. set_family N conf br v6 v)
                 else ret (result1, None)) (\<lambda>(result2, _).
        bind_io (if IPMasq conf then masq_all E conf (ContainerID args) result2 else ret ()) (\<lambda>_.
        ret result2)))))))"

definition bridge_add ::
  "'w if_env \<Rightarrow> string \<Rightarrow> cni_result option \<Rightarrow> village_conf \<Rightarrow> cmd_args \<Rightarrow> ('w, unit) io" where
  "bridge_add E cniVersion ipam_result conf args =
     (let N = ie_netlink E in
      if HairpinMode conf \<and> PromiscMode conf
      then fail (Errorf ''cannot set hairpin mode and promiscous mode at the same time. '')
      else
        bind_io (setupBridge N conf) (\<lambda>(br, brInterface).
        bind_io (wrap_io (''failed to open netns '' @ Netns args) (GetNS (nl_os N) (Netns args))) (\<lambda>netns.
        finally_io
          (bind_io (setupVeth N netns br (IfName args) (BrMTU conf) (HairpinMode conf) (Vlan_id conf)) (\<lambda>(hostInterface, containerInterface).
           let result0 = empty_result\<lparr>CNIVersion := cniVersion, Interfaces := [brInterface, hostInterface, containerInterface]\<rparr>
           in bind_io (case ipam_result of
                    None \<Rightarrow> ret result0
                  | Some r \<Rightarrow> add_layer3 E conf args netns br (Name hostInterface)
                      (result0\<lparr>IPs := IPs r, Routes := Routes r\<rparr>)) (\<lambda>result1.
              bind_io (bridgeByName N (BrName conf)) (\<lambda>br2.
              let result2 = result1\<lparr>Interfaces := (Interfaces result1)[0 := brInterface\<lparr>Mac := mac_string (lk_HardwareAddr br2)\<rparr>],
                    DNS := vc_DNS conf\<rparr>
              in case ie_debugPostIPAMError E of
                   Some e \<Rightarrow> fail e
                 | None \<Rightarrow> PrintResult (ie_lib E) result2 cniVersion))))
          (ns_Close (nl_os N) netns))))"

definition bridge_Add :: "'w if_env \<Rightarrow> string \<Rightarrow> cni_result option \<Rightarrow> ('w call, unit) io" where
  "bridge_Add E cniVersion ipam_result s =
     (let s' = (if IsDefaultGW (the_conf s) then s\<lparr>the_conf := (the_conf s)\<lparr>IsGW := True\<rparr>\<rparr> else s)
      in on_world (bridge_add E cniVersion ipam_result (the_conf s') (the_args s')) s')"

section \<open>Del\<close>

definition teardown_masq :: "'w if_env \<Rightarrow> village_conf \<Rightarrow> string \<Rightarrow> ipnet list \<Rightarrow> ('w, unit) io" where
  "teardown_masq E conf cid ipnets =
     (case FormatChainName (ie_sha E) (vc_Name conf) cid of
        None \<Rightarrow> fail (Panic ''invalid length'')
      | Some chain \<Rightarrow>
          each_io (\<lambda>ipn. TeardownIPMasq (ie_iptables E) ipn chain (FormatComment (ie_quote E) (vc_Name conf) cid)) ipnets)"

definition bridge_del :: "'w if_env \<Rightarrow> village_conf \<Rightarrow> cmd_args \<Rightarrow> ('w, unit) io" where
  "bridge_del E conf args =
     (let N = ie_netlink E in
      if Netns args = '''' then ret ()
      else
        bind_io (WithNetNSPath (nl_os N) (Netns args) (\<lambda>_.
          attempt (DelLinkByNameAddr N (IfName args)) (\<lambda>r.
            case r of Inl e \<Rightarrow> if e = ErrLinkNotFound then ret [] else fail e | Inr ipnets \<Rightarrow> ret ipnets))) (\<lambda>ipnets.
        case vc_IPAM conf of
          None \<Rightarrow> fail nil_deref
        | Some i \<Rightarrow>
            if ic_Type i \<noteq> '''' \<and> IPMasq conf then teardown_masq E conf (ContainerID args) ipnets else ret ()))"

definition bridge_Del :: "'w if_env \<Rightarrow> ('w call, unit) io" where
  "bridge_Del E s = on_world (bridge_del E (the_conf s) (the_args s)) s"

section \<open>Check\<close>

text \<open>The interfaces of the previous result that are known by name; a later one replaces an earlier one.\<close>

definition find_known :: "village_conf \<Rightarrow> cmd_args \<Rightarrow> iface list \<Rightarrow> iface \<times> iface" where
  "find_known conf args is =
     foldl (\<lambda>(brMap, contMap) intf.
       if BrName conf = Name intf then (intf, contMap)
       else if IfName args = Name intf \<and> Netns args = Sandbox intf then (brMap, intf)
       else (brMap, contMap)) (empty_iface, empty_iface) is"

text \<open>The search for the veth on the bridge, with the last value the loop assigned.\<close>

fun find_veth ::
  "'w netlink \<Rightarrow> iface \<Rightarrow> iface \<Rightarrow> cni_bridge_if \<Rightarrow> cni_bridge_if \<Rightarrow> cni_bridge_if \<Rightarrow> iface list \<Rightarrow> ('w, cni_bridge_if) io" where
  "find_veth N brMap contMap brCNI contCNI v [] = ret v"
| "find_veth N brMap contMap brCNI contCNI v (intf # is) =
     (if Name brMap = Name intf \<or> Name contMap = Name intf then find_veth N brMap contMap brCNI contCNI v is
      else bind_io (validateCniVethInterface N intf brCNI contCNI) (\<lambda>v'.
        if found v' then ret v' else find_veth N brMap contMap brCNI contCNI v' is))"

definition bridge_check_result ::
  "'w if_env \<Rightarrow> village_conf \<Rightarrow> cmd_args \<Rightarrow> netns \<Rightarrow> cni_result \<Rightarrow> ('w, unit) io" where
  "bridge_check_result E conf args netns result =
     (let N = ie_netlink E; (brMap, contMap) = find_known conf args (Interfaces result)
      in bind_io (validateCniBrInterface N brMap conf) (\<lambda>brCNI.
         if Netns args \<noteq> Sandbox contMap then fail (Errorf ''Sandbox in prevResult doesn't match configured netns'')
         else
           bind_io (ns_Do (nl_os N) netns (\<lambda>_. validateCniContainerInterface N contMap)) (\<lambda>contCNI.
           bind_io (find_veth N brMap contMap brCNI contCNI no_bridge_if (Interfaces result)) (\<lambda>vethCNI.
             if \<not> found brCNI then fail (Errorf ''CNI created bridge in host namespace was not found'')
             else if \<not> found contCNI then fail (Errorf ''CNI created interface in container not found'')
             else if \<not> found vethCNI then fail (Errorf ''CNI veth created for bridge was not found'')
             else ns_Do (nl_os N) netns (\<lambda>_.
               bind_io (ValidateExpectedInterfaceIPs N (IfName args) (IPs result)) (\<lambda>_.
               ValidateExpectedRoute N (Routes result)))))))"

definition bridge_Check :: "'w if_env \<Rightarrow> ('w call, unit) io" where
  "bridge_Check E s0 =
     (let P = nl_os (ie_netlink E); args = the_args s0 in
      bind_io (on_world (wrap_io (''failed to open netns '' @ Netns args) (GetNS P (Netns args)))) (\<lambda>netns.
      finally_io
        (bind_io (take_prev_result (ie_lib E) ''Required prevResult missing '') (\<lambda>result s.
           on_world (bridge_check_result E (the_conf s) args netns result) s))
        (on_world (ns_Close P netns))) s0)"

definition bridge_NewCtrl :: "'w if_env \<Rightarrow> string \<Rightarrow> cni_result option \<Rightarrow> 'w if_ctrl" where
  "bridge_NewCtrl E cniVersion result =
     \<lparr>ctrl_Add = bridge_Add E cniVersion result, ctrl_Del = bridge_Del E, ctrl_Check = bridge_Check E\<rparr>"

end
