(* ===== verification/Macvlan.thy ===== *)
theory Macvlan
  imports Village_Conf
begin

text \<open>
  \<open>pkg/macvlan\<close>: the operations (\<open>macvlan.go\<close>) and the controller (\<open>ctrl.go\<close>) of the second interface that
  the \<open>village\<close> plugin may add to a container.
\<close>

section \<open>macvlan.go\<close>

text \<open>The configuration loader of the package, which no plugin of the repository calls.\<close>

record macvlan_netconf =
  mn_CNIVersion :: string
  mn_Master :: string
  mn_Mode :: string
  mn_MTU :: int
  mn_Mac :: string
  mn_RuntimeMac :: string

definition getDefaultRouteInterfaceName :: "'w netlink \<Rightarrow> ('w, string) io" where
  "getDefaultRouteInterfaceName N =
     bind_io (nl_RouteList N None FAMILY_ALL) (\<lambda>routeToDstIP.
       case find (\<lambda>v. rt_Dst v = None) routeToDstIP of
         None \<Rightarrow> fail (Errorf ''no default route interface found'')
       | Some v \<Rightarrow> bind_io (nl_LinkByIndex N (rt_LinkIndex v)) (\<lambda>l. ret (lk_Name l)))"

definition getMTUByName :: "'w netlink \<Rightarrow> string \<Rightarrow> ('w, int) io" where
  "getMTUByName N ifName = bind_io (nl_LinkByName N ifName) (\<lambda>l. ret (lk_MTU l))"

text \<open>\<open>decode\<close> is \<open>json.Unmarshal\<close>, \<open>load_mac\<close> the MAC that \<open>types.LoadArgs\<close> finds in the arguments.\<close>

definition macvlan_loadConf ::
  "'w netlink \<Rightarrow> (string \<Rightarrow> macvlan_netconf res) \<Rightarrow> (string \<Rightarrow> string res) \<Rightarrow> string \<Rightarrow> string \<Rightarrow> ('w, macvlan_netconf \<times> string) io" where
  "macvlan_loadConf N decode load_mac bytes envArgs =
     bind_io (lift_res (case decode bytes of Inl e \<Rightarrow> Inl (Wrap ''failed to load netconf'' e) | Inr n \<Rightarrow> Inr n)) (\<lambda>n0.
     bind_io (if mn_Master n0 = '''' then bind_io (getDefaultRouteInterfaceName N) (\<lambda>m. ret (n0\<lparr>mn_Master := m\<rparr>)) else ret n0) (\<lambda>n1.
     bind_io (getMTUByName N (mn_Master n1)) (\<lambda>masterMTU.
       if mn_MTU n1 < 0 \<or> masterMTU < mn_MTU n1 then fail (Errorf ''invalid MTU, must be [0, master MTU]'')
       else
         bind_io (if envArgs = '''' then ret n1
                  else bind_io (lift_res (load_mac envArgs)) (\<lambda>mac. ret (if mac \<noteq> '''' then n1\<lparr>mn_Mac := mac\<rparr> else n1))) (\<lambda>n2.
         let n3 = (if mn_RuntimeMac n2 \<noteq> '''' then n2\<lparr>mn_Mac := mn_RuntimeMac n2\<rparr> else n2)
         in ret (n3, mn_CNIVersion n3)))))"

definition modeFromString :: "string \<Rightarrow> macvlan_mode res" where
  "modeFromString s =
     (if s = '''' \<or> s = ''bridge'' then Inr MODE_BRIDGE
      else if s = ''private'' then Inr MODE_PRIVATE
      else if s = ''vepa'' then Inr MODE_VEPA
      else if s = ''passthru'' then Inr MODE_PASSTHRU
      else Inl (Errorf (''unknown macvlan mode: '' @ s)))"

definition modeToString :: "macvlan_mode \<Rightarrow> string res" where
  "modeToString mode =
     (case mode of
        MODE_BRIDGE \<Rightarrow> Inr ''bridge''
      | MODE_PRIVATE \<Rightarrow> Inr ''private''
      | MODE_VEPA \<Rightarrow> Inr ''vepa''
      | MODE_PASSTHRU \<Rightarrow> Inr ''passthru''
      | _ \<Rightarrow> Inl (Errorf ''unknown macvlan mode''))"

definition IPv4InterfaceArpProxySysctl :: "string \<Rightarrow> string" where
  "IPv4InterfaceArpProxySysctl ifn = ''net.ipv4.conf.'' @ ifn @ ''.proxy_arp''"

text \<open>The function that \<open>createMacvlan\<close> runs in the namespace; \<open>mv\<close> is the link that was added.\<close>

definition undo_link :: "'w netlink \<Rightarrow> link \<Rightarrow> string \<Rightarrow> ('w, 'a) io \<Rightarrow> ('w, 'a) io" where
  "undo_link N mv msg m =
     attempt m (\<lambda>r. case r of Inl e \<Rightarrow> attempt (nl_LinkDel N mv) (\<lambda>_. fail (Wrap msg e)) | Inr x \<Rightarrow> ret x)"

definition macvlan_inside :: "'w netlink \<Rightarrow> netns \<Rightarrow> link \<Rightarrow> string \<Rightarrow> string \<Rightarrow> ('w, iface) io" where
  "macvlan_inside N netns mv tmpName ifName =
     bind_io (undo_link N mv ''failed to set proxy_arp on newly added interface''
         (Sysctl (nl_files N) (IPv4InterfaceArpProxySysctl tmpName) [''1''])) (\<lambda>_.
     bind_io (undo_link N mv (''failed to rename macvlan to '' @ ifName) (RenameLink N tmpName ifName)) (\<lambda>_.
     bind_io (wrap_io (''failed to refetch macvlan '' @ ifName) (nl_LinkByName N ifName)) (\<lambda>contMacvlan.
     ret \<lparr>Name = ifName, Mac = mac_string (lk_HardwareAddr contMacvlan), Sandbox = ns_file netns\<rparr>)))"

definition createMacvlan :: "'w netlink \<Rightarrow> macvlan_conf \<Rightarrow> string \<Rightarrow> netns \<Rightarrow> ('w, iface) io" where
  "createMacvlan N conf ifName netns =
     bind_io (lift_res (modeFromString (mv_Mode conf))) (\<lambda>mode.
     bind_io (wrap_io (''failed to lookup master '' @ mv_Master conf) (nl_LinkByName N (mv_Master conf))) (\<lambda>m.
     bind_io (RandomVethName N) (\<lambda>tmpName.
     bind_io (if mv_Mac conf \<noteq> '''' then wrap_io ''invalid args for MAC addr'' (lift_res (ParseMAC (mv_Mac conf))) else ret []) (\<lambda>addr.
     let mv = (new_link tmpName (Macvlan mode))\<lparr>lk_MTU := mv_MTU conf, lk_ParentIndex := lk_Index m,
           lk_NsFd := Some (ns_fd netns), lk_HardwareAddr := addr\<rparr>
     in bind_io (wrap_io ''failed to create macvlan'' (nl_LinkAdd N mv)) (\<lambda>index.
        ns_Do (nl_os N) netns (\<lambda>_. macvlan_inside N netns (mv\<lparr>lk_Index := index\<rparr>) tmpName ifName))))))"

text \<open>
  The comparison of CHECK. The error of \<open>modeFromString\<close> is overwritten, its mode is then the zero value;
  \<open>parentIndex\<close> is not looked at.
\<close>

definition mode_or_zero :: "string \<Rightarrow> macvlan_mode" where
  "mode_or_zero s = (case modeFromString s of Inl _ \<Rightarrow> MODE_DEFAULT | Inr m \<Rightarrow> m)"

definition macvlan_validateContainer :: "'w netlink \<Rightarrow> iface \<Rightarrow> int \<Rightarrow> string \<Rightarrow> ('w, unit) io" where
  "macvlan_validateContainer N intf parentIndex modeExpected =
     (if Name intf = '''' then fail (Errorf ''Container interface name missing in prevResult'')
      else attempt (nl_LinkByName N (Name intf)) (\<lambda>r.
        case r of
          Inl _ \<Rightarrow> fail (Errorf (''Container Interface name in prevResult: '' @ Name intf @ '' not found''))
        | Inr l \<Rightarrow>
            if Sandbox intf = '''' then fail (Errorf ''Error: Container interface should not be in host namespace'')
            else (case lk_Kind l of
               Macvlan m \<Rightarrow>
                 if m \<noteq> mode_or_zero modeExpected then
                   bind_io (lift_res (modeToString m)) (\<lambda>currString.
                   bind_io (lift_res (modeToString (mode_or_zero modeExpected))) (\<lambda>confString.
                   fail (Errorf (''Container macvlan mode '' @ currString @ '' does not match expected value: '' @ confString))))
                 else if Mac intf \<noteq> '''' \<and> Mac intf \<noteq> mac_string (lk_HardwareAddr l)
                 then fail (Errorf (''Interface '' @ Name intf @ '' Mac doesn't match container Mac''))
                 else ret ()
             | _ \<Rightarrow> fail (Errorf (''Error: Container interface '' @ lk_Name l @ '' not of type macvlan'')))))"

section \<open>ctrl.go\<close>

definition announce_macvlan :: "'w netlink \<Rightarrow> string \<Rightarrow> cni_result \<Rightarrow> ('w, unit) io" where
  "announce_macvlan N ifName result =
     each_io (\<lambda>ipc. if Version ipc = ''4''
       then attempt (nl_GratuitousArp N (net_ip (Address ipc)) ifName) (\<lambda>_. ret ()) else ret ()) (IPs result)"

definition macvlan_layer3 :: "'w netlink \<Rightarrow> string \<Rightarrow> cni_result \<Rightarrow> ('w, unit) io" where
  "macvlan_layer3 N ifName result =
     bind_io (run_partial (ConfigureIface N ifName result)) (\<lambda>_.
     bind_io (wrap_io (''failed to look up '' @ ifName) (nl_InterfaceByName N ifName)) (\<lambda>_.
     announce_macvlan N ifName result))"

definition macvlan_layer2 :: "'w netlink \<Rightarrow> string \<Rightarrow> ('w, unit) io" where
  "macvlan_layer2 N ifName =
     bind_io (wrap_io (''failed to find interface name '' @ ifName) (nl_LinkByName N ifName)) (\<lambda>l.
     wrap_io (''failed to set '' @ ifName @ '' UP'') (nl_LinkSetUp N l))"

text \<open>
  The deferred deletion looks at the variable \<open>err\<close>, which only the configuration of the interface assigns:
  the errors that are returned directly do not delete the link.
\<close>

definition delete_on_error :: "'w netlink \<Rightarrow> string \<Rightarrow> netns \<Rightarrow> ('w, unit) io \<Rightarrow> ('w, unit) io" where
  "delete_on_error N ifName netns m =
     attempt m (\<lambda>r. case r of
       Inl e \<Rightarrow> attempt (ns_Do (nl_os N) netns (\<lambda>_. DelLinkByName N ifName)) (\<lambda>_. fail e)
     | Inr _ \<Rightarrow> ret ())"

definition macvlan_body ::
  "'w if_env \<Rightarrow> string \<Rightarrow> cni_result option \<Rightarrow> village_conf \<Rightarrow> cmd_args \<Rightarrow> netns \<Rightarrow> iface \<Rightarrow> ('w, unit) io" where
  "macvlan_body E cniVersion ipam_result conf args netns macvlanInterface =
     (let N = ie_netlink E;
          result0 = empty_result\<lparr>CNIVersion := cniVersion, Interfaces := [macvlanInterface]\<rparr>
      in bind_io
        (case ipam_result of
           Some r \<Rightarrow>
             if length (IPs r) = 0 then fail (Errorf ''IPAM plugin returned missing IP config'')
             else
               let result1 = result0\<lparr>IPs := map (\<lambda>ipc. ipc\<lparr>Interface := Some 0\<rparr>) (IPs r), Routes := Routes r\<rparr>
               in bind_io (delete_on_error N (IfName args) netns
                    (ns_Do (nl_os N) netns (\<lambda>_. macvlan_layer3 N (IfName args) result1))) (\<lambda>_. ret result1)
         | None \<Rightarrow>
             bind_io (delete_on_error N (IfName args) netns
               (ns_Do (nl_os N) netns (\<lambda>_. macvlan_layer2 N (IfName args)))) (\<lambda>_. ret result0))
        (\<lambda>result. PrintResult (ie_lib E) (result\<lparr>DNS := vc_DNS conf\<rparr>) cniVersion))"

definition macvlan_add ::
  "'w if_env \<Rightarrow> string \<Rightarrow> cni_result option \<Rightarrow> village_conf \<Rightarrow> cmd_args \<Rightarrow> ('w, unit) io" where
  "macvlan_add E cniVersion ipam_result conf args =
     (let N = ie_netlink E in
      bind_io (wrap_io ''failed to open netns'' (GetNS (nl_os N) (Netns args))) (\<lambda>netns.
      finally_io
        (case vc_MacVlan conf of
           None \<Rightarrow> fail nil_deref
         | Some mv \<Rightarrow>
             bind_io (createMacvlan N mv (IfName args) netns) (\<lambda>macvlanInterface.
             macvlan_body E cniVersion ipam_result conf args netns macvlanInterface))
        (ns_Close (nl_os N) netns)))"

definition macvlan_Add :: "'w if_env \<Rightarrow> string \<Rightarrow> cni_result option \<Rightarrow> ('w call, unit) io" where
  "macvlan_Add E cniVersion ipam_result s = on_world (macvlan_add E cniVersion ipam_result (the_conf s) (the_args s)) s"

definition macvlan_del :: "'w if_env \<Rightarrow> cmd_args \<Rightarrow> ('w, unit) io" where
  "macvlan_del E args =
     (let N = ie_netlink E in
      if Netns args = '''' then ret ()
      else WithNetNSPath (nl_os N) (Netns args) (\<lambda>_.
        attempt (DelLinkByName N (IfName args)) (\<lambda>r.
          case r of Inl e \<Rightarrow> if e \<noteq> ErrLinkNotFound then fail e else ret () | Inr _ \<Rightarrow> ret ())))"

definition macvlan_Del :: "'w if_env \<Rightarrow> ('w call, unit) io" where
  "macvlan_Del E s = on_world (macvlan_del E (the_args s)) s"

definition find_container_iface :: "cmd_args \<Rightarrow> iface list \<Rightarrow> iface" where
  "find_container_iface args is =
     foldl (\<lambda>contMap intf. if IfName args = Name intf \<and> Netns args = Sandbox intf then intf else contMap) empty_iface is"

definition macvlan_check_result ::
  "'w if_env \<Rightarrow> village_conf \<Rightarrow> cmd_args \<Rightarrow> netns \<Rightarrow> cni_result \<Rightarrow> ('w, unit) io" where
  "macvlan_check_result E conf args netns result =
     (let N = ie_netlink E; contMap = find_container_iface args (Interfaces result)
      in if Netns args \<noteq> Sandbox contMap then fail (Errorf ''Sandbox in prevResult doesn't match configured netns'')
         else case vc_MacVlan conf of
           None \<Rightarrow> fail nil_deref
         | Some mv \<Rightarrow>
             bind_io (wrap_io (''failed to lookup master '' @ mv_Master mv) (nl_LinkByName N (mv_Master mv))) (\<lambda>m.
             ns_Do (nl_os N) netns (\<lambda>_.
               bind_io (macvlan_validateContainer N contMap (lk_Index m) (mv_Mode mv)) (\<lambda>_.
               bind_io (ValidateExpectedInterfaceIPs N (IfName args) (IPs result)) (\<lambda>_.
               ValidateExpectedRoute N (Routes result))))))"

definition macvlan_Check :: "'w if_env \<Rightarrow> ('w call, unit) io" where
  "macvlan_Check E s0 =
     (let P = nl_os (ie_netlink E); args = the_args s0 in
      bind_io (on_world (wrap_io (''failed to open netns '' @ Netns args) (GetNS P (Netns args)))) (\<lambda>netns.
      finally_io
        (bind_io (take_prev_result (ie_lib E) ''Required prevResult missing'') (\<lambda>result s.
           on_world (macvlan_check_result E (the_conf s) args netns result) s))
        (on_world (ns_Close P netns))) s0)"

definition macvlan_NewCtrl :: "'w if_env \<Rightarrow> string \<Rightarrow> cni_result option \<Rightarrow> 'w if_ctrl" where
  "macvlan_NewCtrl E cniVersion result =
     \<lparr>ctrl_Add = macvlan_Add E cniVersion result, ctrl_Del = macvlan_Del E, ctrl_Check = macvlan_Check E\<rparr>"

end
