(* ===== verification/Village.thy ===== *)
theory Village
  imports Bridge_Ctrl Macvlan
begin

text \<open>
  \<open>plugins/main/village/village.go\<close> and \<open>pkg/ipam/ipam.go\<close>: the plugin. It runs the IPAM plugin, splits
  its result between the bridge controller and, for interfaces whose name starts with \<open>mv\<close>, the macvlan
  controller, and undoes what it can when a step fails.
\<close>

section \<open>Delegation\<close>

text \<open>\<open>invoke.DelegateAdd\<close>, \<open>DelegateCheck\<close> and \<open>DelegateDel\<close> run another plugin.\<close>

record 'w delegate =
  DelegateAdd :: "string \<Rightarrow> string \<Rightarrow> ('w, cni_result) io"
  DelegateCheck :: "string \<Rightarrow> string \<Rightarrow> ('w, unit) io"
  DelegateDel :: "string \<Rightarrow> string \<Rightarrow> ('w, unit) io"

definition ExecAdd :: "'w delegate \<Rightarrow> string \<Rightarrow> string \<Rightarrow> ('w, cni_result) io" where
  "ExecAdd D plugin netconf = DelegateAdd D plugin netconf"

definition ExecCheck :: "'w delegate \<Rightarrow> string \<Rightarrow> string \<Rightarrow> ('w, unit) io" where
  "ExecCheck D plugin netconf = DelegateCheck D plugin netconf"

definition ExecDel :: "'w delegate \<Rightarrow> string \<Rightarrow> string \<Rightarrow> ('w, unit) io" where
  "ExecDel D plugin netconf = DelegateDel D plugin netconf"

section \<open>The plugin\<close>

record 'w village_env =
  ve_if :: "'w if_env"
  ve_delegate :: "'w delegate"
  ve_Unmarshal :: "string \<Rightarrow> village_conf res"

text \<open>The handler starts a call: the configuration is decoded, the arguments are the caller's.\<close>

definition village_loadConf :: "'w village_env \<Rightarrow> string \<Rightarrow> (village_conf \<times> string) res" where
  "village_loadConf V data =
     (case ve_Unmarshal V data of
        Inl e \<Rightarrow> Inl (Wrap ''failed to load netconf'' e)
      | Inr conf \<Rightarrow> Inr (conf, vc_CNIVersion conf))"

definition in_call :: "('w call, 'a) io \<Rightarrow> village_conf \<Rightarrow> cmd_args \<Rightarrow> ('w, 'a) io" where
  "in_call m conf args w =
     (case m \<lparr>world = w, the_conf = conf, the_args = args\<rparr> of (r, s) \<Rightarrow> (r, world s))"

text \<open>
  The loop over the addresses of the IPAM result: one for an interface called \<open>mv\<close>\<dots> goes to the macvlan
  result, every other one to the bridge result. An index out of range is a panic.
\<close>

definition split_ip :: "iface list \<Rightarrow> cni_result \<times> cni_result \<Rightarrow> ipconfig \<Rightarrow> (cni_result \<times> cni_result) res" where
  "split_ip interfaces v ipInfo =
     (case v of (brIf, mvIf) \<Rightarrow>
       let ipBody = \<lparr>Version = Version ipInfo, Interface = None, Address = Address ipInfo, IPGateway = IPGateway ipInfo\<rparr>
       in case Interface ipInfo of
            None \<Rightarrow> Inr (brIf\<lparr>IPs := IPs brIf @ [ipBody]\<rparr>, mvIf)
          | Some i \<Rightarrow>
              if i < 0 \<or> int (length interfaces) \<le> i then Inl (Panic ''index out of range'')
              else
                let inf = interfaces ! nat i in
                if has_prefix (Name inf) ''mv'' then
                  Inr (brIf, mvIf\<lparr>Interfaces := Interfaces mvIf @ [inf],
                    IPs := IPs mvIf @ [ipBody\<lparr>Interface := Some (int (length (Interfaces mvIf)))\<rparr>]\<rparr>)
                else
                  Inr (brIf\<lparr>Interfaces := Interfaces brIf @ [inf],
                    IPs := IPs brIf @ [ipBody\<lparr>Interface := Some (int (length (Interfaces brIf)))\<rparr>]\<rparr>, mvIf))"

fun split_ips :: "iface list \<Rightarrow> cni_result \<times> cni_result \<Rightarrow> ipconfig list \<Rightarrow> (cni_result \<times> cni_result) res" where
  "split_ips interfaces v [] = Inr v"
| "split_ips interfaces v (ip # ips) = bind_res (split_ip interfaces v ip) (\<lambda>v'. split_ips interfaces v' ips)"

definition split_result :: "string \<Rightarrow> cni_result \<Rightarrow> (cni_result \<times> cni_result) res" where
  "split_result cniVersion result =
     split_ips (Interfaces result)
       (empty_result\<lparr>CNIVersion := cniVersion, Routes := Routes result, DNS := DNS result\<rparr>,
        empty_result\<lparr>CNIVersion := cniVersion\<rparr>) (IPs result)"

text \<open>
  \<open>defer func() { if !success { ... } }()\<close>: the variable \<open>success\<close> is set just before the last return, so
  the cleanup runs exactly when the rest of the function does not get there.
\<close>

definition unless_success :: "('s, 'b) io \<Rightarrow> ('s, unit) io \<Rightarrow> ('s, unit) io" where
  "unless_success cleanup m s =
     (case m s of
        (Inr x, s') \<Rightarrow> (Inr x, s')
      | (Inl e, s') \<Rightarrow> (Inl e, snd (cleanup s')))"

definition set_IfName :: "string \<Rightarrow> ('w call, unit) io" where
  "set_IfName name s = (Inr (), s\<lparr>the_args := (the_args s)\<lparr>IfName := name\<rparr>\<rparr>)"

text \<open>The second interface; the name is changed in the arguments that the bridge controller holds too.\<close>

definition add_macvlan :: "'w village_env \<Rightarrow> string \<Rightarrow> cni_result \<Rightarrow> ('w call, unit) io" where
  "add_macvlan V cniVersion mvIf s =
     (if 0 < length (Interfaces mvIf) \<and> vc_MacVlan (the_conf s) \<noteq> None
      then bind_io (set_IfName ''mv0'') (\<lambda>_. ctrl_Add (macvlan_NewCtrl (ve_if V) cniVersion (Some mvIf))) s
      else ret () s)"

definition village_add3 :: "'w village_env \<Rightarrow> string \<Rightarrow> cni_result \<Rightarrow> ('w call, unit) io" where
  "village_add3 V cniVersion r =
     bind_io (lift_res (NewResultFromResult (ie_lib (ve_if V)) r)) (\<lambda>result.
     bind_io (lift_res (split_result cniVersion result)) (\<lambda>(brIf, mvIf).
     let ctrl = bridge_NewCtrl (ve_if V) cniVersion (Some brIf)
     in bind_io (ctrl_Add ctrl) (\<lambda>_.
        unless_success (ctrl_Del ctrl) (add_macvlan V cniVersion mvIf))))"

definition village_cmdAdd :: "'w village_env \<Rightarrow> cmd_args \<Rightarrow> ('w, unit) io" where
  "village_cmdAdd V args =
     bind_io (lift_res (village_loadConf V (StdinData args))) (\<lambda>(conf, cniVersion).
       case vc_IPAM conf of
         None \<Rightarrow> fail nil_deref
       | Some i \<Rightarrow>
           if ic_Type i = '''' then in_call (ctrl_Add (bridge_NewCtrl (ve_if V) cniVersion None)) conf args
           else
             in_call (bind_io (on_world (ExecAdd (ve_delegate V) (ic_Type i) (StdinData args))) (\<lambda>r.
               unless_success (on_world (ExecDel (ve_delegate V) (ic_Type i) (StdinData args)))
                 (village_add3 V cniVersion r))) conf args)"

text \<open>The macvlan interface is deleted first, and only by name; its result is dropped.\<close>

definition del_macvlan :: "'w village_env \<Rightarrow> string \<Rightarrow> ('w call, unit) io" where
  "del_macvlan V cniVersion s =
     bind_io (set_IfName ''mv0'') (\<lambda>_.
     attempt (ctrl_Del (macvlan_NewCtrl (ve_if V) cniVersion None)) (\<lambda>_.
     set_IfName (IfName (the_args s)))) s"

definition village_cmdDel :: "'w village_env \<Rightarrow> cmd_args \<Rightarrow> ('w, unit) io" where
  "village_cmdDel V args =
     bind_io (lift_res (village_loadConf V (StdinData args))) (\<lambda>(conf, cniVersion).
       case vc_IPAM conf of
         None \<Rightarrow> fail nil_deref
       | Some i \<Rightarrow>
           in_call (bind_io (if ic_Type i \<noteq> '''' then on_world (ExecDel (ve_delegate V) (ic_Type i) (StdinData args)) else ret ()) (\<lambda>_.
             bind_io (del_macvlan V cniVersion) (\<lambda>_.
             ctrl_Del (bridge_NewCtrl (ve_if V) cniVersion None)))) conf args)"

definition village_cmdCheck :: "'w village_env \<Rightarrow> cmd_args \<Rightarrow> ('w, unit) io" where
  "village_cmdCheck V args =
     bind_io (lift_res (village_loadConf V (StdinData args))) (\<lambda>(conf, cniVersion).
       case vc_IPAM conf of
         None \<Rightarrow> fail nil_deref
       | Some i \<Rightarrow>
           in_call (bind_io (on_world (ExecCheck (ve_delegate V) (ic_Type i) (StdinData args))) (\<lambda>_.
             attempt (ctrl_Check (macvlan_NewCtrl (ve_if V) cniVersion None)) (\<lambda>_.
             ctrl_Check (bridge_NewCtrl (ve_if V) cniVersion None)))) conf args)"

end
