(* ===== verification/Bridge_Props.thy ===== *)
theory Bridge_Props
  imports Bridge_Ctrl
begin

text \<open>
  What the operations of the bridge guarantee: the gateways and default routes that \<open>calcGateways\<close> adds,
  and that assigning an address to the bridge a second time changes nothing.
\<close>

section \<open>Gateways\<close>

text \<open>The text of the default destinations, as the search of \<open>calcGateways\<close> compares it.\<close>

lemma default_net_string:
  "ipnet_string (default_net True) = ''0.0.0.0/0''" "ipnet_string (default_net False) = ''::/0''"
  by code_simp+

definition is_v4 :: "ipconfig \<Rightarrow> bool" where
  "is_v4 ipc \<longleftrightarrow> To4 (net_ip (Address ipc)) \<noteq> []"

definition has_default :: "bool \<Rightarrow> route list \<Rightarrow> bool" where
  "has_default v4 routes \<longleftrightarrow> (\<exists>r\<in>set routes. ipnet_string (Dst r) = (if v4 then ''0.0.0.0/0'' else ''::/0''))"

text \<open>An address after the loop, from the address before it.\<close>

definition gateway_filled :: "village_conf \<Rightarrow> ipconfig \<Rightarrow> ipconfig \<Rightarrow> bool" where
  "gateway_filled n a b \<longleftrightarrow>
     b = a\<lparr>Interface := Some 2,
       IPGateway := if IPGateway a = [] \<and> IsGW n then calcGatewayIP (Address a) else IPGateway a\<rparr>"

text \<open>
  The state of the loop: the routes only grow, by at most one for each family that has none recorded, and a
  family that is recorded as having a default route has one.
\<close>

definition calc_inv :: "village_conf \<Rightarrow> route list \<Rightarrow> calc_vars \<Rightarrow> bool" where
  "calc_inv n rs v \<longleftrightarrow>
     (\<exists>ds. cv_routes v = rs @ ds \<and> (\<not> IsDefaultGW n \<longrightarrow> ds = [])
        \<and> length ds \<le> of_bool (defaultRouteFound (gwsV4 v)) + of_bool (defaultRouteFound (gwsV6 v)))
     \<and> (defaultRouteFound (gwsV4 v) \<longrightarrow> has_default True (cv_routes v))
     \<and> (defaultRouteFound (gwsV6 v) \<longrightarrow> has_default False (cv_routes v))"

lemma calc_ip_spec:
  assumes "calc_ip n v4 routes g ipc = (ipc', routes', g')" "defaultRouteFound g \<longrightarrow> has_default v4 routes"
  shows "gateway_filled n ipc ipc'"
    "\<exists>ds. routes' = routes @ ds \<and> (\<not> IsDefaultGW n \<longrightarrow> ds = [])
      \<and> length ds + of_bool (defaultRouteFound g) \<le> of_bool (defaultRouteFound g')"
    "defaultRouteFound g' \<longleftrightarrow> IsDefaultGW n \<or> defaultRouteFound g"
    "defaultRouteFound g' \<Longrightarrow> has_default v4 routes'"
proof -
  have d: "ipnet_string (default_net v4) = (if v4 then ''0.0.0.0/0'' else ''::/0'')"
    by (cases v4) (simp_all add: default_net_string)
  note facts = assms(1) [unfolded calc_ip_def Let_def, folded d]
  show "gateway_filled n ipc ipc'"
    using facts by (auto simp: gateway_filled_def)
  show "defaultRouteFound g' \<longleftrightarrow> IsDefaultGW n \<or> defaultRouteFound g"
    using facts by (auto split: if_splits)
  show "\<exists>ds. routes' = routes @ ds \<and> (\<not> IsDefaultGW n \<longrightarrow> ds = [])
      \<and> length ds + of_bool (defaultRouteFound g) \<le> of_bool (defaultRouteFound g')"
    using facts by (auto split: if_splits)
  show "has_default v4 routes'" if "defaultRouteFound g'"
    using facts assms(2) that unfolding has_default_def d [symmetric] by (auto simp: list_ex_iff split: if_splits)
qed

lemma has_default_append: "has_default b rs \<Longrightarrow> has_default b (rs @ ds)"
  by (auto simp: has_default_def)

lemma has_default_grow: "has_default b rs \<Longrightarrow> \<exists>ds. rs' = rs @ ds \<Longrightarrow> has_default b rs'"
  by (auto simp: has_default_def)

lemma calc_inv_v4:
  assumes "calc_inv n rs v" "calc_ip n True (cv_routes v) (gwsV4 v) ipc = (ipc', routes, g)"
  shows "calc_inv n rs (v\<lparr>cv_routes := routes, gwsV4 := g\<rparr>)" "gateway_filled n ipc ipc'"
    "IsDefaultGW n \<Longrightarrow> has_default True routes" "\<exists>ds. routes = cv_routes v @ ds"
proof -
  have pre: "defaultRouteFound (gwsV4 v) \<longrightarrow> has_default True (cv_routes v)" using assms(1) by (simp add: calc_inv_def)
  note s = calc_ip_spec [OF assms(2), OF pre]
  show "gateway_filled n ipc ipc'" by (rule s(1))
  show "\<exists>ds. routes = cv_routes v @ ds" using s(2) by blast
  show "has_default True routes" if "IsDefaultGW n" using s(3,4) that by simp
  obtain ds where ds: "routes = cv_routes v @ ds" "\<not> IsDefaultGW n \<longrightarrow> ds = []"
    "length ds + of_bool (defaultRouteFound (gwsV4 v)) \<le> of_bool (defaultRouteFound g)" using s(2) by (elim exE conjE)
  show "calc_inv n rs (v\<lparr>cv_routes := routes, gwsV4 := g\<rparr>)"
    using assms(1) s(4) ds by (auto simp: calc_inv_def has_default_append)
qed

lemma calc_inv_v6:
  assumes "calc_inv n rs v" "calc_ip n False (cv_routes v) (gwsV6 v) ipc = (ipc', routes, g)"
  shows "calc_inv n rs (v\<lparr>cv_routes := routes, gwsV6 := g\<rparr>)" "gateway_filled n ipc ipc'"
    "IsDefaultGW n \<Longrightarrow> has_default False routes" "\<exists>ds. routes = cv_routes v @ ds"
proof -
  have pre: "defaultRouteFound (gwsV6 v) \<longrightarrow> has_default False (cv_routes v)" using assms(1) by (simp add: calc_inv_def)
  note s = calc_ip_spec [OF assms(2), OF pre]
  show "gateway_filled n ipc ipc'" by (rule s(1))
  show "\<exists>ds. routes = cv_routes v @ ds" using s(2) by blast
  show "has_default False routes" if "IsDefaultGW n" using s(3,4) that by simp
  obtain ds where ds: "routes = cv_routes v @ ds" "\<not> IsDefaultGW n \<longrightarrow> ds = []"
    "length ds + of_bool (defaultRouteFound (gwsV6 v)) \<le> of_bool (defaultRouteFound g)" using s(2) by (elim exE conjE)
  show "calc_inv n rs (v\<lparr>cv_routes := routes, gwsV6 := g\<rparr>)"
    using assms(1) s(4) ds by (auto simp: calc_inv_def has_default_append)
qed

lemma calc_ips_spec:
  assumes "calc_ips n v ipcs = Inr (ipcs', v')" "calc_inv n rs v"
  shows "calc_inv n rs v' \<and> list_all2 (gateway_filled n) ipcs ipcs' \<and> (\<exists>ds. cv_routes v' = cv_routes v @ ds)
    \<and> (IsDefaultGW n \<longrightarrow> list_all (\<lambda>ipc. has_default (is_v4 ipc) (cv_routes v')) ipcs)"
  using assms
proof (induction ipcs arbitrary: v ipcs' v')
  case Nil
  then show ?case by simp
next
  case (Cons ipc ipcs)
  show ?case
  proof (cases "is_v4 ipc")
    case True
    obtain ipc1 routes g where c: "calc_ip n True (cv_routes v) (gwsV4 v) ipc = (ipc1, routes, g)"
      by (cases "calc_ip n True (cv_routes v) (gwsV4 v) ipc")
    note s = calc_inv_v4 [OF Cons.prems(2), OF c]
    obtain rest where rest: "calc_ips n (v\<lparr>cv_routes := routes, gwsV4 := g\<rparr>) ipcs = Inr (rest, v')" "ipcs' = ipc1 # rest"
      using Cons.prems(1) True by (auto simp: is_v4_def c bind_res_Inr)
    note IH = Cons.IH [OF rest(1), OF s(1)]
    then have grow: "\<exists>ds. cv_routes v' = routes @ ds" by simp
    have "IsDefaultGW n \<longrightarrow> has_default True (cv_routes v')" using s(3) has_default_grow [OF _ grow] by blast
    moreover have "\<exists>ds. cv_routes v' = cv_routes v @ ds" using s(4) grow by auto
    ultimately show ?thesis using IH s(2) rest(2) True by auto
  next
    case False
    then have l: "length (net_ip (Address ipc)) = 16" using Cons.prems(1) by (auto simp: is_v4_def split: if_splits)
    obtain ipc1 routes g where c: "calc_ip n False (cv_routes v) (gwsV6 v) ipc = (ipc1, routes, g)"
      by (cases "calc_ip n False (cv_routes v) (gwsV6 v) ipc")
    note s = calc_inv_v6 [OF Cons.prems(2), OF c]
    obtain rest where rest: "calc_ips n (v\<lparr>cv_routes := routes, gwsV6 := g\<rparr>) ipcs = Inr (rest, v')" "ipcs' = ipc1 # rest"
      using Cons.prems(1) False l by (auto simp: is_v4_def c bind_res_Inr)
    note IH = Cons.IH [OF rest(1), OF s(1)]
    then have grow: "\<exists>ds. cv_routes v' = routes @ ds" by simp
    have "IsDefaultGW n \<longrightarrow> has_default False (cv_routes v')" using s(3) has_default_grow [OF _ grow] by blast
    moreover have "\<exists>ds. cv_routes v' = cv_routes v @ ds" using s(4) grow by auto
    ultimately show ?thesis using IH s(2) rest(2) False by auto
  qed
qed


section \<open>The address of the bridge\<close>

text \<open>
  \<open>addrs w\<close>: the addresses of the link in this family, in the order the kernel lists them. Deleting takes
  the addresses with this network away, adding puts one at the end, and an address that exists is listed.
\<close>

definition link_addrs_ok :: "'w netlink \<Rightarrow> link \<Rightarrow> family \<Rightarrow> ('w \<Rightarrow> nladdr list) \<Rightarrow> bool" where
  "link_addrs_ok N br fam addrs \<longleftrightarrow>
     (\<forall>w. nl_AddrList N br fam w = (Inr (addrs w), w))
   \<and> (\<forall>a w w'. nl_AddrDel N br a w = (Inr (), w') \<longrightarrow> addrs w' = filter (\<lambda>x. ad_IPNet x \<noteq> ad_IPNet a) (addrs w))
   \<and> (\<forall>a w w'. nl_AddrAdd N br a w = (Inr (), w') \<longrightarrow> (\<exists>fl. addrs w' = addrs w @ [a\<lparr>ad_Flags := fl\<rparr>]))
   \<and> (\<forall>a w w'. nl_AddrAdd N br a w = (Inl ErrExist, w') \<longrightarrow> w' = w \<and> ad_IPNet a \<in> ad_IPNet ` set (addrs w))
   \<and> (\<forall>m. leaves addrs (nl_LinkSetHardwareAddr N br m))"

lemma link_addrs_okD:
  assumes "link_addrs_ok N br fam addrs"
  shows "nl_AddrList N br fam w = (Inr (addrs w), w)"
    "nl_AddrDel N br a w = (Inr (), w') \<Longrightarrow> addrs w' = filter (\<lambda>x. ad_IPNet x \<noteq> ad_IPNet a) (addrs w)"
    "nl_AddrAdd N br a w = (Inr (), w') \<Longrightarrow> \<exists>fl. addrs w' = addrs w @ [a\<lparr>ad_Flags := fl\<rparr>]"
    "nl_AddrAdd N br a w = (Inl ErrExist, w') \<Longrightarrow> ad_IPNet a \<in> ad_IPNet ` set (addrs w)"
    "leaves addrs (nl_LinkSetHardwareAddr N br m)"
  using assms unfolding link_addrs_ok_def by blast+

definition same_addr :: "ipnet \<Rightarrow> nladdr \<Rightarrow> bool" where
  "same_addr ipn a \<longleftrightarrow> ipnet_string (ad_IPNet a) = ipnet_string ipn"

definition conflict :: "family \<Rightarrow> ipnet \<Rightarrow> nladdr \<Rightarrow> bool" where
  "conflict fam ipn a \<longleftrightarrow>
     fam = FAMILY_V4 \<or> ipnet_contains (ad_IPNet a) (net_ip ipn) \<or> ipnet_contains ipn (net_ip (ad_IPNet a))"

text \<open>The address is in the list, and nothing before it is in conflict with it.\<close>

definition settled :: "family \<Rightarrow> ipnet \<Rightarrow> nladdr list \<Rightarrow> bool" where
  "settled fam ipn as \<longleftrightarrow> (\<exists>ys a zs. as = ys @ a # zs \<and> same_addr ipn a \<and> (\<forall>y\<in>set ys. \<not> conflict fam ipn y))"

lemma ensure_addr_loop_settled:
  "settled fam ipn as \<Longrightarrow> ensure_addr_loop N br fam ipn force as w = (Inr True, w)"
proof (induction as)
  case Nil
  then show ?case by (simp add: settled_def)
next
  case (Cons x xs)
  show ?case
  proof (cases "same_addr ipn x")
    case True
    then show ?thesis by (simp add: same_addr_def ret_def)
  next
    case False
    from Cons.prems obtain ys a zs where d: "x # xs = ys @ a # zs" "same_addr ipn a" "\<forall>y\<in>set ys. \<not> conflict fam ipn y"
      by (auto simp: settled_def)
    with False obtain ys' where ys: "ys = x # ys'" by (cases ys) auto
    then have "settled fam ipn xs" using d by (auto simp: settled_def)
    moreover have "\<not> conflict fam ipn x" using d(3) ys by simp
    ultimately show ?thesis using Cons.IH False by (simp add: same_addr_def conflict_def)
  qed
qed

text \<open>What the loop leaves: the deleted networks \<open>D\<close> are not the one wanted.\<close>

lemma ensure_addr_loop_result:
  assumes "link_addrs_ok N br fam addrs" "ensure_addr_loop N br fam ipn force as w = (Inr b, w')"
    "addrs w = filter (\<lambda>x. ad_IPNet x \<notin> D) L" "\<forall>i\<in>D. ipnet_string i \<noteq> ipnet_string ipn"
  shows "\<exists>D'. D \<subseteq> D' \<and> addrs w' = filter (\<lambda>x. ad_IPNet x \<notin> D') L \<and> (\<forall>i\<in>D'. ipnet_string i \<noteq> ipnet_string ipn)
     \<and> (if b then \<exists>ys a zs. as = ys @ a # zs \<and> same_addr ipn a \<and> (\<forall>y\<in>set ys. ad_IPNet y \<in> D' \<or> \<not> conflict fam ipn y)
        else \<forall>y\<in>set as. ad_IPNet y \<in> D' \<or> (\<not> conflict fam ipn y \<and> \<not> same_addr ipn y))"
  using assms(2-4)
proof (induction as arbitrary: w D)
  case Nil
  then show ?case by (auto simp: ret_def)
next
  case (Cons x xs)
  consider (same) "same_addr ipn x" | (conf) "\<not> same_addr ipn x" "conflict fam ipn x" | (other) "\<not> same_addr ipn x" "\<not> conflict fam ipn x"
    by blast
  then show ?case
  proof cases
    case same
    then have "b" "w' = w" using Cons.prems(1) by (auto simp: same_addr_def ret_def)
    then show ?thesis using same Cons.prems(2,3) by (intro exI [of _ D]) (auto intro: exI [of _ "[]"])
  next
    case conf
    then obtain w1 where w1: "nl_AddrDel N br \<lparr>ad_IPNet = ad_IPNet x, ad_Flags = 0\<rparr> w = (Inr (), w1)"
      "ensure_addr_loop N br fam ipn force xs w1 = (Inr b, w')"
      using Cons.prems(1)
      by (auto simp: same_addr_def conflict_def deleteAddr_def fail_def elim!: bind_io_InrE dest!: wrap_io_InrE split: if_splits)
    have v: "addrs w1 = filter (\<lambda>y. ad_IPNet y \<notin> insert (ad_IPNet x) D) L"
      using link_addrs_okD(2) [OF assms(1), OF w1(1)] Cons.prems(2) by (simp add: conj_commute)
    have n: "\<forall>i\<in>insert (ad_IPNet x) D. ipnet_string i \<noteq> ipnet_string ipn" using Cons.prems(3) conf by (simp add: same_addr_def)
    from Cons.IH [OF w1(2), OF v, OF n] obtain D' where D': "insert (ad_IPNet x) D \<subseteq> D'"
      "addrs w' = filter (\<lambda>x. ad_IPNet x \<notin> D') L" "\<forall>i\<in>D'. ipnet_string i \<noteq> ipnet_string ipn"
      "if b then \<exists>ys a zs. xs = ys @ a # zs \<and> same_addr ipn a \<and> (\<forall>y\<in>set ys. ad_IPNet y \<in> D' \<or> \<not> conflict fam ipn y)
        else \<forall>y\<in>set xs. ad_IPNet y \<in> D' \<or> (\<not> conflict fam ipn y \<and> \<not> same_addr ipn y)" by (elim exE conjE)
    show ?thesis
    proof (cases b)
      case True
      with D'(4) obtain ys a zs where "xs = ys @ a # zs" "same_addr ipn a" "\<forall>y\<in>set ys. ad_IPNet y \<in> D' \<or> \<not> conflict fam ipn y" by auto
      then have "\<exists>ys a zs. x # xs = ys @ a # zs \<and> same_addr ipn a \<and> (\<forall>y\<in>set ys. ad_IPNet y \<in> D' \<or> \<not> conflict fam ipn y)"
        using D'(1) by (intro exI [of _ "x # ys"] exI [of _ a] exI [of _ zs]) auto
      then show ?thesis using D' True by (intro exI [of _ D']) auto
    next
      case False
      then show ?thesis using D' by (intro exI [of _ D']) auto
    qed
  next
    case other
    then have "ensure_addr_loop N br fam ipn force xs w = (Inr b, w')"
      using Cons.prems(1) by (auto simp: same_addr_def conflict_def)
    from Cons.IH [OF this, OF Cons.prems(2), OF Cons.prems(3)] obtain D' where D': "D \<subseteq> D'"
      "addrs w' = filter (\<lambda>x. ad_IPNet x \<notin> D') L" "\<forall>i\<in>D'. ipnet_string i \<noteq> ipnet_string ipn"
      "if b then \<exists>ys a zs. xs = ys @ a # zs \<and> same_addr ipn a \<and> (\<forall>y\<in>set ys. ad_IPNet y \<in> D' \<or> \<not> conflict fam ipn y)
        else \<forall>y\<in>set xs. ad_IPNet y \<in> D' \<or> (\<not> conflict fam ipn y \<and> \<not> same_addr ipn y)" by (elim exE conjE)
    show ?thesis
    proof (cases b)
      case True
      with D'(4) obtain ys a zs where "xs = ys @ a # zs" "same_addr ipn a" "\<forall>y\<in>set ys. ad_IPNet y \<in> D' \<or> \<not> conflict fam ipn y" by auto
      then have "\<exists>ys a zs. x # xs = ys @ a # zs \<and> same_addr ipn a \<and> (\<forall>y\<in>set ys. ad_IPNet y \<in> D' \<or> \<not> conflict fam ipn y)"
        using other by (intro exI [of _ "x # ys"] exI [of _ a] exI [of _ zs]) auto
      then show ?thesis using D' True by (intro exI [of _ D']) auto
    next
      case False
      then show ?thesis using D' other by (intro exI [of _ D']) auto
    qed
  qed
qed

lemma ensureAddr_settled:
  assumes "link_addrs_ok N br fam addrs" "settled fam ipn (addrs w)"
  shows "ensureAddr N br fam ipn force w = (Inr (), w)"
  by (simp add: ensureAddr_def list_addrs_def bind_io_def attempt_def ret_def link_addrs_okD(1) [OF assms(1)]
      ensure_addr_loop_settled [OF assms(2)])

lemma ensureAddr_settles:
  assumes "link_addrs_ok N br fam addrs" "ensureAddr N br fam ipn force w = (Inr (), w')"
  shows "settled fam ipn (addrs w')"
proof -
  obtain b w1 where l: "ensure_addr_loop N br fam ipn force (addrs w) w = (Inr b, w1)"
    and r: "(if b then ret () else bind_io (unless_exists (''could not add IP address to '' @ lk_Name br)
        (nl_AddrAdd N br \<lparr>ad_IPNet = ipn, ad_Flags = 0\<rparr>)) (\<lambda>_.
        wrap_io ''could not set bridge's mac'' (nl_LinkSetHardwareAddr N br (lk_HardwareAddr br)))) w1 = (Inr (), w')"
    using assms(2)
    by (auto simp: ensureAddr_def list_addrs_def attempt_def ret_def link_addrs_okD(1) [OF assms(1)] bind_io_def
        split: prod.splits sum.splits)
  have "addrs w = filter (\<lambda>x. ad_IPNet x \<notin> {}) (addrs w)" by simp
  from ensure_addr_loop_result [OF assms(1), OF l, OF this] obtain D where
    D: "addrs w1 = filter (\<lambda>x. ad_IPNet x \<notin> D) (addrs w)" "\<forall>i\<in>D. ipnet_string i \<noteq> ipnet_string ipn"
    "if b then \<exists>ys a zs. addrs w = ys @ a # zs \<and> same_addr ipn a \<and> (\<forall>y\<in>set ys. ad_IPNet y \<in> D \<or> \<not> conflict fam ipn y)
     else \<forall>y\<in>set (addrs w). ad_IPNet y \<in> D \<or> (\<not> conflict fam ipn y \<and> \<not> same_addr ipn y)" by auto
  show ?thesis
  proof (cases b)
    case True
    with D(3) obtain ys a zs where s: "addrs w = ys @ a # zs" "same_addr ipn a"
      "\<forall>y\<in>set ys. ad_IPNet y \<in> D \<or> \<not> conflict fam ipn y" by auto
    have "ad_IPNet a \<notin> D" using D(2) s(2) by (auto simp: same_addr_def)
    then have "addrs w1 = filter (\<lambda>x. ad_IPNet x \<notin> D) ys @ a # filter (\<lambda>x. ad_IPNet x \<notin> D) zs" using D(1) s(1) by simp
    then have "settled fam ipn (addrs w1)" unfolding settled_def using s(2,3)
      by (intro exI [of _ "filter (\<lambda>x. ad_IPNet x \<notin> D) ys"] exI [of _ a] exI [of _ "filter (\<lambda>x. ad_IPNet x \<notin> D) zs"]) auto
    then show ?thesis using True r by (simp add: ret_def)
  next
    case False
    obtain w2 where a: "unless_exists (''could not add IP address to '' @ lk_Name br) (nl_AddrAdd N br \<lparr>ad_IPNet = ipn, ad_Flags = 0\<rparr>) w1 = (Inr (), w2)"
      and m: "nl_LinkSetHardwareAddr N br (lk_HardwareAddr br) w2 = (Inr (), w')"
      using r False by (auto elim!: bind_io_InrE dest!: wrap_io_InrE)
    have v: "addrs w' = addrs w2" using leavesD [OF link_addrs_okD(5) [OF assms(1)], OF m] .
    have clean: "\<forall>y\<in>set (addrs w1). \<not> conflict fam ipn y \<and> \<not> same_addr ipn y" using D(1,3) False by auto
    obtain x where x: "nl_AddrAdd N br \<lparr>ad_IPNet = ipn, ad_Flags = 0\<rparr> w1 = (x, w2)"
      using a by (auto simp: unless_exists_def attempt_def ret_def fail_def split: prod.splits sum.splits if_splits)
    show ?thesis
    proof (cases x)
      case (Inr u)
      then obtain fl where "addrs w2 = addrs w1 @ [\<lparr>ad_IPNet = ipn, ad_Flags = fl\<rparr>]"
        using link_addrs_okD(3) [OF assms(1), of "\<lparr>ad_IPNet = ipn, ad_Flags = 0\<rparr>" w1 w2] x by auto
      then show ?thesis using v clean unfolding settled_def same_addr_def
        by (intro exI [of _ "addrs w1"] exI [of _ "\<lparr>ad_IPNet = ipn, ad_Flags = fl\<rparr>"] exI [of _ "[]"]) auto
    next
      case (Inl e)
      then have "e = ErrExist" using a x
        by (auto simp: unless_exists_def attempt_def ret_def fail_def split: if_splits)
      then have "ipn \<in> ad_IPNet ` set (addrs w1)"
        using link_addrs_okD(4) [OF assms(1), of "\<lparr>ad_IPNet = ipn, ad_Flags = 0\<rparr>" w1 w2] x Inl by simp
      then show ?thesis using clean by (auto simp: same_addr_def)
    qed
  qed
qed


section \<open>Witnesses\<close>

text \<open>A link whose addresses are the state of the kernel.\<close>

definition demo_addr_kernel :: "nladdr list netlink" where
  "demo_addr_kernel = (idle_kernel (\<lambda>_. 0) (\<lambda>_ w. w))\<lparr>
     nl_AddrList := \<lambda>l f w. (Inr w, w),
     nl_AddrDel := \<lambda>l a w. (Inr (), filter (\<lambda>x. ad_IPNet x \<noteq> ad_IPNet a) w),
     nl_AddrAdd := \<lambda>l a w. if ad_IPNet a \<in> ad_IPNet ` set w then (Inl ErrExist, w) else (Inr (), w @ [a])\<rparr>"

lemma demo_addr_kernel_ok: "link_addrs_ok demo_addr_kernel br fam (\<lambda>w. w)"
proof -
  have "\<exists>fl. a = a\<lparr>ad_Flags := fl\<rparr>" for a :: nladdr by (rule exI [of _ "ad_Flags a"]) simp
  then show ?thesis unfolding link_addrs_ok_def demo_addr_kernel_def leaves_def
    by (auto simp: idle_kernel_def ret_def split: if_splits)
qed

definition demo_gw :: "byte \<Rightarrow> ipnet" where
  "demo_gw n = \<lparr>net_ip = [10, 1, n, 1], net_mask = [255, 255, 255, 0]\<rparr>"


definition demo_bridge_conf :: village_conf where
  "demo_bridge_conf = \<lparr>ConfVersion = [], ConfName = [], ConfType = ''village'', ConfIPAM = [], RawPrevResult = None, PrevResult = None,
     vc_Name = ''n'', vc_CNIVersion = ''0.4.0'', vc_IPAM = Some \<lparr>ic_Name = ''i'', ic_Type = ''village-ipam'', ic_SocketPath = []\<rparr>,
     vc_DNS = empty_dns, vc_MacVlan = Some \<lparr>mv_Master = ''eth0'', mv_Mode = [], mv_Mac = [], mv_MTU = 0\<rparr>, BrName = ''cni0'',
     IsGW = True, IsDefaultGW = True, ForceAddress = False, BrMTU = 0, IPMasq = False, HairpinMode = False, PromiscMode = False,
     Vlan_id = 0, vc_RuntimeIPs = [], vc_RuntimeMac = [], vc_Kubeconfig = []\<rparr>"

definition demo_two_ips :: cni_result where
  "demo_two_ips = empty_result\<lparr>IPs := [
     \<lparr>Version = ''4'', Interface = None, Address = \<lparr>net_ip = [10, 1, 2, 5], net_mask = [255, 255, 255, 0]\<rparr>, IPGateway = []\<rparr>,
     \<lparr>Version = ''6'', Interface = None, Address = \<lparr>net_ip = [0x20, 1] @ replicate 13 0 @ [5], net_mask = replicate 8 255 @ replicate 8 0\<rparr>,
       IPGateway = [0x20, 1] @ replicate 13 0 @ [1]\<rparr>]\<rparr>"


end
