(* ===== verification/Village_Props.thy ===== *)
theory Village_Props
  imports Village Bridge_Props
begin

text \<open>
  The \<open>village\<close> plugin as a whole: how the IPAM result is split between the two controllers, what ADD leaves
  behind when it fails, and that CHECK cannot succeed.
\<close>

section \<open>The split of the IPAM result\<close>

definition for_macvlan :: "iface list \<Rightarrow> ipconfig \<Rightarrow> bool" where
  "for_macvlan is ip \<longleftrightarrow> (case Interface ip of None \<Rightarrow> False | Some i \<Rightarrow> has_prefix (Name (is ! nat i)) ''mv'')"

definition index_ok :: "iface list \<Rightarrow> ipconfig \<Rightarrow> bool" where
  "index_ok is ip \<longleftrightarrow> (case Interface ip of None \<Rightarrow> True | Some i \<Rightarrow> 0 \<le> i \<and> i < int (length is))"

text \<open>An address of a controller's result points at an interface of that result.\<close>

definition points_at :: "(string \<Rightarrow> bool) \<Rightarrow> cni_result \<Rightarrow> ipconfig \<Rightarrow> bool" where
  "points_at P res ip \<longleftrightarrow> (\<exists>k<length (Interfaces res). Interface ip = Some (int k) \<and> P (Name (Interfaces res ! k)))"

definition body_of :: "ipconfig \<Rightarrow> string \<times> ipnet \<times> ip" where
  "body_of ip = (Version ip, Address ip, IPGateway ip)"

definition split_inv :: "cni_result \<times> cni_result \<Rightarrow> bool" where
  "split_inv v \<longleftrightarrow>
     (\<forall>ip\<in>set (IPs (fst v)). Interface ip = None \<or> points_at (\<lambda>n. \<not> has_prefix n ''mv'') (fst v) ip)
   \<and> (\<forall>ip\<in>set (IPs (snd v)). points_at (\<lambda>n. has_prefix n ''mv'') (snd v) ip)"

lemma points_at_append:
  assumes "points_at P res ip"
  shows "points_at P (res\<lparr>Interfaces := Interfaces res @ l, IPs := x\<rparr>) ip"
proof -
  obtain k where k: "k < length (Interfaces res)" "Interface ip = Some (int k)" "P (Name (Interfaces res ! k))"
    using assms by (auto simp: points_at_def)
  then show ?thesis unfolding points_at_def by (intro exI [of _ k]) (simp add: nth_append)
qed

lemma split_ip_step:
  assumes "index_ok is ip" "split_inv v"
  shows "\<exists>v'. split_ip is v ip = Inr v' \<and> split_inv v'
     \<and> map body_of (IPs (fst v')) = map body_of (IPs (fst v)) @ (if for_macvlan is ip then [] else [body_of ip])
     \<and> map body_of (IPs (snd v')) = map body_of (IPs (snd v)) @ (if for_macvlan is ip then [body_of ip] else [])"
proof (cases "Interface ip")
  case None
  then show ?thesis using assms(2)
    by (cases v) (auto simp: split_ip_def for_macvlan_def split_inv_def body_of_def points_at_def)
next
  case (Some i)
  then have i: "0 \<le> i" "i < int (length is)" using assms(1) by (simp_all add: index_ok_def)
  obtain b m where v: "v = (b, m)" by (cases v)
  define inf where "inf = is ! nat i"
  define body where "body = \<lparr>Version = Version ip, Interface = None, Address = Address ip, IPGateway = IPGateway ip\<rparr>"
  show ?thesis
  proof (cases "has_prefix (Name inf) ''mv''")
    case True
    define m' where "m' = m\<lparr>Interfaces := Interfaces m @ [inf], IPs := IPs m @ [body\<lparr>Interface := Some (int (length (Interfaces m)))\<rparr>]\<rparr>"
    have "split_ip is v ip = Inr (b, m')" using Some i True
      by (simp add: split_ip_def v Let_def inf_def body_def m'_def)
    moreover have "split_inv (b, m')" using assms(2) True
      by (auto simp: split_inv_def v m'_def points_at_append) (simp add: points_at_def nth_append)
    ultimately show ?thesis using Some True by (auto simp: v m'_def for_macvlan_def body_of_def body_def inf_def)
  next
    case False
    define b' where "b' = b\<lparr>Interfaces := Interfaces b @ [inf], IPs := IPs b @ [body\<lparr>Interface := Some (int (length (Interfaces b)))\<rparr>]\<rparr>"
    have "split_ip is v ip = Inr (b', m)" using Some i False
      by (simp add: split_ip_def v Let_def inf_def body_def b'_def)
    moreover have "split_inv (b', m)" using assms(2) False
      by (auto simp: split_inv_def v b'_def points_at_append) (simp add: points_at_def nth_append)
    ultimately show ?thesis using Some False by (auto simp: v b'_def for_macvlan_def body_of_def body_def inf_def)
  qed
qed

lemma split_ips_spec:
  assumes "\<forall>ip\<in>set ips. index_ok is ip" "split_inv v"
  shows "\<exists>v'. split_ips is v ips = Inr v' \<and> split_inv v'
     \<and> map body_of (IPs (fst v')) = map body_of (IPs (fst v)) @ map body_of (filter (\<lambda>ip. \<not> for_macvlan is ip) ips)
     \<and> map body_of (IPs (snd v')) = map body_of (IPs (snd v)) @ map body_of (filter (for_macvlan is) ips)"
  using assms
proof (induction ips arbitrary: v)
  case Nil
  then show ?case by simp
next
  case (Cons ip ips)
  then have "index_ok is ip" by simp
  from split_ip_step [OF this, OF Cons.prems(2)] obtain v1 where v1: "split_ip is v ip = Inr v1" "split_inv v1"
    "map body_of (IPs (fst v1)) = map body_of (IPs (fst v)) @ (if for_macvlan is ip then [] else [body_of ip])"
    "map body_of (IPs (snd v1)) = map body_of (IPs (snd v)) @ (if for_macvlan is ip then [body_of ip] else [])"
    by (elim exE conjE)
  have "\<forall>ip\<in>set ips. index_ok is ip" using Cons.prems(1) by simp
  from Cons.IH [OF this, OF v1(2)] obtain v2 where "split_ips is v1 ips = Inr v2" "split_inv v2"
    "map body_of (IPs (fst v2)) = map body_of (IPs (fst v1)) @ map body_of (filter (\<lambda>ip. \<not> for_macvlan is ip) ips)"
    "map body_of (IPs (snd v2)) = map body_of (IPs (snd v1)) @ map body_of (filter (for_macvlan is) ips)"
    by (elim exE conjE)
  then show ?case using v1 by simp
qed


section \<open>ADD that fails\<close>

lemma in_call_result: "in_call m conf args w = (r, w') \<Longrightarrow>
    \<exists>s. m \<lparr>world = w, the_conf = conf, the_args = args\<rparr> = (r, s) \<and> world s = w'"
  by (auto simp: in_call_def split: prod.splits)

text \<open>
  C3: once the IPAM plugin has given addresses, every failing ADD, a panic included, ends with the DEL of
  the IPAM plugin, so no address stays reserved for a container that was not connected.
\<close>

theorem village_add_releases:
  assumes "village_loadConf V (StdinData args) = Inr (conf, v)" "vc_IPAM conf = Some i" "ic_Type i \<noteq> []"
    "ExecAdd (ve_delegate V) (ic_Type i) (StdinData args) w = (Inr r, w1)" "village_cmdAdd V args w = (Inl e, w')"
  shows "\<exists>w2. w' = snd (ExecDel (ve_delegate V) (ic_Type i) (StdinData args) w2)"
proof -
  let ?s1 = "\<lparr>world = w1, the_conf = conf, the_args = args\<rparr>"
  obtain s where s: "unless_success (on_world (ExecDel (ve_delegate V) (ic_Type i) (StdinData args))) (village_add3 V v r) ?s1 = (Inl e, s)"
    "world s = w'"
    using assms by (auto simp: village_cmdAdd_def lift_res_def bind_io_def ret_def on_world_def dest!: in_call_result)
  obtain x s2 where x: "village_add3 V v r ?s1 = (x, s2)" by (cases "village_add3 V v r ?s1")
  then have "s = snd (on_world (ExecDel (ve_delegate V) (ic_Type i) (StdinData args)) s2)"
    using s(1) by (auto simp: unless_success_def split: sum.splits)
  then show ?thesis using s(2) by auto
qed

text \<open>
  When the bridge interface was added and the macvlan interface fails, the cleanup deletes the interface
  \<open>mv0\<close> once more: the name in the shared arguments has been changed, so the interface that the bridge
  controller made is not deleted.
\<close>

theorem village_add_cleanup_name:
  assumes "NewResultFromResult (ie_lib (ve_if V)) r = Inr result" "split_result v result = Inr (brIf, mvIf)"
    "bridge_Add (ve_if V) v (Some brIf) s = (Inr (), s1)"
    "add_macvlan V v mvIf s1 = (Inl e, s2)"
  shows "the_args s2 = (the_args s1)\<lparr>IfName := ''mv0''\<rparr>
     \<and> village_add3 V v r s = (Inl e, snd (on_world (bridge_del (ve_if V) (the_conf s2) ((the_args s1)\<lparr>IfName := ''mv0''\<rparr>)) s2))"
proof -
  have a: "macvlan_Add (ve_if V) v (Some mvIf) (s1\<lparr>the_args := (the_args s1)\<lparr>IfName := ''mv0''\<rparr>\<rparr>) = (Inl e, s2)"
    using assms(4) by (auto simp: add_macvlan_def bind_io_def set_IfName_def ret_def macvlan_NewCtrl_def split: if_splits)
  then have n: "the_args s2 = (the_args s1)\<lparr>IfName := ''mv0''\<rparr>"
    by (auto simp: macvlan_Add_def on_world_def split: prod.splits)
  have "village_add3 V v r s = unless_success (bridge_Del (ve_if V)) (add_macvlan V v mvIf) s1"
    by (simp add: village_add3_def bind_io_def lift_res_def ret_def assms(1-3) bridge_NewCtrl_def)
  also have "\<dots> = (Inl e, snd (bridge_Del (ve_if V) s2))" by (simp add: unless_success_def assms(4))
  finally show ?thesis using n by (simp add: bridge_Del_def)
qed

section \<open>CHECK\<close>

lemma take_prev_result_clears: "RawPrevResult (the_conf (snd (take_prev_result L msg s))) = None"
  by (simp add: take_prev_result_def split: option.splits sum.splits)

lemma take_prev_result_None:
  "RawPrevResult (the_conf s) = None \<Longrightarrow> take_prev_result L msg s = (Inl (Errorf msg), s)"
  by (simp add: take_prev_result_def)

text \<open>A \<open>Check\<close> of the macvlan controller that gets at the namespace uses the previous result up.\<close>

lemma macvlan_Check_clears:
  assumes "GetNS (nl_os (ie_netlink E)) (Netns (the_args s)) (world s) = (Inr n, w1)" "macvlan_Check E s = (r, s')"
  shows "RawPrevResult (the_conf s') = None"
proof -
  let ?m = "bind_io (take_prev_result (ie_lib E) ''Required prevResult missing'') (\<lambda>result s'.
           on_world (macvlan_check_result E (the_conf s') (the_args s) n result) s')"
  obtain x s2 where x: "?m (s\<lparr>world := w1\<rparr>) = (x, s2)" by (cases "?m (s\<lparr>world := w1\<rparr>)")
  have "s' = snd (on_world (ns_Close (nl_os (ie_netlink E)) n) s2)"
    using assms x by (auto simp: macvlan_Check_def Let_def bind_io_def [of "on_world _"] on_world_def [of "wrap_io _ _"] wrap_io_def
        finally_io_def split: prod.splits)
  then have "the_conf s' = the_conf s2" by simp
  moreover obtain y s3 where y: "take_prev_result (ie_lib E) ''Required prevResult missing'' (s\<lparr>world := w1\<rparr>) = (y, s3)"
    by (cases "take_prev_result (ie_lib E) ''Required prevResult missing'' (s\<lparr>world := w1\<rparr>)")
  moreover have "RawPrevResult (the_conf s3) = None"
    using take_prev_result_clears [of "ie_lib E" "''Required prevResult missing''" "s\<lparr>world := w1\<rparr>"] y by simp
  moreover have "the_conf s2 = the_conf s3"
    using x y by (cases y) (auto simp: bind_io_def on_world_def split: prod.splits)
  ultimately show ?thesis by simp
qed

lemma bridge_Check_without_result:
  assumes "RawPrevResult (the_conf s) = None"
  shows "\<exists>e s'. bridge_Check E s = (Inl e, s')"
proof (cases "GetNS (nl_os (ie_netlink E)) (Netns (the_args s)) (world s)")
  case (Pair r w1)
  show ?thesis
  proof (cases r)
    case (Inl e)
    then show ?thesis using Pair by (simp add: bridge_Check_def Let_def bind_io_def on_world_def wrap_io_def)
  next
    case (Inr n)
    have "take_prev_result (ie_lib E) m (s\<lparr>world := w1\<rparr>) = (Inl (Errorf m), s\<lparr>world := w1\<rparr>)" for m
      using assms by (intro take_prev_result_None) simp
    then show ?thesis using Pair Inr
      by (simp add: bridge_Check_def Let_def bind_io_def on_world_def [of "wrap_io _ _"] wrap_io_def finally_io_def)
  qed
qed

text \<open>
  CHECK of the plugin cannot succeed on a container whose namespace opens: the check of the macvlan
  controller, made first and with its result ignored, parses the previous result and clears it in the
  configuration that the bridge controller then reads.
\<close>

theorem village_check_fails:
  assumes "village_loadConf V (StdinData args) = Inr (conf, v)" "vc_IPAM conf = Some i"
    "ExecCheck (ve_delegate V) (ic_Type i) (StdinData args) w = (Inr (), w1)"
    "GetNS (nl_os (ie_netlink (ve_if V))) (Netns args) w1 = (Inr n, w2)"
  shows "\<exists>e w'. village_cmdCheck V args w = (Inl e, w')"
proof -
  let ?s1 = "\<lparr>world = w1, the_conf = conf, the_args = args\<rparr>"
  obtain r s2 where r: "macvlan_Check (ve_if V) ?s1 = (r, s2)" by (cases "macvlan_Check (ve_if V) ?s1")
  have "RawPrevResult (the_conf s2) = None" by (rule macvlan_Check_clears [where s = ?s1]) (use assms(4) r in simp_all)
  from bridge_Check_without_result [OF this, of "ve_if V"] obtain e s3 where b: "bridge_Check (ve_if V) s2 = (Inl e, s3)"
    by (elim exE)
  have "\<exists>e s'. attempt (ctrl_Check (macvlan_NewCtrl (ve_if V) v None)) (\<lambda>_. ctrl_Check (bridge_NewCtrl (ve_if V) v None)) ?s1 = (Inl e, s')"
    using r b by (cases r) (auto simp: attempt_def macvlan_NewCtrl_def bridge_NewCtrl_def)
  then show ?thesis using assms(1-3)
    by (auto simp: village_cmdCheck_def in_call_def bind_io_def lift_res_def ret_def on_world_def)
qed

section \<open>Witnesses\<close>

definition demo_iface :: "string \<Rightarrow> iface" where
  "demo_iface n = \<lparr>Name = n, Mac = [], Sandbox = []\<rparr>"

definition demo_ipconfig :: "byte \<Rightarrow> int option \<Rightarrow> ipconfig" where
  "demo_ipconfig k i = \<lparr>Version = ''4'', Interface = i, Address = \<lparr>net_ip = [10, 1, 2, k], net_mask = [255, 255, 255, 0]\<rparr>,
     IPGateway = [10, 1, 2, 1]\<rparr>"

definition demo_ipam_result :: cni_result where
  "demo_ipam_result = empty_result\<lparr>Interfaces := [demo_iface ''eth0'', demo_iface ''mv0''],
     IPs := [demo_ipconfig 5 (Some 0), demo_ipconfig 6 (Some 1), demo_ipconfig 7 None]\<rparr>"


text \<open>A kernel with one bridge whose ports are up, and an environment whose state counts the DEL calls of IPAM.\<close>

definition demo_kernel :: "nat netlink" where
  "demo_kernel = (idle_kernel (\<lambda>_. 0) (\<lambda>_ w. w))\<lparr>nl_LinkByName := \<lambda>n.
     ret ((new_link n (if n = ''cni0'' then Bridge None else Device))\<lparr>lk_OperState := 6\<rparr>)\<rparr>"

definition demo_if_env :: "nat if_env" where
  "demo_if_env = \<lparr>ie_netlink = demo_kernel,
     ie_lib = \<lparr>ParsePrevResult = \<lambda>_ _. Inr empty_result, NewResultFromResult = \<lambda>r. Inr r, PrintResult = \<lambda>_ _. ret ()\<rparr>,
     ie_iptables = \<lambda>_. fail (EnvError 1), ie_sha = \<lambda>_. [], ie_quote = \<lambda>s. s, ie_debugPostIPAMError = None\<rparr>"

definition demo_village :: "village_conf \<Rightarrow> nat village_env" where
  "demo_village conf = \<lparr>ve_if = demo_if_env,
     ve_delegate = \<lparr>DelegateAdd = \<lambda>_ _. ret demo_ipam_result, DelegateCheck = \<lambda>_ _. ret (), DelegateDel = \<lambda>_ _ w. (Inr (), Suc w)\<rparr>,
     ve_Unmarshal = \<lambda>_. Inr conf\<rparr>"

definition demo_village_args :: cmd_args where
  "demo_village_args = \<lparr>ContainerID = ''c1'', Netns = ''/run/netns/c1'', IfName = ''eth0'', CniArgs = [], Path = [], StdinData = ''{}''\<rparr>"

definition demo_bad_mode :: village_conf where
  "demo_bad_mode = demo_bridge_conf\<lparr>IsGW := False, IsDefaultGW := False, vc_MacVlan := Some \<lparr>mv_Master = ''eth0'', mv_Mode = ''odd'', mv_Mac = [], mv_MTU = 0\<rparr>\<rparr>"

theorem village_add_releases_witness:
  "\<exists>e w2. village_cmdAdd (demo_village (demo_bridge_conf\<lparr>HairpinMode := True, PromiscMode := True\<rparr>)) demo_village_args 0 = (Inl e, Suc w2)"
proof -
  let ?V = "demo_village (demo_bridge_conf\<lparr>HairpinMode := True, PromiscMode := True\<rparr>)"
  have "\<not> is_ok (fst (village_cmdAdd ?V demo_village_args 0))"
    by (auto simp: village_cmdAdd_def village_loadConf_def demo_village_def demo_bridge_conf_def in_call_def village_add3_def
        unless_success_def bind_io_def lift_res_def ret_def fail_def on_world_def ExecAdd_def demo_if_env_def bridge_NewCtrl_def
        bridge_Add_def bridge_add_def split: sum.splits prod.splits)
  then obtain e w' where e: "village_cmdAdd ?V demo_village_args 0 = (Inl e, w')"
    by (cases "village_cmdAdd ?V demo_village_args 0"; cases "fst (village_cmdAdd ?V demo_village_args 0)") auto
  have "\<exists>w2. w' = snd (ExecDel (ve_delegate ?V) (ic_Type \<lparr>ic_Name = ''i'', ic_Type = ''village-ipam'', ic_SocketPath = []\<rparr>)
      (StdinData demo_village_args) w2)"
    by (rule village_add_releases [OF _ _ _ _ e, where conf = "demo_bridge_conf\<lparr>HairpinMode := True, PromiscMode := True\<rparr>" and i = "\<lparr>ic_Name = ''i'', ic_Type = ''village-ipam'', ic_SocketPath = []\<rparr>"])
      (simp_all add: village_loadConf_def demo_village_def demo_bridge_conf_def ExecAdd_def ret_def)
  then show ?thesis using e by (auto simp: ExecDel_def demo_village_def)
qed

lemma demo_call_GetNS: "GetNS (nl_os demo_kernel) p w = (Inr \<lparr>ns_file = p, ns_fd = 3, ns_closed = False\<rparr>, w)"
  by (simp add: GetNS_def IsNSorErr_def demo_kernel_def idle_kernel_def io_defs)

lemma demo_ns_Do:
  "\<not> ns_closed n \<Longrightarrow> ns_Do (nl_os demo_kernel) n f w = f \<lparr>ns_file = ''self'', ns_fd = 3, ns_closed = False\<rparr> w"
  by (simp add: ns_Do_def GetCurrentNS_def demo_call_GetNS errorIfClosed_def on_thread_def containedCall_def ns_Close_def ns_Set_def
      finally_io_def io_defs split: prod.split)
    (simp add: demo_kernel_def idle_kernel_def io_defs finally_io_def split: prod.split)

definition demo_mv_result :: cni_result where
  "demo_mv_result = empty_result\<lparr>CNIVersion := ''0.4.0'', Interfaces := [demo_iface ''mv0''], IPs := [demo_ipconfig 6 (Some 0)]\<rparr>"

definition demo_br_result :: cni_result where
  "demo_br_result = empty_result\<lparr>CNIVersion := ''0.4.0'', Interfaces := [demo_iface ''eth0''],
     IPs := [demo_ipconfig 5 (Some 0), demo_ipconfig 7 None]\<rparr>"

lemma demo_split: "split_result ''0.4.0'' demo_ipam_result = Inr (demo_br_result, demo_mv_result)"
  by (simp add: split_result_def demo_ipam_result_def demo_br_result_def demo_mv_result_def empty_result_def demo_ipconfig_def
      split_ip_def demo_iface_def has_prefix_def Let_def empty_dns_def)

lemma demo_calc: "\<exists>r g4 g6. calcGateways (demo_br_result\<lparr>Interfaces := is, CNIVersion := v\<rparr>) demo_bad_mode = Inr (r, g4, g6)
    \<and> Interfaces r = is \<and> Routes r = [] \<and> IPs r = [demo_ipconfig 5 (Some 2), demo_ipconfig 7 (Some 2)]"
  by (simp add: calcGateways_def demo_br_result_def demo_bad_mode_def demo_bridge_conf_def calc_ip_def no_gws_def Let_def
      demo_ipconfig_def To4_def empty_result_def)

lemma demo_configure:
  assumes "Interfaces r = [a, b, demo_iface' ]" "Name demo_iface' = ''eth0''" "Routes r = []"
    "IPs r = [demo_ipconfig 5 (Some 2), demo_ipconfig 7 (Some 2)]"
  shows "ConfigureIface demo_kernel ''eth0'' r w = Some (Inr (), w)"
  using assms by (simp add: ConfigureIface_def configure_addrs_def add_ipconfig_def demo_ipconfig_def To4_def Let_def
      demo_kernel_def idle_kernel_def io_defs)

lemma demo_bridge_devices:
  "setupBridge demo_kernel demo_bad_mode w = (Inr (new_link ''cni0'' (Bridge None)\<lparr>lk_OperState := 6\<rparr>, demo_iface ''cni0''), w)"
  "bridgeByName demo_kernel ''cni0'' w = (Inr (new_link ''cni0'' (Bridge None)\<lparr>lk_OperState := 6\<rparr>), w)"
  by (simp_all add: setupBridge_def ensureBridge_def add_bridge_def bridgeByName_def demo_bad_mode_def demo_bridge_conf_def
      demo_kernel_def idle_kernel_def io_defs Let_def Sysctl_def setSysctl_def getSysctl_def new_link_def mac_string_def demo_iface_def)

lemma demo_kernel_calls:
  "nl_LinkByName demo_kernel n = ret ((new_link n (if n = ''cni0'' then Bridge None else Device))\<lparr>lk_OperState := 6\<rparr>)"
  "nl_LinkAdd demo_kernel l = ret 1" "nl_LinkSetUp demo_kernel l = ret ()" "nl_LinkSetNsFd demo_kernel l f = ret ()"
  "nl_LinkSetMaster demo_kernel l l2 = ret ()" "nl_LinkSetHairpin demo_kernel l b = ret ()" "nl_rand demo_kernel k = ret (replicate k 0)"
  "nl_files demo_kernel = \<lparr>ReadFile = \<lambda>_. ret ''0'', WriteFile = \<lambda>_ _. ret ()\<rparr>" "nl_Sleep demo_kernel d w = w"
  "nl_InterfaceByName demo_kernel n = ret ()" "nl_GratuitousArp demo_kernel a n = ret ()"
  by (simp_all add: demo_kernel_def idle_kernel_def)

lemma demo_makeVeth: "\<exists>p l. makeVeth demo_kernel ''eth0'' [] 0 w = (Inr (p, l), w) \<and> lk_Name l = ''eth0''"
proof -
  have "(10 :: nat) = Suc 9" by simp
  then show ?thesis
    by (simp only: makeVeth_def makeVeth_loop.simps)
      (simp add: veth_peer_name_def RandomVethName_def makeVethPair_def demo_kernel_calls io_defs new_link_def)
qed

lemma demo_veth: "\<exists>h c. setupVeth demo_kernel \<lparr>ns_file = p, ns_fd = 3, ns_closed = False\<rparr> br ''eth0'' 0 False 0 w = (Inr (h, c), w)
    \<and> Name c = ''eth0''"
proof -
  obtain q l where l: "makeVeth demo_kernel ''eth0'' [] 0 w = (Inr (q, l), w)" "lk_Name l = ''eth0''"
    using demo_makeVeth by blast
  have "\<exists>h c. SetupVeth demo_kernel ''eth0'' 0 \<lparr>ns_file = ''self'', ns_fd = 3, ns_closed = False\<rparr> w = (Inr (h, c), w) \<and> if_Name c = ''eth0''"
    using l by (simp add: SetupVeth_def SetupVethWithName_def demo_ns_Do demo_kernel_calls io_defs Sysctl_def setSysctl_def
        getSysctl_def ifaceFromNetlinkLink_def)
  then obtain h c where "SetupVeth demo_kernel ''eth0'' 0 \<lparr>ns_file = ''self'', ns_fd = 3, ns_closed = False\<rparr> w = (Inr (h, c), w)"
    "if_Name c = ''eth0''" by (elim exE conjE)
  then show ?thesis by (simp add: setupVeth_def demo_ns_Do demo_kernel_calls io_defs Let_def)
qed

lemma demo_bridge_Add:
  "\<exists>s'. bridge_Add demo_if_env ''0.4.0'' (Some demo_br_result) \<lparr>world = w, the_conf = demo_bad_mode, the_args = demo_village_args\<rparr>
     = (Inr (), s') \<and> the_args s' = demo_village_args \<and> the_conf s' = demo_bad_mode"
proof -
  have args: "Netns demo_village_args = ''/run/netns/c1''" "IfName demo_village_args = ''eth0''" by (simp_all add: demo_village_args_def)
  have conf: "\<not> HairpinMode demo_bad_mode" "\<not> PromiscMode demo_bad_mode" "\<not> IsGW demo_bad_mode" "\<not> IsDefaultGW demo_bad_mode"
    "\<not> IPMasq demo_bad_mode" "BrMTU demo_bad_mode = 0" "Vlan_id demo_bad_mode = 0" "BrName demo_bad_mode = ''cni0''"
    by (simp_all add: demo_bad_mode_def demo_bridge_conf_def)
  have env: "ie_netlink demo_if_env = demo_kernel" "ie_debugPostIPAMError demo_if_env = None" "PrintResult (ie_lib demo_if_env) r v = ret ()" for r v
    by (simp_all add: demo_if_env_def)
  obtain h c where v: "setupVeth demo_kernel \<lparr>ns_file = ''/run/netns/c1'', ns_fd = 3, ns_closed = False\<rparr>
      (new_link ''cni0'' (Bridge None)\<lparr>lk_OperState := 6\<rparr>) ''eth0'' 0 False 0 w = (Inr (h, c), w)" "Name c = ''eth0''"
    using demo_veth by blast
  obtain r g4 g6 where r: "calcGateways (demo_br_result\<lparr>Interfaces := [demo_iface ''cni0'', h, c], CNIVersion := ''0.4.0''\<rparr>) demo_bad_mode
      = Inr (r, g4, g6)" "Interfaces r = [demo_iface ''cni0'', h, c]" "Routes r = []" "IPs r = [demo_ipconfig 5 (Some 2), demo_ipconfig 7 (Some 2)]"
    using demo_calc by blast
  have res: "empty_result\<lparr>CNIVersion := ''0.4.0'', Interfaces := [demo_iface ''cni0'', h, c], IPs := IPs demo_br_result, Routes := Routes demo_br_result\<rparr>
      = demo_br_result\<lparr>Interfaces := [demo_iface ''cni0'', h, c], CNIVersion := ''0.4.0''\<rparr>"
    by (simp add: demo_br_result_def empty_result_def)
  have conf6: "configure_container demo_if_env demo_bad_mode ''eth0'' r w = (Inr (), w)"
    by (simp add: configure_container_def conf env io_defs run_partial_def list_ex_iff demo_configure [OF r(2) v(2) r(3,4)])
  have up: "port_loop demo_kernel n retries w = (Inr (), w)" for n
    by (simp add: retries_def sleep_io_def demo_kernel_calls io_defs OperUp_def)
  have ann: "announce demo_kernel n r w = (Inr (), w)" for n
    by (simp add: announce_def r(4) demo_ipconfig_def demo_kernel_calls io_defs)
  have l3: "add_layer3 demo_if_env demo_bad_mode demo_village_args \<lparr>ns_file = ''/run/netns/c1'', ns_fd = 3, ns_closed = False\<rparr> br n
      (demo_br_result\<lparr>Interfaces := [demo_iface ''cni0'', h, c], CNIVersion := ''0.4.0''\<rparr>) w = (Inr r, w)" for br n
    using r(1) by (simp add: add_layer3_def Let_def env conf args demo_ns_Do lift_res_def bind_io_def ret_def conf6 up ann demo_kernel_calls)
      (simp add: demo_br_result_def)
  have "\<exists>w'. bridge_add demo_if_env ''0.4.0'' (Some demo_br_result) demo_bad_mode demo_village_args w = (Inr (), w')"
    by (simp add: bridge_add_def Let_def env conf args demo_call_GetNS demo_bridge_devices v(1) l3 res bind_io_def wrap_io_def finally_io_def ret_def
        split: prod.split)
  then show ?thesis using conf by (auto simp: bridge_Add_def on_world_def)
qed

theorem village_add_cleanup_name_witness:
  "\<exists>s e s2. IfName (the_args s) = ''eth0'' \<and> IfName (the_args s2) = ''mv0''
     \<and> village_add3 (demo_village demo_bad_mode) ''0.4.0'' demo_ipam_result s =
        (Inl e, snd (on_world (bridge_del demo_if_env (the_conf s2) (the_args s2)) s2))"
proof -
  let ?V = "demo_village demo_bad_mode" and ?s = "\<lparr>world = 0 :: nat, the_conf = demo_bad_mode, the_args = demo_village_args\<rparr>"
  have env: "ve_if ?V = demo_if_env" "ie_netlink demo_if_env = demo_kernel" by (simp_all add: demo_village_def demo_if_env_def)
  have n: "NewResultFromResult (ie_lib (ve_if ?V)) demo_ipam_result = Inr demo_ipam_result"
    by (simp add: env(1)) (simp add: demo_if_env_def)
  obtain s1 where b: "bridge_Add (ve_if ?V) ''0.4.0'' (Some demo_br_result) ?s = (Inr (), s1)" "the_args s1 = demo_village_args"
    "the_conf s1 = demo_bad_mode" using demo_bridge_Add [of 0] by (auto simp: env(1))
  have mv: "vc_MacVlan demo_bad_mode = Some \<lparr>mv_Master = ''eth0'', mv_Mode = ''odd'', mv_Mac = [], mv_MTU = 0\<rparr>"
    by (simp add: demo_bad_mode_def)
  have "\<exists>e s2. add_macvlan ?V ''0.4.0'' demo_mv_result s1 = (Inl e, s2)"
    by (simp add: add_macvlan_def b mv set_IfName_def macvlan_NewCtrl_def macvlan_Add_def macvlan_add_def env demo_call_GetNS
        createMacvlan_def modeFromString_def io_defs lift_res_def on_world_def finally_io_def Let_def demo_mv_result_def split: prod.split)
  then obtain e s2 where a: "add_macvlan ?V ''0.4.0'' demo_mv_result s1 = (Inl e, s2)" by (elim exE)
  from village_add_cleanup_name [OF n, OF demo_split, OF b(1), OF a] b(2) show ?thesis
    by (intro exI [of _ ?s] exI [of _ e] exI [of _ s2]) (simp add: demo_village_args_def env(1))
qed

theorem village_check_fails_witness:
  "\<exists>e w'. village_cmdCheck (demo_village (demo_bridge_conf\<lparr>RawPrevResult := Some ''{}''\<rparr>)) demo_village_args 0 = (Inl e, w')"
  by (rule village_check_fails [where conf = "demo_bridge_conf\<lparr>RawPrevResult := Some ''{}''\<rparr>" and v = "''0.4.0''" and i = "\<lparr>ic_Name = ''i'', ic_Type = ''village-ipam'', ic_SocketPath = []\<rparr>" and ?w1.0 = 0 and ?w2.0 = 0])
    (simp_all add: village_loadConf_def demo_village_def demo_bridge_conf_def ExecCheck_def ret_def demo_if_env_def demo_kernel_def
      idle_kernel_def GetNS_def IsNSorErr_def bind_io_def wrap_io_def NSFS_MAGIC_def PROCFS_MAGIC_def)

end
