(* ===== verification/Dhcp_Options.thy ===== *)
theory Dhcp_Options
  imports Cni_Types "HOL-Library.Signed_Division"
begin

text \<open>
  \<open>plugins/ipam/dhcp/options.go\<close>: reading the options of a DHCP acknowledgement. The options of a packet
  are a map from codes to bytes, as \<open>dhcp4.Packet.ParseOptions\<close> returns them.
\<close>

type_synonym options = "byte \<Rightarrow> byte list option"

definition OptionSubnetMask :: byte where "OptionSubnetMask = 1"
definition OptionRouter :: byte where "OptionRouter = 3"
definition OptionStaticRoute :: byte where "OptionStaticRoute = 33"
definition OptionIPAddressLeaseTime :: byte where "OptionIPAddressLeaseTime = 51"
definition OptionDHCPMessageType :: byte where "OptionDHCPMessageType = 53"
definition OptionParameterRequestList :: byte where "OptionParameterRequestList = 55"
definition OptionRenewalTimeValue :: byte where "OptionRenewalTimeValue = 58"
definition OptionRebindingTimeValue :: byte where "OptionRebindingTimeValue = 59"
definition OptionClientIdentifier :: byte where "OptionClientIdentifier = 61"
definition OptionClasslessRouteFormat :: byte where "OptionClasslessRouteFormat = 121"

section \<open>Addresses and routes\<close>

definition parseRouter :: "options \<Rightarrow> ip" where
  "parseRouter opts = (case opts OptionRouter of Some o4 \<Rightarrow> if length o4 = 4 then o4 else [] | None \<Rightarrow> [])"

text \<open>\<open>IP.DefaultMask\<close>: the mask of the class of an IPv4 address.\<close>

definition DefaultMask :: "ip \<Rightarrow> ipmask" where
  "DefaultMask a =
     (if To4 a = [] then []
      else if To4 a ! 0 < 0x80 then [255, 0, 0, 0]
      else if To4 a ! 0 < 0xC0 then [255, 255, 0, 0]
      else [255, 255, 255, 0])"

definition classfulSubnet :: "ip \<Rightarrow> ipnet" where
  "classfulSubnet sn = \<lparr>net_ip = sn, net_mask = DefaultMask sn\<rparr>"

function static_routes :: "byte list \<Rightarrow> route list" where
  "static_routes opt =
     (if 8 \<le> length opt
      then \<lparr>Dst = classfulSubnet (take 4 opt), GW = take 4 (drop 4 opt)\<rparr> # static_routes (drop 8 opt)
      else [])"
  by pat_completeness auto
termination by (relation "measure length") auto

declare static_routes.simps [simp del]

definition parseRoutes :: "options \<Rightarrow> route list" where
  "parseRoutes opts = (case opts OptionStaticRoute of None \<Rightarrow> [] | Some opt \<Rightarrow> static_routes opt)"

text \<open>The loop over the classless routes; an error returns nil whatever was read before.\<close>

definition octets_of :: "nat \<Rightarrow> nat" where
  "octets_of width = (if 0 < width then (width - 1) div 8 + 1 else 0)"

function cidr_routes :: "route list \<Rightarrow> byte list \<Rightarrow> route list" where
  "cidr_routes routes opt =
     (if 5 \<le> length opt then
        (let width = unat (opt ! 0); octets = octets_of width in
         if 32 < width then []
         else if length opt < 1 + octets + 4 then []
         else
           let sn = take octets (drop 1 opt) @ replicate (4 - octets) 0;
               gw = take 4 (drop (octets + 1) opt)
           in cidr_routes (routes @ [\<lparr>Dst = \<lparr>net_ip = sn, net_mask = CIDRMask (int width) 32\<rparr>, GW = gw\<rparr>]) (drop (octets + 5) opt))
      else routes)"
  by pat_completeness auto
termination by (relation "measure (length \<circ> snd)") auto

declare cidr_routes.simps [simp del]

definition parseCIDRRoutes :: "options \<Rightarrow> route list" where
  "parseCIDRRoutes opts = (case opts OptionClasslessRouteFormat of None \<Rightarrow> [] | Some opt \<Rightarrow> cidr_routes [] opt)"

definition parseSubnetMask :: "options \<Rightarrow> ipmask option" where
  "parseSubnetMask opts = (case opts OptionSubnetMask of None \<Rightarrow> None | Some m \<Rightarrow> Some m)"

section \<open>Durations\<close>

text \<open>
  A \<open>time.Duration\<close> is a signed 64-bit number of nanoseconds; \<open>wrap64\<close> is the result of an operation on
  them, \<open>sdiv\<close> is Go's division.
\<close>

definition wrap64 :: "int \<Rightarrow> int" where
  "wrap64 n = signed_take_bit 63 n"

definition Second :: int where
  "Second = 1000000000"

definition be_uint32 :: "byte list \<Rightarrow> nat" where
  "be_uint32 v = of_bytes v"

definition parseDuration :: "options \<Rightarrow> byte \<Rightarrow> string \<Rightarrow> int res" where
  "parseDuration opts code optName =
     (case opts code of
        None \<Rightarrow> Inl (Errorf (''option '' @ optName @ '' not found''))
      | Some val \<Rightarrow>
          if length val \<noteq> 4 then Inl (Errorf (''option '' @ optName @ '' is not 4 bytes''))
          else Inr (wrap64 (int (be_uint32 val) * Second)))"

definition parseLeaseTime :: "options \<Rightarrow> int res" where
  "parseLeaseTime opts = parseDuration opts OptionIPAddressLeaseTime ''LeaseTime''"

definition parseRenewalTime :: "options \<Rightarrow> int res" where
  "parseRenewalTime opts = parseDuration opts OptionRenewalTimeValue ''RenewalTime''"

definition parseRebindingTime :: "options \<Rightarrow> int res" where
  "parseRebindingTime opts = parseDuration opts OptionRebindingTimeValue ''RebindingTime''"

lemma wrap64_id: "- (2 ^ 63) \<le> n \<Longrightarrow> n < 2 ^ 63 \<Longrightarrow> wrap64 n = n"
  by (simp add: wrap64_def signed_take_bit_int_eq_self)

text \<open>A duration of an option is a number of seconds that 32 bits hold, so it does not wrap.\<close>

lemma parseDuration_bounds:
  assumes "parseDuration opts code nm = Inr d"
  shows "0 \<le> d" "d < 2 ^ 32 * Second"
proof -
  obtain val where v: "opts code = Some val" "length val = 4" "d = wrap64 (int (be_uint32 val) * Second)"
    using assms by (auto simp: parseDuration_def split: option.splits if_splits)
  have "be_uint32 val < 2 ^ 32" using of_bytes_less [of val] v(2) by (simp add: be_uint32_def)
  then have "int (be_uint32 val) < 2 ^ 32" by simp
  then have "0 \<le> int (be_uint32 val) * Second \<and> int (be_uint32 val) * Second < 2 ^ 32 * Second" by (simp add: Second_def)
  moreover have "2 ^ 32 * Second < 2 ^ 63" by (simp add: Second_def)
  ultimately have "d = int (be_uint32 val) * Second" using v(3) by (simp add: wrap64_id)
  then show "0 \<le> d" "d < 2 ^ 32 * Second" using \<open>0 \<le> int (be_uint32 val) * Second \<and> _\<close> by simp_all
qed

section \<open>Classless routes read back\<close>

text \<open>The encoding of RFC 3442: the width, the significant bytes of the network, the router.\<close>

definition encode_route :: "nat \<times> byte list \<times> ip \<Rightarrow> byte list" where
  "encode_route r = (case r of (width, sn, gw) \<Rightarrow> of_nat width # take (octets_of width) sn @ gw)"

definition route_of :: "nat \<times> byte list \<times> ip \<Rightarrow> route" where
  "route_of r = (case r of (width, sn, gw) \<Rightarrow> \<lparr>Dst = \<lparr>net_ip = sn, net_mask = CIDRMask (int width) 32\<rparr>, GW = gw\<rparr>)"

text \<open>A route that the format can express: no bytes beyond the significant ones.\<close>

definition encodable :: "nat \<times> byte list \<times> ip \<Rightarrow> bool" where
  "encodable r \<longleftrightarrow> (case r of (width, sn, gw) \<Rightarrow>
     width \<le> 32 \<and> length sn = 4 \<and> length gw = 4 \<and> drop (octets_of width) sn = replicate (4 - octets_of width) 0)"

lemma octets_of_le: "width \<le> 32 \<Longrightarrow> octets_of width \<le> 4"
proof -
  assume "width \<le> 32"
  then have "(width - 1) div 8 \<le> 31 div 8" by (intro div_le_mono) simp
  then show ?thesis by (simp add: octets_of_def)
qed

lemma cidr_routes_encode:
  "\<forall>r\<in>set rs. encodable r \<Longrightarrow> cidr_routes acc (concat (map encode_route rs)) = acc @ map route_of rs"
proof (induction rs arbitrary: acc)
  case Nil
  then show ?case by (subst cidr_routes.simps) simp
next
  case (Cons r rs)
  obtain width sn gw where r: "r = (width, sn, gw)" by (cases r)
  with Cons.prems have e: "width \<le> 32" "length sn = 4" "length gw = 4"
    "drop (octets_of width) sn = replicate (4 - octets_of width) 0" by (simp_all add: encodable_def)
  define k where "k = octets_of width"
  have k: "k \<le> 4" using e(1) octets_of_le by (simp add: k_def)
  define rest where "rest = concat (map encode_route rs)"
  have w: "unat (of_nat width :: byte) = width" using e(1) by (simp add: unat_of_nat take_bit_nat_eq_self)
  have enc: "concat (map encode_route (r # rs)) = of_nat width # take k sn @ gw @ rest"
    by (simp add: r encode_route_def k_def rest_def)
  have sn: "take k sn @ replicate (4 - k) 0 = sn" using e(4) by (metis k_def append_take_drop_id)
  have lk: "length (take k sn) = k" using e(2) k by simp
  have k5: "drop (k + 5) (of_nat width # take k sn @ gw @ rest) = rest"
  proof -
    have "k + 5 = Suc (k + 4)" by simp
    then show ?thesis using e(3) lk by (simp only: drop_Suc_Cons) simp
  qed
  have "cidr_routes acc (of_nat width # take k sn @ gw @ rest) = cidr_routes (acc @ [route_of r]) rest"
    using e k lk w sn by (subst cidr_routes.simps) (simp add: Let_def k_def [symmetric] route_of_def r k5)
  then show ?case using Cons.IH [of "acc @ [route_of r]"] Cons.prems by (simp only: enc) (simp add: rest_def)
qed


definition demo_classless :: "(nat \<times> byte list \<times> ip) list" where
  "demo_classless = [(0, [0, 0, 0, 0], [10, 0, 0, 1]), (12, [172, 16, 0, 0], [10, 0, 0, 2]), (32, [10, 9, 8, 7], [10, 0, 0, 3])]"


end
