(* ===== verification/Dhcp_Client.thy ===== *)
theory Dhcp_Client
  imports Dhcp_Options Netlink
begin

text \<open>
  \<open>plugins/ipam/dhcp/client.go\<close>: the exchanges of packets with a DHCP server. The client and the packets of
  \<open>d2g/dhcp4client\<close> and \<open>d2g/dhcp4\<close> are parameters.
\<close>

type_synonym packet = "byte list"
type_synonym client = int

text \<open>
  Times are nanoseconds. A packet that the client builds depends on the world (its transaction number is
  random); \<open>de_range\<close> is the order in which Go runs over a map, \<open>de_jitter\<close> the random part of a pause.
\<close>

record 'w dhcp_env =
  de_netlink :: "'w netlink"
  de_now :: "'w \<Rightarrow> int"
  de_Sleep :: "int \<Rightarrow> 'w \<Rightarrow> 'w"
  de_jitter :: "'w \<Rightarrow> int"
  de_range :: "'w \<Rightarrow> (byte \<times> byte list) list \<Rightarrow> (byte \<times> byte list) list"
  pk_AddOption :: "packet \<Rightarrow> byte \<Rightarrow> byte list \<Rightarrow> packet"
  pk_PadToMinSize :: "packet \<Rightarrow> packet"
  pk_ParseOptions :: "packet \<Rightarrow> options"
  pk_YIAddr :: "packet \<Rightarrow> ip"
  dc_NewPacketSock :: "int \<Rightarrow> ('w, int) io"
  dc_New :: "byte list \<Rightarrow> int \<Rightarrow> bool \<Rightarrow> int \<Rightarrow> ('w, client) io"
  dc_Close :: "client \<Rightarrow> ('w, unit) io"
  dc_DiscoverPacket :: "client \<Rightarrow> 'w \<Rightarrow> packet"
  dc_RequestPacket :: "client \<Rightarrow> packet \<Rightarrow> 'w \<Rightarrow> packet"
  dc_DeclinePacket :: "client \<Rightarrow> packet \<Rightarrow> 'w \<Rightarrow> packet"
  dc_RenewalRequestPacket :: "client \<Rightarrow> packet \<Rightarrow> 'w \<Rightarrow> packet"
  dc_ReleasePacket :: "client \<Rightarrow> packet \<Rightarrow> 'w \<Rightarrow> packet"
  dc_SendPacket :: "client \<Rightarrow> packet \<Rightarrow> ('w, unit) io"
  dc_GetOffer :: "client \<Rightarrow> packet \<Rightarrow> ('w, packet) io"
  dc_GetAcknowledgement :: "client \<Rightarrow> packet \<Rightarrow> ('w, packet) io"

text \<open>The loop that adds the options, then the padding.\<close>

definition finish_packet :: "'w dhcp_env \<Rightarrow> (byte \<times> byte list) list \<Rightarrow> 'w \<Rightarrow> packet \<Rightarrow> packet" where
  "finish_packet E opts w p = pk_PadToMinSize E (foldl (\<lambda>p (code, data). pk_AddOption E p code data) p (de_range E w opts))"

text \<open>Sending a packet that was built in the current world, and returning it.\<close>

definition send_built :: "'w dhcp_env \<Rightarrow> client \<Rightarrow> (byte \<times> byte list) list \<Rightarrow> ('w \<Rightarrow> packet) \<Rightarrow> ('w, packet) io" where
  "send_built E c opts build w =
     (let p = finish_packet E opts w (build w) in bind_io (dc_SendPacket E c p) (\<lambda>_. ret p) w)"

definition DhcpSendDiscoverPacket :: "'w dhcp_env \<Rightarrow> client \<Rightarrow> (byte \<times> byte list) list \<Rightarrow> ('w, packet) io" where
  "DhcpSendDiscoverPacket E c opts = send_built E c opts (dc_DiscoverPacket E c)"

definition DhcpSendRequest :: "'w dhcp_env \<Rightarrow> client \<Rightarrow> (byte \<times> byte list) list \<Rightarrow> packet \<Rightarrow> ('w, packet) io" where
  "DhcpSendRequest E c opts offerPacket = send_built E c opts (dc_RequestPacket E c offerPacket)"

definition DhcpSendDecline :: "'w dhcp_env \<Rightarrow> client \<Rightarrow> packet \<Rightarrow> (byte \<times> byte list) list \<Rightarrow> ('w, packet) io" where
  "DhcpSendDecline E c acknowledgementPacket opts = send_built E c opts (dc_DeclinePacket E c acknowledgementPacket)"

text \<open>The type of a message: the first byte of the option, which panics when there is none. 5 is \<open>ACK\<close>.\<close>

definition ACK :: byte where "ACK = 5"

definition message_type :: "options \<Rightarrow> byte res" where
  "message_type opts =
     (case opts OptionDHCPMessageType of
        Some (t # _) \<Rightarrow> Inr t
      | _ \<Rightarrow> Inl (Panic ''index out of range [0] with length 0''))"

definition DhcpRequest :: "'w dhcp_env \<Rightarrow> client \<Rightarrow> (byte \<times> byte list) list \<Rightarrow> ('w, bool \<times> packet) io" where
  "DhcpRequest E c opts =
     bind_io (DhcpSendDiscoverPacket E c opts) (\<lambda>discoveryPacket.
     bind_io (dc_GetOffer E c discoveryPacket) (\<lambda>offerPacket.
     bind_io (DhcpSendRequest E c opts offerPacket) (\<lambda>requestPacket.
     bind_io (dc_GetAcknowledgement E c requestPacket) (\<lambda>acknowledgement.
     bind_io (lift_res (message_type (pk_ParseOptions E acknowledgement))) (\<lambda>t.
     ret (t = ACK, acknowledgement))))))"

definition DhcpRenew :: "'w dhcp_env \<Rightarrow> client \<Rightarrow> packet \<Rightarrow> (byte \<times> byte list) list \<Rightarrow> ('w, bool \<times> packet) io" where
  "DhcpRenew E c acknowledgement opts =
     bind_io (send_built E c opts (dc_RenewalRequestPacket E c acknowledgement)) (\<lambda>renewRequest.
     bind_io (dc_GetAcknowledgement E c renewRequest) (\<lambda>newAcknowledgement.
     bind_io (lift_res (message_type (pk_ParseOptions E newAcknowledgement))) (\<lambda>t.
     ret (t = ACK, newAcknowledgement))))"

definition DhcpRelease :: "'w dhcp_env \<Rightarrow> client \<Rightarrow> packet \<Rightarrow> (byte \<times> byte list) list \<Rightarrow> ('w, unit) io" where
  "DhcpRelease E c acknowledgement opts =
     bind_io (send_built E c opts (dc_ReleasePacket E c acknowledgement)) (\<lambda>_. ret ())"

end
