(* ===== verification/Dhcp_Lease.thy ===== *)
theory Dhcp_Lease
  imports Dhcp_Client
begin

text \<open>
  \<open>plugins/ipam/dhcp/lease.go\<close>: acquiring a lease, and the goroutine that keeps it: a machine with the states
  bound, renewing and rebinding, which ends when the lease expires or is released.
\<close>

record lease =
  clientID :: string
  ack :: packet
  lease_opts :: options
  lease_link :: link
  renewalTime :: int
  rebindingTime :: int
  expireTime :: int
  lease_timeout :: int
  lease_broadcast :: bool

definition resendDelay0 :: int where "resendDelay0 = 4 * Second"
definition resendDelayMax :: int where "resendDelayMax = 62 * Second"

definition errNoMoreTries :: error where
  "errNoMoreTries = Errorf ''no more tries''"

definition string_bytes :: "string \<Rightarrow> byte list" where
  "string_bytes s = map of_char s"

definition newDHCPClient :: "'w dhcp_env \<Rightarrow> link \<Rightarrow> int \<Rightarrow> bool \<Rightarrow> ('w, client) io" where
  "newDHCPClient E l timeout broadcast =
     bind_io (dc_NewPacketSock E (lk_Index l)) (\<lambda>pktsock. dc_New E (lk_HardwareAddr l) timeout broadcast pktsock)"

text \<open>The delay before attempt \<open>k + 2\<close> is \<open>resendDelay0\<close> doubled \<open>k\<close> times, and a random part.\<close>

definition base_delay :: "nat \<Rightarrow> int" where
  "base_delay k = resendDelay0 * 2 ^ k"

definition pause_after :: "'w dhcp_env \<Rightarrow> nat \<Rightarrow> 'w \<Rightarrow> 'w" where
  "pause_after E k w = de_Sleep E (base_delay k + de_jitter E w) w"

function backoff_loop :: "'w dhcp_env \<Rightarrow> ('w, packet) io \<Rightarrow> nat \<Rightarrow> ('w, packet) io" where
  "backoff_loop E f k =
     attempt f (\<lambda>r. case r of
       Inr pkt \<Rightarrow> ret pkt
     | Inl _ \<Rightarrow> (\<lambda>w. if base_delay k < resendDelayMax then backoff_loop E f (k + 1) (pause_after E k w)
                    else (Inl errNoMoreTries, pause_after E k w)))"
  by pat_completeness auto
termination
proof (relation "measure (\<lambda>(_, _, k). 4 - k)")
  fix k :: nat
  assume "base_delay k < resendDelayMax"
  then have lt: "(2 :: int) ^ k < 16" by (simp add: base_delay_def resendDelay0_def resendDelayMax_def Second_def)
  have "k < 4"
  proof (rule ccontr)
    assume "\<not> k < 4"
    then have "(2 :: int) ^ 4 \<le> 2 ^ k" by (intro power_increasing) simp_all
    then show False using lt by simp
  qed
  then show "((E :: 'w dhcp_env, f :: ('w, packet) io, k + 1), E, f, k) \<in> measure (\<lambda>(_, _, k). 4 - k)" for E f by simp
qed simp

declare backoff_loop.simps [simp del]

definition backoffRetry :: "'w dhcp_env \<Rightarrow> ('w, packet) io \<Rightarrow> ('w, packet) io" where
  "backoffRetry E f = backoff_loop E f 0"

section \<open>Committing an acknowledgement\<close>

text \<open>The renewal, rebinding and lease times of an acknowledgement, with the defaults of RFC 2131.\<close>

definition lease_times :: "options \<Rightarrow> (int \<times> int \<times> int) res" where
  "lease_times opts =
     bind_res (parseLeaseTime opts) (\<lambda>leaseTime.
       let default_rebinding = wrap64 (leaseTime * 85) sdiv 100;
           rebindingTime = (case parseRebindingTime opts of
               Inl _ \<Rightarrow> default_rebinding | Inr r \<Rightarrow> if r > leaseTime then default_rebinding else r);
           renewalTime = (case parseRenewalTime opts of
               Inl _ \<Rightarrow> leaseTime sdiv 2 | Inr r \<Rightarrow> if r > rebindingTime then leaseTime sdiv 2 else r)
       in Inr (renewalTime, rebindingTime, leaseTime))"

definition commit :: "'w dhcp_env \<Rightarrow> lease \<Rightarrow> packet \<Rightarrow> ('w, lease) io" where
  "commit E l pkt =
     (let opts = pk_ParseOptions E pkt
      in bind_io (lift_res (lease_times opts)) (\<lambda>(renewal, rebinding, lease) w.
           let now = de_now E w
           in ret (l\<lparr>expireTime := now + lease, renewalTime := now + renewal, rebindingTime := now + rebinding,
                ack := pkt, lease_opts := opts\<rparr>) w))"

section \<open>Acquire, renew, release\<close>

definition set_up :: "'w dhcp_env \<Rightarrow> link \<Rightarrow> ('w, unit) io" where
  "set_up E l = (if \<not> lk_Up l then nl_LinkSetUp (de_netlink E) l else ret ())"

definition acquire_opts :: "lease \<Rightarrow> (byte \<times> byte list) list" where
  "acquire_opts l = [(OptionClientIdentifier, string_bytes (clientID l)),
     (OptionParameterRequestList, [OptionRouter, OptionSubnetMask])]"

text \<open>The attempt that is retried: an answer that is no ACK is an error.\<close>

definition acked :: "string \<Rightarrow> ('w, bool \<times> packet) io \<Rightarrow> ('w, packet) io" where
  "acked msg m = bind_io m (\<lambda>(ok, pkt). if \<not> ok then fail (Errorf msg) else ret pkt)"

definition acquire :: "'w dhcp_env \<Rightarrow> lease \<Rightarrow> ('w, lease) io" where
  "acquire E l =
     bind_io (newDHCPClient E (lease_link l) (lease_timeout l) (lease_broadcast l)) (\<lambda>c.
     finally_io
       (bind_io (set_up E (lease_link l)) (\<lambda>_.
        bind_io (backoffRetry E (acked ''DHCP server NACK'd own offer'' (DhcpRequest E c (acquire_opts l)))) (\<lambda>pkt.
        commit E l pkt)))
       (dc_Close E c))"

definition identifier_opts :: "lease \<Rightarrow> (byte \<times> byte list) list" where
  "identifier_opts l = [(OptionClientIdentifier, string_bytes (clientID l))]"

text \<open>The error of \<open>commit\<close> is dropped: the lease then keeps its old times.\<close>

definition renew :: "'w dhcp_env \<Rightarrow> lease \<Rightarrow> ('w, lease) io" where
  "renew E l =
     bind_io (newDHCPClient E (lease_link l) (lease_timeout l) (lease_broadcast l)) (\<lambda>c.
     finally_io
       (bind_io (backoffRetry E (acked ''DHCP server did not renew lease'' (DhcpRenew E c (ack l) (identifier_opts l)))) (\<lambda>pkt.
        attempt (commit E l pkt) (\<lambda>r. case r of Inl _ \<Rightarrow> ret l | Inr l' \<Rightarrow> ret l')))
       (dc_Close E c))"

definition release :: "'w dhcp_env \<Rightarrow> lease \<Rightarrow> ('w, unit) io" where
  "release E l =
     bind_io (newDHCPClient E (lease_link l) (lease_timeout l) (lease_broadcast l)) (\<lambda>c.
     finally_io
       (attempt (DhcpRelease E c (ack l) (identifier_opts l)) (\<lambda>r.
          case r of Inl _ \<Rightarrow> fail (Errorf ''failed to send DHCPRELEASE'') | Inr _ \<Rightarrow> ret ()))
       (dc_Close E c))"

definition downIface :: "'w dhcp_env \<Rightarrow> lease \<Rightarrow> ('w, unit) io" where
  "downIface E l = attempt (nl_LinkSetDown (de_netlink E) (lease_link l)) (\<lambda>_. ret ())"

section \<open>The loop that maintains a lease\<close>

datatype lease_state = leaseStateBound | leaseStateRenewing | leaseStateRebinding

text \<open>The states in the order of their numbers (\<open>iota\<close>).\<close>

primrec lease_rank :: "lease_state \<Rightarrow> nat" where
  "lease_rank leaseStateBound = 0"
| "lease_rank leaseStateRenewing = 1"
| "lease_rank leaseStateRebinding = 2"

instantiation lease_state :: linorder
begin

definition less_eq_lease_state :: "lease_state \<Rightarrow> lease_state \<Rightarrow> bool" where
  "less_eq_lease_state s t \<longleftrightarrow> lease_rank s \<le> lease_rank t"

definition less_lease_state :: "lease_state \<Rightarrow> lease_state \<Rightarrow> bool" where
  "less_lease_state s t \<longleftrightarrow> lease_rank s < lease_rank t"

instance
proof
  fix s t :: lease_state
  show "s \<le> t \<Longrightarrow> t \<le> s \<Longrightarrow> s = t" by (cases s; cases t) (simp_all add: less_eq_lease_state_def)
qed (auto simp: less_eq_lease_state_def less_lease_state_def)

end

lemma lease_state_bounds [simp]: "leaseStateBound \<le> s" "s \<le> leaseStateRebinding"
  by (cases s; simp add: less_eq_lease_state_def)+

text \<open>
  What the \<open>switch\<close> of one round does: go round again at once, end the loop, go to the \<open>select\<close> with a
  duration, or take the daemon down with a panic.
\<close>

datatype round = Continue lease_state | Return | Select int lease_state lease | Crash error

definition lease_switch :: "'w dhcp_env \<Rightarrow> lease_state \<Rightarrow> lease \<Rightarrow> 'w \<Rightarrow> round \<times> 'w" where
  "lease_switch E st l w =
     (case st of
        leaseStateBound \<Rightarrow>
          let sleepDur = renewalTime l - de_now E w
          in if sleepDur \<le> 0 then (Continue leaseStateRenewing, w) else (Select sleepDur leaseStateBound l, w)
      | leaseStateRenewing \<Rightarrow>
          (case renew E l w of
             (Inl e, w') \<Rightarrow>
               if is_panic e then (Crash e, w')
               else (Select 0 (if rebindingTime l < de_now E w' then leaseStateRebinding else leaseStateRenewing) l, w')
           | (Inr l', w') \<Rightarrow> (Select 0 leaseStateBound l', w'))
      | leaseStateRebinding \<Rightarrow>
          (case acquire E l w of
             (Inl e, w') \<Rightarrow>
               if is_panic e then (Crash e, w')
               else if expireTime l < de_now E w' then
                 (case downIface E l w' of
                    (Inl e', w'') \<Rightarrow> (Crash e', w'')
                  | (Inr _, w'') \<Rightarrow> (Return, w''))
               else (Select 0 leaseStateRebinding l, w')
           | (Inr l', w') \<Rightarrow> (Select 0 leaseStateBound l', w')))"

text \<open>
  The loop as steps. In the \<open>select\<close> the pause may end, or the stop channel may be closed at some time of
  the pause; then the lease is released, whatever that returns.
\<close>

datatype 'w phase = Running lease_state lease 'w | Expired lease 'w | Released lease 'w | Crashed error 'w

inductive maintain_step :: "'w dhcp_env \<Rightarrow> 'w phase \<Rightarrow> 'w phase \<Rightarrow> bool" for E where
  again: "lease_switch E st l w = (Continue st', w') \<Longrightarrow> maintain_step E (Running st l w) (Running st' l w')"
| expire: "lease_switch E st l w = (Return, w') \<Longrightarrow> maintain_step E (Running st l w) (Expired l w')"
| pause: "lease_switch E st l w = (Select d st' l', w') \<Longrightarrow>
    maintain_step E (Running st l w) (Running st' l' (de_Sleep E d w'))"
| stop: "lease_switch E st l w = (Select d st' l', w') \<Longrightarrow> 0 \<le> d0 \<Longrightarrow> d0 \<le> d \<Longrightarrow>
    maintain_step E (Running st l w) (Released l' (snd (release E l' (de_Sleep E d0 w'))))"
| crash: "lease_switch E st l w = (Crash e, w') \<Longrightarrow> maintain_step E (Running st l w) (Crashed e w')"

inductive_cases running_stepE: "maintain_step E (Running st l w) ph"
inductive_simps ended_step [simp]: "maintain_step E (Expired l w) ph" "maintain_step E (Released l w) ph" "maintain_step E (Crashed e w) ph"

text \<open>\<open>maintain\<close> begins in the bound state.\<close>

inductive maintain :: "'w dhcp_env \<Rightarrow> lease \<Rightarrow> 'w \<Rightarrow> 'w phase \<Rightarrow> bool" for E l0 w0 where
  start: "maintain E l0 w0 (Running leaseStateBound l0 w0)"
| step: "maintain E l0 w0 ph \<Longrightarrow> maintain_step E ph ph' \<Longrightarrow> maintain E l0 w0 ph'"

section \<open>Acquiring\<close>

text \<open>
  \<open>AcquireLease\<close> runs in the goroutine until it reports through the channel; the lease it returns is the one
  that \<open>maintain\<close> starts with. The goroutine stays in the namespace until \<open>maintain\<close> ends; here its way out is counted to
  \<open>AcquireLease\<close>.
\<close>

definition AcquireLease ::
  "'w dhcp_env \<Rightarrow> string \<Rightarrow> string \<Rightarrow> string \<Rightarrow> int \<Rightarrow> bool \<Rightarrow> ('w, lease) io" where
  "AcquireLease E cid netns ifName timeout broadcast =
     WithNetNSPath (nl_os (de_netlink E)) netns (\<lambda>_.
       bind_io (wrap_io (''error looking up '' @ ifName) (nl_LinkByName (de_netlink E) ifName)) (\<lambda>l.
       acquire E \<lparr>clientID = cid, ack = [], lease_opts = (\<lambda>_. None), lease_link = l, renewalTime = 0, rebindingTime = 0,
         expireTime = 0, lease_timeout = timeout, lease_broadcast = broadcast\<rparr>))"

section \<open>What a lease says\<close>

definition lease_IPNet :: "'w dhcp_env \<Rightarrow> lease \<Rightarrow> ipnet res" where
  "lease_IPNet E l =
     (case parseSubnetMask (lease_opts l) of
        None \<Rightarrow> Inl (Errorf ''DHCP option Subnet Mask not found in DHCPACK'')
      | Some m \<Rightarrow> Inr \<lparr>net_ip = pk_YIAddr E (ack l), net_mask = m\<rparr>)"

definition lease_Gateway :: "lease \<Rightarrow> ip" where
  "lease_Gateway l = parseRouter (lease_opts l)"

definition lease_Routes :: "lease \<Rightarrow> route list" where
  "lease_Routes l =
     (let opt121_routes = parseCIDRRoutes (lease_opts l)
      in if 0 < length opt121_routes then opt121_routes
         else
           let routes = parseRoutes (lease_opts l); gw = lease_Gateway l
           in if gw \<noteq> [] then routes @ [\<lparr>Dst = \<lparr>net_ip = [0, 0, 0, 0], net_mask = [0, 0, 0, 0]\<rparr>, GW = gw\<rparr>] else routes)"

end
