(* ===== verification/Dhcp_Props.thy ===== *)
theory Dhcp_Props
  imports Dhcp_Lease Ipam_Iface
begin

text \<open>
  What the lease machine guarantees: the order of its times, that it rebinds and gives up only when the time
  for it has come, and that it does give up when no server answers any more.
\<close>

section \<open>The times of a lease\<close>

lemma parseDuration_nonneg:
  "parseLeaseTime opts = Inr d \<Longrightarrow> 0 \<le> d" "parseRebindingTime opts = Inr d \<Longrightarrow> 0 \<le> d" "parseRenewalTime opts = Inr d \<Longrightarrow> 0 \<le> d"
  using parseDuration_bounds(1) by (auto simp: parseLeaseTime_def parseRebindingTime_def parseRenewalTime_def)

lemma sdiv_nonneg: "0 \<le> (a :: int) \<Longrightarrow> 0 < k \<Longrightarrow> a sdiv k = a div k"
  by (cases "a = 0") (simp_all add: signed_divide_int_def sgn_if)


text \<open>
  The bound matters: with an infinite lease (all ones, RFC 2131) and no rebinding time from the server,
  the product overflows and the lease is to be rebound more than a year before it begins.
\<close>

theorem infinite_lease_overflow:
  assumes "opts OptionIPAddressLeaseTime = Some [255, 255, 255, 255]" "opts OptionRebindingTimeValue = None"
    "opts OptionRenewalTimeValue = None"
  shows "\<exists>rebinding. lease_times opts = Inr ((2 ^ 32 - 1) * Second div 2, rebinding, (2 ^ 32 - 1) * Second)
     \<and> rebinding < - (365 * 24 * 60 * 60 * Second)"
proof -
  have "of_bytes [255, 255, 255, 255] = 2 ^ 32 - 1" by (simp add: of_bytes_def)
  then have u: "int (be_uint32 [255, 255, 255, 255]) = 2 ^ 32 - 1" by (simp add: be_uint32_def)
  have w: "wrap64 ((2 ^ 32 - 1) * Second) = (2 ^ 32 - 1) * Second" by (intro wrap64_id) (simp_all add: Second_def)
  have "parseLeaseTime opts = Inr (wrap64 (int (be_uint32 [255, 255, 255, 255]) * Second))"
    by (simp add: parseLeaseTime_def parseDuration_def assms(1))
  then have l: "parseLeaseTime opts = Inr ((2 ^ 32 - 1) * Second)" by (simp only: u w)
  have "wrap64 ((2 ^ 32 - 1) * Second * 85) sdiv 100 < - (365 * 24 * 60 * 60 * Second)"
    by (simp add: wrap64_def Second_def signed_take_bit_int_eq_self signed_take_bit_eq_if_positive)
  then show ?thesis
    using l assms(2,3) by (simp add: lease_times_def parseRebindingTime_def parseRenewalTime_def parseDuration_def Let_def sdiv_nonneg Second_def)
qed

section \<open>The clock\<close>

text \<open>An operation that does not turn the clock back.\<close>

definition forward :: "('w \<Rightarrow> int) \<Rightarrow> ('w, 'a) io \<Rightarrow> bool" where
  "forward now m \<longleftrightarrow> (\<forall>w. now w \<le> now (snd (m w)))"

named_theorems forward_intros

lemma forwardD: "forward now m \<Longrightarrow> m w = (r, w') \<Longrightarrow> now w \<le> now w'"
  unfolding forward_def by (metis snd_conv)

lemma forward_ret [forward_intros]: "forward now (ret x)" and forward_fail [forward_intros]: "forward now (fail e)"
  by (simp_all add: forward_def ret_def fail_def)

lemma forward_lift [forward_intros]: "forward now (lift_res r)"
  by (simp add: forward_def lift_res_def ret_def fail_def split: sum.splits)

lemma forward_bind [forward_intros]: "forward now m \<Longrightarrow> (\<And>x. forward now (f x)) \<Longrightarrow> forward now (bind_io m f)"
  unfolding forward_def bind_io_def by (auto split: prod.splits sum.splits) (metis order_trans snd_conv)+

lemma forward_attempt [forward_intros]: "forward now m \<Longrightarrow> (\<And>r. forward now (f r)) \<Longrightarrow> forward now (attempt m f)"
  unfolding forward_def attempt_def by (auto split: prod.splits sum.splits) (metis order_trans snd_conv)+

lemma forward_finally [forward_intros]: "forward now m \<Longrightarrow> forward now c \<Longrightarrow> forward now (finally_io m c)"
  unfolding forward_def finally_io_def by (auto split: prod.splits) (metis order_trans snd_conv)

lemma forward_if [forward_intros]: "forward now m \<Longrightarrow> forward now n \<Longrightarrow> forward now (if b then m else n)"
  by simp

lemma forward_prod [forward_intros]: "(\<And>a b. forward now (f a b)) \<Longrightarrow> forward now (case p of (a, b) \<Rightarrow> f a b)"
  by (cases p) simp

lemma forward_sum [forward_intros]: "(\<And>e. forward now (f e)) \<Longrightarrow> (\<And>x. forward now (g x)) \<Longrightarrow> forward now (case r of Inl e \<Rightarrow> f e | Inr x \<Rightarrow> g x)"
  by (cases r) simp_all

text \<open>
  The clock of the daemon: pauses last at least as long as they should, the random part takes away at most a
  second, and no call turns the clock back.
\<close>

definition dhcp_clock :: "'w dhcp_env \<Rightarrow> bool" where
  "dhcp_clock E \<longleftrightarrow>
     (\<forall>d w. de_now E w \<le> de_now E (de_Sleep E d w)) \<and> (\<forall>d w. de_now E w + d \<le> de_now E (de_Sleep E d w))
   \<and> (\<forall>w. - Second \<le> de_jitter E w)
   \<and> (\<forall>i. forward (de_now E) (dc_NewPacketSock E i)) \<and> (\<forall>h t b s. forward (de_now E) (dc_New E h t b s))
   \<and> (\<forall>c. forward (de_now E) (dc_Close E c)) \<and> (\<forall>c p. forward (de_now E) (dc_SendPacket E c p))
   \<and> (\<forall>c p. forward (de_now E) (dc_GetOffer E c p)) \<and> (\<forall>c p. forward (de_now E) (dc_GetAcknowledgement E c p))
   \<and> (\<forall>l. forward (de_now E) (nl_LinkSetUp (de_netlink E) l)) \<and> (\<forall>l. forward (de_now E) (nl_LinkSetDown (de_netlink E) l))"

lemma dhcp_clockD:
  assumes "dhcp_clock E"
  shows "de_now E w \<le> de_now E (de_Sleep E d w)" "de_now E w + d \<le> de_now E (de_Sleep E d w)" "- Second \<le> de_jitter E w"
    "forward (de_now E) (dc_NewPacketSock E i)" "forward (de_now E) (dc_New E h t b s)" "forward (de_now E) (dc_Close E c)"
    "forward (de_now E) (dc_SendPacket E c p)" "forward (de_now E) (dc_GetOffer E c p)" "forward (de_now E) (dc_GetAcknowledgement E c p)"
    "forward (de_now E) (nl_LinkSetUp (de_netlink E) l)" "forward (de_now E) (nl_LinkSetDown (de_netlink E) l)"
  using assms unfolding dhcp_clock_def by simp_all

lemma forward_send_built: "dhcp_clock E \<Longrightarrow> forward (de_now E) (send_built E c opts build)"
proof -
  assume clock: "dhcp_clock E"
  have "forward (de_now E) (bind_io (dc_SendPacket E c p) (\<lambda>_. ret p))" for p
    by (intro forward_intros dhcp_clockD [OF clock])
  then show ?thesis unfolding forward_def send_built_def Let_def by blast
qed

lemma forward_exchange:
  assumes "dhcp_clock E"
  shows "forward (de_now E) (acked msg (DhcpRequest E c opts))" "forward (de_now E) (acked msg (DhcpRenew E c p opts))"
    "forward (de_now E) (DhcpRelease E c p opts)" "forward (de_now E) (newDHCPClient E l t b)" "forward (de_now E) (set_up E l)"
  unfolding acked_def DhcpRequest_def DhcpRenew_def DhcpRelease_def DhcpSendDiscoverPacket_def DhcpSendRequest_def newDHCPClient_def set_up_def
  by (intro forward_intros forward_send_built [OF assms] dhcp_clockD [OF assms])+

lemma forward_backoff:
  assumes "dhcp_clock E" "forward (de_now E) f"
  shows "forward (de_now E) (backoff_loop E f k)"
  using assms
proof (induction E f k rule: backoff_loop.induct)
  case (1 E f k)
  have p: "de_now E w \<le> de_now E (pause_after E k w)" for w
    unfolding pause_after_def by (rule dhcp_clockD(1) [OF 1(2)])
  have "forward (de_now E) (\<lambda>w. if base_delay k < resendDelayMax then backoff_loop E f (k + 1) (pause_after E k w)
      else (Inl errNoMoreTries, pause_after E k w))"
  proof (cases "base_delay k < resendDelayMax")
    case True
    have "forward (de_now E) (backoff_loop E f (k + 1))"
      by (rule 1(1)) (use True 1(2,3) in simp_all)
    then show ?thesis using p True unfolding forward_def by (auto intro: order_trans)
  next
    case False
    then show ?thesis using p by (simp add: forward_def)
  qed
  then show ?case by (subst backoff_loop.simps) (intro forward_intros 1(3))
qed

lemma forward_commit: "forward (de_now E) (commit E l pkt)"
proof -
  have "forward (de_now E) (\<lambda>w. ret (f w) w)" for f :: "_ \<Rightarrow> lease" by (simp add: forward_def ret_def)
  then show ?thesis unfolding commit_def Let_def by (intro forward_intros)
qed

lemma forward_acquire:
  assumes "dhcp_clock E"
  shows "forward (de_now E) (acquire E l)" "forward (de_now E) (renew E l)" "forward (de_now E) (downIface E l)"
  unfolding acquire_def renew_def downIface_def backoffRetry_def
  by (intro forward_intros forward_exchange [OF assms] forward_backoff [OF assms] forward_commit dhcp_clockD [OF assms])+

section \<open>When the machine rebinds and gives up\<close>

definition due :: "'w dhcp_env \<Rightarrow> 'w phase \<Rightarrow> bool" where
  "due E ph \<longleftrightarrow>
     (case ph of
        Running st l w \<Rightarrow> st = leaseStateRebinding \<longrightarrow> rebindingTime l < de_now E w
      | Expired l w \<Rightarrow> expireTime l < de_now E w \<and> rebindingTime l < de_now E w
      | _ \<Rightarrow> True)"

lemma lease_switch_due:
  assumes "dhcp_clock E" "st = leaseStateRebinding \<longrightarrow> rebindingTime l < de_now E w"
  shows "case lease_switch E st l w of
      (Continue st', w') \<Rightarrow> st' \<noteq> leaseStateRebinding
    | (Return, w') \<Rightarrow> expireTime l < de_now E w' \<and> rebindingTime l < de_now E w'
    | (Select d st' l', w') \<Rightarrow> st' = leaseStateRebinding \<longrightarrow> rebindingTime l' < de_now E w'
    | _ \<Rightarrow> True"
proof (cases st)
  case leaseStateBound
  then show ?thesis by (simp add: lease_switch_def Let_def)
next
  case leaseStateRenewing
  then show ?thesis by (simp add: lease_switch_def split: prod.splits sum.splits)
next
  case leaseStateRebinding
  obtain r w1 where r: "acquire E l w = (r, w1)" by (cases "acquire E l w")
  have le: "de_now E w \<le> de_now E w1" using forwardD [OF forward_acquire(1) [OF assms(1)], OF r] .
  obtain x w2 where x: "downIface E l w1 = (x, w2)" by (cases "downIface E l w1")
  have le2: "de_now E w1 \<le> de_now E w2" using forwardD [OF forward_acquire(3) [OF assms(1)], OF x] .
  show ?thesis using leaseStateRebinding r x le le2 assms(2)
    by (auto simp: lease_switch_def split: sum.splits if_splits)
qed

lemma maintain_step_due:
  assumes "dhcp_clock E" "maintain_step E ph ph'" "due E ph"
  shows "due E ph'"
  using assms(2,3)
proof cases
  case (again st l w st' w')
  then show ?thesis using lease_switch_due [OF assms(1), of st l w] assms(3) by (auto simp: due_def)
next
  case (expire st l w w')
  then show ?thesis using lease_switch_due [OF assms(1), of st l w] assms(3) by (auto simp: due_def)
next
  case (pause st l w d st' l' w')
  have "st' = leaseStateRebinding \<longrightarrow> rebindingTime l' < de_now E w'"
    using pause lease_switch_due [OF assms(1), of st l w] assms(3) by (auto simp: due_def)
  then show ?thesis using pause(2) dhcp_clockD(1) [OF assms(1), of w' d] by (auto simp: due_def)
qed (simp_all add: due_def)

text \<open>
  C19: in every reachable state of the machine, the lease is being rebound only after its rebinding time, and
  the interface has been brought down only after the lease, in its last renewal, has expired.
\<close>

theorem maintain_due:
  assumes "dhcp_clock E" "maintain E l0 w0 ph"
  shows "case ph of
      Running leaseStateRebinding l w \<Rightarrow> rebindingTime l < de_now E w
    | Expired l w \<Rightarrow> expireTime l < de_now E w
    | _ \<Rightarrow> True"
proof -
  from assms(2) have "due E ph"
  proof (induction rule: maintain.induct)
    case start
    then show ?case by (simp add: due_def)
  next
    case (step ph ph')
    then show ?case using maintain_step_due [OF assms(1)] by blast
  qed
  then show ?thesis by (auto simp: due_def split: phase.splits lease_state.splits)
qed

section \<open>A lease that nobody renews any more\<close>

text \<open>The loop when nobody stops it: then every step is determined.\<close>

definition next_phase :: "'w dhcp_env \<Rightarrow> 'w phase \<Rightarrow> 'w phase" where
  "next_phase E ph =
     (case ph of
        Running st l w \<Rightarrow>
          (case lease_switch E st l w of
             (Continue st', w') \<Rightarrow> Running st' l w'
           | (Return, w') \<Rightarrow> Expired l w'
           | (Select d st' l', w') \<Rightarrow> Running st' l' (de_Sleep E d w')
           | (Crash e, w') \<Rightarrow> Crashed e w')
      | _ \<Rightarrow> ph)"

lemma next_phase_step: "maintain_step E (Running st l w) (next_phase E (Running st l w))"
  by (auto simp: next_phase_def intro: maintain_step.intros split: prod.splits round.splits)

text \<open>
  The server is gone: sockets can still be opened and the link set up and down, packets sent or not, but no
  offer and no acknowledgement comes back.
\<close>

definition fails_softly :: "('w, 'a) io \<Rightarrow> bool" where
  "fails_softly m \<longleftrightarrow> (\<forall>w. \<exists>e w'. m w = (Inl e, w') \<and> \<not> is_panic e)"

definition succeeds :: "('w, 'a) io \<Rightarrow> bool" where
  "succeeds m \<longleftrightarrow> (\<forall>w. \<exists>x w'. m w = (Inr x, w'))"

definition server_gone :: "'w dhcp_env \<Rightarrow> bool" where
  "server_gone E \<longleftrightarrow>
     (\<forall>c p. fails_softly (dc_GetOffer E c p)) \<and> (\<forall>c p. fails_softly (dc_GetAcknowledgement E c p))
   \<and> (\<forall>c p. succeeds (dc_SendPacket E c p)) \<and> (\<forall>i. succeeds (dc_NewPacketSock E i))
   \<and> (\<forall>h t b s. succeeds (dc_New E h t b s))
   \<and> (\<forall>l. succeeds (nl_LinkSetUp (de_netlink E) l)) \<and> (\<forall>l. succeeds (nl_LinkSetDown (de_netlink E) l))"

lemma server_goneD:
  assumes "server_gone E"
  shows "fails_softly (dc_GetOffer E c p)" "fails_softly (dc_GetAcknowledgement E c p)" "succeeds (dc_SendPacket E c p)"
    "succeeds (dc_NewPacketSock E i)" "succeeds (dc_New E h t b s)" "succeeds (nl_LinkSetUp (de_netlink E) l)"
    "succeeds (nl_LinkSetDown (de_netlink E) l)"
  using assms unfolding server_gone_def by simp_all

lemma succeeds_ret: "succeeds (ret x)"
  by (simp add: succeeds_def ret_def)

lemma succeeds_bind: "succeeds m \<Longrightarrow> (\<And>x. succeeds (f x)) \<Longrightarrow> succeeds (bind_io m f)"
  unfolding succeeds_def by (metis bind_io_ok)

lemma fails_bind: "succeeds m \<Longrightarrow> (\<And>x. fails_softly (f x)) \<Longrightarrow> fails_softly (bind_io m f)"
  unfolding succeeds_def fails_softly_def by (metis bind_io_ok)

lemma fails_bind_first: "fails_softly m \<Longrightarrow> fails_softly (bind_io m f)"
  unfolding fails_softly_def by (metis bind_io_err)

lemma succeeds_send_built: "server_gone E \<Longrightarrow> succeeds (send_built E c opts build)"
proof -
  assume gone: "server_gone E"
  have "succeeds (bind_io (dc_SendPacket E c p) (\<lambda>_. ret p))" for p
    by (intro succeeds_bind succeeds_ret server_goneD(3) [OF gone])
  then show ?thesis unfolding succeeds_def send_built_def Let_def by blast
qed

lemma exchange_fails:
  assumes "server_gone E"
  shows "fails_softly (acked msg (DhcpRequest E c opts))" "fails_softly (acked msg (DhcpRenew E c p opts))"
  unfolding acked_def DhcpRequest_def DhcpRenew_def DhcpSendDiscoverPacket_def
  by (intro fails_bind_first fails_bind succeeds_send_built [OF assms] server_goneD [OF assms])+

text \<open>Retrying until the last attempt takes at least the shortest first pause.\<close>

lemma backoff_fails:
  assumes "dhcp_clock E" "fails_softly f" "forward (de_now E) f"
  shows "\<exists>w'. backoff_loop E f k w = (Inl errNoMoreTries, w') \<and> de_now E w + 3 * Second \<le> de_now E w'"
  using assms
proof (induction E f k arbitrary: w rule: backoff_loop.induct)
  case (1 E f k)
  obtain e w1 where f: "f w = (Inl e, w1)" "\<not> is_panic e" using 1(3) unfolding fails_softly_def by blast
  have le: "de_now E w \<le> de_now E w1" using forwardD [OF 1(4), OF f(1)] .
  have "resendDelay0 \<le> base_delay k" by (simp add: base_delay_def resendDelay0_def Second_def)
  then have "3 * Second \<le> base_delay k + de_jitter E w1"
    using dhcp_clockD(3) [OF 1(2), of w1] by (simp add: resendDelay0_def)
  moreover have "de_now E w1 + (base_delay k + de_jitter E w1) \<le> de_now E (pause_after E k w1)"
    unfolding pause_after_def by (rule dhcp_clockD(2) [OF 1(2)])
  ultimately have later: "de_now E w + 3 * Second \<le> de_now E (pause_after E k w1)" using le by linarith
  have u: "backoff_loop E f k w =
      (if base_delay k < resendDelayMax then backoff_loop E f (k + 1) (pause_after E k w1) else (Inl errNoMoreTries, pause_after E k w1))"
    by (subst backoff_loop.simps) (simp add: attempt_def f)
  show ?case
  proof (cases "base_delay k < resendDelayMax")
    case True
    obtain w' where "backoff_loop E f (k + 1) (pause_after E k w1) = (Inl errNoMoreTries, w')"
      "de_now E (pause_after E k w1) + 3 * Second \<le> de_now E w'"
      using 1(1) [OF True 1(2-4)] by blast
    then show ?thesis using True u later by (simp add: Second_def)
  next
    case False
    then show ?thesis using u later by simp
  qed
qed

lemma attempts_fail:
  assumes "dhcp_clock E" "server_gone E"
  shows "\<exists>e w'. acquire E l w = (Inl e, w') \<and> \<not> is_panic e \<and> de_now E w + 3 * Second \<le> de_now E w'"
    "\<exists>e w'. renew E l w = (Inl e, w') \<and> \<not> is_panic e \<and> de_now E w + 3 * Second \<le> de_now E w'"
proof -
  note fw = forward_exchange [OF assms(1)]
  have "succeeds (newDHCPClient E (lease_link l) (lease_timeout l) (lease_broadcast l))"
    unfolding newDHCPClient_def by (intro succeeds_bind server_goneD [OF assms(2)])
  then obtain c w1 where c: "newDHCPClient E (lease_link l) (lease_timeout l) (lease_broadcast l) w = (Inr c, w1)"
    unfolding succeeds_def by blast
  have le1: "de_now E w \<le> de_now E w1" using forwardD [OF fw(4), OF c] .
  have "succeeds (set_up E (lease_link l))"
    using server_goneD(6) [OF assms(2)] by (simp add: set_up_def succeeds_ret)
  then obtain u w2 where u: "set_up E (lease_link l) w1 = (Inr u, w2)" unfolding succeeds_def by blast
  have le2: "de_now E w1 \<le> de_now E w2" using forwardD [OF fw(5), OF u] .
  have close: "de_now E v \<le> de_now E (snd (dc_Close E c v))" for v
    using dhcp_clockD(6) [OF assms(1)] by (simp add: forward_def)
  have soft: "\<not> is_panic errNoMoreTries" by (simp add: errNoMoreTries_def)
  obtain w3 where b3: "backoffRetry E (acked ''DHCP server NACK'd own offer'' (DhcpRequest E c (acquire_opts l))) w2 = (Inl errNoMoreTries, w3)"
    "de_now E w2 + 3 * Second \<le> de_now E w3"
    using backoff_fails [OF assms(1), OF exchange_fails(1) [OF assms(2)], OF fw(1)] unfolding backoffRetry_def by blast
  have "acquire E l w = (Inl errNoMoreTries, snd (dc_Close E c w3))"
    by (simp add: acquire_def finally_io_def bind_io_def u b3(1) c)
  then show "\<exists>e w'. acquire E l w = (Inl e, w') \<and> \<not> is_panic e \<and> de_now E w + 3 * Second \<le> de_now E w'"
    using soft le1 le2 b3(2) close [of w3] by (intro exI conjI) auto
  obtain w4 where b4: "backoffRetry E (acked ''DHCP server did not renew lease'' (DhcpRenew E c (ack l) (identifier_opts l))) w1 = (Inl errNoMoreTries, w4)"
    "de_now E w1 + 3 * Second \<le> de_now E w4"
    using backoff_fails [OF assms(1), OF exchange_fails(2) [OF assms(2)], OF fw(2)] unfolding backoffRetry_def by blast
  have "renew E l w = (Inl errNoMoreTries, snd (dc_Close E c w4))"
    by (simp add: renew_def finally_io_def bind_io_def b4(1) c)
  then show "\<exists>e w'. renew E l w = (Inl e, w') \<and> \<not> is_panic e \<and> de_now E w + 3 * Second \<le> de_now E w'"
    using soft le1 b4(2) close [of w4] by (intro exI conjI) auto
qed

definition gets_to :: "'w dhcp_env \<Rightarrow> 'w phase \<Rightarrow> lease \<Rightarrow> bool" where
  "gets_to E ph l \<longleftrightarrow> (\<exists>n w'. (next_phase E ^^ n) ph = Expired l w')"

lemma gets_to_next: "gets_to E (next_phase E ph) l \<Longrightarrow> gets_to E ph l"
  unfolding gets_to_def by (metis funpow_Suc_right comp_apply)

lemma rebinding_expires:
  assumes "dhcp_clock E" "server_gone E"
  shows "gets_to E (Running leaseStateRebinding l w) l"
proof (induction "nat (expireTime l + 1 - de_now E w)" arbitrary: w rule: less_induct)
  case less
  obtain e w1 where a: "acquire E l w = (Inl e, w1)" "\<not> is_panic e" "de_now E w + 3 * Second \<le> de_now E w1"
    using attempts_fail(1) [OF assms] by blast
  show ?case
  proof (cases "expireTime l < de_now E w1")
    case True
    obtain x w2 where d: "nl_LinkSetDown (de_netlink E) (lease_link l) w1 = (Inr x, w2)"
      using server_goneD(7) [OF assms(2)] unfolding succeeds_def by blast
    have "next_phase E (Running leaseStateRebinding l w) = Expired l w2"
      using a True d by (simp add: next_phase_def lease_switch_def downIface_def attempt_def ret_def)
    then show ?thesis unfolding gets_to_def by (intro exI [of _ 1] exI [of _ w2]) simp
  next
    case False
    define w2 where "w2 = de_Sleep E 0 w1"
    have n: "next_phase E (Running leaseStateRebinding l w) = Running leaseStateRebinding l w2"
      using a False by (simp add: next_phase_def lease_switch_def w2_def)
    have "de_now E w1 \<le> de_now E w2" unfolding w2_def by (rule dhcp_clockD(1) [OF assms(1)])
    then have dec: "nat (expireTime l + 1 - de_now E w2) < nat (expireTime l + 1 - de_now E w)"
      using a(3) False by (simp add: Second_def)
    show ?thesis by (rule gets_to_next) (simp add: n less [OF dec])
  qed
qed

lemma renewing_expires:
  assumes "dhcp_clock E" "server_gone E"
  shows "gets_to E (Running leaseStateRenewing l w) l"
proof (induction "nat (rebindingTime l + 1 - de_now E w)" arbitrary: w rule: less_induct)
  case less
  obtain e w1 where a: "renew E l w = (Inl e, w1)" "\<not> is_panic e" "de_now E w + 3 * Second \<le> de_now E w1"
    using attempts_fail(2) [OF assms] by blast
  define w2 where "w2 = de_Sleep E 0 w1"
  have n: "next_phase E (Running leaseStateRenewing l w)
      = Running (if rebindingTime l < de_now E w1 then leaseStateRebinding else leaseStateRenewing) l w2"
    using a by (simp add: next_phase_def lease_switch_def w2_def)
  show ?case
  proof (cases "rebindingTime l < de_now E w1")
    case True
    show ?thesis by (rule gets_to_next) (use True in \<open>simp add: n rebinding_expires [OF assms]\<close>)
  next
    case False
    have "de_now E w1 \<le> de_now E w2" unfolding w2_def by (rule dhcp_clockD(1) [OF assms(1)])
    then have dec: "nat (rebindingTime l + 1 - de_now E w2) < nat (rebindingTime l + 1 - de_now E w)"
      using a(3) False by (simp add: Second_def)
    show ?thesis by (rule gets_to_next) (use False in \<open>simp add: n less [OF dec]\<close>)
  qed
qed

lemma due_expires:
  assumes "dhcp_clock E" "server_gone E" "renewalTime l \<le> de_now E w"
  shows "gets_to E (Running leaseStateBound l w) l"
proof -
  have "next_phase E (Running leaseStateBound l w) = Running leaseStateRenewing l w"
    using assms(3) by (simp add: next_phase_def lease_switch_def)
  then show ?thesis by (intro gets_to_next [of E "Running leaseStateBound l w"]) (simp add: renewing_expires [OF assms(1,2)])
qed


section \<open>Witnesses\<close>

text \<open>A network on which nobody answers; the state is the time.\<close>

definition demo_dhcp :: "int dhcp_env" where
  "demo_dhcp = \<lparr>de_netlink = idle_kernel (\<lambda>w. w) (\<lambda>d w. w + d), de_now = \<lambda>w. w, de_Sleep = \<lambda>d w. w + max d 0, de_jitter = \<lambda>_. 0,
     de_range = \<lambda>_ opts. opts, pk_AddOption = \<lambda>p c d. p @ c # d, pk_PadToMinSize = \<lambda>p. p, pk_ParseOptions = \<lambda>_ _. None,
     pk_YIAddr = \<lambda>_. [10, 0, 0, 9], dc_NewPacketSock = \<lambda>_. ret 1, dc_New = \<lambda>_ _ _ _. ret 1, dc_Close = \<lambda>_. ret (),
     dc_DiscoverPacket = \<lambda>_ _. [], dc_RequestPacket = \<lambda>_ _ _. [], dc_DeclinePacket = \<lambda>_ _ _. [],
     dc_RenewalRequestPacket = \<lambda>_ _ _. [], dc_ReleasePacket = \<lambda>_ _ _. [], dc_SendPacket = \<lambda>_ _. ret (),
     dc_GetOffer = \<lambda>_ _. fail (EnvError 1), dc_GetAcknowledgement = \<lambda>_ _. fail (EnvError 1)\<rparr>"

lemma demo_dhcp_clock: "dhcp_clock demo_dhcp"
  by (simp add: dhcp_clock_def demo_dhcp_def forward_def idle_kernel_def ret_def fail_def Second_def)

lemma demo_dhcp_gone: "server_gone demo_dhcp"
  by (simp add: server_gone_def demo_dhcp_def fails_softly_def succeeds_def idle_kernel_def ret_def fail_def)

definition demo_lease :: lease where
  "demo_lease = \<lparr>clientID = ''c1/net/eth0'', ack = [], lease_opts = (\<lambda>_. None), lease_link = new_link ''eth0'' Device,
     renewalTime = 1800 * Second, rebindingTime = 3060 * Second, expireTime = 3600 * Second, lease_timeout = 10 * Second,
     lease_broadcast = False\<rparr>"


theorem infinite_lease_overflow_witness:
  "\<exists>rebinding. lease_times [OptionIPAddressLeaseTime \<mapsto> [255, 255, 255, 255]]
       = Inr ((2 ^ 32 - 1) * Second div 2, rebinding, (2 ^ 32 - 1) * Second) \<and> rebinding < - (365 * 24 * 60 * 60 * Second)"
  by (rule infinite_lease_overflow)
    (simp_all add: OptionIPAddressLeaseTime_def OptionRebindingTimeValue_def OptionRenewalTimeValue_def)

lemma next_phase_ended [simp]:
  "next_phase E (Expired l w) = Expired l w" "next_phase E (Released l w) = Released l w" "next_phase E (Crashed e w) = Crashed e w"
  by (simp_all add: next_phase_def)

lemma maintain_next: "maintain E l w ((next_phase E ^^ n) (Running leaseStateBound l w))"
proof (induction n)
  case 0
  then show ?case by (simp add: maintain.start)
next
  case (Suc n)
  let ?p = "(next_phase E ^^ n) (Running leaseStateBound l w)"
  show ?case
  proof (cases ?p)
    case (Running st l' w')
    then show ?thesis using maintain.step [OF Suc] next_phase_step [of E st l' w'] by simp
  qed (use Suc in simp_all)
qed

theorem maintain_due_witness:
  "\<exists>w'. maintain demo_dhcp demo_lease (1800 * Second) (Expired demo_lease w') \<and> expireTime demo_lease < de_now demo_dhcp w'"
proof -
  have "renewalTime demo_lease \<le> de_now demo_dhcp (1800 * Second)" by (simp add: demo_lease_def demo_dhcp_def)
  from due_expires [OF demo_dhcp_clock demo_dhcp_gone this] obtain n w' where
    "(next_phase demo_dhcp ^^ n) (Running leaseStateBound demo_lease (1800 * Second)) = Expired demo_lease w'"
    unfolding gets_to_def by blast
  then have m: "maintain demo_dhcp demo_lease (1800 * Second) (Expired demo_lease w')"
    using maintain_next [of demo_dhcp demo_lease "1800 * Second" n] by simp
  from maintain_due [OF demo_dhcp_clock m] m show ?thesis by auto
qed


text \<open>
  A step of the machine goes forward through the states with the lease it has, or it comes back to the bound
  state, from a renewal or a rebinding that succeeded.
\<close>

lemma lease_advances:
  assumes "maintain_step E (Running st l w) (Running st' l' w')"
  shows "st \<le> st' \<and> l' = l \<or> st' = leaseStateBound \<and> (\<exists>w0 w1. renew E l w0 = (Inr l', w1) \<or> acquire E l w0 = (Inr l', w1))"
proof -
  have switch: "case lease_switch E st l w of (Continue s, v) \<Rightarrow> st \<le> s | (Select d s k, v) \<Rightarrow> st \<le> s \<and> k = l
      \<or> s = leaseStateBound \<and> (\<exists>w0 w1. renew E l w0 = (Inr k, w1) \<or> acquire E l w0 = (Inr k, w1)) | _ \<Rightarrow> True"
    by (cases st) (auto simp: lease_switch_def less_eq_lease_state_def Let_def split: sum.splits prod.splits)
  from assms show ?thesis by (cases rule: running_stepE) (use switch in auto)
qed

end
