(* ===== verification/Village_Ipam.thy ===== *)
theory Village_Ipam
  imports Cni_Types "HOL-Library.AList"
begin

text \<open>
  \<open>plugins/ipam/village-ipam/client.go\<close>: the addresses of the cluster, kept in one ConfigMap of the API server:
  the ranges of the interfaces under one key, the map from addresses to containers under another. Every
  operation reads the whole ConfigMap, and the ones that change it write the whole of it back.
\<close>

definition ipamCMInterfaceKey :: string where "ipamCMInterfaceKey = ''interfaces''"
definition ipamCMContainerIpKey :: string where "ipamCMContainerIpKey = ''containerIps''"

record if_config =
  ifc_Name :: string
  ifc_Range :: string
  ifc_GateWay :: string

text \<open>A \<open>map[string]string\<close> as an association list; \<open>None\<close> is the nil map, which \<open>null\<close> decodes to.\<close>

type_synonym dict = "(string \<times> string) list"

record config_map =
  cm_Version :: nat
  cm_Data :: "string \<Rightarrow> string option"

text \<open>\<open>encoding/json\<close> on the two values, and the two calls of the API server.\<close>

record json =
  js_interfaces :: "string \<Rightarrow> if_config list res"
  js_dict :: "string \<Rightarrow> dict option res"
  js_text :: "dict option \<Rightarrow> string"

record 'w kube =
  kb_json :: json
  kb_Get :: "('w, config_map) io"
  kb_Update :: "config_map \<Rightarrow> ('w, config_map) io"

text \<open>A missing key of a Go map reads as the empty string.\<close>

definition cm_get :: "config_map \<Rightarrow> string \<Rightarrow> string" where
  "cm_get cm k = (case cm_Data cm k of None \<Rightarrow> [] | Some s \<Rightarrow> s)"

definition cm_put :: "config_map \<Rightarrow> string \<Rightarrow> string \<Rightarrow> config_map" where
  "cm_put cm k s = cm\<lparr>cm_Data := (cm_Data cm)(k \<mapsto> s)\<rparr>"

section \<open>The search for an address\<close>

text \<open>\<open>inc\<close>: one more, from the last byte on, with the carry; it wraps at the top.\<close>

fun inc_rev :: "byte list \<Rightarrow> byte list" where
  "inc_rev [] = []"
| "inc_rev (b # bs) = (if 0 < b + 1 then (b + 1) # bs else (b + 1) # inc_rev bs)"

definition inc :: "ip \<Rightarrow> ip" where
  "inc a = rev (inc_rev (rev a))"

definition getMin :: "ip \<Rightarrow> ipnet \<Rightarrow> ip res" where
  "getMin a n =
     (let i = ip_mask a (net_mask n); j = length i - 1
      in if i = [] then Inl (Panic ''index out of range [-1]'')
         else Inr (if i ! j = 0 then i[j := i ! j + 1] else i))"

text \<open>
  The loop over the addresses of the network: the first one that is not in the map, or none; the outer option
  is \<open>None\<close> where the loop does not end.
\<close>

partial_function (option) find_ip :: "dict option \<Rightarrow> ipnet \<Rightarrow> ip \<Rightarrow> ip option option" where
  "find_ip m n a =
     (if \<not> ipnet_contains n a then Some None
      else if m \<noteq> None \<and> map_of (the m) (ip_string a) \<noteq> None then find_ip m n (inc a)
      else Some (Some a))"

section \<open>AssignIp\<close>

text \<open>
  One interface: its address (the zero \<open>IPNet\<close> when there was none to be had), its entry in the result and the
  record of the address, which panics on a nil map.
\<close>

definition assign_dev :: "string \<Rightarrow> nat \<Rightarrow> if_config \<Rightarrow> dict option \<times> cni_result \<Rightarrow> (dict option \<times> cni_result) res option" where
  "assign_dev containerId i dev v =
     (case v of (cnIpMap, result) \<Rightarrow>
       (case ParseCIDR (ifc_Range dev) of
          None \<Rightarrow> Some (Inl (Errorf ''invalid CIDR address''))
        | Some (a, ipn) \<Rightarrow>
            (case getMin a ipn of
               Inl e \<Rightarrow> Some (Inl e)
             | Inr start \<Rightarrow>
                 (case find_ip cnIpMap ipn start of
                    None \<Rightarrow> None
                  | Some found \<Rightarrow>
                      (let address = (case found of None \<Rightarrow> \<lparr>net_ip = [], net_mask = []\<rparr>
                             | Some x \<Rightarrow> \<lparr>net_ip = x, net_mask = net_mask ipn\<rparr>);
                           version = (if To4 (net_ip address) = [] then ''6'' else ''4'')
                       in case cnIpMap of
                            None \<Rightarrow> Some (Inl (Panic ''assignment to entry in nil map''))
                          | Some d \<Rightarrow>
                              Some (Inr (Some (AList.update (ip_string (net_ip address)) containerId d),
                                result\<lparr>IPs := IPs result @ [\<lparr>Version = version, Interface = Some (int i),
                                    Address = address, IPGateway = ParseIP (ifc_GateWay dev)\<rparr>],
                                  Interfaces := Interfaces result @ [\<lparr>Name = ifc_Name dev, Mac = [], Sandbox = []\<rparr>]\<rparr>)))))))"

fun assign_devs :: "string \<Rightarrow> nat \<Rightarrow> if_config list \<Rightarrow> dict option \<times> cni_result \<Rightarrow> (dict option \<times> cni_result) res option" where
  "assign_devs containerId i [] v = Some (Inr v)"
| "assign_devs containerId i (dev # devs) v =
     (case assign_dev containerId i dev v of
        None \<Rightarrow> None
      | Some (Inl e) \<Rightarrow> Some (Inl e)
      | Some (Inr v') \<Rightarrow> assign_devs containerId (i + 1) devs v')"

text \<open>What \<open>AssignIp\<close> makes of the ConfigMap it read: its result and the ConfigMap it will write.\<close>

definition assign_plan :: "json \<Rightarrow> string \<Rightarrow> config_map \<Rightarrow> (cni_result \<times> config_map) res option" where
  "assign_plan J containerId cm =
     (case js_interfaces J (cm_get cm ipamCMInterfaceKey) of
        Inl e \<Rightarrow> Some (Inl (Wrap ''failed to marshal interfaces'' e))
      | Inr interfaces \<Rightarrow>
          (let cm1 = (if cm_Data cm ipamCMContainerIpKey = None then cm_put cm ipamCMContainerIpKey (js_text J (Some [])) else cm)
           in case js_dict J (cm_get cm1 ipamCMContainerIpKey) of
                Inl e \<Rightarrow> Some (Inl (Wrap ''failed to marshal containerIps'' e))
              | Inr cnIpMap \<Rightarrow>
                  (case assign_devs containerId 0 interfaces (cnIpMap, empty_result) of
                     None \<Rightarrow> None
                   | Some (Inl e) \<Rightarrow> Some (Inl e)
                   | Some (Inr (cnIpMap', result)) \<Rightarrow>
                       Some (Inr (result, cm_put cm1 ipamCMContainerIpKey (js_text J cnIpMap'))))))"

definition AssignIp :: "'w kube \<Rightarrow> string \<Rightarrow> 'w \<Rightarrow> (cni_result res \<times> 'w) option" where
  "AssignIp K containerId w =
     (case wrap_io ''failed to get cm'' (kb_Get K) w of
        (Inl e, w1) \<Rightarrow> Some (Inl e, w1)
      | (Inr cm, w1) \<Rightarrow>
          (case assign_plan (kb_json K) containerId cm of
             None \<Rightarrow> None
           | Some (Inl e) \<Rightarrow> Some (Inl e, w1)
           | Some (Inr (result, cm')) \<Rightarrow> Some (bind_io (kb_Update K cm') (\<lambda>_. ret result) w1)))"

section \<open>Check and DeleteIp\<close>

definition Check_ip :: "'w kube \<Rightarrow> string \<Rightarrow> ('w, bool) io" where
  "Check_ip K containerId =
     bind_io (kb_Get K) (\<lambda>cm.
       case js_dict (kb_json K) (cm_get cm ipamCMContainerIpKey) of
         Inl e \<Rightarrow> fail e
       | Inr cnIpMap \<Rightarrow> ret (case cnIpMap of None \<Rightarrow> False | Some d \<Rightarrow> list_ex (\<lambda>(_, v). v = containerId) d))"

definition delete_plan :: "json \<Rightarrow> string \<Rightarrow> config_map \<Rightarrow> config_map res" where
  "delete_plan J containerId cm =
     (case js_dict J (cm_get cm ipamCMContainerIpKey) of
        Inl e \<Rightarrow> Inl e
      | Inr cnIpMap \<Rightarrow>
          (let newCnIpMap = (case cnIpMap of None \<Rightarrow> [] | Some d \<Rightarrow> filter (\<lambda>(_, v). v \<noteq> containerId) d)
           in Inr (cm_put cm ipamCMContainerIpKey (js_text J (Some newCnIpMap)))))"

definition DeleteIp :: "'w kube \<Rightarrow> string \<Rightarrow> ('w, unit) io" where
  "DeleteIp K containerId =
     bind_io (kb_Get K) (\<lambda>cm.
       case delete_plan (kb_json K) containerId cm of
         Inl e \<Rightarrow> fail e
       | Inr cm' \<Rightarrow> bind_io (kb_Update K cm') (\<lambda>_. ret ()))"

end
