(* ===== verification/Go_Cidr.thy ===== *)
theory Go_Cidr
  imports Go_Masks
begin

text \<open>
  What \<open>ParseCIDR\<close> returns, and the networks it returns: which addresses they contain, and that these are
  consecutive.
\<close>

section \<open>Networks\<close>

text \<open>A network as \<open>ParseCIDR\<close> returns it.\<close>

definition cidr_net :: "ipnet \<Rightarrow> bool" where
  "cidr_net n \<longleftrightarrow> canon (net_ip n) \<and> (\<exists>k. net_mask n = cidr_mask_bytes k (length (net_ip n))
     \<and> length (net_mask n) = length (net_ip n) \<and> ip_and (net_ip n) (net_mask n) = net_ip n)"

lemma cidr_netD:
  assumes "cidr_net n"
  shows "canon (net_ip n)" "length (net_mask n) = length (net_ip n)" "ip_and (net_ip n) (net_mask n) = net_ip n"
  using assms unfolding cidr_net_def by blast+

lemma contains_canon_addr:
  assumes "cidr_net n" "length a = length (net_ip n)" "ipnet_contains n a"
  shows "canon a"
proof (rule ccontr)
  assume "\<not> canon a"
  then have a: "length a = 16" "To4 a \<noteq> []"
    using assms(1,2) canon_length [of "net_ip n"] by (auto simp: cidr_net_def canon_def To4_def)
  have n: "canon (net_ip n)" "length (net_ip n) = 16" "length (net_mask n) = 16"
    using cidr_netD [OF assms(1)] assms(2) a(1) by simp_all
  then have "network_number_and_mask n = (net_ip n, net_mask n)"
    by (simp add: network_number_and_mask_def canon_To4)
  then have "length (To4 a) = 16" using assms(3) a(2) n(2) by (simp add: ipnet_contains_def Let_def)
  then show False using length_To4 [OF a(2)] by simp
qed

lemma cidr_contains_iff:
  assumes "cidr_net n" "length a = length (net_ip n)"
  shows "ipnet_contains n a \<longleftrightarrow> canon a \<and> ip_and a (net_mask n) = net_ip n"
proof (cases "canon a")
  case True
  have "ipnet_contains n a \<longleftrightarrow> ip_and (net_ip n) (net_mask n) = ip_and a (net_mask n)"
    by (rule ipnet_contains_canon [OF cidr_netD(1) [OF assms(1)] True cidr_netD(2) [OF assms(1)] assms(2)])
  then show ?thesis using True unfolding cidr_netD(3) [OF assms(1)] by (simp only: eq_commute [of "net_ip n"] simp_thms)
next
  case False
  then show ?thesis using contains_canon_addr [OF assms] by blast
qed

text \<open>Addresses between two addresses of the network are in it.\<close>

lemma cidr_net_convex:
  assumes "cidr_net n" "ipnet_contains n a" "ipnet_contains n x" "length a = length (net_ip n)" "length x = length (net_ip n)"
    "length c = length (net_ip n)" "of_bytes a \<le> of_bytes c" "of_bytes c \<le> of_bytes x" "canon c"
  shows "ipnet_contains n c"
proof -
  obtain k where k: "net_mask n = cidr_mask_bytes k (length (net_ip n))" using assms(1) by (auto simp: cidr_net_def)
  have "ip_and a (net_mask n) = net_ip n" "ip_and x (net_mask n) = net_ip n"
    using assms(2-5) cidr_contains_iff [OF assms(1)] by blast+
  then have "ip_and c (net_mask n) = net_ip n"
    using cidr_convex [of a "length (net_ip n)" x c k] assms(4-8) by (simp add: k)
  then show ?thesis using cidr_contains_iff [OF assms(1,6)] assms(9) by blast
qed

section \<open>The parsers\<close>


lemma parse_v4_length: "parse_v4_bytes k f s = Some bs \<Longrightarrow> length bs = k"
  by (induction k f s arbitrary: bs rule: parse_v4_bytes.induct) (auto split: if_splits option.splits)

lemma parseIPv4_length: "parseIPv4 s \<noteq> [] \<Longrightarrow> \<exists>bs. parseIPv4 s = v4InV6Prefix @ bs \<and> length bs = 4"
  using parse_v4_length [of 4 True s] by (auto simp: parseIPv4_def split: option.splits)

lemma parse_v6_length:
  "parse_v6_loop k acc e s = Some (gs, e', r) \<Longrightarrow> length acc + k \<le> 8 \<Longrightarrow> length gs \<le> 8"
proof (induction k acc e s rule: parse_v6_loop.induct)
  case (2 k acc e s)
  obtain n rest where x: "xtoi s = Some (n, rest)" using 2(3) by (auto split: option.splits)
  have four: "length (groups (drop 12 (parseIPv4 t))) = 2" if p4: "parseIPv4 t \<noteq> []" for t
  proof -
    obtain bs where "parseIPv4 t = v4InV6Prefix @ bs" "length bs = 4" using parseIPv4_length [OF p4] by blast
    then show ?thesis by (auto simp: length_Suc_conv numeral_eq_Suc)
  qed
  show ?case
    using 2 four [of s] by (auto simp: x Let_def split: if_splits)
qed simp

lemma parseIPv6_length: "parseIPv6 s \<noteq> [] \<Longrightarrow> length (parseIPv6 s) = 16"
proof -
  have e: "length (expand_ellipsis r) = 16" if er: "expand_ellipsis r \<noteq> []" "\<And>gs e t. r = Some (gs, e, t) \<Longrightarrow> length gs \<le> 8" for r
  proof -
    obtain gs e' t where r: "r = Some (gs, e', t)" using er(1) by (cases r) (auto simp: expand_ellipsis_def)
    then have "length gs \<le> 8" using er(2) by blast
    then show ?thesis using er(1) by (auto simp: r expand_ellipsis_def split: if_splits option.splits)
  qed
  assume ne: "parseIPv6 s \<noteq> []"
  have l: "length gs \<le> 8" if "parse_v6_loop 8 [] e t = Some (gs, e', r)" for e t gs e' r
    using parse_v6_length [OF that] by simp
  show ?thesis
    using ne e [of "parse_v6_loop 8 [] (Some 0) (drop 2 s)"] e [of "parse_v6_loop 8 [] None s"] l
    by (auto simp: parseIPv6_def split: if_splits)
qed

text \<open>What \<open>ParseCIDR\<close> gives, but for IPv6 networks of IPv4-mapped addresses.\<close>

lemma ParseCIDR_net:
  assumes "ParseCIDR s = Some (a, n)" "canon (net_ip n)"
  shows "cidr_net n" "ip_mask a (net_mask n) = net_ip n"
proof -
  define addr where "addr = takeWhile (\<lambda>c. c \<noteq> CHR ''/'') s"
  have "(net_mask n \<in> range (\<lambda>k. cidr_mask_bytes k 16) \<and> length a = 16) \<or>
      (net_mask n \<in> range (\<lambda>k. cidr_mask_bytes k 4) \<and> (\<exists>bs. a = v4InV6Prefix @ bs \<and> length bs = 4))"
  proof (cases "parseIPv4 addr = []")
    case True
    then have "net_mask n \<in> range (\<lambda>k. cidr_mask_bytes k 16) \<and> length a = 16"
      using assms(1) parseIPv6_length [of addr]
      by (auto simp: ParseCIDR_def Let_def addr_def CIDRMask_def split: if_splits option.splits)
    then show ?thesis by blast
  next
    case False
    then have "a = parseIPv4 addr" "net_mask n \<in> range (\<lambda>k. cidr_mask_bytes k 4)"
      using assms(1) by (auto simp: ParseCIDR_def Let_def addr_def CIDRMask_def split: if_splits option.splits)
    then have "net_mask n \<in> range (\<lambda>k. cidr_mask_bytes k 4) \<and> (\<exists>bs. a = v4InV6Prefix @ bs \<and> length bs = 4)"
      using parseIPv4_length [OF False] by simp
    then show ?thesis by blast
  qed
  then obtain l k b where b: "net_mask n = cidr_mask_bytes k l" "ip_mask a (net_mask n) = ip_and b (cidr_mask_bytes k l)" "length b = l"
  proof (elim disjE conjE exE rangeE)
    fix k assume "net_mask n = cidr_mask_bytes k 16" "length a = 16"
    then show thesis by (intro that [of k 16 a]) (simp_all add: ip_mask_same)
  next
    fix bs k assume "a = v4InV6Prefix @ bs" "length bs = 4" "net_mask n = cidr_mask_bytes k 4"
    then show thesis by (intro that [of k 4 bs]) (simp_all add: ip_mask_def)
  qed
  have n: "net_ip n = ip_mask a (net_mask n)"
    using assms(1) by (auto simp: ParseCIDR_def Let_def split: if_splits option.splits)
  then have e: "net_ip n = ip_and b (cidr_mask_bytes k l)" using b(2) by (rule trans)
  then have nl: "length (net_ip n) = l" using b(3) by simp
  have "ip_and (net_ip n) (net_mask n) = net_ip n" unfolding e b(1) by (rule ip_and_idem) (simp add: b(3))
  then show "cidr_net n" using assms(2) nl b(1) unfolding cidr_net_def by auto
  show "ip_mask a (net_mask n) = net_ip n" by (rule n [symmetric])
qed

section \<open>An address read by the kernel\<close>

lemma parse_v4_four: "parseIPv4 s = (case parse_v4_bytes (Suc (Suc (Suc (Suc 0)))) True s of None \<Rightarrow> [] | Some bs \<Rightarrow> v4InV6Prefix @ bs)"
  by (simp add: parseIPv4_def numeral_eq_Suc)

lemma demo_parse: "ParseCIDR ''10.0.0.4/30'' = Some (v4InV6Prefix @ [10, 0, 0, 4], \<lparr>net_ip = [10, 0, 0, 4], net_mask = [255, 255, 255, 252]\<rparr>)"
proof -
  have "parseIPv4 ''10.0.0.4'' = v4InV6Prefix @ [10, 0, 0, 4]"
    by (simp add: parse_v4_four scan_number_def digit_val_def big_def)
  moreover have "dtoi ''30'' = Some (30, [])" by (simp add: scan_number_def digit_val_def big_def)
  moreover have "CIDRMask 30 32 = [255, 255, 255, 252]" by code_simp
  moreover have "ip_mask (v4InV6Prefix @ [10, 0, 0, 4]) [255, 255, 255, 252] = [10, 0, 0, 4]" by code_simp
  ultimately show ?thesis by (simp add: ParseCIDR_def)
qed

end
