(* ===== verification/Village_Ipam_Props.thy ===== *)
theory Village_Ipam_Props
  imports Village_Ipam Go_Cidr
begin

text \<open>
  What the address search and \<open>AssignIp\<close> give, and why clients that run at the same time do not hand out an
  address twice.
\<close>

section \<open>The successor of an address\<close>

lemma length_inc_rev [simp]: "length (inc_rev bs) = length bs"
  by (induction bs) auto

lemma length_inc [simp]: "length (inc a) = length a"
  by (simp add: inc_def)

lemma byte_inc: "0 < (b :: byte) + 1 \<longleftrightarrow> unat b + 1 < 256" "unat (b + 1) = (unat b + 1) mod 256"
proof -
  show u: "unat (b + 1) = (unat b + 1) mod 256" by (simp add: unat_word_ariths)
  have "0 < b + 1 \<longleftrightarrow> 0 < unat (b + 1)" by (simp add: word_less_nat_alt)
  also have "\<dots> \<longleftrightarrow> unat b + 1 < 256" unfolding u using unat_byte [of b] by (cases "unat b = 255") auto
  finally show "0 < b + 1 \<longleftrightarrow> unat b + 1 < 256" .
qed

lemma inc_rev_value: "of_bytes (rev (inc_rev bs)) = (of_bytes (rev bs) + 1) mod 256 ^ length bs"
proof (induction bs)
  case Nil
  then show ?case by simp
next
  case (Cons b bs)
  let ?x = "of_bytes (rev bs)" and ?p = "256 ^ length bs :: nat"
  have less: "?x < ?p" using of_bytes_less [of "rev bs"] by simp
  have v: "of_bytes (rev (b # bs)) = ?x * 256 + unat b" by simp
  have p: "256 ^ length (b # bs) = ?p * (256 :: nat)" by (simp add: mult.commute)
  show ?case
  proof (cases "unat b + 1 < 256")
    case True
    then have "of_bytes (rev (inc_rev (b # bs))) = ?x * 256 + unat b + 1" by (simp add: byte_inc)
    moreover have "?x * 256 + unat b + 1 < ?p * 256" using less True by linarith
    ultimately show ?thesis unfolding v p by simp
  next
    case False
    then have b: "unat b = 255" using unat_byte [of b] by linarith
    then have "unat (b + 1) = 0" "\<not> 0 < b + 1" by (simp_all only: byte_inc) simp_all
    then have "of_bytes (rev (inc_rev (b # bs))) = (?x + 1) mod ?p * 256"
      using Cons by (simp only: inc_rev.simps if_False rev.simps of_bytes_snoc add_0_right)
    also have "\<dots> = ((?x + 1) * 256) mod (?p * 256)" by (rule mult_mod_left)
    also have "(?x + 1) * 256 = ?x * 256 + unat b + 1" using b by simp
    finally show ?thesis unfolding v p .
  qed
qed

lemma inc_value: "of_bytes (inc a) = (of_bytes a + 1) mod 256 ^ length a"
  using inc_rev_value [of "rev a"] by (simp add: inc_def)

lemma length_incs [simp]: "length ((inc ^^ k) a) = length a"
  by (induction k) simp_all

lemma incs_value: "of_bytes ((inc ^^ k) a) = (of_bytes a + k) mod 256 ^ length a"
proof (induction k)
  case 0
  then show ?case using of_bytes_less [of a] by simp
next
  case (Suc k)
  then show ?case by (simp add: inc_value mod_Suc_eq)
qed

lemma incs_distinct:
  assumes "i < 256 ^ length a" "j < 256 ^ length a" "(inc ^^ i) a = (inc ^^ j) a"
  shows "i = j"
proof -
  have *: "i = j" if ij: "i \<le> j" "j < 256 ^ length a" "(of_bytes a + i) mod 256 ^ length a = (of_bytes a + j) mod 256 ^ length a" for i j
  proof -
    have "256 ^ length a dvd (of_bytes a + j) - (of_bytes a + i)"
      using ij by (intro mod_eq_dvd_iff_nat [THEN iffD1]) simp_all
    then have "256 ^ length a dvd j - i" by simp
    then show ?thesis using ij(1,2) by (metis diff_is_0_eq dvd_imp_le gr0I le_antisym less_imp_diff_less not_less)
  qed
  have "(of_bytes a + i) mod 256 ^ length a = (of_bytes a + j) mod 256 ^ length a"
    using arg_cong [OF assms(3), of of_bytes] by (simp add: incs_value)
  then show ?thesis using * [of i j] * [of j i] assms(1,2) by (cases "i \<le> j") simp_all
qed

section \<open>The search\<close>

definition used :: "dict option \<Rightarrow> ip \<Rightarrow> bool" where
  "used m a \<longleftrightarrow> m \<noteq> None \<and> map_of (the m) (ip_string a) \<noteq> None"

lemma find_ip_walk:
  assumes "\<forall>j<k. ipnet_contains n ((inc ^^ j) a) \<and> used m ((inc ^^ j) a)"
    "\<not> (ipnet_contains n ((inc ^^ k) a) \<and> used m ((inc ^^ k) a))"
  shows "find_ip m n a = Some (if ipnet_contains n ((inc ^^ k) a) then Some ((inc ^^ k) a) else None)"
  using assms
proof (induction k arbitrary: a)
  case 0
  then show ?case by (subst find_ip.simps) (auto simp: used_def)
next
  case (Suc k)
  have h: "ipnet_contains n a" "used m a" using Suc.prems(1) by (metis funpow_0 zero_less_Suc)+
  have "find_ip m n (inc a) = Some (if ipnet_contains n ((inc ^^ k) (inc a)) then Some ((inc ^^ k) (inc a)) else None)"
  proof (rule Suc.IH)
    show "\<forall>j<k. ipnet_contains n ((inc ^^ j) (inc a)) \<and> used m ((inc ^^ j) (inc a))"
      using Suc.prems(1) by (metis Suc_less_eq comp_apply funpow_Suc_right)
    show "\<not> (ipnet_contains n ((inc ^^ k) (inc a)) \<and> used m ((inc ^^ k) (inc a)))"
      using Suc.prems(2) by (simp add: funpow_swap1)
  qed
  then show ?case using h by (subst find_ip.simps) (simp add: used_def funpow_swap1)
qed

text \<open>The search ends on every map that has fewer entries than the family has addresses.\<close>

lemma walk_leaves:
  assumes "cidr_net n" "length a = length (net_ip n)" "length d < 256 ^ length a"
  obtains k where "k \<le> length d" "\<forall>j<k. ipnet_contains n ((inc ^^ j) a) \<and> used (Some d) ((inc ^^ j) a)"
    "\<not> (ipnet_contains n ((inc ^^ k) a) \<and> used (Some d) ((inc ^^ k) a))"
proof -
  let ?P = "\<lambda>j. ipnet_contains n ((inc ^^ j) a) \<and> used (Some d) ((inc ^^ j) a)"
  have "\<exists>k\<le>length d. \<not> ?P k"
  proof (rule ccontr)
    assume "\<not> (\<exists>k\<le>length d. \<not> ?P k)"
    then have all: "?P j" if "j \<le> length d" for j using that by blast
    let ?f = "\<lambda>j. ip_string ((inc ^^ j) a)"
    have "inj_on ?f {..length d}"
    proof (rule inj_onI)
      fix i j assume ij: "i \<in> {..length d}" "j \<in> {..length d}" "?f i = ?f j"
      have "canon ((inc ^^ i) a)" "canon ((inc ^^ j) a)"
        using contains_canon_addr [OF assms(1)] assms(2) all ij(1,2) by (metis atMost_iff length_incs)+
      then have "(inc ^^ i) a = (inc ^^ j) a" using ip_string_canon_inj ij(3) by blast
      then show "i = j" using incs_distinct [of i a j] ij(1,2) assms(3) by simp
    qed
    moreover have "?f ` {..length d} \<subseteq> fst ` set d"
      using all by (force simp: used_def dest: map_of_SomeD)
    ultimately have "card {..length d} \<le> card (fst ` set d)" by (rule card_inj_on_le) simp
    also have "\<dots> \<le> length d" by (metis card_image_le List.finite_set card_length le_trans)
    finally show False by simp
  qed
  then obtain k where k: "k \<le> length d" "\<not> ?P k" by blast
  define k0 where "k0 = (LEAST k. \<not> ?P k)"
  have "\<not> ?P k0" unfolding k0_def by (rule LeastI [of "\<lambda>k. \<not> ?P k"], rule k(2))
  moreover have "k0 \<le> k" unfolding k0_def by (rule Least_le [of "\<lambda>k. \<not> ?P k"], rule k(2))
  moreover have "\<forall>j<k0. ?P j" unfolding k0_def using not_less_Least by blast
  ultimately show thesis using that k(1) by (meson le_trans)
qed

text \<open>
  In a network of IPv4, or of IPv6 whose first byte is not zero, every address from one of its addresses on is
  canonical, so the loop meets no IPv4-mapped address, where \<open>Contains\<close> would stop it.
\<close>

definition no_mapped :: "ipnet \<Rightarrow> bool" where
  "no_mapped n \<longleftrightarrow> length (net_ip n) = 4 \<or> hd (net_ip n) \<noteq> 0"

lemma no_mapped_canon:
  assumes "cidr_net n" "no_mapped n" "ipnet_contains n a" "length a = length (net_ip n)" "length c = length a" "of_bytes a \<le> of_bytes c"
  shows "canon c"
proof (cases "length a = 4")
  case True
  then show ?thesis using assms(5) by (simp add: canon_def)
next
  case False
  then have l: "length a = 16" "hd (net_ip n) \<noteq> 0"
    using assms(1,2,4) canon_length [of "net_ip n"] by (auto simp: cidr_net_def no_mapped_def)
  have "ip_and a (net_mask n) = net_ip n" using assms(1,3,4) cidr_contains_iff by blast
  moreover obtain a0 as m0 ms where "a = a0 # as" "net_mask n = m0 # ms"
    using l(1) cidr_netD(2) [OF assms(1)] assms(4) by (cases a; cases "net_mask n") simp_all
  ultimately have "net_ip n = (a0 AND m0) # ip_and as ms" "hd a = a0" by simp_all
  then have "hd a \<noteq> 0" using l(2) by auto
  then have "256 ^ 15 \<le> of_bytes c" using of_bytes_lower [of a] l(1) assms(6) by fastforce
  then have "hd c \<noteq> 0" using of_bytes_upper_hd0 [of c] assms(5) l(1) by fastforce
  then have "wide c" using assms(5) l(1) by (simp add: wide_def)
  then show ?thesis by (rule wide_canon)
qed

definition search_result :: "dict \<Rightarrow> ipnet \<Rightarrow> ip \<Rightarrow> ip option \<Rightarrow> bool" where
  "search_result d n a r \<longleftrightarrow>
     (case r of
        Some x \<Rightarrow> length x = length a \<and> ipnet_contains n x \<and> map_of d (ip_string x) = None
      | None \<Rightarrow> no_mapped n \<longrightarrow> ipnet_contains n a \<longrightarrow>
          (\<forall>x. length x = length a \<longrightarrow> ipnet_contains n x \<longrightarrow> of_bytes a \<le> of_bytes x \<longrightarrow> map_of d (ip_string x) \<noteq> None))"

lemma find_ip_spec:
  assumes "cidr_net n" "length a = length (net_ip n)" "length d < 256 ^ length a"
  shows "\<exists>r. find_ip (Some d) n a = Some r \<and> search_result d n a r"
proof -
  from walk_leaves [OF assms] obtain k where k:
    "\<forall>j<k. ipnet_contains n ((inc ^^ j) a) \<and> used (Some d) ((inc ^^ j) a)"
    "\<not> (ipnet_contains n ((inc ^^ k) a) \<and> used (Some d) ((inc ^^ k) a))" by blast
  note f = find_ip_walk [OF this]
  show ?thesis
  proof (cases "ipnet_contains n ((inc ^^ k) a)")
    case True
    then show ?thesis using f k(2) by (simp add: used_def search_result_def)
  next
    case False
    have "map_of d (ip_string x) \<noteq> None"
      if s: "no_mapped n" "ipnet_contains n a" and x: "length x = length a" "ipnet_contains n x" "of_bytes a \<le> of_bytes x" for x
    proof -
      define j where "j = of_bytes x - of_bytes a"
      have v: "of_bytes ((inc ^^ i) a) = of_bytes a + i" if "i \<le> j" for i
        using that x(3) of_bytes_less [of x] x(1) by (simp add: incs_value j_def)
      have xj: "x = (inc ^^ j) a" by (rule of_bytes_inj) (use v [of j] x(1,3) in \<open>simp_all add: j_def\<close>)
      have "j < k"
      proof (rule ccontr)
        assume "\<not> j < k"
        then have "of_bytes a \<le> of_bytes ((inc ^^ k) a)" "of_bytes ((inc ^^ k) a) \<le> of_bytes x"
          using v [of k] v [of j] xj by simp_all
        then have "ipnet_contains n ((inc ^^ k) a)"
          using cidr_net_convex [OF assms(1) s(2) x(2), of "(inc ^^ k) a"]
            no_mapped_canon [OF assms(1) s assms(2), of "(inc ^^ k) a"] assms(2) x(1) by simp
        with False show False by simp
      qed
      then show ?thesis using k(1) xj by (auto simp: used_def)
    qed
    then show ?thesis using f False by (simp add: search_result_def)
  qed
qed

lemma getMin_net:
  assumes "ParseCIDR s = Some (a, n)" "canon (net_ip n)"
  shows "\<exists>start. getMin a n = Inr start \<and> length start = length (net_ip n)"
  using ParseCIDR_net [OF assms] canon_nonempty [OF assms(2)] by (simp add: getMin_def Let_def)

section \<open>AssignIp\<close>

text \<open>The addresses that a result hands out; an interface whose range is full has none.\<close>

definition taken :: "ipconfig list \<Rightarrow> ip list" where
  "taken cs = filter (\<lambda>a. a \<noteq> []) (map (\<lambda>c. net_ip (Address c)) cs)"

lemma taken_simps [simp]:
  "taken [] = []" "taken (c # cs) = (if net_ip (Address c) = [] then taken cs else net_ip (Address c) # taken cs)"
  "taken (cs @ cs') = taken cs @ taken cs'"
  by (simp_all add: taken_def)

definition good_dev :: "if_config \<Rightarrow> bool" where
  "good_dev dev \<longleftrightarrow> (\<exists>a n. ParseCIDR (ifc_Range dev) = Some (a, n) \<and> canon (net_ip n))"

text \<open>
  The address of an interface: in its range, or missing because every address of the range is in the map.
\<close>

definition range_full :: "dict \<Rightarrow> ipnet \<Rightarrow> ip \<Rightarrow> bool" where
  "range_full d n start \<longleftrightarrow> (no_mapped n \<longrightarrow> ipnet_contains n start \<longrightarrow>
     (\<forall>x. length x = length start \<longrightarrow> ipnet_contains n x \<longrightarrow> of_bytes start \<le> of_bytes x \<longrightarrow> map_of d (ip_string x) \<noteq> None))"

definition fits :: "dict \<Rightarrow> nat \<times> if_config \<Rightarrow> ipconfig \<Rightarrow> bool" where
  "fits d = (\<lambda>(i, dev) c. Interface c = Some (int i) \<and> IPGateway c = ParseIP (ifc_GateWay dev)
     \<and> (\<exists>a n start. ParseCIDR (ifc_Range dev) = Some (a, n) \<and> getMin a n = Inr start
        \<and> (if net_ip (Address c) = [] then range_full d n start
           else net_mask (Address c) = net_mask n \<and> canon (net_ip (Address c)) \<and> ipnet_contains n (net_ip (Address c)))))"

lemma range_full_mono: "range_full d n start \<Longrightarrow> dom (map_of d) \<subseteq> dom (map_of d') \<Longrightarrow> range_full d' n start"
  unfolding range_full_def by (meson domIff subsetD)

lemma fits_mono:
  assumes "fits d p c" "dom (map_of d) \<subseteq> dom (map_of d')"
  shows "fits d' p c"
proof -
  obtain i dev where p: "p = (i, dev)" by (cases p)
  from assms(1) obtain a n start where h: "Interface c = Some (int i)" "IPGateway c = ParseIP (ifc_GateWay dev)"
    "ParseCIDR (ifc_Range dev) = Some (a, n)" "getMin a n = Inr start"
    "if net_ip (Address c) = [] then range_full d n start
     else net_mask (Address c) = net_mask n \<and> canon (net_ip (Address c)) \<and> ipnet_contains n (net_ip (Address c))"
    unfolding fits_def p prod.case by blast
  then have "if net_ip (Address c) = [] then range_full d' n start
     else net_mask (Address c) = net_mask n \<and> canon (net_ip (Address c)) \<and> ipnet_contains n (net_ip (Address c))"
    using range_full_mono [OF _ assms(2)] by (simp split: if_splits)
  then show ?thesis unfolding fits_def p prod.case using h(1-4) by blast
qed

lemma length_put: "length (AList.update k v d) \<le> length d + 1"
  by (induction d) auto

text \<open>What a run over some interfaces adds to the map and to the result.\<close>

definition allotted :: "string \<Rightarrow> dict \<Rightarrow> dict \<Rightarrow> ipconfig list \<Rightarrow> bool" where
  "allotted cid d d' cs \<longleftrightarrow>
     distinct (map ip_string (taken cs))
     \<and> (\<forall>x\<in>set (taken cs). canon x \<and> map_of d (ip_string x) = None \<and> map_of d' (ip_string x) = Some cid)
     \<and> (\<forall>k. k \<notin> insert ''<nil>'' (ip_string ` set (taken cs)) \<longrightarrow> map_of d' k = map_of d k)"

lemma ip_string_not_nil: "canon a \<Longrightarrow> ip_string a \<noteq> ''<nil>''"
proof
  assume a: "canon a" "ip_string a = ''<nil>''"
  have "ParseIP (ip_string a) \<noteq> []" using a(1) canon_To16_nonempty ParseIP_ip_string by auto
  then show False by (simp add: a(2) ParseIP_def)
qed

text \<open>One interface, when the search has given \<open>r\<close>.\<close>

definition given :: "nat \<Rightarrow> if_config \<Rightarrow> ipnet \<Rightarrow> ip option \<Rightarrow> ipconfig" where
  "given i dev n r =
     (let addr = (case r of None \<Rightarrow> \<lparr>net_ip = [], net_mask = []\<rparr> | Some x \<Rightarrow> \<lparr>net_ip = x, net_mask = net_mask n\<rparr>)
      in \<lparr>Version = if To4 (net_ip addr) = [] then ''6'' else ''4'', Interface = Some (int i),
          Address = addr, IPGateway = ParseIP (ifc_GateWay dev)\<rparr>)"

definition extended :: "cni_result \<Rightarrow> if_config list \<Rightarrow> ipconfig list \<Rightarrow> cni_result" where
  "extended result devs cs = result\<lparr>IPs := IPs result @ cs,
     Interfaces := Interfaces result @ map (\<lambda>dev. \<lparr>Name = ifc_Name dev, Mac = [], Sandbox = []\<rparr>) devs\<rparr>"

lemma extended_simps [simp]:
  "extended result [] [] = result" "extended (extended result devs cs) devs' cs' = extended result (devs @ devs') (cs @ cs')"
  by (simp_all add: extended_def)

lemma assign_dev_run:
  assumes "ParseCIDR (ifc_Range dev) = Some (a, n)" "getMin a n = Inr start" "find_ip (Some d) n start = Some r"
  shows "assign_dev cid i dev (Some d, result) =
      Some (Inr (Some (AList.update (ip_string (net_ip (Address (given i dev n r)))) cid d), extended result [dev] [given i dev n r]))"
  using assms by (simp add: assign_dev_def given_def extended_def Let_def split: option.splits)

lemma given_allotted:
  assumes "cidr_net n" "length start = length (net_ip n)"
    "\<And>x. r = Some x \<Longrightarrow> length x = length start \<and> ipnet_contains n x \<and> map_of d (ip_string x) = None"
  shows "allotted cid d (AList.update (ip_string (net_ip (Address (given i dev n r)))) cid d) [given i dev n r]"
proof (cases r)
  case None
  then show ?thesis by (simp add: allotted_def given_def update_conv' ip_string_def)
next
  case (Some x)
  with assms have x: "length x = length (net_ip n)" "ipnet_contains n x" "map_of d (ip_string x) = None" by simp_all
  have "canon x" using contains_canon_addr [OF assms(1) x(1,2)] .
  then show ?thesis
    using Some x ip_string_not_nil [of x] canon_nonempty [of x] by (simp add: allotted_def given_def update_conv')
qed

lemma assign_dev_spec:
  assumes "good_dev dev" "length d < 256 ^ 4"
  shows "\<exists>c d'. assign_dev cid i dev (Some d, result) = Some (Inr (Some d', extended result [dev] [c]))
    \<and> fits d' (i, dev) c \<and> allotted cid d d' [c] \<and> length d' \<le> length d + 1 \<and> dom (map_of d) \<subseteq> dom (map_of d')"
proof -
  from assms(1) obtain a n where n: "ParseCIDR (ifc_Range dev) = Some (a, n)" "canon (net_ip n)" by (auto simp: good_dev_def)
  note net = ParseCIDR_net(1) [OF n]
  from getMin_net [OF n] obtain start where st: "getMin a n = Inr start" "length start = length (net_ip n)" by blast
  have "(256 :: nat) ^ 4 \<le> 256 ^ length start"
    using st(2) canon_length [OF n(2)] by (intro power_increasing) auto
  then have "length d < 256 ^ length start" using assms(2) by linarith
  from find_ip_spec [OF net st(2) this] obtain r where r: "find_ip (Some d) n start = Some r" "search_result d n start r" by blast
  let ?c = "given i dev n r"
  define d' where "d' = AList.update (ip_string (net_ip (Address ?c))) cid d"
  have dom: "dom (map_of d) \<subseteq> dom (map_of d')" by (auto simp: d'_def update_conv')
  have all: "allotted cid d d' [?c]"
    unfolding d'_def by (rule given_allotted [OF net st(2)]) (use r(2) in \<open>simp add: search_result_def\<close>)
  have "fits d' (i, dev) ?c"
  proof (cases r)
    case None
    then have "range_full d' n start" using range_full_mono [OF _ dom, of n start] r(2) by (simp add: search_result_def range_full_def)
    then show ?thesis using None n(1) st(1) by (simp add: fits_def given_def)
  next
    case (Some x)
    then have "canon x" "ipnet_contains n x" using all canon_nonempty r(2)
        contains_canon_addr [OF net, of x] st(2) by (simp_all add: search_result_def)
    then show ?thesis using Some n(1) st(1) canon_nonempty [of x] by (simp add: fits_def given_def)
  qed
  moreover have "length d' \<le> length d + 1" unfolding d'_def by (rule length_put)
  ultimately show ?thesis using assign_dev_run [OF n(1) st(1) r(1), of cid i result] all dom unfolding d'_def by blast
qed

lemma allotted_nil [simp]: "allotted cid d d []"
  by (simp add: allotted_def)

lemma allotted_append:
  assumes "allotted cid d d1 as" "allotted cid d1 d2 bs"
  shows "allotted cid d d2 (as @ bs)"
proof -
  let ?A = "ip_string ` set (taken as)" and ?B = "ip_string ` set (taken bs)"
  have a: "distinct (map ip_string (taken as))" "\<And>x. x \<in> set (taken as) \<Longrightarrow> canon x \<and> map_of d (ip_string x) = None \<and> map_of d1 (ip_string x) = Some cid"
    "\<And>k. k \<notin> insert ''<nil>'' ?A \<Longrightarrow> map_of d1 k = map_of d k"
    using assms(1) unfolding allotted_def by blast+
  have b: "distinct (map ip_string (taken bs))" "\<And>x. x \<in> set (taken bs) \<Longrightarrow> canon x \<and> map_of d1 (ip_string x) = None \<and> map_of d2 (ip_string x) = Some cid"
    "\<And>k. k \<notin> insert ''<nil>'' ?B \<Longrightarrow> map_of d2 k = map_of d1 k"
    using assms(2) unfolding allotted_def by blast+
  have disj: "?A \<inter> ?B = {}" using a(2) b(2) by fastforce
  then have "distinct (map ip_string (taken (as @ bs)))" using a(1) b(1) by simp
  moreover have "canon x \<and> map_of d (ip_string x) = None \<and> map_of d2 (ip_string x) = Some cid" if "x \<in> set (taken (as @ bs))" for x
  proof (cases "x \<in> set (taken as)")
    case True
    then have "ip_string x \<notin> insert ''<nil>'' ?B" using a(2) [OF True] disj ip_string_not_nil [of x] by blast
    then show ?thesis using a(2) [OF True] b(3) by simp
  next
    case False
    then have x: "x \<in> set (taken bs)" using that by simp
    then have "ip_string x \<notin> insert ''<nil>'' ?A" using b(2) [OF x] disj ip_string_not_nil [of x] by blast
    then show ?thesis using b(2) [OF x] a(3) by simp
  qed
  moreover have "map_of d2 k = map_of d k" if "k \<notin> insert ''<nil>'' (ip_string ` set (taken (as @ bs)))" for k
  proof -
    have "k \<notin> insert ''<nil>'' ?A" "k \<notin> insert ''<nil>'' ?B" using that by auto
    then show ?thesis using a(3) b(3) by simp
  qed
  ultimately show ?thesis unfolding allotted_def by blast
qed

lemma assign_devs_spec:
  assumes "\<forall>dev\<in>set devs. good_dev dev" "length d + length devs \<le> 256 ^ 4"
  shows "\<exists>cs d'. assign_devs cid i devs (Some d, result) = Some (Inr (Some d', extended result devs cs))
    \<and> list_all2 (fits d') (enumerate i devs) cs \<and> allotted cid d d' cs \<and> dom (map_of d) \<subseteq> dom (map_of d')"
  using assms
proof (induction devs arbitrary: i d result)
  case Nil
  then show ?case by simp
next
  case (Cons dev devs)
  from assign_dev_spec [of dev d cid i result] Cons.prems obtain c d1 where
    c: "assign_dev cid i dev (Some d, result) = Some (Inr (Some d1, extended result [dev] [c]))"
    "fits d1 (i, dev) c" "allotted cid d d1 [c]" "length d1 \<le> length d + 1" "dom (map_of d) \<subseteq> dom (map_of d1)"
    by auto
  have pre: "\<forall>dev\<in>set devs. good_dev dev" "length d1 + length devs \<le> 256 ^ 4" using Cons.prems c(4) by simp_all
  from Cons.IH [OF pre, of "i + 1" "extended result [dev] [c]"]
  obtain cs d' where r: "assign_devs cid i (dev # devs) (Some d, result) = Some (Inr (Some d', extended result (dev # devs) (c # cs)))"
    "list_all2 (fits d') (enumerate (i + 1) devs) cs" "allotted cid d1 d' cs" "dom (map_of d1) \<subseteq> dom (map_of d')"
    using c(1) by auto
  have "fits d' (i, dev) c" using fits_mono [OF c(2) r(4)] .
  moreover have "allotted cid d d' (c # cs)" using allotted_append [OF c(3) r(3)] by simp
  ultimately show ?case using r c(5) by (intro exI [of _ "c # cs"] exI [of _ d']) auto
qed

text \<open>
  C9: \<open>AssignIp\<close> ends and gives every interface of the configuration an address of its range that no container
  held, all different, records them for the container and keeps every other record; an interface stays
  without an address only when all of its range, from the first address on, is in the map.
\<close>

theorem village_ipam_assign:
  assumes "kb_Get K w = (Inr cm, w1)" "js_interfaces (kb_json K) (cm_get cm ipamCMInterfaceKey) = Inr devs"
    "cm_Data cm ipamCMContainerIpKey = Some s" "js_dict (kb_json K) s = Inr (Some d)"
    "\<forall>dev\<in>set devs. good_dev dev" "length d + length devs \<le> 256 ^ 4"
  shows "\<exists>result d'. AssignIp K cid w =
        Some (bind_io (kb_Update K (cm_put cm ipamCMContainerIpKey (js_text (kb_json K) (Some d')))) (\<lambda>_. ret result) w1)
    \<and> map Name (Interfaces result) = map ifc_Name devs \<and> list_all2 (fits d') (enumerate 0 devs) (IPs result)
    \<and> allotted cid d d' (IPs result)"
proof -
  from assign_devs_spec [OF assms(5,6), of cid 0 empty_result] obtain cs d' where
    r: "assign_devs cid 0 devs (Some d, empty_result) = Some (Inr (Some d', extended empty_result devs cs))"
    "list_all2 (fits d') (enumerate 0 devs) cs" "allotted cid d d' cs" by blast
  have "cm_get cm ipamCMContainerIpKey = s" using assms(3) by (simp add: cm_get_def)
  then have run: "AssignIp K cid w =
      Some (bind_io (kb_Update K (cm_put cm ipamCMContainerIpKey (js_text (kb_json K) (Some d'))))
        (\<lambda>_. ret (extended empty_result devs cs)) w1)"
    using r(1) assms(1-4) by (simp add: AssignIp_def wrap_io_def assign_plan_def)
  show ?thesis
    by (intro exI conjI, rule run) (use r(2,3) in \<open>simp_all add: extended_def empty_result_def comp_def\<close>)
qed

end
