(* ===== verification/Village_Cluster.thy ===== *)
theory Village_Cluster
  imports Village_Ipam_Props
begin

text \<open>
  Clients of \<open>village-ipam\<close> that run at the same time. The API server refuses an update of a ConfigMap that was
  changed since it was read (its resource version is another one); this is the documented behaviour of
  Kubernetes that the plugin relies on, as it takes no lock.
\<close>

section \<open>The server and its clients\<close>

text \<open>
  The ConfigMap of the server, the copy that each client has read, and the addresses that containers were told
  they have and have not given back.
\<close>

record 'p cluster =
  server :: config_map
  copies :: "'p \<Rightarrow> config_map option"
  held :: "(string \<times> ip) list"

definition written :: "'p cluster \<Rightarrow> 'p \<Rightarrow> config_map \<Rightarrow> 'p cluster" where
  "written s p cm = s\<lparr>server := cm\<lparr>cm_Version := Suc (cm_Version cm)\<rparr>, copies := (copies s)(p := None)\<rparr>"

definition ascii :: "string \<Rightarrow> bool" where
  "ascii s \<longleftrightarrow> list_all (\<lambda>c. (of_char c :: nat) < 128) s"

inductive api_step :: "json \<Rightarrow> 'p cluster \<Rightarrow> 'p cluster \<Rightarrow> bool" for J where
  read: "api_step J s (s\<lparr>copies := (copies s)(p \<mapsto> server s)\<rparr>)"
| assigned: "copies s p = Some cm \<Longrightarrow> assign_plan J cid cm = Some (Inr (result, cm')) \<Longrightarrow> cm_Version cm = cm_Version (server s)
    \<Longrightarrow> ascii cid
    \<Longrightarrow> api_step J s ((written s p cm')\<lparr>held := held s @ map (Pair cid) (taken (IPs result))\<rparr>)"
| deleted: "copies s p = Some cm \<Longrightarrow> delete_plan J cid cm = Inr cm' \<Longrightarrow> cm_Version cm = cm_Version (server s)
    \<Longrightarrow> api_step J s ((written s p cm')\<lparr>held := filter (\<lambda>(c, _). c \<noteq> cid) (held s)\<rparr>)"
| gave_up: "api_step J s (s\<lparr>copies := (copies s)(p := None)\<rparr>)"

section \<open>JSON\<close>

definition plain :: "dict \<Rightarrow> bool" where
  "plain d \<longleftrightarrow> distinct (map fst d) \<and> (\<forall>(k, v)\<in>set d. ascii k \<and> ascii v)"

text \<open>A map of ASCII texts is read back as it was written.\<close>

definition json_ok :: "json \<Rightarrow> bool" where
  "json_ok J \<longleftrightarrow> (\<forall>d. plain d \<longrightarrow> (\<exists>d'. js_dict J (js_text J (Some d)) = Inr (Some d') \<and> plain d' \<and> map_of d' = map_of d))"

lemma ascii_append [simp]: "ascii (s @ t) \<longleftrightarrow> ascii s \<and> ascii t" and ascii_simps [simp]: "ascii []"
    "ascii (c # s) \<longleftrightarrow> of_char c < (128 :: nat) \<and> ascii s"
  by (simp_all add: ascii_def)

lemma ascii_digit: "d < 16 \<Longrightarrow> of_char (digit d) < (128 :: nat)"
  by (simp add: digit_def)

lemma ascii_chars: "(\<And>c. c \<in> set s \<Longrightarrow> \<exists>d<16. c = digit d) \<Longrightarrow> ascii s"
  using ascii_digit by (fastforce simp: ascii_def list_all_iff)

lemma ascii_utoa [simp]: "ascii (utoa n)"
proof (rule ascii_chars)
  fix c assume "c \<in> set (utoa n)"
  then obtain d where "d < 10" "c = digit d" using utoa_chars by blast
  then show "\<exists>d<16. c = digit d" by (intro exI [of _ d]) simp
qed

lemma ascii_hex [simp]: "ascii (hex n)"
  by (rule ascii_chars) (rule hex_chars)

lemma ascii_join: "ascii sep \<Longrightarrow> \<forall>x\<in>set xs. ascii x \<Longrightarrow> ascii (join sep xs)"
  by (induction sep xs rule: join.induct) simp_all

lemma ascii_ip_string [simp]: "ascii (ip_string a)"
proof -
  have "ascii (string_of_v4 x)" for x by (auto simp: string_of_v4_def intro!: ascii_join)
  moreover have "ascii (string_of_v6 x)" for x
    by (auto simp: string_of_v6_def Let_def split: prod.splits intro!: ascii_join)
  moreover have "ascii (hex_string x)" for x
  proof (rule ascii_chars)
    fix c assume "c \<in> set (hex_string x)"
    then obtain b where "b \<in> set x" "c = digit (unat b div 16) \<or> c = digit (unat b mod 16)" by (auto simp: hex_string_def)
    moreover have "unat b div 16 < 16" for b :: byte using unat_byte [of b] by simp
    ultimately show "\<exists>d<16. c = digit d" by (metis mod_less_divisor zero_less_numeral)
  qed
  ultimately show ?thesis by (simp add: ip_string_def)
qed

lemma plain_update:
  assumes "plain d" "ascii k" "ascii v"
  shows "plain (AList.update k v d)"
proof -
  have "set (AList.update k v d) \<subseteq> insert (k, v) (set d)" by (induction d) auto
  then show ?thesis using assms distinct_update [of d k v] by (auto simp: plain_def)
qed

section \<open>A successful plan\<close>

lemma find_ip_found:
  assumes "find_ip m n a = Some r"
  shows "r = Some x \<longrightarrow> length x = length a \<and> ipnet_contains n x \<and> \<not> used m x"
proof (rule find_ip.raw_induct [OF _ assms])
  fix f m n a r
  assume ih: "\<And>m n a r. f m n a = Some r \<Longrightarrow> r = Some x \<longrightarrow> length x = length a \<and> ipnet_contains n x \<and> \<not> used m x"
    and r: "(if \<not> ipnet_contains n a then Some None
      else if m \<noteq> None \<and> map_of (the m) (ip_string a) \<noteq> None then f m n (inc a) else Some (Some a)) = Some r"
  show "r = Some x \<longrightarrow> length x = length a \<and> ipnet_contains n x \<and> \<not> used m x"
  proof (cases "ipnet_contains n a \<and> used m a")
    case True
    then have "f m n (inc a) = Some r" using r by (simp add: used_def)
    then show ?thesis using ih [of m n "inc a" r] by simp
  next
    case False
    then show ?thesis using r by (auto simp: used_def split: if_splits)
  qed
qed

lemma find_ip_sound:
  "find_ip (Some d) n a = Some (Some x) \<Longrightarrow> length x = length a \<and> ipnet_contains n x \<and> map_of d (ip_string x) = None"
  using find_ip_found by (fastforce simp: used_def)

lemma assign_dev_ok:
  assumes "good_dev dev" "assign_dev cid i dev (Some d, result) = Some (Inr v)"
  shows "\<exists>c k. v = (Some (AList.update k cid d), extended result [dev] [c]) \<and> ascii k \<and> allotted cid d (AList.update k cid d) [c]"
proof -
  from assms(1) obtain a n where n: "ParseCIDR (ifc_Range dev) = Some (a, n)" "canon (net_ip n)" by (auto simp: good_dev_def)
  from getMin_net [OF n] obtain start where st: "getMin a n = Inr start" "length start = length (net_ip n)" by blast
  obtain r where r: "find_ip (Some d) n start = Some r"
    using assms(2) by (auto simp: assign_dev_def n(1) st(1) split: option.splits)
  have "allotted cid d (AList.update (ip_string (net_ip (Address (given i dev n r)))) cid d) [given i dev n r]"
    by (rule given_allotted [OF ParseCIDR_net(1) [OF n] st(2)]) (use find_ip_sound r in simp)
  moreover have "v = (Some (AList.update (ip_string (net_ip (Address (given i dev n r)))) cid d), extended result [dev] [given i dev n r])"
    using assign_dev_run [OF n(1) st(1) r, of cid i result] assms(2) by simp
  ultimately show ?thesis using ascii_ip_string by blast
qed

lemma assign_devs_ok:
  assumes "\<forall>dev\<in>set devs. good_dev dev" "plain d" "ascii cid"
    "assign_devs cid i devs (Some d, result) = Some (Inr (m, result'))"
  shows "\<exists>cs d'. m = Some d' \<and> plain d' \<and> result' = extended result devs cs \<and> allotted cid d d' cs"
  using assms
proof (induction devs arbitrary: i d result)
  case Nil
  then show ?case by (intro exI [of _ "[]"] exI [of _ d]) simp
next
  case (Cons dev devs)
  then obtain v where v: "assign_dev cid i dev (Some d, result) = Some (Inr v)" "assign_devs cid (i + 1) devs v = Some (Inr (m, result'))"
    by (auto split: option.splits sum.splits)
  have good: "good_dev dev" using Cons.prems(1) by simp
  obtain c k where c: "v = (Some (AList.update k cid d), extended result [dev] [c])" "ascii k"
    "allotted cid d (AList.update k cid d) [c]"
    using assign_dev_ok [OF good v(1)] by blast
  have "plain (AList.update k cid d)" by (rule plain_update [OF Cons.prems(2) c(2) Cons.prems(3)])
  moreover have "\<forall>dev\<in>set devs. good_dev dev" using Cons.prems(1) by simp
  ultimately obtain cs d' where
    "m = Some d'" "plain d'" "result' = extended (extended result [dev] [c]) devs cs" "allotted cid (AList.update k cid d) d' cs"
    using Cons.IH [of "AList.update k cid d" "i + 1" "extended result [dev] [c]"] Cons.prems(3) v(2) unfolding c(1) by blast
  then show ?case using allotted_append [OF c(3)] by (intro exI [of _ "c # cs"] exI [of _ d']) auto
qed

text \<open>The map of addresses in a ConfigMap, and a ConfigMap whose interfaces have ranges that can be searched.\<close>

definition records :: "json \<Rightarrow> config_map \<Rightarrow> dict \<Rightarrow> bool" where
  "records J cm d \<longleftrightarrow> cm_Data cm ipamCMContainerIpKey \<noteq> None \<and> js_dict J (cm_get cm ipamCMContainerIpKey) = Inr (Some d) \<and> plain d"

definition searchable :: "json \<Rightarrow> config_map \<Rightarrow> bool" where
  "searchable J cm \<longleftrightarrow> (\<forall>devs. js_interfaces J (cm_get cm ipamCMInterfaceKey) = Inr devs \<longrightarrow> (\<forall>dev\<in>set devs. good_dev dev))"

lemma cm_get_put [simp]: "cm_get (cm_put cm k s) k' = (if k' = k then s else cm_get cm k')"
  by (simp add: cm_get_def cm_put_def)

lemma cm_put_data [simp]: "cm_Data (cm_put cm k s) = (cm_Data cm)(k \<mapsto> s)" "cm_Version (cm_put cm k s) = cm_Version cm"
  by (simp_all add: cm_put_def)

lemma keys_differ [simp]: "ipamCMInterfaceKey \<noteq> ipamCMContainerIpKey"
  by (simp add: ipamCMInterfaceKey_def ipamCMContainerIpKey_def)

lemma records_put: "json_ok J \<Longrightarrow> plain d \<Longrightarrow> \<exists>d'. records J (cm_put cm ipamCMContainerIpKey (js_text J (Some d))) d' \<and> map_of d' = map_of d"
  unfolding json_ok_def records_def by auto

lemma searchable_put [simp]: "searchable J (cm_put cm ipamCMContainerIpKey s) = searchable J cm"
  by (simp add: searchable_def)

lemma assign_plan_ok:
  assumes "json_ok J" "searchable J cm" "records J cm d" "ascii cid" "assign_plan J cid cm = Some (Inr (result, cm'))"
  shows "\<exists>d'. records J cm' d' \<and> searchable J cm' \<and> cm_Version cm' = cm_Version cm \<and> allotted cid d d' (IPs result)"
proof -
  have k: "cm_Data cm ipamCMContainerIpKey \<noteq> None" "js_dict J (cm_get cm ipamCMContainerIpKey) = Inr (Some d)" "plain d"
    using assms(3) by (simp_all add: records_def)
  obtain devs where devs: "js_interfaces J (cm_get cm ipamCMInterfaceKey) = Inr devs"
    using assms(5) by (auto simp: assign_plan_def split: sum.splits)
  then obtain m where m: "assign_devs cid 0 devs (Some d, empty_result) = Some (Inr (m, result))"
    "cm' = cm_put cm ipamCMContainerIpKey (js_text J m)"
    using assms(5) k(1,2) by (auto simp: assign_plan_def Let_def split: sum.splits option.splits prod.splits)
  have "\<forall>dev\<in>set devs. good_dev dev" using assms(2) devs by (simp add: searchable_def)
  from assign_devs_ok [OF this k(3) assms(4) m(1)] obtain cs d1 where
    d1: "m = Some d1" "plain d1" "result = extended empty_result devs cs" "allotted cid d d1 cs" by blast
  from records_put [OF assms(1) d1(2), of cm] obtain d' where d': "records J cm' d'" "map_of d' = map_of d1"
    using m(2) d1(1) by auto
  then have "allotted cid d d' (IPs result)" using d1(3,4) by (simp add: allotted_def extended_def empty_result_def)
  then show ?thesis using d' assms(2) m(2) by auto
qed

lemma map_of_filter_values:
  "distinct (map fst d) \<Longrightarrow> map_of (filter (\<lambda>(_, v). v \<noteq> c) d) k = (case map_of d k of None \<Rightarrow> None | Some v \<Rightarrow> if v \<noteq> c then Some v else None)"
  by (induction d) (auto simp: rev_image_eqI split: option.splits)

lemma delete_plan_ok:
  assumes "json_ok J" "searchable J cm" "records J cm d" "delete_plan J cid cm = Inr cm'"
  shows "\<exists>d'. records J cm' d' \<and> searchable J cm' \<and> cm_Version cm' = cm_Version cm
    \<and> (\<forall>k. map_of d' k = (case map_of d k of None \<Rightarrow> None | Some v \<Rightarrow> if v \<noteq> cid then Some v else None))"
proof -
  have k: "js_dict J (cm_get cm ipamCMContainerIpKey) = Inr (Some d)" "plain d" using assms(3) by (simp_all add: records_def)
  have p: "plain (filter (\<lambda>(_, v). v \<noteq> cid) d)" using k(2) by (auto simp: plain_def distinct_map_filter)
  have cm': "cm' = cm_put cm ipamCMContainerIpKey (js_text J (Some (filter (\<lambda>(_, v). v \<noteq> cid) d)))"
    using assms(4) k(1) by (simp add: delete_plan_def)
  from records_put [OF assms(1) p, of cm] obtain d' where d': "records J cm' d'" "map_of d' = map_of (filter (\<lambda>(_, v). v \<noteq> cid) d)"
    unfolding cm' by blast
  then show ?thesis using assms(2) map_of_filter_values [of d cid] k(2) cm' by (auto simp: plain_def)
qed

section \<open>No address for two containers\<close>

inductive api_run :: "json \<Rightarrow> 'p cluster \<Rightarrow> 'p cluster \<Rightarrow> bool" for J s0 where
  start: "api_run J s0 s0"
| step: "api_run J s0 s \<Longrightarrow> api_step J s s' \<Longrightarrow> api_run J s0 s'"

text \<open>
  The invariant: a copy that is still current is what the server holds, and every address that a container was
  given is recorded for it.
\<close>

definition cluster_inv :: "json \<Rightarrow> 'p cluster \<Rightarrow> bool" where
  "cluster_inv J s \<longleftrightarrow>
     searchable J (server s)
   \<and> (\<forall>p cm. copies s p = Some cm \<longrightarrow> cm_Version cm \<le> cm_Version (server s) \<and> (cm_Version cm = cm_Version (server s) \<longrightarrow> cm = server s))
   \<and> distinct (map (ip_string \<circ> snd) (held s))
   \<and> (\<exists>d. records J (server s) d \<and> (\<forall>(c, x)\<in>set (held s). canon x \<and> map_of d (ip_string x) = Some c))"

lemma written_copies:
  assumes "\<forall>p cm. copies s p = Some cm \<longrightarrow> cm_Version cm \<le> cm_Version (server s) \<and> (cm_Version cm = cm_Version (server s) \<longrightarrow> cm = server s)"
    "cm_Version cm' = cm_Version (server s)" "copies (written s p cm') q = Some cm"
  shows "cm_Version cm \<le> cm_Version (server (written s p cm')) \<and> (cm_Version cm = cm_Version (server (written s p cm')) \<longrightarrow> cm = server (written s p cm'))"
  using assms by (fastforce simp: written_def split: if_splits)

lemma version_irrelevant [simp]: "searchable J (cm\<lparr>cm_Version := v\<rparr>) = searchable J cm" "records J (cm\<lparr>cm_Version := v\<rparr>) d = records J cm d"
  by (simp_all add: searchable_def records_def cm_get_def)

lemma cluster_inv_step:
  assumes "json_ok J" "api_step J s s'" "cluster_inv J s"
  shows "cluster_inv J s'"
proof -
  from assms(3) obtain d where inv: "searchable J (server s)" "distinct (map (ip_string \<circ> snd) (held s))" "records J (server s) d"
    "\<And>c x. (c, x) \<in> set (held s) \<Longrightarrow> canon x \<and> map_of d (ip_string x) = Some c"
    and cop: "\<forall>p cm. copies s p = Some cm \<longrightarrow> cm_Version cm \<le> cm_Version (server s) \<and> (cm_Version cm = cm_Version (server s) \<longrightarrow> cm = server s)"
    by (fastforce simp: cluster_inv_def)
  from assms(2) show ?thesis
  proof cases
    case (read p)
    then show ?thesis using assms(3) by (auto simp: cluster_inv_def)
  next
    case (gave_up p)
    then show ?thesis using assms(3) by (auto simp: cluster_inv_def)
  next
    case (assigned p cm cid result cm')
    then have cm: "cm = server s" using cop by blast
    from assign_plan_ok [OF assms(1) inv(1,3) _ assigned(3) [unfolded cm]] assigned(5) obtain d' where
      d': "records J cm' d'" "searchable J cm'" "cm_Version cm' = cm_Version (server s)" "allotted cid d d' (IPs result)"
      by blast
    have a: "distinct (map ip_string (taken (IPs result)))"
      "\<And>x. x \<in> set (taken (IPs result)) \<Longrightarrow> canon x \<and> map_of d (ip_string x) = None \<and> map_of d' (ip_string x) = Some cid"
      "\<And>k. k \<notin> insert ''<nil>'' (ip_string ` set (taken (IPs result))) \<Longrightarrow> map_of d' k = map_of d k"
      using d'(4) unfolding allotted_def by blast+
    have h: "held s' = held s @ map (Pair cid) (taken (IPs result))" "server s' = cm'\<lparr>cm_Version := Suc (cm_Version cm')\<rparr>"
      "copies s' = copies (written s p cm')"
      by (simp_all add: assigned(1) written_def)
    have "canon x \<and> map_of d' (ip_string x) = Some c" if "(c, x) \<in> set (held s')" for c x
    proof (cases "(c, x) \<in> set (held s)")
      case True
      then have "ip_string x \<notin> insert ''<nil>'' (ip_string ` set (taken (IPs result)))"
        using inv(4) a(2) ip_string_not_nil by fastforce
      then show ?thesis using inv(4) [OF True] a(3) by simp
    qed (use that a(2) h(1) in auto)
    moreover have "distinct (map (ip_string \<circ> snd) (held s'))"
      using inv(2,4) a(1,2) unfolding h(1) by (fastforce simp: comp_def)
    moreover have "cm_Version c \<le> cm_Version (server s') \<and> (cm_Version c = cm_Version (server s') \<longrightarrow> c = server s')" if "copies s' q = Some c" for q c
      using written_copies [OF cop d'(3), of p q c] that h by (simp add: written_def)
    ultimately show ?thesis using d'(1,2) unfolding cluster_inv_def by (auto simp: h(2))
  next
    case (deleted p cm cid cm')
    then have cm: "cm = server s" using cop by blast
    from delete_plan_ok [OF assms(1) inv(1,3) deleted(3) [unfolded cm]] obtain d' where
      d': "records J cm' d'" "searchable J cm'" "cm_Version cm' = cm_Version (server s)"
      "\<And>k. map_of d' k = (case map_of d k of None \<Rightarrow> None | Some v \<Rightarrow> if v \<noteq> cid then Some v else None)" by blast
    have h: "held s' = filter (\<lambda>(c, _). c \<noteq> cid) (held s)" "server s' = cm'\<lparr>cm_Version := Suc (cm_Version cm')\<rparr>"
      "copies s' = copies (written s p cm')"
      by (simp_all add: deleted(1) written_def)
    have "canon x \<and> map_of d' (ip_string x) = Some c" if "(c, x) \<in> set (held s')" for c x
      using that inv(4) [of c x] by (auto simp: h(1) d'(4))
    moreover have "distinct (map (ip_string \<circ> snd) (held s'))"
      using inv(2) unfolding h(1) by (simp add: distinct_map_filter)
    moreover have "cm_Version c \<le> cm_Version (server s') \<and> (cm_Version c = cm_Version (server s') \<longrightarrow> c = server s')" if "copies s' q = Some c" for q c
      using written_copies [OF cop d'(3), of p q c] that h by (simp add: written_def)
    ultimately show ?thesis using d'(1,2) unfolding cluster_inv_def by (auto simp: h(2))
  qed
qed

text \<open>
  C2: however the calls of any number of clients interleave, no address is in the hands of two containers, and
  each one is recorded for the container that was told it has it.
\<close>

theorem village_ipam_exclusive:
  assumes "json_ok J" "searchable J (server s0)" "records J (server s0) d0" "held s0 = []" "copies s0 = (\<lambda>_. None)" "api_run J s0 s"
  shows "distinct (map snd (held s)) \<and> (\<exists>d. js_dict J (cm_get (server s) ipamCMContainerIpKey) = Inr (Some d)
    \<and> (\<forall>(c, x)\<in>set (held s). map_of d (ip_string x) = Some c))"
proof -
  have "cluster_inv J s"
    using assms(6)
  proof (induction rule: api_run.induct)
    case start
    then show ?case using assms(2-5) by (auto simp: cluster_inv_def)
  next
    case (step s s')
    then show ?case using cluster_inv_step [OF assms(1)] by blast
  qed
  then have inv: "distinct (map (ip_string \<circ> snd) (held s))"
    "\<exists>d. records J (server s) d \<and> (\<forall>(c, x)\<in>set (held s). canon x \<and> map_of d (ip_string x) = Some c)"
    unfolding cluster_inv_def by blast+
  have "distinct (map ip_string (map snd (held s)))" using inv(1) by simp
  then have "distinct (map snd (held s))" by (simp only: distinct_map)
  then show ?thesis using inv(2) by (fastforce simp: records_def)
qed

section \<open>Witnesses\<close>

text \<open>A JSON of the demonstration: every text is written byte by byte with a mark before it.\<close>

fun demo_enc :: "string \<Rightarrow> string" where
  "demo_enc [] = [CHR ''.'']"
| "demo_enc (c # s) = CHR ''+'' # c # demo_enc s"

fun demo_dec :: "string \<Rightarrow> string \<times> string" where
  "demo_dec (p # c # s) = (if p = CHR ''+'' then (case demo_dec s of (x, t) \<Rightarrow> (c # x, t)) else ([], c # s))"
| "demo_dec [p] = ([], [])"
| "demo_dec [] = ([], [])"

fun demo_decs :: "nat \<Rightarrow> string \<Rightarrow> dict" where
  "demo_decs 0 s = []"
| "demo_decs (Suc n) s =
     (if s = [] then [] else case demo_dec s of (k, s1) \<Rightarrow> case demo_dec s1 of (v, s2) \<Rightarrow> (k, v) # demo_decs n s2)"

definition demo_json :: json where
  "demo_json = \<lparr>js_interfaces = (\<lambda>_. Inr [\<lparr>ifc_Name = ''eth0'', ifc_Range = ''10.0.0.4/30'', ifc_GateWay = ''10.0.0.5''\<rparr>]),
     js_dict = (\<lambda>s. Inr (Some (demo_decs (length s) s))),
     js_text = (\<lambda>m. case m of None \<Rightarrow> [] | Some d \<Rightarrow> concat (map (\<lambda>(k, v). demo_enc k @ demo_enc v) d))\<rparr>"

lemma demo_dec_enc [simp]: "demo_dec (demo_enc s @ t) = (s, t)"
  by (induction s) (cases t; simp)+

lemma demo_decs_enc: "length d \<le> n \<Longrightarrow> demo_decs n (concat (map (\<lambda>(k, v). demo_enc k @ demo_enc v) d)) = d"
proof (induction d arbitrary: n)
  case Nil
  then show ?case by (cases n) simp_all
next
  case (Cons kv d)
  obtain k v where kv: "kv = (k, v)" by (cases kv)
  obtain m where n: "n = Suc m" using Cons.prems by (cases n) auto
  have ne: "demo_enc x \<noteq> []" for x by (cases x) simp_all
  show ?case using Cons by (simp add: n kv ne)
qed

lemma demo_texts:
  "ip_string [10, 0, 0, 4] = ''10.0.0.4''" "ip_string [10, 0, 0, 5] = ''10.0.0.5''"
  by code_simp+

definition demo_net :: ipnet where
  "demo_net = \<lparr>net_ip = [10, 0, 0, 4], net_mask = [255, 255, 255, 252]\<rparr>"

lemma demo_contains: "ipnet_contains demo_net [10, 0, 0, 4]" "ipnet_contains demo_net [10, 0, 0, 5]"
  "inc [10, 0, 0, 4] = [10, 0, 0, 5]"
  "getMin (v4InV6Prefix @ [10, 0, 0, 4]) demo_net = Inr [10, 0, 0, 4]"
  by code_simp+

lemma demo_find:
  "find_ip (Some []) demo_net [10, 0, 0, 4] = Some (Some [10, 0, 0, 4])"
  "find_ip (Some [(''10.0.0.4'', ''a'')]) demo_net [10, 0, 0, 4] = Some (Some [10, 0, 0, 5])"
  by (subst find_ip.simps, simp add: demo_contains demo_texts, (subst find_ip.simps)?, (simp add: demo_contains demo_texts)?)+

definition demo_dev :: if_config where
  "demo_dev = \<lparr>ifc_Name = ''eth0'', ifc_Range = ''10.0.0.4/30'', ifc_GateWay = ''10.0.0.5''\<rparr>"

lemma demo_dev_good: "good_dev demo_dev"
  by (simp add: good_dev_def demo_dev_def demo_parse canon_def)

lemma demo_read: "js_dict demo_json (js_text demo_json (Some d)) = Inr (Some d)" "js_interfaces demo_json s = Inr [demo_dev]"
proof -
  have "length d \<le> length (concat (map (\<lambda>(k, v). demo_enc k @ demo_enc v) d))"
  proof (induction d)
    case (Cons kv d)
    obtain k v where kv: "kv = (k, v)" by (cases kv)
    have "1 \<le> length (demo_enc x)" for x by (cases x) simp_all
    from this [of k] show ?case using Cons by (simp add: kv)
  qed simp
  then show "js_dict demo_json (js_text demo_json (Some d)) = Inr (Some d)" by (simp add: demo_json_def demo_decs_enc)
qed (simp add: demo_json_def demo_dev_def)

lemma demo_json_ok: "json_ok demo_json"
  by (auto simp: json_ok_def demo_read)

lemma demo_plan:
  assumes "cm_Data cm ipamCMContainerIpKey = Some s" "js_dict demo_json s = Inr (Some d)"
    "find_ip (Some d) demo_net [10, 0, 0, 4] = Some (Some x)"
  shows "assign_plan demo_json cid cm = Some (Inr (extended empty_result [demo_dev] [given 0 demo_dev demo_net (Some x)],
      cm_put cm ipamCMContainerIpKey (js_text demo_json (Some (AList.update (ip_string x) cid d)))))"
proof -
  have n: "ParseCIDR (ifc_Range demo_dev) = Some (v4InV6Prefix @ [10, 0, 0, 4], demo_net)" by (simp add: demo_dev_def demo_parse demo_net_def)
  have "assign_devs cid 0 [demo_dev] (Some d, empty_result)
      = Some (Inr (Some (AList.update (ip_string x) cid d), extended empty_result [demo_dev] [given 0 demo_dev demo_net (Some x)]))"
    using assign_dev_run [OF n demo_contains(4) assms(3), of cid 0 empty_result] by (simp add: given_def)
  then show ?thesis using assms(1,2) by (simp add: assign_plan_def cm_get_def demo_read)
qed

definition demo_cm :: config_map where
  "demo_cm = \<lparr>cm_Version = 7, cm_Data = [ipamCMInterfaceKey \<mapsto> ''x'', ipamCMContainerIpKey \<mapsto> js_text demo_json (Some [])]\<rparr>"

definition demo_kube :: "config_map kube" where
  "demo_kube = \<lparr>kb_json = demo_json, kb_Get = (\<lambda>s. (Inr s, s)), kb_Update = (\<lambda>cm s.
     if cm_Version cm = cm_Version s then (Inr cm, cm\<lparr>cm_Version := cm_Version s + 1\<rparr>) else (Inl (EnvError 409), s))\<rparr>"

lemma demo_records: "records demo_json demo_cm []" "searchable demo_json demo_cm"
  using demo_dev_good by (simp_all add: records_def searchable_def demo_cm_def cm_get_def plain_def demo_read)

theorem village_ipam_assign_witness:
  "\<exists>result d'. AssignIp demo_kube ''a'' demo_cm =
      Some (bind_io (kb_Update demo_kube (cm_put demo_cm ipamCMContainerIpKey (js_text (kb_json demo_kube) (Some d')))) (\<lambda>_. ret result) demo_cm)
    \<and> map Name (Interfaces result) = map ifc_Name [demo_dev] \<and> list_all2 (fits d') (enumerate 0 [demo_dev]) (IPs result)
    \<and> allotted ''a'' [] d' (IPs result)"
  by (rule village_ipam_assign [where s = "js_text demo_json (Some [])"])
    (use demo_dev_good in \<open>simp_all add: demo_kube_def demo_cm_def cm_get_def demo_read\<close>)

definition demo_start :: "bool cluster" where
  "demo_start = \<lparr>server = demo_cm, copies = (\<lambda>_. None), held = []\<rparr>"

text \<open>Two clients, one after the other; each gets an address of its own.\<close>

theorem village_ipam_exclusive_witness:
  "\<exists>s. api_run demo_json demo_start s \<and> held s = [(''a'', [10, 0, 0, 4]), (''b'', [10, 0, 0, 5])] \<and> distinct (map snd (held s))"
proof -
  let ?J = demo_json and ?K = ipamCMContainerIpKey
  define cm1 where "cm1 = (cm_put demo_cm ?K (js_text ?J (Some [(''10.0.0.4'', ''a'')])))\<lparr>cm_Version := Suc 7\<rparr>"
  define s1 where "s1 = \<lparr>server = demo_cm, copies = (\<lambda>_. None)(True \<mapsto> demo_cm), held = []\<rparr>"
  define s2 :: "bool cluster" where "s2 = \<lparr>server = cm1, copies = (\<lambda>_. None), held = [(''a'', [10, 0, 0, 4 :: byte])]\<rparr>"
  define s3 where "s3 = \<lparr>server = cm1, copies = (\<lambda>_. None)(False \<mapsto> cm1), held = [(''a'', [10, 0, 0, 4 :: byte])]\<rparr>"
  define cm2 where "cm2 = (cm_put cm1 ?K (js_text ?J (Some [(''10.0.0.4'', ''a''), (''10.0.0.5'', ''b'')])))\<lparr>cm_Version := Suc (Suc 7)\<rparr>"
  define s4 where "s4 = \<lparr>server = cm2, copies = (\<lambda>_. None) :: bool \<Rightarrow> config_map option, held = [(''a'', [10, 0, 0, 4]), (''b'', [10, 0, 0, 5 :: byte])]\<rparr>"
  have "api_step ?J demo_start s1" using api_step.read [of ?J demo_start True] by (simp add: demo_start_def s1_def)
  moreover have "api_step ?J s1 s2"
  proof -
    have "cm_Data demo_cm ?K = Some (js_text ?J (Some []))" by (simp add: demo_cm_def)
    from demo_plan [OF this demo_read(1) demo_find(1), of "''a''"] show ?thesis
      using api_step.assigned [of s1 True demo_cm ?J "''a''"]
      by (simp add: s1_def s2_def written_def demo_texts given_def extended_def empty_result_def cm1_def demo_cm_def fun_upd_idem)
  qed
  moreover have "api_step ?J s2 s3" using api_step.read [of ?J s2 False] by (simp add: s2_def s3_def)
  moreover have "api_step ?J s3 s4"
  proof -
    have "cm_Data cm1 ?K = Some (js_text ?J (Some [(''10.0.0.4'', ''a'')]))" by (simp add: cm1_def)
    from demo_plan [OF this demo_read(1) demo_find(2), of "''b''"] show ?thesis
      using api_step.assigned [of s3 False cm1 ?J "''b''"]
      by (simp add: s3_def s4_def written_def demo_texts given_def extended_def empty_result_def cm1_def cm2_def fun_upd_idem)
  qed
  ultimately have run: "api_run ?J demo_start s4" by (meson api_run.intros)
  have "distinct (map snd (held s4))"
    using village_ipam_exclusive [OF demo_json_ok _ _ _ _ run] demo_records by (simp add: demo_start_def)
  then show ?thesis using run by (intro exI [of _ s4]) (simp add: s4_def)
qed

end
