(* ===== verification/Cni_Rpc.thy ===== *)
theory Cni_Rpc
  imports Netlink
begin

text \<open>
  The call of a daemon over \<open>net/rpc\<close>, which the \<open>dhcp\<close> and the \<open>village-ipam\<close> plugins write in the same way:
  find the socket, dial it, make the namespace path absolute, call. The result the daemon fills in comes back as
  the value of the call.
\<close>

record 'w rpc =
  rp_Abs :: "string \<Rightarrow> ('w, string) io"
  rp_DialHTTP :: "string \<Rightarrow> ('w, unit) io"
  rp_Call :: "string \<Rightarrow> string \<Rightarrow> cmd_args \<Rightarrow> ('w, cni_result) io"

definition call_daemon :: "'w rpc \<Rightarrow> string \<Rightarrow> string res \<Rightarrow> string \<Rightarrow> cmd_args \<Rightarrow> ('w, cni_result) io" where
  "call_daemon R dial_error socket method args =
     bind_io (wrap_io ''error obtaining socketPath'' (lift_res socket)) (\<lambda>socketPath.
     bind_io (wrap_io dial_error (rp_DialHTTP R socketPath)) (\<lambda>_.
     bind_io (wrap_io (''failed to make an absolute path: '' @ Netns args) (rp_Abs R (Netns args))) (\<lambda>netns.
     wrap_io (''error calling '' @ method) (rp_Call R socketPath method (args\<lparr>Netns := netns\<rparr>)))))"

section \<open>The side of the daemon\<close>

text \<open>\<open>filepath.Clean\<close> and \<open>filepath.Dir\<close>.\<close>

fun clean_rel :: "string list \<Rightarrow> string list \<Rightarrow> string list" where
  "clean_rel acc [] = rev acc"
| "clean_rel acc (x # xs) =
     (if x = [] \<or> x = ''.'' then clean_rel acc xs
      else if x = ''..'' \<and> acc \<noteq> [] \<and> hd acc \<noteq> ''..'' then clean_rel (tl acc) xs
      else clean_rel (x # acc) xs)"

definition path_Clean :: "string \<Rightarrow> string" where
  "path_Clean p =
     (if has_prefix p ''/'' then ''/'' @ join ''/'' (clean_elems [] (split_on (CHR ''/'') p))
      else let es = clean_rel [] (split_on (CHR ''/'') p) in if es = [] then ''.'' else join ''/'' es)"

definition path_Dir :: "string \<Rightarrow> string" where
  "path_Dir p = path_Clean (rev (dropWhile (\<lambda>c. c \<noteq> CHR ''/'') (rev p)))"

text \<open>
  The sockets of \<open>systemd\<close> (\<open>activation.Listeners\<close>; \<open>None\<close> where a descriptor is no socket), and those the
  daemon opens itself. \<open>dn_Serve\<close> is \<open>http.Serve\<close>.
\<close>

record 'w daemon_net =
  dn_Listeners :: "('w, int option list) io"
  dn_MkdirAll :: "string \<Rightarrow> ('w, unit) io"
  dn_Listen :: "string \<Rightarrow> ('w, int) io"
  dn_Serve :: "int \<Rightarrow> ('w, unit) io"

definition getListener :: "'w daemon_net \<Rightarrow> string \<Rightarrow> ('w, int) io" where
  "getListener D socketPath =
     bind_io (dn_Listeners D) (\<lambda>l.
       if length l = 0 then bind_io (dn_MkdirAll D (path_Dir socketPath)) (\<lambda>_. dn_Listen D socketPath)
       else if length l = 1 then
         (case l ! 0 of None \<Rightarrow> fail (Errorf ''LISTEN_FDS=1 but no FD found'') | Some fd \<Rightarrow> ret fd)
       else fail (Errorf (''Too many FDs passed through socket activation: '' @ utoa (length l))))"

end
