(* ===== verification/Village_Ipam_Main.thy ===== *)
theory Village_Ipam_Main
  imports Village_Ipam Cni_Rpc Bridge_Props
begin

text \<open>
  \<open>plugins/ipam/village-ipam/main.go\<close>: ADD and DEL ask the daemon, CHECK looks into the ConfigMap itself;
  \<open>pkg/controller/ippool.go\<close>: what the daemon answers.
\<close>

definition village_defaultSocketPath :: string where
  "village_defaultSocketPath = ''/run/cni/village.sock''"

text \<open>\<open>encoding/json\<close> on the configuration, the RPC, the results, and the client of the API server.\<close>

record 'w vipam_env =
  vi_Unmarshal :: "string \<Rightarrow> village_conf res"
  vi_rpc :: "'w rpc"
  vi_lib :: "'w cni_lib"
  vi_NewKubeClient :: "string \<Rightarrow> ('w, 'w kube) io"

definition village_getSocketPath :: "'w vipam_env \<Rightarrow> string \<Rightarrow> string res" where
  "village_getSocketPath V stdinData =
     (case vi_Unmarshal V stdinData of
        Inl e \<Rightarrow> Inl (Wrap ''error parsing socket path conf'' e)
      | Inr conf \<Rightarrow>
          (case vc_IPAM conf of
             None \<Rightarrow> Inl nil_deref
           | Some i \<Rightarrow> Inr (if ic_SocketPath i = '''' then village_defaultSocketPath else ic_SocketPath i)))"

definition village_rpcCall :: "'w vipam_env \<Rightarrow> string \<Rightarrow> cmd_args \<Rightarrow> ('w, cni_result) io" where
  "village_rpcCall V method args =
     call_daemon (vi_rpc V) ''error dialing village daemon'' (village_getSocketPath V (StdinData args)) method args"

definition load_vconf :: "'w vipam_env \<Rightarrow> cmd_args \<Rightarrow> ('w, village_conf) io" where
  "load_vconf V args = wrap_io ''failed to load netconf'' (lift_res (vi_Unmarshal V (StdinData args)))"

definition vipam_cmdAdd :: "'w vipam_env \<Rightarrow> cmd_args \<Rightarrow> ('w, unit) io" where
  "vipam_cmdAdd V args =
     bind_io (load_vconf V args) (\<lambda>conf.
     bind_io (wrap_io ''failed to assignIp'' (village_rpcCall V ''IpPool.Allocate'' args)) (\<lambda>r.
     PrintResult (vi_lib V) r (vc_CNIVersion conf)))"

definition vipam_cmdDel :: "'w vipam_env \<Rightarrow> cmd_args \<Rightarrow> ('w, unit) io" where
  "vipam_cmdDel V args =
     bind_io (load_vconf V args) (\<lambda>_.
     bind_io (village_rpcCall V ''IpPool.Release'' args) (\<lambda>_. ret ()))"

definition NewIPAMClient :: "'w vipam_env \<Rightarrow> village_conf \<Rightarrow> ('w, 'w kube) io" where
  "NewIPAMClient V conf = vi_NewKubeClient V (vc_Kubeconfig conf)"

definition vipam_cmdCheck :: "'w vipam_env \<Rightarrow> cmd_args \<Rightarrow> ('w, unit) io" where
  "vipam_cmdCheck V args =
     bind_io (load_vconf V args) (\<lambda>conf.
     bind_io (NewIPAMClient V conf) (\<lambda>ipamClient.
     bind_io (Check_ip ipamClient (ContainerID args)) (\<lambda>containerIpFound.
     if \<not> containerIpFound then fail (Errorf (''village-ipam: Failed to find address added by container '' @ ContainerID args))
     else ret ())))"

section \<open>The pool of the daemon\<close>

text \<open>The handlers of the daemon are not written yet: they answer with the result they were given.\<close>

definition pool_Allocate :: "cmd_args \<Rightarrow> ('w, cni_result) io" where
  "pool_Allocate args = ret empty_result"

definition pool_Release :: "cmd_args \<Rightarrow> ('w, unit) io" where
  "pool_Release args = ret ()"

definition pool_Check :: "cmd_args \<Rightarrow> ('w, unit) io" where
  "pool_Check args = ret ()"

section \<open>ADD and CHECK\<close>

text \<open>
  The ConfigMap as the API server holds it: reading it, connecting, dialing and printing do not change it, and the
  daemon behind the socket is the one of the repository.
\<close>

definition vipam_ok :: "'w vipam_env \<Rightarrow> ('w \<Rightarrow> config_map) \<Rightarrow> json \<Rightarrow> bool" where
  "vipam_ok V view J \<longleftrightarrow>
     (\<forall>s a. rp_Call (vi_rpc V) s ''IpPool.Allocate'' a = pool_Allocate a)
   \<and> (\<forall>p. leaves view (rp_Abs (vi_rpc V) p)) \<and> (\<forall>p. leaves view (rp_DialHTTP (vi_rpc V) p))
   \<and> (\<forall>r v. leaves view (PrintResult (vi_lib V) r v))
   \<and> (\<forall>k w K w'. vi_NewKubeClient V k w = (Inr K, w') \<longrightarrow> view w' = view w \<and> kb_json K = J
        \<and> (\<forall>w cm w'. kb_Get K w = (Inr cm, w') \<longrightarrow> cm = view w))"

lemma leaves_village_rpcCall:
  assumes "vipam_ok V view J"
  shows "leaves view (village_rpcCall V ''IpPool.Allocate'' args)"
proof -
  have "leaves view (rp_Call (vi_rpc V) s ''IpPool.Allocate'' a)" for s a
    using assms leaves_ret [of view empty_result] by (simp add: vipam_ok_def pool_Allocate_def)
  moreover have "leaves view (rp_Abs (vi_rpc V) p)" "leaves view (rp_DialHTTP (vi_rpc V) p)" for p
    using assms by (simp_all add: vipam_ok_def)
  ultimately show ?thesis unfolding village_rpcCall_def call_daemon_def by (intro leaves_intros)
qed

lemma leaves_vipam_cmdAdd:
  assumes "vipam_ok V view J"
  shows "leaves view (vipam_cmdAdd V args)"
proof -
  have "leaves view (PrintResult (vi_lib V) r v)" for r v using assms by (simp add: vipam_ok_def)
  then show ?thesis
    unfolding vipam_cmdAdd_def load_vconf_def by (intro leaves_intros leaves_village_rpcCall [OF assms])
qed

text \<open>
  C32: ADD records no address, so the CHECK of a container that had none before fails after a successful ADD.
\<close>

theorem vipam_check_after_add:
  assumes "vipam_ok V view J"
    "\<forall>d. js_dict J (cm_get (view w) ipamCMContainerIpKey) = Inr (Some d) \<longrightarrow> ContainerID args \<notin> snd ` set d"
    "vipam_cmdAdd V args w = (Inr (), w1)"
  shows "\<not> is_ok (fst (vipam_cmdCheck V args w1))"
proof -
  have v: "view w1 = view w" using leavesD [OF leaves_vipam_cmdAdd [OF assms(1)] assms(3)] .
  have free: "\<not> list_ex (\<lambda>(_, c). c = ContainerID args) d" if "js_dict J (cm_get (view w) ipamCMContainerIpKey) = Inr (Some d)" for d
    using assms(2) that by (force simp: list_ex_iff)
  have denied: "fst (Check_ip K cid w3) \<noteq> Inr True"
    if "vi_NewKubeClient V k w2 = (Inr K, w3)" "view w2 = view w" "cid = ContainerID args" for k w2 K w3 cid
    using that assms(1) free unfolding vipam_ok_def Check_ip_def
    by (fastforce simp: bind_io_def ret_def fail_def split: prod.splits sum.splits option.splits)
  have check: "\<not> is_ok (fst (bind_io (Check_ip K (ContainerID args)) (\<lambda>found. if \<not> found then fail e else ret ()) w3))"
    if "vi_NewKubeClient V k w2 = (Inr K, w3)" "view w2 = view w" for k w2 K w3 e
  proof (cases "Check_ip K (ContainerID args) w3")
    case (Pair found w4)
    have "fst (Check_ip K (ContainerID args) w3) \<noteq> Inr True" by (rule denied [OF that]) simp
    then show ?thesis using Pair by (cases found) (auto simp: bind_io_def ret_def fail_def)
  qed
  obtain r w2 where l: "load_vconf V args w1 = (r, w2)" by (cases "load_vconf V args w1")
  have "leaves view (load_vconf V args)" unfolding load_vconf_def by (intro leaves_intros)
  then have v2: "view w2 = view w" using leavesD l v by metis
  show ?thesis
  proof (cases r)
    case (Inl e)
    then show ?thesis using l by (simp add: vipam_cmdCheck_def bind_io_def)
  next
    case (Inr conf)
    obtain K w3 where k: "vi_NewKubeClient V (vc_Kubeconfig conf) w2 = (K, w3)" by fastforce
    show ?thesis
    proof (cases K)
      case (Inl e)
      then show ?thesis using l k Inr by (simp add: vipam_cmdCheck_def NewIPAMClient_def bind_io_def)
    next
      case K: (Inr K')
      show ?thesis
        using check [OF k [unfolded K] v2] l k Inr K by (simp add: vipam_cmdCheck_def NewIPAMClient_def bind_io_def [of "load_vconf V args"] bind_io_def [of "vi_NewKubeClient _ _"])
    qed
  qed
qed

definition demo_vipam :: "config_map vipam_env" where
  "demo_vipam = \<lparr>vi_Unmarshal = (\<lambda>_. Inr demo_bridge_conf),
     vi_rpc = \<lparr>rp_Abs = (\<lambda>p. ret p), rp_DialHTTP = (\<lambda>_. ret ()), rp_Call = (\<lambda>_ _ a. pool_Allocate a)\<rparr>,
     vi_lib = \<lparr>ParsePrevResult = (\<lambda>_ _. Inr empty_result), NewResultFromResult = Inr, PrintResult = (\<lambda>_ _. ret ())\<rparr>,
     vi_NewKubeClient = (\<lambda>_. ret \<lparr>kb_json = \<lparr>js_interfaces = (\<lambda>_. Inr []), js_dict = (\<lambda>_. Inr (Some [])), js_text = (\<lambda>_. [])\<rparr>,
       kb_Get = (\<lambda>cm. (Inr cm, cm)), kb_Update = (\<lambda>cm _. (Inr cm, cm))\<rparr>)\<rparr>"

theorem vipam_check_after_add_witness:
  "\<exists>args w w1. vipam_cmdAdd demo_vipam args w = (Inr (), w1) \<and> \<not> is_ok (fst (vipam_cmdCheck demo_vipam args w1))"
proof -
  let ?args = "\<lparr>ContainerID = ''c'', Netns = ''/n'', IfName = ''eth0'', CniArgs = [], Path = [], StdinData = []\<rparr>"
    and ?w = "\<lparr>cm_Version = 0, cm_Data = (\<lambda>_. None)\<rparr>"
    and ?J = "\<lparr>js_interfaces = (\<lambda>_. Inr []), js_dict = (\<lambda>_. Inr (Some [])), js_text = (\<lambda>_. [])\<rparr>"
  have ok: "vipam_ok demo_vipam (\<lambda>cm. cm) ?J"
    by (simp add: vipam_ok_def demo_vipam_def leaves_def ret_def)
  have add: "vipam_cmdAdd demo_vipam ?args ?w = (Inr (), ?w)"
    by (simp add: vipam_cmdAdd_def load_vconf_def village_rpcCall_def call_daemon_def village_getSocketPath_def demo_vipam_def
        demo_bridge_conf_def pool_Allocate_def bind_io_def wrap_io_def lift_res_def ret_def)
  have "\<not> is_ok (fst (vipam_cmdCheck demo_vipam ?args ?w))"
    by (rule vipam_check_after_add [OF ok _ add]) simp
  then show ?thesis using add by blast
qed

end
