(* ===== verification/Controller.thy ===== *)
theory Controller
  imports Cni_Rpc Ip_Link
begin

text \<open>
  \<open>pkg/node/host.go\<close> and \<open>pkg/controller\<close>: the daemon of a node. It publishes the network of its node in the
  API server and in etcd, and adds a route to the network of every other node that etcd tells it about.
\<close>

section \<open>The node\<close>

record node_vars =
  HostName :: string
  BridgeParentInterface :: string
  MacVlanParentInterface :: string

text \<open>\<open>init\<close>: the error of \<open>os.Hostname\<close> is dropped; a variable that is not set reads as the empty string.\<close>

definition node_init :: "string res \<Rightarrow> (string \<Rightarrow> string) \<Rightarrow> node_vars" where
  "node_init hostname Getenv =
     (let bridgeIf = Getenv ''BRIDGE_PARENT_INTERFACE''; mvIf = Getenv ''MACVLAN_PARENT_INTERFACE''
      in \<lparr>HostName = (case hostname of Inl _ \<Rightarrow> [] | Inr h \<Rightarrow> h),
          BridgeParentInterface = (if bridgeIf \<noteq> '''' then bridgeIf else ''eth0''),
          MacVlanParentInterface = (if mvIf \<noteq> '''' then mvIf else ''eth0'')\<rparr>)"

definition BridgePublicIP :: "'w netlink \<Rightarrow> node_vars \<Rightarrow> (nladdr \<Rightarrow> bool) \<Rightarrow> ('w, ip) io" where
  "BridgePublicIP N vars fn =
     bind_io (wrap_io ''query interface failed'' (nl_LinkByName N (BridgeParentInterface vars))) (\<lambda>link.
     bind_io (wrap_io ''get first addr failed'' (nl_AddrList N link FAMILY_V4)) (\<lambda>addrs.
       if length addrs = 0 then fail (Errorf ''no addr got'')
       else case find fn addrs of
              None \<Rightarrow> fail (Errorf ''no addr found'')
            | Some addr \<Rightarrow> ret (net_ip (ad_IPNet addr))))"

text \<open>The network of the cluster: \<open>10.244.0.0/16\<close>, or the variable when it parses.\<close>

definition cluster_cidr :: "(string \<Rightarrow> string) \<Rightarrow> ipnet" where
  "cluster_cidr Getenv =
     (let cidr = Getenv ''CLUSTER_CIDR''; default = \<lparr>net_ip = [10, 244, 0, 0], net_mask = [255, 255, 0, 0]\<rparr>
      in if cidr \<noteq> '''' then (case ParseCIDR cidr of Some (_, n) \<Rightarrow> n | None \<Rightarrow> default) else default)"

record node_net_info =
  ni_Hostname :: string
  ni_PublicIP :: string
  ni_CIDR :: string
  ni_BridgeIf :: string
  ni_MacvlanIf :: string

definition GetNodeNetInfo :: "'w netlink \<Rightarrow> node_vars \<Rightarrow> ('w, node_net_info) io" where
  "GetNodeNetInfo N vars =
     bind_io (BridgePublicIP N vars (\<lambda>_. True)) (\<lambda>brPubIp.
       ret \<lparr>ni_Hostname = HostName vars, ni_PublicIP = ip_string brPubIp, ni_CIDR = [],
         ni_BridgeIf = BridgeParentInterface vars, ni_MacvlanIf = MacVlanParentInterface vars\<rparr>)"

section \<open>Routes to the other nodes\<close>

record host_gw =
  gw_hostname :: string
  gw_link :: link

definition NewHostGW :: "'w netlink \<Rightarrow> node_vars \<Rightarrow> ('w, host_gw) io" where
  "NewHostGW N vars =
     bind_io (nl_LinkByName N (BridgeParentInterface vars)) (\<lambda>link. ret \<lparr>gw_hostname = HostName vars, gw_link = link\<rparr>)"

definition SyncNodeRoute :: "'w netlink \<Rightarrow> host_gw \<Rightarrow> node_net_info \<Rightarrow> ('w, unit) io" where
  "SyncNodeRoute N h info =
     (if gw_hostname h = ni_Hostname info then ret ()
      else case ParseCIDR (ni_CIDR info) of
             None \<Rightarrow> fail (Errorf ''invalid CIDR address'')
           | Some (_, cidr) \<Rightarrow> AddRoute N cidr (ParseIP (ni_PublicIP info)) (gw_link h))"

section \<open>The controller\<close>

definition LabelHostPublicIP :: string where "LabelHostPublicIP = ''village.hdls.me/public-ip''"
definition LabelHostPodCIDR :: string where "LabelHostPodCIDR = ''village.hdls.me/pod-cidr''"
definition LabelBridgeIFName :: string where "LabelBridgeIFName = ''village.hdls.me/bridge-if''"
definition LabelMacVlanIFName :: string where "LabelMacVlanIFName = ''village.hdls.me/macvlan-if''"
definition EtcdKeyNodeInfo :: string where "EtcdKeyNodeInfo = ''/village/nodes''"

text \<open>A node of the API server; a node without annotations has a nil map.\<close>

record api_node =
  nd_PodCIDR :: string
  nd_Annotations :: "(string \<Rightarrow> string option) option"

text \<open>
  etcd, the API server and \<open>encoding/json\<close>. \<open>ct_Get\<close> returns the pairs under a prefix and the revision;
  \<open>ct_watch\<close> are the events that the watch from a revision on delivers until the daemon is stopped, batch by
  batch, with the texts of the values.
\<close>

record 'w control_env =
  ct_netlink :: "'w netlink"
  ct_net :: "'w daemon_net"
  ct_vars :: node_vars
  ct_Get :: "string \<Rightarrow> ('w, (string \<times> string) list \<times> nat) io"
  ct_Put :: "string \<Rightarrow> string \<Rightarrow> ('w, unit) io"
  ct_watch :: "string \<Rightarrow> nat \<Rightarrow> 'w \<Rightarrow> string list list"
  ct_GetNode :: "string \<Rightarrow> ('w, api_node option) io"
  ct_UpdateNode :: "api_node \<Rightarrow> ('w, unit) io"
  ct_Unmarshal :: "string \<Rightarrow> node_net_info res"
  ct_Marshal :: "node_net_info \<Rightarrow> string"

text \<open>One entry: what does not decode or cannot be added is logged and skipped. \<open>None\<close> is the nil pointer.\<close>

definition sync_entry :: "'w control_env \<Rightarrow> host_gw option \<Rightarrow> string \<Rightarrow> ('w, unit) io" where
  "sync_entry E hostGw value =
     (case ct_Unmarshal E value of
        Inl _ \<Rightarrow> ret ()
      | Inr netInfo \<Rightarrow>
          (case hostGw of
             None \<Rightarrow> fail nil_deref
           | Some h \<Rightarrow> attempt (SyncNodeRoute (ct_netlink E) h netInfo) (\<lambda>_. ret ())))"

definition SyncRoute :: "'w control_env \<Rightarrow> host_gw option \<Rightarrow> ('w, unit) io" where
  "SyncRoute E hostGw =
     attempt (ct_Get E EtcdKeyNodeInfo) (\<lambda>r.
       case r of
         Inl _ \<Rightarrow> ret ()
       | Inr (kvs, revision) \<Rightarrow>
           bind_io (each_io (\<lambda>(_, value). sync_entry E hostGw value) kvs) (\<lambda>_ w.
             each_io (each_io (sync_entry E hostGw)) (ct_watch E EtcdKeyNodeInfo revision w) w))"

definition annotate_node :: "node_net_info \<Rightarrow> api_node \<Rightarrow> api_node res" where
  "annotate_node netInfo nodeInfo =
     (case nd_Annotations nodeInfo of
        None \<Rightarrow> Inl (Panic ''assignment to entry in nil map'')
      | Some m \<Rightarrow> Inr (nodeInfo\<lparr>nd_Annotations := Some (m(LabelHostPodCIDR \<mapsto> ni_CIDR netInfo, LabelHostPublicIP \<mapsto> ni_PublicIP netInfo,
          LabelBridgeIFName \<mapsto> ni_BridgeIf netInfo, LabelMacVlanIFName \<mapsto> ni_MacvlanIf netInfo))\<rparr>))"

definition InitNodeInfo :: "'w control_env \<Rightarrow> ('w, unit) io" where
  "InitNodeInfo E =
     bind_io (ct_GetNode E (HostName (ct_vars E))) (\<lambda>n.
       case n of
         None \<Rightarrow> fail (Errorf ''node not found'')
       | Some nodeInfo \<Rightarrow>
           bind_io (GetNodeNetInfo (ct_netlink E) (ct_vars E)) (\<lambda>info.
           let netInfo = info\<lparr>ni_CIDR := nd_PodCIDR nodeInfo\<rparr>
           in bind_io (lift_res (annotate_node netInfo nodeInfo)) (\<lambda>nodeInfo'.
              bind_io (ct_UpdateNode E nodeInfo') (\<lambda>_.
              ct_Put E (EtcdKeyNodeInfo @ ''/'' @ ni_Hostname netInfo) (ct_Marshal E netInfo)))))"

text \<open>
  \<open>Service\<close>: the routes are kept up in the background until the stop channel is closed, which the watch of
  \<open>ct_watch\<close> includes. The background part cannot fail, but a panic in it ends the daemon.
\<close>

definition Service :: "'w control_env \<Rightarrow> host_gw option \<Rightarrow> ('w, unit) io" where
  "Service E hostGw = bind_io (InitNodeInfo E) (\<lambda>_. SyncRoute E hostGw)"

definition runRPC :: "'w control_env \<Rightarrow> string \<Rightarrow> ('w, unit) io" where
  "runRPC E socketPath =
     bind_io (wrap_io ''Error getting listener'' (getListener (ct_net E) socketPath)) (\<lambda>l.
     attempt (dn_Serve (ct_net E) l) (\<lambda>_. ret ()))"

end
