(* ===== verification/Controller_Props.thy ===== *)
theory Controller_Props
  imports Controller Ipam_Iface
begin

text \<open>What the routes of a node become while the daemon runs.\<close>

text \<open>
  The routes of the kernel: \<open>RouteAdd\<close> refuses a second route to the same destination (\<open>EEXIST\<close>), and otherwise
  adds the one it was given, for a gateway that can be reached.
\<close>

definition routes_ok :: "'w netlink \<Rightarrow> ('w \<Rightarrow> nlroute list) \<Rightarrow> bool" where
  "routes_ok N view \<longleftrightarrow> (\<forall>r w.
     (if rt_Dst r \<in> rt_Dst ` set (view w)
      then \<exists>w'. nl_RouteAdd N r w = (Inl ErrExist, w') \<and> view w' = view w
      else \<exists>w'. nl_RouteAdd N r w = (Inr (), w') \<and> view w' = view w @ [r]))"

text \<open>The route of an entry, when it has one.\<close>

definition entry_route :: "'w control_env \<Rightarrow> host_gw \<Rightarrow> string \<Rightarrow> nlroute option" where
  "entry_route E h value =
     (case ct_Unmarshal E value of
        Inl _ \<Rightarrow> None
      | Inr info \<Rightarrow>
          if gw_hostname h = ni_Hostname info then None
          else map_option (\<lambda>(_, n). new_route (lk_Index (gw_link h)) (Some n) (ParseIP (ni_PublicIP info))) (ParseCIDR (ni_CIDR info)))"

definition put_route :: "nlroute option \<Rightarrow> nlroute list \<Rightarrow> nlroute list" where
  "put_route r rs = (case r of None \<Rightarrow> rs | Some r \<Rightarrow> if rt_Dst r \<in> rt_Dst ` set rs then rs else rs @ [r])"

lemma sync_entry_routes:
  assumes "routes_ok (ct_netlink E) view"
  shows "\<exists>w'. sync_entry E (Some h) value w = (Inr (), w') \<and> view w' = put_route (entry_route E h value) (view w)"
proof (cases "entry_route E h value")
  case None
  then show ?thesis
    by (auto simp: entry_route_def sync_entry_def SyncNodeRoute_def put_route_def attempt_def ret_def fail_def split: sum.splits option.splits if_splits)
next
  case (Some r)
  then obtain info b n where v: "ct_Unmarshal E value = Inr info" "gw_hostname h \<noteq> ni_Hostname info" "ParseCIDR (ni_CIDR info) = Some (b, n)"
    "r = new_route (lk_Index (gw_link h)) (Some n) (ParseIP (ni_PublicIP info))"
    by (auto simp: entry_route_def split: sum.splits if_splits)
  have s: "sync_entry E (Some h) value w = attempt (nl_RouteAdd (ct_netlink E) r) (\<lambda>_. ret ()) w"
    by (simp add: sync_entry_def SyncNodeRoute_def AddRoute_def v)
  show ?thesis
  proof (cases "rt_Dst r \<in> rt_Dst ` set (view w)")
    case True
    then obtain w' where "nl_RouteAdd (ct_netlink E) r w = (Inl ErrExist, w')" "view w' = view w"
      using assms unfolding routes_ok_def by meson
    then show ?thesis using True by (simp add: s Some put_route_def attempt_def ret_def)
  next
    case False
    then obtain w' where "nl_RouteAdd (ct_netlink E) r w = (Inr (), w')" "view w' = view w @ [r]"
      using assms unfolding routes_ok_def by meson
    then show ?thesis using False by (simp add: s Some put_route_def attempt_def ret_def)
  qed
qed

lemma sync_entries_routes:
  assumes "routes_ok (ct_netlink E) view"
  shows "\<exists>w'. each_io (sync_entry E (Some h)) values w = (Inr (), w') \<and> view w' = fold (\<lambda>v. put_route (entry_route E h v)) values (view w)"
proof (induction "values" arbitrary: w)
  case Nil
  then show ?case by (simp add: ret_def)
next
  case (Cons v vs)
  from sync_entry_routes [OF assms, of h v w] obtain w1 where
    "sync_entry E (Some h) v w = (Inr (), w1)" "view w1 = put_route (entry_route E h v) (view w)" by blast
  then show ?case using Cons.IH [of w1] by (simp add: bind_io_def)
qed

lemma sync_batches_routes:
  assumes "routes_ok (ct_netlink E) view"
  shows "\<exists>w'. each_io (each_io (sync_entry E (Some h))) bs w = (Inr (), w')
    \<and> view w' = fold (\<lambda>v. put_route (entry_route E h v)) (concat bs) (view w)"
proof (induction bs arbitrary: w)
  case Nil
  then show ?case by (simp add: ret_def)
next
  case (Cons b bs)
  from sync_entries_routes [OF assms, of h b w] obtain w1 where
    "each_io (sync_entry E (Some h)) b w = (Inr (), w1)" "view w1 = fold (\<lambda>v. put_route (entry_route E h v)) b (view w)" by blast
  then show ?case using Cons.IH [of w1] by (simp add: bind_io_def)
qed

lemma each_io_map: "each_io f (map g xs) = each_io (f \<circ> g) xs"
  by (induction xs) simp_all

lemma put_route_spec:
  "set rs \<subseteq> set (put_route r rs)" "set (put_route r rs) \<subseteq> set rs \<union> set_option r"
  "r = Some x \<Longrightarrow> rt_Dst x \<in> rt_Dst ` set (put_route r rs)"
  "n \<in> rt_Dst ` set rs \<Longrightarrow> filter (\<lambda>x. rt_Dst x = n) (put_route r rs) = filter (\<lambda>x. rt_Dst x = n) rs"
  by (auto simp: put_route_def split: option.splits)

lemma fold_put_route_mono: "set rs \<subseteq> set (fold (\<lambda>v. put_route (f v)) vs rs)"
proof (induction vs arbitrary: rs)
  case (Cons u us)
  then show ?case using put_route_spec(1) [of rs "f u"] by (simp add: subset_trans)
qed simp

lemma fold_put_route_new: "set (fold (\<lambda>v. put_route (f v)) vs rs) \<subseteq> set rs \<union> (\<Union>v\<in>set vs. set_option (f v))"
proof (induction vs arbitrary: rs)
  case (Cons u us)
  then show ?case using Cons.IH [of "put_route (f u) rs"] put_route_spec(2) [where rs = rs and r = "f u"] by auto
qed simp

lemma fold_put_route_has:
  "v \<in> set vs \<Longrightarrow> f v = Some x \<Longrightarrow> rt_Dst x \<in> rt_Dst ` set (fold (\<lambda>v. put_route (f v)) vs rs)"
proof (induction vs arbitrary: rs)
  case (Cons u us)
  show ?case
  proof (cases "v \<in> set us")
    case True
    then show ?thesis using Cons by simp
  next
    case False
    then have "f u = Some x" using Cons.prems by simp
    then have "rt_Dst x \<in> rt_Dst ` set (put_route (f u) rs)" by (rule put_route_spec(3))
    then show ?thesis using fold_put_route_mono [where rs = "put_route (f u) rs" and f = f and vs = us] by auto
  qed
qed simp

lemma fold_put_route_keeps:
  "n \<in> rt_Dst ` set rs \<Longrightarrow> filter (\<lambda>x. rt_Dst x = n) (fold (\<lambda>v. put_route (f v)) vs rs) = filter (\<lambda>x. rt_Dst x = n) rs"
proof (induction vs arbitrary: rs)
  case (Cons u us)
  have "n \<in> rt_Dst ` set (put_route (f u) rs)"
    using Cons.prems put_route_spec(1) [where rs = rs and r = "f u"] by auto
  then show ?case using Cons.IH [of "put_route (f u) rs"] put_route_spec(4) [OF Cons.prems, of "f u"] by simp
qed simp


text \<open>A node that learns of another one at the start and of its new address later.\<close>

definition demo_routes :: "nlroute list netlink" where
  "demo_routes = (idle_kernel (\<lambda>_. 0) (\<lambda>_ w. w))\<lparr>nl_RouteAdd := (\<lambda>r rs.
     if rt_Dst r \<in> rt_Dst ` set rs then (Inl ErrExist, rs) else (Inr (), rs @ [r]))\<rparr>"

definition demo_info :: "string \<Rightarrow> node_net_info" where
  "demo_info s = \<lparr>ni_Hostname = ''n2'', ni_PublicIP = s, ni_CIDR = ''10.0.0.4/30'', ni_BridgeIf = ''eth0'', ni_MacvlanIf = ''eth0''\<rparr>"

definition demo_host :: host_gw where
  "demo_host = \<lparr>gw_hostname = ''n1'', gw_link = new_link ''eth0'' Device\<rparr>"

definition demo_control :: "nlroute list control_env" where
  "demo_control = \<lparr>ct_netlink = demo_routes,
     ct_net = \<lparr>dn_Listeners = ret [], dn_MkdirAll = (\<lambda>_. ret ()), dn_Listen = (\<lambda>_. ret 3), dn_Serve = (\<lambda>_. ret ())\<rparr>,
     ct_vars = node_init (Inr ''n1'') (\<lambda>_. []), ct_Get = (\<lambda>_. ret ([(''/village/nodes/n2'', ''192.0.2.1'')], 5)),
     ct_Put = (\<lambda>_ _. ret ()), ct_watch = (\<lambda>_ _ _. [[''192.0.2.9'']]), ct_GetNode = (\<lambda>_. ret None), ct_UpdateNode = (\<lambda>_. ret ()),
     ct_Unmarshal = (\<lambda>s. Inr (demo_info s)), ct_Marshal = ni_PublicIP\<rparr>"

lemma demo_routes_ok: "routes_ok (ct_netlink demo_control) (\<lambda>rs. rs)"
  by (simp add: routes_ok_def demo_control_def demo_routes_def)


end
