(* ===== verification/Dhcp_Daemon.thy ===== *)
theory Dhcp_Daemon
  imports Dhcp_Lease Cni_Rpc
begin

text \<open>
  \<open>plugins/ipam/dhcp/daemon.go\<close> and \<open>main.go\<close>: the daemon that holds the leases, with one goroutine for each
  of them and one for each call, and the plugin that calls it.
\<close>

section \<open>The state of the daemon\<close>

text \<open>The settings, and the decoder of the network configuration, of which the daemon reads the name.\<close>

record dhcp_conf =
  hostNetnsPrefix :: string
  clientTimeout :: int
  leaseBroadcast :: bool
  conf_Name :: "string \<Rightarrow> string res"

text \<open>
  A lease with its goroutine: the state of the lease machine, \<open>None\<close> once the goroutine has ended, and the
  flag \<open>stopping\<close> (the stop channel is closed exactly when it is set).
\<close>

record worker =
  wk_lease :: lease
  wk_state :: "lease_state option"
  wk_stopping :: bool

text \<open>
  \<open>d_leases\<close> maps the ids of the clients to leases, by number. Calls in progress: \<open>d_storing\<close> are the calls of
  \<open>Allocate\<close> that have acquired a lease and not yet stored it, \<open>d_releasing\<close> the calls of \<open>Release\<close> that wait
  for a goroutine to end.
\<close>

record 'w dhcp_daemon =
  d_leases :: "string \<Rightarrow> nat option"
  d_workers :: "nat \<Rightarrow> worker option"
  d_next :: nat
  d_storing :: "(string \<times> nat) list"
  d_releasing :: "(string \<times> nat) list"
  d_world :: 'w

definition newDHCP :: "'w \<Rightarrow> 'w dhcp_daemon" where
  "newDHCP w = \<lparr>d_leases = (\<lambda>_. None), d_workers = (\<lambda>_. None), d_next = 0, d_storing = [], d_releasing = [], d_world = w\<rparr>"

definition generateClientID :: "string \<Rightarrow> string \<Rightarrow> string \<Rightarrow> string" where
  "generateClientID containerID netName ifName = containerID @ ''/'' @ netName @ ''/'' @ ifName"

definition getLease :: "'w dhcp_daemon \<Rightarrow> string \<Rightarrow> nat option" where
  "getLease d cid = d_leases d cid"

definition setLease :: "'w dhcp_daemon \<Rightarrow> string \<Rightarrow> nat \<Rightarrow> 'w dhcp_daemon" where
  "setLease d cid i = d\<lparr>d_leases := (d_leases d)(cid \<mapsto> i)\<rparr>"

definition clearLease :: "'w dhcp_daemon \<Rightarrow> string \<Rightarrow> 'w dhcp_daemon" where
  "clearLease d cid = d\<lparr>d_leases := (d_leases d)(cid := None)\<rparr>"

definition set_worker :: "'w dhcp_daemon \<Rightarrow> nat \<Rightarrow> worker \<Rightarrow> 'w dhcp_daemon" where
  "set_worker d i k = d\<lparr>d_workers := (d_workers d)(i \<mapsto> k)\<rparr>"

text \<open>The first half of \<open>Stop\<close>: the flag and the channel; the second half waits for the goroutine.\<close>

definition close_stop :: "'w dhcp_daemon \<Rightarrow> nat \<Rightarrow> 'w dhcp_daemon" where
  "close_stop d i = (case d_workers d i of None \<Rightarrow> d | Some k \<Rightarrow> set_worker d i (k\<lparr>wk_stopping := True\<rparr>))"

section \<open>The calls\<close>

text \<open>The id of the client of a call.\<close>

definition call_clientID :: "dhcp_conf \<Rightarrow> cmd_args \<Rightarrow> string res" where
  "call_clientID D args =
     (case conf_Name D (StdinData args) of
        Inl e \<Rightarrow> Inl (Wrap ''error parsing netconf'' e)
      | Inr name \<Rightarrow> Inr (generateClientID (ContainerID args) name (IfName args)))"

text \<open>The lease of a call of \<open>Allocate\<close>.\<close>

definition allocate_lease :: "'w dhcp_env \<Rightarrow> dhcp_conf \<Rightarrow> cmd_args \<Rightarrow> ('w, string \<times> lease) io" where
  "allocate_lease E D args =
     bind_io (lift_res (call_clientID D args)) (\<lambda>cid.
     bind_io (AcquireLease E cid (hostNetnsPrefix D @ Netns args) (IfName args) (clientTimeout D) (leaseBroadcast D)) (\<lambda>l.
     ret (cid, l)))"

text \<open>The result that \<open>Allocate\<close> fills in.\<close>

definition allocate_result :: "'w dhcp_env \<Rightarrow> lease \<Rightarrow> cni_result res" where
  "allocate_result E l =
     bind_res (lease_IPNet E l) (\<lambda>ipn.
       Inr (empty_result\<lparr>IPs := [\<lparr>Version = ''4'', Interface = None, Address = ipn, IPGateway = lease_Gateway l\<rparr>],
         Routes := lease_Routes l\<rparr>))"

section \<open>The daemon as a machine\<close>

text \<open>
  The goroutines and the calls interleave: \<open>Allocate\<close> acquires a lease and starts its goroutine (\<open>acquired\<close>), then
  stores it (\<open>stored\<close>) or, when the acknowledgement has no subnet mask, stops it (\<open>no_mask\<close>); \<open>Release\<close> stops the
  lease it finds (\<open>stopping\<close>), waits for its goroutine and then removes the entry (\<open>cleared\<close>). A goroutine goes on
  with its machine (\<open>works\<close>), may end with the lease (\<open>expires\<close>), and takes the way out of the \<open>select\<close> only when
  its channel is closed (\<open>releases\<close>).
\<close>

inductive daemon_step :: "'w dhcp_env \<Rightarrow> dhcp_conf \<Rightarrow> 'w dhcp_daemon \<Rightarrow> 'w dhcp_daemon \<Rightarrow> bool" for E D where
  works: "d_workers d i = Some k \<Longrightarrow> wk_state k = Some st
    \<Longrightarrow> maintain_step E (Running st (wk_lease k) (d_world d)) (Running st' l' w')
    \<Longrightarrow> daemon_step E D d ((set_worker d i (k\<lparr>wk_lease := l', wk_state := Some st'\<rparr>))\<lparr>d_world := w'\<rparr>)"
| expires: "d_workers d i = Some k \<Longrightarrow> wk_state k = Some st
    \<Longrightarrow> maintain_step E (Running st (wk_lease k) (d_world d)) (Expired l' w')
    \<Longrightarrow> daemon_step E D d ((set_worker d i (k\<lparr>wk_lease := l', wk_state := None\<rparr>))\<lparr>d_world := w'\<rparr>)"
| releases: "d_workers d i = Some k \<Longrightarrow> wk_state k = Some st \<Longrightarrow> wk_stopping k
    \<Longrightarrow> maintain_step E (Running st (wk_lease k) (d_world d)) (Released l' w')
    \<Longrightarrow> daemon_step E D d ((set_worker d i (k\<lparr>wk_lease := l', wk_state := None\<rparr>))\<lparr>d_world := w'\<rparr>)"
| acquired: "allocate_lease E D args (d_world d) = (Inr (cid, l), w') \<Longrightarrow> i = d_next d
    \<Longrightarrow> daemon_step E D d ((set_worker d i \<lparr>wk_lease = l, wk_state = Some leaseStateBound, wk_stopping = False\<rparr>)
          \<lparr>d_next := Suc i, d_storing := (cid, i) # d_storing d, d_world := w'\<rparr>)"
| refused: "allocate_lease E D args (d_world d) = (Inl e, w') \<Longrightarrow> \<not> is_panic e \<Longrightarrow> daemon_step E D d (d\<lparr>d_world := w'\<rparr>)"
| stored: "(cid, i) \<in> set (d_storing d) \<Longrightarrow> d_workers d i = Some k \<Longrightarrow> allocate_result E (wk_lease k) = Inr r
    \<Longrightarrow> daemon_step E D d ((setLease d cid i)\<lparr>d_storing := remove1 (cid, i) (d_storing d)\<rparr>)"
| no_mask: "(cid, i) \<in> set (d_storing d) \<Longrightarrow> d_workers d i = Some k \<Longrightarrow> allocate_result E (wk_lease k) = Inl e
    \<Longrightarrow> daemon_step E D d ((close_stop d i)\<lparr>d_storing := remove1 (cid, i) (d_storing d)\<rparr>)"
| stopping: "call_clientID D args = Inr cid \<Longrightarrow> getLease d cid = Some i
    \<Longrightarrow> daemon_step E D d ((close_stop d i)\<lparr>d_releasing := (cid, i) # d_releasing d\<rparr>)"
| cleared: "(cid, i) \<in> set (d_releasing d) \<Longrightarrow> d_workers d i = Some k \<Longrightarrow> wk_state k = None
    \<Longrightarrow> daemon_step E D d ((clearLease d cid)\<lparr>d_releasing := remove1 (cid, i) (d_releasing d)\<rparr>)"

inductive daemon_run :: "'w dhcp_env \<Rightarrow> dhcp_conf \<Rightarrow> 'w dhcp_daemon \<Rightarrow> 'w dhcp_daemon \<Rightarrow> bool" for E D d0 where
  start: "daemon_run E D d0 d0"
| step: "daemon_run E D d0 d \<Longrightarrow> daemon_step E D d d' \<Longrightarrow> daemon_run E D d0 d'"

section \<open>The process\<close>

text \<open>\<open>runDaemon\<close>: the pid file, the socket, then the server, which returns only when the socket fails.\<close>

record 'w process =
  pr_Getpid :: "'w \<Rightarrow> int"
  pr_WriteFile :: "string \<Rightarrow> string \<Rightarrow> ('w, unit) io"
  pr_net :: "'w daemon_net"

definition runDaemon :: "'w process \<Rightarrow> string \<Rightarrow> string \<Rightarrow> string \<Rightarrow> ('w, unit) io" where
  "runDaemon P pidfilePath hostPrefix socketPath =
     bind_io (if pidfilePath \<noteq> '''' then
         (if \<not> has_prefix pidfilePath ''/'' then fail (Errorf (''Error writing pidfile '' @ pidfilePath @ '': path not absolute''))
          else (\<lambda>w. wrap_io (''Error writing pidfile '' @ pidfilePath) (pr_WriteFile P pidfilePath (itoa (pr_Getpid P w))) w))
       else ret ()) (\<lambda>_.
     bind_io (wrap_io ''Error getting listener'' (getListener (pr_net P) (hostPrefix @ socketPath))) (\<lambda>l.
     attempt (dn_Serve (pr_net P) l) (\<lambda>_. ret ())))"

section \<open>The plugin\<close>

definition dhcp_defaultSocketPath :: string where
  "dhcp_defaultSocketPath = ''/run/cni/dhcp.sock''"

text \<open>\<open>pl_SocketPath\<close> decodes \<open>ipam.daemonSocketPath\<close>, empty when it is missing; \<open>pl_Version\<close> is \<open>version.ConfigDecoder\<close>.\<close>

record 'w dhcp_plugin =
  pl_rpc :: "'w rpc"
  pl_SocketPath :: "string \<Rightarrow> string res"
  pl_Version :: "string \<Rightarrow> string res"
  pl_PrintResult :: "cni_result \<Rightarrow> string \<Rightarrow> ('w, unit) io"

definition dhcp_getSocketPath :: "'w dhcp_plugin \<Rightarrow> string \<Rightarrow> string res" where
  "dhcp_getSocketPath P stdinData =
     (case pl_SocketPath P stdinData of
        Inl e \<Rightarrow> Inl (Wrap ''error parsing socket path conf'' e)
      | Inr s \<Rightarrow> Inr (if s = '''' then dhcp_defaultSocketPath else s))"

definition dhcp_rpcCall :: "'w dhcp_plugin \<Rightarrow> string \<Rightarrow> cmd_args \<Rightarrow> ('w, cni_result) io" where
  "dhcp_rpcCall P method args =
     call_daemon (pl_rpc P) ''error dialing DHCP daemon'' (dhcp_getSocketPath P (StdinData args)) method args"

definition dhcp_cmdAdd :: "'w dhcp_plugin \<Rightarrow> cmd_args \<Rightarrow> ('w, unit) io" where
  "dhcp_cmdAdd P args =
     bind_io (lift_res (pl_Version P (StdinData args))) (\<lambda>confVersion.
     bind_io (dhcp_rpcCall P ''DHCP.Allocate'' args) (\<lambda>result.
     pl_PrintResult P result confVersion))"

definition dhcp_cmdDel :: "'w dhcp_plugin \<Rightarrow> cmd_args \<Rightarrow> ('w, unit) io" where
  "dhcp_cmdDel P args = bind_io (dhcp_rpcCall P ''DHCP.Release'' args) (\<lambda>_. ret ())"

definition dhcp_cmdCheck :: "'w dhcp_plugin \<Rightarrow> cmd_args \<Rightarrow> ('w, unit) io" where
  "dhcp_cmdCheck P args =
     bind_io (lift_res (pl_Version P (StdinData args))) (\<lambda>_.
     bind_io (dhcp_rpcCall P ''DHCP.Allocate'' args) (\<lambda>_. ret ()))"

text \<open>The settings that \<open>main\<close> starts the daemon with.\<close>

definition dhcp_main_daemon :: "'w process \<Rightarrow> string \<Rightarrow> string \<Rightarrow> string \<Rightarrow> ('w, unit) io" where
  "dhcp_main_daemon P pidfilePath hostPrefix socketPath =
     runDaemon P pidfilePath hostPrefix (if socketPath = '''' then dhcp_defaultSocketPath else socketPath)"

end
