(* ===== verification/Dhcp_Daemon_Props.thy ===== *)
theory Dhcp_Daemon_Props
  imports Dhcp_Daemon Dhcp_Props
begin

text \<open>The table of leases stays sound, and what a second \<open>Allocate\<close> for the same interface does.\<close>

section \<open>The id of a lease\<close>

text \<open>What every successful outcome of a call satisfies.\<close>

definition gives :: "('a \<Rightarrow> bool) \<Rightarrow> ('w, 'a) io \<Rightarrow> bool" where
  "gives P m \<longleftrightarrow> (\<forall>w x w'. m w = (Inr x, w') \<longrightarrow> P x)"

named_theorems gives_intros

lemma givesD: "gives P m \<Longrightarrow> m w = (Inr x, w') \<Longrightarrow> P x"
  unfolding gives_def by blast

lemma gives_bind [gives_intros]: "(\<And>x. gives P (f x)) \<Longrightarrow> gives P (bind_io m f)"
  unfolding gives_def by (auto elim!: bind_io_InrE)

lemma gives_map:
  assumes "gives Q m" "\<And>x. Q x \<Longrightarrow> P (f x)"
  shows "gives P (bind_io m (\<lambda>x. ret (f x)))"
  unfolding gives_def
proof (intro allI impI, elim bind_io_InrE)
  fix x w' y w1 and w
  assume "m w = (Inr x, w1)" "ret (f x) w1 = (Inr y, w')"
  then show "P y" using givesD [OF assms(1)] assms(2) by (auto simp: ret_def)
qed

lemma gives_ret [gives_intros]: "P x \<Longrightarrow> gives P (ret x)" and gives_fail [gives_intros]: "gives P (fail e)"
  by (simp_all add: gives_def ret_def fail_def)

lemma gives_wrap [gives_intros]: "gives P m \<Longrightarrow> gives P (wrap_io s m)"
  unfolding gives_def using wrap_io_InrE by fast

lemma gives_finally [gives_intros]: "gives P m \<Longrightarrow> gives P (finally_io m c)"
  by (auto simp: gives_def finally_io_def split: prod.splits)

lemma gives_on_thread [gives_intros]: "gives P m \<Longrightarrow> gives P (on_thread T m)"
  by (auto simp: gives_def on_thread_def split: prod.splits)

lemma gives_attempt:
  assumes "gives Q m" "\<And>e. gives P (f (Inl e))" "\<And>x. Q x \<Longrightarrow> gives P (f (Inr x))"
  shows "gives P (attempt m f)"
  unfolding gives_def
proof (intro allI impI)
  fix w y w'
  assume a: "attempt m f w = (Inr y, w')"
  obtain r w1 where m: "m w = (r, w1)" by (cases "m w")
  show "P y"
  proof (cases r)
    case (Inl e)
    then show ?thesis using a m assms(2) by (auto simp: attempt_def gives_def split: if_splits)
  next
    case (Inr x)
    then have "Q x" "f (Inr x) w1 = (Inr y, w')" using a m assms(1) by (auto simp: attempt_def gives_def)
    then show ?thesis using assms(3) by (auto simp: gives_def)
  qed
qed

lemma gives_WithNetNSPath: "(\<And>n. gives P (f n)) \<Longrightarrow> gives P (WithNetNSPath T p f)"
  unfolding WithNetNSPath_def ns_Do_def containedCall_def by (intro gives_intros)

lemma commit_clientID: "gives (\<lambda>l'. clientID l' = clientID l) (commit E l pkt)"
proof -
  have "gives (\<lambda>l'. clientID l' = clientID l) (\<lambda>w. ret (f w) w)" if "\<And>w. clientID (f w) = clientID l" for f
    using that by (simp add: gives_def ret_def)
  then show ?thesis unfolding commit_def Let_def by (intro gives_bind) (auto simp: gives_def ret_def split: prod.splits)
qed

lemma acquire_clientID: "gives (\<lambda>l'. clientID l' = clientID l) (acquire E l)"
  unfolding acquire_def by (intro gives_intros commit_clientID)

lemma acquire_new_clientID: "clientID l = cid \<Longrightarrow> gives (\<lambda>l'. clientID l' = cid) (acquire E l)"
  using acquire_clientID [of l E] by simp

lemma renew_clientID: "gives (\<lambda>l'. clientID l' = clientID l) (renew E l)"
  unfolding renew_def
  by (intro gives_intros gives_attempt [OF commit_clientID]) (simp_all add: gives_intros)

lemma lease_switch_clientID:
  assumes "lease_switch E st l w = (Select d st' l', w')"
  shows "clientID l' = clientID l"
proof (cases st)
  case leaseStateBound
  then show ?thesis using assms by (simp add: lease_switch_def Let_def split: if_splits)
next
  case leaseStateRenewing
  obtain r w1 where r: "renew E l w = (r, w1)" by (cases "renew E l w")
  show ?thesis
  proof (cases r)
    case (Inl e)
    then show ?thesis using leaseStateRenewing assms r by (simp add: lease_switch_def split: if_splits)
  next
    case (Inr l1)
    then have "renew E l w = (Inr l1, w1)" using r by simp
    from givesD [OF renew_clientID this] have "clientID l1 = clientID l" .
    then show ?thesis using leaseStateRenewing assms r Inr by (simp add: lease_switch_def)
  qed
next
  case leaseStateRebinding
  obtain r w1 where r: "acquire E l w = (r, w1)" by (cases "acquire E l w")
  show ?thesis
  proof (cases r)
    case (Inl e)
    obtain x w2 where x: "downIface E l w1 = (x, w2)" by (cases "downIface E l w1")
    then show ?thesis
      using leaseStateRebinding assms r Inl by (cases x) (simp_all add: lease_switch_def split: if_splits)
  next
    case (Inr l1)
    then have "acquire E l w = (Inr l1, w1)" using r by simp
    from givesD [OF acquire_clientID this] have "clientID l1 = clientID l" .
    then show ?thesis using leaseStateRebinding assms r Inr by (simp add: lease_switch_def)
  qed
qed

lemma maintain_step_clientID:
  assumes "maintain_step E (Running st l w) ph"
  shows "ph = Running st' l' w' \<or> ph = Expired l' w' \<or> ph = Released l' w' \<Longrightarrow> clientID l' = clientID l"
  using assms by (cases rule: running_stepE) (auto dest: lease_switch_clientID)

lemma allocate_clientID:
  "allocate_lease E D args w = (Inr (cid, l), w') \<Longrightarrow> clientID l = cid"
proof -
  have "gives (\<lambda>(cid, l). clientID l = cid) (allocate_lease E D args)"
  proof -
    have acq: "gives (\<lambda>l. clientID l = cid) (AcquireLease E cid ns ifn t b)" for cid ns ifn t b
      unfolding AcquireLease_def
      by (intro gives_WithNetNSPath gives_bind acquire_new_clientID) simp
    show ?thesis
      unfolding allocate_lease_def by (intro gives_bind gives_map [OF acq]) simp
  qed
  then show "allocate_lease E D args w = (Inr (cid, l), w') \<Longrightarrow> clientID l = cid" by (fastforce dest: givesD)
qed

section \<open>The table of leases\<close>

text \<open>A lease of the daemon and the client it belongs to.\<close>

definition belongs :: "'w dhcp_daemon \<Rightarrow> nat \<Rightarrow> string \<Rightarrow> bool" where
  "belongs d i cid \<longleftrightarrow> (\<exists>k. d_workers d i = Some k \<and> clientID (wk_lease k) = cid)"

definition stops :: "'w dhcp_daemon \<Rightarrow> nat \<Rightarrow> bool" where
  "stops d i \<longleftrightarrow> (\<exists>k. d_workers d i = Some k \<and> wk_stopping k)"

definition daemon_wf :: "'w dhcp_daemon \<Rightarrow> bool" where
  "daemon_wf d \<longleftrightarrow>
     (\<forall>i. d_workers d i \<noteq> None \<longrightarrow> i < d_next d)
   \<and> (\<forall>cid i. d_leases d cid = Some i \<longrightarrow> belongs d i cid)
   \<and> (\<forall>(cid, i)\<in>set (d_storing d). belongs d i cid \<and> (\<forall>c. d_leases d c \<noteq> Some i))
   \<and> (\<forall>(cid, i)\<in>set (d_releasing d). belongs d i cid \<and> stops d i)
   \<and> distinct (map snd (d_storing d))"

lemmas daemon_parts = set_worker_def setLease_def clearLease_def close_stop_def getLease_def

lemma close_stop_simps [simp]:
  "d_leases (close_stop d i) = d_leases d" "d_next (close_stop d i) = d_next d" "d_storing (close_stop d i) = d_storing d"
  "d_releasing (close_stop d i) = d_releasing d" "d_world (close_stop d i) = d_world d"
  by (simp_all add: close_stop_def set_worker_def split: option.splits)

lemma close_stop_workers:
  "d_workers (close_stop d i) j = (if j = i then map_option (\<lambda>k. k\<lparr>wk_stopping := True\<rparr>) (d_workers d i) else d_workers d j)"
  by (simp add: close_stop_def set_worker_def split: option.splits)

text \<open>One step seen from one lease: it keeps its client, and only the owner of an entry or a call in progress stops it.\<close>

lemma worker_step:
  assumes "daemon_step E D d d'" "d_workers d i = Some k" "i < d_next d"
  shows "\<exists>k'. d_workers d' i = Some k' \<and> clientID (wk_lease k') = clientID (wk_lease k) \<and> (wk_stopping k \<longrightarrow> wk_stopping k')
    \<and> (wk_stopping k' \<longrightarrow> wk_stopping k \<or> i \<in> snd ` set (d_storing d) \<or> (\<exists>c. d_leases d c = Some i))"
  using assms(1)
proof cases
  case (works j kj st st' l' w')
  then show ?thesis using assms(2) maintain_step_clientID [OF works(4), of st' l' w'] by (auto simp: set_worker_def)
next
  case (expires j kj st l' w')
  then show ?thesis using assms(2) maintain_step_clientID [OF expires(4), where l' = l' and w' = w'] by (auto simp: set_worker_def)
next
  case (releases j kj st l' w')
  then show ?thesis using assms(2) maintain_step_clientID [OF releases(5), where l' = l' and w' = w'] by (auto simp: set_worker_def)
next
  case (no_mask cid j kj e)
  then show ?thesis using assms(2) by (force simp: close_stop_workers)
next
  case (stopping args cid j)
  then show ?thesis using assms(2) by (auto simp: close_stop_workers getLease_def)
qed (use assms(2,3) in \<open>auto simp: set_worker_def setLease_def clearLease_def\<close>)

lemma belongs_step:
  assumes "daemon_step E D d d'" "belongs d i cid" "daemon_wf d"
  shows "belongs d' i cid" "stops d i \<Longrightarrow> stops d' i"
proof -
  from assms(2) obtain k where k: "d_workers d i = Some k" "clientID (wk_lease k) = cid" by (auto simp: belongs_def)
  then have "i < d_next d" using assms(3) by (auto simp: daemon_wf_def)
  from worker_step [OF assms(1) k(1) this] obtain k' where "d_workers d' i = Some k'" "clientID (wk_lease k') = clientID (wk_lease k)"
    "wk_stopping k \<longrightarrow> wk_stopping k'" by blast
  then show "belongs d' i cid" "stops d i \<Longrightarrow> stops d' i" using k by (simp_all add: belongs_def stops_def)
qed

lemma daemon_wfD:
  assumes "daemon_wf d"
  shows "d_workers d i = Some k \<Longrightarrow> i < d_next d" "d_leases d cid = Some i \<Longrightarrow> belongs d i cid"
    "(cid, i) \<in> set (d_storing d) \<Longrightarrow> belongs d i cid" "(cid, i) \<in> set (d_storing d) \<Longrightarrow> d_leases d c \<noteq> Some i"
    "(cid, i) \<in> set (d_releasing d) \<Longrightarrow> belongs d i cid" "(cid, i) \<in> set (d_releasing d) \<Longrightarrow> stops d i"
    "distinct (map snd (d_storing d))"
  using assms unfolding daemon_wf_def by blast+

lemma remove1_snd:
  assumes "distinct (map snd xs)" "(c, i) \<in> set xs" "(c', j) \<in> set (remove1 (c, i) xs)"
  shows "(c', j) \<in> set xs" "j \<noteq> i"
proof -
  show x: "(c', j) \<in> set xs" using assms(3) notin_set_remove1 by fast
  show "j \<noteq> i"
  proof
    assume "j = i"
    then have "c' = c" using x assms(1,2) by (metis eq_key_imp_eq_value snd_conv distinct_map inj_onD prod.inject)
    then show False using assms(1,3) \<open>j = i\<close> by (simp add: distinct_map)
  qed
qed

lemma distinct_snd_remove1: "distinct (map snd xs) \<Longrightarrow> distinct (map snd (remove1 x xs))"
  using set_remove1_subset by (induction xs) fastforce+

lemma wf_carry:
  assumes "daemon_step E D d d'" "daemon_wf d"
  shows "\<forall>(cid, i)\<in>set (d_storing d). belongs d' i cid" "\<forall>(cid, i)\<in>set (d_releasing d). belongs d' i cid \<and> stops d' i"
    "\<forall>cid i. d_leases d cid = Some i \<longrightarrow> belongs d' i cid"
  using belongs_step [OF assms(1) _ assms(2)] daemon_wfD [OF assms(2)] by blast+

lemma daemon_wfI:
  assumes "\<And>i. d_workers d i \<noteq> None \<Longrightarrow> i < d_next d" "\<And>cid i. d_leases d cid = Some i \<Longrightarrow> belongs d i cid"
    "\<And>cid i. (cid, i) \<in> set (d_storing d) \<Longrightarrow> belongs d i cid" "\<And>cid i c. (cid, i) \<in> set (d_storing d) \<Longrightarrow> d_leases d c \<noteq> Some i"
    "\<And>cid i. (cid, i) \<in> set (d_releasing d) \<Longrightarrow> belongs d i cid \<and> stops d i" "distinct (map snd (d_storing d))"
  shows "daemon_wf d"
  using assms unfolding daemon_wf_def by blast

text \<open>Steps that leave the table and the calls as they are.\<close>

lemma daemon_wf_same:
  assumes "daemon_step E D d d'" "daemon_wf d" "d_leases d' = d_leases d" "d_storing d' = d_storing d" "d_releasing d' = d_releasing d"
    "\<And>i. d_workers d' i \<noteq> None \<Longrightarrow> i < d_next d'"
  shows "daemon_wf d'"
  by (rule daemon_wfI) (use wf_carry [OF assms(1,2)] daemon_wfD [OF assms(2)] assms(3-6) in \<open>simp_all, blast+\<close>)

lemma worker_number:
  assumes "daemon_step E D d d'" "daemon_wf d" "d_workers d' i \<noteq> None"
  shows "i < d_next d'"
proof -
  have old: "i < d_next d" if "d_workers d i \<noteq> None" using that daemon_wfD(1) [OF assms(2)] by auto
  have "d_next d \<le> d_next d' \<and> (d_workers d i \<noteq> None \<or> i < d_next d')"
    using assms(1,3) by cases (auto simp: set_worker_def setLease_def clearLease_def close_stop_workers split: if_splits)
  then show ?thesis using old by auto
qed

lemma daemon_wf_step:
  assumes "daemon_step E D d d'" "daemon_wf d"
  shows "daemon_wf d'"
proof -
  note wf = daemon_wfD [OF assms(2)] and carry = wf_carry [OF assms]
  note num = worker_number [OF assms]
  from assms(1) show ?thesis
  proof cases
    case (acquired args cid l w' i)
    have b: "belongs d' i cid" using allocate_clientID [OF acquired(2)] by (simp add: belongs_def acquired(1) set_worker_def)
    have fresh: "d_workers d i = None" using wf(1) acquired(3) by (metis less_irrefl option.exhaust)
    have "\<not> belongs d i c" for c by (simp add: belongs_def fresh)
    then have n: "d_leases d c \<noteq> Some i" "(c, i) \<notin> set (d_storing d)" for c using wf(2,3) by blast+
    have e: "d_leases d' = d_leases d" "d_storing d' = (cid, i) # d_storing d" "d_releasing d' = d_releasing d"
      by (simp_all add: acquired(1) set_worker_def)
    have "distinct (map snd (d_storing d'))" using wf(7) n(2) by (auto simp: e)
    moreover have "belongs d' j c \<and> d_leases d' c' \<noteq> Some j" if "(c, j) \<in> set (d_storing d')" for c j c'
    proof (cases "(c, j) = (cid, i)")
      case True
      then show ?thesis using b n(1) by (simp add: e)
    next
      case False
      then have "(c, j) \<in> set (d_storing d)" using that unfolding e by auto
      then show ?thesis using carry(1) wf(4) [of c j c'] e(1) by auto
    qed
    moreover have "belongs d' j c \<and> stops d' j" if "(c, j) \<in> set (d_releasing d')" for c j
      using bspec [OF carry(2), of "(c, j)"] that by (simp add: e)
    moreover have "belongs d' j c" if "d_leases d' c = Some j" for c j using carry(3) that by (simp add: e)
    ultimately show ?thesis by (intro daemon_wfI num) blast+
  next
    case (stored cid i k r)
    have b: "belongs d' i cid" using carry(1) stored(2) by blast
    have e: "d_leases d' = (d_leases d)(cid \<mapsto> i)" "d_storing d' = remove1 (cid, i) (d_storing d)" "d_releasing d' = d_releasing d"
      by (simp_all add: stored(1) setLease_def)
    note rem = remove1_snd [OF wf(7) stored(2)]
    have "belongs d' j c" if "d_leases d' c = Some j" for j c
      using that carry(3) b unfolding e(1) by (cases "c = cid") simp_all
    moreover have "belongs d' j c \<and> d_leases d' c' \<noteq> Some j" if "(c, j) \<in> set (d_storing d')" for c j c'
    proof -
      have "(c, j) \<in> set (d_storing d)" "j \<noteq> i" using rem [of c j] that unfolding e(2) by blast+
      then show ?thesis using bspec [OF carry(1), of "(c, j)"] wf(4) [of c j c'] by (simp add: e(1))
    qed
    moreover have "distinct (map snd (d_storing d'))" unfolding e by (rule distinct_snd_remove1 [OF wf(7)])
    moreover have "belongs d' j c \<and> stops d' j" if "(c, j) \<in> set (d_releasing d')" for c j
      using bspec [OF carry(2), of "(c, j)"] that by (simp add: e(3))
    ultimately show ?thesis by (intro daemon_wfI num) blast+
  next
    case (no_mask cid i k e)
    have e: "d_leases d' = d_leases d" "d_storing d' = remove1 (cid, i) (d_storing d)" "d_releasing d' = d_releasing d"
      by (simp_all add: no_mask(1))
    have "belongs d' j c" "d_leases d' c' \<noteq> Some j" if "(c, j) \<in> set (d_storing d')" for c j c'
      using remove1_snd(1) [OF wf(7) no_mask(2), of c j] that carry(1) wf(4) [of c j c'] by (auto simp: e)
    moreover have "distinct (map snd (d_storing d'))" unfolding e by (rule distinct_snd_remove1 [OF wf(7)])
    ultimately show ?thesis using carry(2,3) by (intro daemon_wfI num) (auto simp: e)
  next
    case (stopping args cid i)
    have b: "belongs d' i cid" using carry(3) stopping(3) by (simp add: getLease_def)
    have "stops d' i"
      using wf(2) [of cid i] stopping(3) by (auto simp: getLease_def stops_def belongs_def stopping(1) close_stop_workers)
    moreover have "d_leases d' = d_leases d" "d_storing d' = d_storing d" "d_releasing d' = (cid, i) # d_releasing d"
      by (simp_all add: stopping(1))
    ultimately show ?thesis using carry b wf(4,7) by (intro daemon_wfI num) auto
  next
    case (cleared cid i k)
    have e: "d_leases d' = (d_leases d)(cid := None)" "d_storing d' = d_storing d" "d_releasing d' = remove1 (cid, i) (d_releasing d)"
      by (simp_all add: cleared(1) clearLease_def)
    have "belongs d' j c \<and> stops d' j" if "(c, j) \<in> set (d_releasing d')" for c j
      using that carry(2) notin_set_remove1 [of "(c, j)" "d_releasing d" "(cid, i)"] by (auto simp: e)
    then show ?thesis using carry(1,3) wf(4,7) by (intro daemon_wfI num) (auto simp: e split: if_splits)
  qed (rule daemon_wf_same [OF assms]; use num in \<open>simp add: set_worker_def\<close>)+
qed

lemma daemon_run_wf: "daemon_run E D (newDHCP w) d \<Longrightarrow> daemon_wf d"
proof (induction rule: daemon_run.induct)
  case start
  then show ?case by (simp add: daemon_wf_def newDHCP_def)
next
  case (step d d')
  then show ?case using daemon_wf_step by blast
qed

text \<open>
  C4: in every reachable state of the daemon, each entry of its table is a lease that was acquired for the client
  of its key, no lease is in the table before its \<open>Allocate\<close> has stored it, and every lease that a \<open>Release\<close> waits
  for belongs to the client that is released and has been told to stop.
\<close>

theorem dhcp_daemon_table:
  assumes "daemon_run E D (newDHCP w) d"
  shows "(\<forall>cid i. getLease d cid = Some i \<longrightarrow> belongs d i cid)
    \<and> (\<forall>(cid, i)\<in>set (d_storing d). belongs d i cid \<and> (\<forall>c. getLease d c \<noteq> Some i))
    \<and> (\<forall>(cid, i)\<in>set (d_releasing d). belongs d i cid \<and> stops d i)"
  using daemon_run_wf [OF assms] unfolding daemon_wf_def getLease_def by blast

section \<open>A second lease for the same client\<close>

text \<open>A lease that nothing refers to and that was not told to stop.\<close>

definition orphan :: "'w dhcp_daemon \<Rightarrow> nat \<Rightarrow> bool" where
  "orphan d i \<longleftrightarrow> (\<exists>k. d_workers d i = Some k \<and> \<not> wk_stopping k) \<and> i < d_next d
     \<and> (\<forall>c. d_leases d c \<noteq> Some i) \<and> i \<notin> snd ` set (d_storing d)"

lemma orphan_step:
  assumes "daemon_step E D d d'" "orphan d i"
  shows "orphan d' i"
proof -
  from assms(2) obtain k where k: "d_workers d i = Some k" "\<not> wk_stopping k" "i < d_next d"
    and n: "\<And>c. d_leases d c \<noteq> Some i" "i \<notin> snd ` set (d_storing d)" by (auto simp: orphan_def)
  from worker_step [OF assms(1) k(1,3)] obtain k' where "d_workers d' i = Some k'" "\<not> wk_stopping k'" using n k(2) by blast
  moreover have rem: "i \<notin> snd ` set (remove1 x (d_storing d))" for x
    using n(2) set_remove1_subset [of x "d_storing d"] by blast
  have "i < d_next d' \<and> (\<forall>c. d_leases d' c \<noteq> Some i) \<and> i \<notin> snd ` set (d_storing d')"
    using assms(1)
  proof cases
    case (stored cid j kj r)
    then have "j \<noteq> i" using n(2) by force
    then show ?thesis using k(3) n(1) rem by (simp add: stored(1) setLease_def)
  next
    case (no_mask cid j kj e)
    then show ?thesis using k(3) n(1) rem by (simp add: no_mask(1))
  qed (use k(3) n in \<open>auto simp: set_worker_def clearLease_def\<close>)
  ultimately show ?thesis unfolding orphan_def by blast
qed


section \<open>Witnesses\<close>

text \<open>A server that grants every request for an hour.\<close>

definition demo_grant :: options where
  "demo_grant = [OptionIPAddressLeaseTime \<mapsto> [0, 0, 14, 16], OptionSubnetMask \<mapsto> [255, 255, 255, 0], OptionDHCPMessageType \<mapsto> [ACK]]"

definition demo_served :: "int dhcp_env" where
  "demo_served = demo_dhcp\<lparr>pk_ParseOptions := (\<lambda>_. demo_grant), dc_GetOffer := (\<lambda>_ _. ret []), dc_GetAcknowledgement := (\<lambda>_ _. ret [])\<rparr>"

definition demo_dconf :: dhcp_conf where
  "demo_dconf = \<lparr>hostNetnsPrefix = [], clientTimeout = 10 * Second, leaseBroadcast = False, conf_Name = (\<lambda>_. Inr ''net'')\<rparr>"

definition demo_call :: cmd_args where
  "demo_call = \<lparr>ContainerID = ''c1'', Netns = ''/run/netns/c1'', IfName = ''eth0'', CniArgs = [], Path = [], StdinData = []\<rparr>"

lemma idle_WithNetNSPath:
  "\<exists>n. WithNetNSPath (nl_os (idle_kernel now sleep)) p f w = f n w"
  by (rule exI [of _ "\<lparr>ns_file = ''self'', ns_fd = 3, ns_closed = False\<rparr>"])
    (simp add: WithNetNSPath_def GetNS_def IsNSorErr_def ns_Do_def GetCurrentNS_def errorIfClosed_def on_thread_def containedCall_def
      ns_Close_def ns_Set_def idle_kernel_def finally_io_def io_defs split: prod.split)

lemma demo_acquire: "\<exists>l'. acquire demo_served l w = (Inr l', w) \<and> lease_opts l' = demo_grant"
proof -
  have "parseLeaseTime demo_grant = Inr (wrap64 (int (be_uint32 [0, 0, 14, 16]) * Second))"
    by (simp add: parseLeaseTime_def parseDuration_def demo_grant_def OptionIPAddressLeaseTime_def OptionSubnetMask_def OptionDHCPMessageType_def)
  then obtain a b c where t: "lease_times demo_grant = Inr (a, b, c)" by (simp add: lease_times_def Let_def)
  have m: "message_type demo_grant = Inr ACK" by (simp add: message_type_def demo_grant_def)
  have r: "DhcpRequest demo_served c opts w = (Inr (True, []), w)" for c opts
    by (simp add: DhcpRequest_def DhcpSendDiscoverPacket_def DhcpSendRequest_def send_built_def demo_served_def demo_dhcp_def m bind_io_def
        ret_def lift_res_def)
  have b: "backoffRetry demo_served (acked msg (DhcpRequest demo_served c opts)) w = (Inr [], w)" for msg c opts
    unfolding backoffRetry_def by (subst backoff_loop.simps) (simp add: acked_def r bind_io_def attempt_def ret_def)
  have c: "\<exists>l'. commit demo_served l [] w = (Inr l', w) \<and> lease_opts l' = demo_grant"
    by (simp add: commit_def demo_served_def t bind_io_def lift_res_def ret_def Let_def)
  then obtain l' where l': "commit demo_served l [] w = (Inr l', w)" "lease_opts l' = demo_grant" by blast
  have e: "dc_Close demo_served c = ret ()" "newDHCPClient demo_served k t d w = (Inr 1, w)" "set_up demo_served k w = (Inr (), w)" for c k t d
    by (simp_all add: demo_served_def demo_dhcp_def newDHCPClient_def set_up_def idle_kernel_def bind_io_def ret_def)
  have "acquire demo_served l w = (Inr l', w)"
    using b l' e by (simp add: acquire_def bind_io_def finally_io_def ret_def)
  then show ?thesis using l'(2) by blast
qed

lemma demo_allocate: "\<exists>l. allocate_lease demo_served demo_dconf demo_call w = (Inr (''c1/net/eth0'', l), w) \<and> lease_opts l = demo_grant"
proof -
  have id: "call_clientID demo_dconf demo_call = Inr ''c1/net/eth0''" by (simp add: call_clientID_def demo_dconf_def demo_call_def generateClientID_def)
  have nl: "de_netlink demo_served = idle_kernel (\<lambda>w. w) (\<lambda>d w. w + d)" by (simp add: demo_served_def demo_dhcp_def)
  have acq: "\<exists>l. AcquireLease demo_served cid p ifn t b w = (Inr l, w) \<and> lease_opts l = demo_grant" for cid p ifn t b
  proof -
    obtain n where n: "AcquireLease demo_served cid p ifn t b w =
        bind_io (wrap_io (''error looking up '' @ ifn) (nl_LinkByName (de_netlink demo_served) ifn)) (\<lambda>l.
          acquire demo_served \<lparr>clientID = cid, ack = [], lease_opts = (\<lambda>_. None), lease_link = l, renewalTime = 0, rebindingTime = 0,
            expireTime = 0, lease_timeout = t, lease_broadcast = b\<rparr>) w"
      unfolding AcquireLease_def nl using idle_WithNetNSPath by meson
    have "nl_LinkByName (de_netlink demo_served) ifn w = (Inr ((new_link ifn Device)\<lparr>lk_Index := 1\<rparr>), w)"
      by (simp add: nl idle_kernel_def ret_def)
    then show ?thesis using demo_acquire unfolding n by (simp add: bind_io_def wrap_io_def)
  qed
  from acq [of "''c1/net/eth0''" "hostNetnsPrefix demo_dconf @ Netns demo_call" "IfName demo_call" "clientTimeout demo_dconf"
      "leaseBroadcast demo_dconf"] obtain l where
    "AcquireLease demo_served ''c1/net/eth0'' (hostNetnsPrefix demo_dconf @ Netns demo_call) (IfName demo_call)
      (clientTimeout demo_dconf) (leaseBroadcast demo_dconf) w = (Inr l, w)" "lease_opts l = demo_grant" by blast
  then show ?thesis using id by (simp add: allocate_lease_def bind_io_def lift_res_def ret_def)
qed

text \<open>ADD stores a lease; a CHECK after it acquires another one.\<close>

lemma demo_daemon_run:
  "\<exists>d. daemon_run demo_served demo_dconf (newDHCP 0) d \<and> getLease d ''c1/net/eth0'' = Some 0 \<and> \<not> stops d 0
    \<and> d_storing d = [(''c1/net/eth0'', 1)]"
proof -
  let ?c = "''c1/net/eth0''" and ?d0 = "newDHCP (0 :: int)"
  obtain l where l: "allocate_lease demo_served demo_dconf demo_call 0 = (Inr (?c, l), 0)" "lease_opts l = demo_grant"
    using demo_allocate by blast
  have dw: "d_world ?d0 = 0" by (simp add: newDHCP_def)
  define k where "k = \<lparr>wk_lease = l, wk_state = Some leaseStateBound, wk_stopping = False\<rparr>"
  define d1 where "d1 = (set_worker ?d0 0 k)\<lparr>d_next := Suc 0, d_storing := (?c, 0) # d_storing ?d0, d_world := 0\<rparr>"
  have s1: "daemon_step demo_served demo_dconf ?d0 d1"
    unfolding d1_def k_def by (rule daemon_step.acquired [where args = demo_call]) (simp_all add: dw l(1), simp add: newDHCP_def)
  define d2 where "d2 = (setLease d1 ?c 0)\<lparr>d_storing := remove1 (?c, 0) (d_storing d1)\<rparr>"
  have "parseSubnetMask demo_grant = Some [255, 255, 255, 0]"
    by (simp add: parseSubnetMask_def demo_grant_def OptionSubnetMask_def OptionDHCPMessageType_def OptionIPAddressLeaseTime_def)
  then obtain r where r: "allocate_result demo_served l = Inr r"
    using l(2) by (simp add: allocate_result_def lease_IPNet_def)
  have s2: "daemon_step demo_served demo_dconf d1 d2"
    unfolding d2_def by (rule daemon_step.stored [where k = k and r = r]) (use r in \<open>simp_all add: d1_def set_worker_def newDHCP_def k_def\<close>)
  have w2: "d_world d2 = 0" "d_next d2 = 1" "d_workers d2 = [0 \<mapsto> k]" "d_leases d2 = [?c \<mapsto> 0]" "d_storing d2 = []"
    by (simp_all add: d2_def d1_def set_worker_def setLease_def newDHCP_def)
  define d3 where "d3 = (set_worker d2 1 k)\<lparr>d_next := Suc 1, d_storing := (?c, 1) # d_storing d2, d_world := 0\<rparr>"
  have s3: "daemon_step demo_served demo_dconf d2 d3"
    unfolding d3_def k_def by (rule daemon_step.acquired [where args = demo_call]) (simp_all add: w2(1,2) l(1))
  have "daemon_run demo_served demo_dconf ?d0 d3" using s1 s2 s3 by (meson daemon_run.intros)
  moreover have "getLease d3 ?c = Some 0 \<and> \<not> stops d3 0 \<and> d_storing d3 = [(?c, 1)]"
    by (simp add: d3_def set_worker_def getLease_def stops_def w2 k_def)
  ultimately show ?thesis by blast
qed

theorem dhcp_daemon_table_witness:
  "\<exists>d. daemon_run demo_served demo_dconf (newDHCP 0) d \<and> getLease d ''c1/net/eth0'' = Some 0 \<and> belongs d 0 ''c1/net/eth0''
    \<and> belongs d 1 ''c1/net/eth0'' \<and> getLease d ''c1/net/eth0'' \<noteq> Some 1"
proof -
  obtain d where d: "daemon_run demo_served demo_dconf (newDHCP 0) d" "getLease d ''c1/net/eth0'' = Some 0" "d_storing d = [(''c1/net/eth0'', 1)]"
    using demo_daemon_run by blast
  from dhcp_daemon_table [OF d(1)] d show ?thesis by (intro exI [of _ d]) simp
qed


end
