(* ===== verification/Tuning.thy ===== *)
theory Tuning
  imports Netlink Go_Mac Cni_Rpc "HOL-Library.AList"
begin

text \<open>
  \<open>plugins/meta/tuning/tuning.go\<close>: the plugin that sets the sysctls of a container and the attributes of its
  link, and that saves the old attributes in a file to put them back on DEL.
\<close>

section \<open>Configuration\<close>

definition tuning_defaultDataDir :: string where
  "tuning_defaultDataDir = ''/run/cni/tuning''"

text \<open>The optional arguments (\<open>IPAMArgs\<close>); a map is the list of its entries, and \<open>None\<close> is the nil map.\<close>

record tuning_args =
  ta_SysCtl :: "(string \<times> string) list option"
  ta_Mac :: "string option"
  ta_Promisc :: "bool option"
  ta_Mtu :: "int option"

record tuning_conf = netconf +
  tc_DataDir :: string
  tc_SysCtl :: "(string \<times> string) list option"
  tc_Mac :: string
  tc_Promisc :: bool
  tc_Mtu :: int
  tc_RuntimeMac :: string
  tc_Args :: "tuning_args option option"

text \<open>What is saved, each attribute only where it was configured.\<close>

record configToRestore =
  cr_Mac :: string
  cr_Promisc :: "bool option"
  cr_Mtu :: int

text \<open>
  \<open>te_decode\<close>, \<open>te_Marshal\<close> and \<open>te_Unmarshal\<close> are \<open>encoding/json\<close>, \<open>te_LoadArgs\<close> is \<open>types.LoadArgs\<close>, of whose
  fields the plugin reads the MAC; \<open>te_range\<close> is the order in which a map is run through.
\<close>

record 'w tuning_env =
  te_netlink :: "'w netlink"
  te_lib :: "'w cni_lib"
  te_decode :: "string \<Rightarrow> tuning_conf res"
  te_LoadArgs :: "string \<Rightarrow> string res"
  te_range :: "(string \<times> string) list \<Rightarrow> (string \<times> string) list"
  te_Marshal :: "configToRestore \<Rightarrow> string res"
  te_Unmarshal :: "string \<Rightarrow> configToRestore res"
  te_Stat :: "string \<Rightarrow> ('w, unit) io"
  te_MkdirAll :: "string \<Rightarrow> ('w, unit) io"
  te_Remove :: "string \<Rightarrow> ('w, unit) io"

text \<open>\<open>for k, v := range a { m[k] = v }\<close>: writing to a nil map panics.\<close>

definition merge_sysctl :: "(string \<times> string) list option \<Rightarrow> (string \<times> string) list \<Rightarrow> (string \<times> string) list option res" where
  "merge_sysctl m a =
     (if a = [] then Inr m
      else case m of None \<Rightarrow> Inl (Panic ''assignment to entry in nil map'')
                   | Some kv \<Rightarrow> Inr (Some (fold (\<lambda>(k, v). AList.update k v) a kv)))"

definition tuning_apply_args :: "tuning_conf \<Rightarrow> tuning_args \<Rightarrow> tuning_conf res" where
  "tuning_apply_args conf a =
     bind_res (case ta_SysCtl a of None \<Rightarrow> Inr (tc_SysCtl conf) | Some kv \<Rightarrow> merge_sysctl (tc_SysCtl conf) kv) (\<lambda>m.
       Inr (conf\<lparr>tc_SysCtl := m,
         tc_Mac := (case ta_Mac a of None \<Rightarrow> tc_Mac conf | Some x \<Rightarrow> x),
         tc_Promisc := (case ta_Promisc a of None \<Rightarrow> tc_Promisc conf | Some x \<Rightarrow> x),
         tc_Mtu := (case ta_Mtu a of None \<Rightarrow> tc_Mtu conf | Some x \<Rightarrow> x)\<rparr>))"

definition tuning_parseConf :: "'w tuning_env \<Rightarrow> string \<Rightarrow> string \<Rightarrow> tuning_conf res" where
  "tuning_parseConf E data envArgs =
     (case te_decode E data of
        Inl e \<Rightarrow> Inl (Wrap ''failed to load netconf'' e)
      | Inr conf0 \<Rightarrow>
          let conf1 = (if tc_DataDir conf0 = '''' then conf0\<lparr>tc_DataDir := tuning_defaultDataDir\<rparr> else conf0)
          in bind_res
            (if envArgs \<noteq> '''' then
               bind_res (te_LoadArgs E envArgs) (\<lambda>mac. Inr (if mac \<noteq> '''' then conf1\<lparr>tc_Mac := mac\<rparr> else conf1))
             else Inr conf1)
            (\<lambda>conf2.
               let conf3 = (if tc_RuntimeMac conf2 \<noteq> '''' then conf2\<lparr>tc_Mac := tc_RuntimeMac conf2\<rparr> else conf2)
               in case tc_Args conf3 of
                    Some (Some a) \<Rightarrow> tuning_apply_args conf3 a
                  | _ \<Rightarrow> Inr conf3))"

section \<open>The attributes of a link\<close>

definition get_link :: "'w netlink \<Rightarrow> string \<Rightarrow> ('w, link) io" where
  "get_link N ifName = wrap_io (''failed to get '' @ ifName) (nl_LinkByName N ifName)"

definition changeMacAddr :: "'w netlink \<Rightarrow> string \<Rightarrow> string \<Rightarrow> ('w, unit) io" where
  "changeMacAddr N ifName newMacAddr =
     bind_io (wrap_io (''invalid args '' @ newMacAddr @ '' for MAC addr'') (lift_res (ParseMAC newMacAddr))) (\<lambda>addr.
     bind_io (get_link N ifName) (\<lambda>link. nl_LinkSetHardwareAddr N link addr))"

definition changePromisc :: "'w netlink \<Rightarrow> string \<Rightarrow> bool \<Rightarrow> ('w, unit) io" where
  "changePromisc N ifName val =
     bind_io (get_link N ifName) (\<lambda>link. if val then nl_SetPromiscOn N link else nl_SetPromiscOff N link)"

definition changeMtu :: "'w netlink \<Rightarrow> string \<Rightarrow> int \<Rightarrow> ('w, unit) io" where
  "changeMtu N ifName mtu = bind_io (get_link N ifName) (\<lambda>link. nl_LinkSetMTU N link mtu)"

text \<open>
  The interfaces of the converted result are those of \<open>PrevResult\<close> itself (a result of version 0.2.0, which the
  conversion copies, has none), so the change is seen in \<open>PrevResult\<close>. The error of the conversion is dropped, and
  its result is then nil. \<open>ParsePrevResult\<close> does nothing here: the raw result was parsed before.
\<close>

definition updateResultsMacAddr :: "'w cni_lib \<Rightarrow> cni_result option \<Rightarrow> string \<Rightarrow> string \<Rightarrow> cni_result option res" where
  "updateResultsMacAddr L prev ifName newMacAddr =
     (case prev of
        None \<Rightarrow> Inr None
      | Some p \<Rightarrow>
          (case NewResultFromResult L p of
             Inl _ \<Rightarrow> Inl nil_deref
           | Inr _ \<Rightarrow> Inr (Some (p\<lparr>Interfaces := map (\<lambda>i. if Name i = ifName then i\<lparr>Mac := newMacAddr\<rparr> else i) (Interfaces p)\<rparr>))))"

section \<open>The backup\<close>

text \<open>\<open>path.Join\<close> of a directory that is not empty and the name of the file.\<close>

definition backup_path :: "string \<Rightarrow> string \<Rightarrow> string \<Rightarrow> string" where
  "backup_path backupPath containerID ifName = path_Clean (backupPath @ ''/'' @ containerID @ ''_'' @ ifName @ ''.json'')"

definition backup_of :: "tuning_conf \<Rightarrow> link \<Rightarrow> configToRestore" where
  "backup_of conf link = \<lparr>
     cr_Mac = (if tc_Mac conf \<noteq> '''' then mac_string (lk_HardwareAddr link) else ''''),
     cr_Promisc = (if tc_Promisc conf then Some (lk_Promisc link \<noteq> 0) else None),
     cr_Mtu = (if tc_Mtu conf \<noteq> 0 then lk_MTU link else 0)\<rparr>"

definition createBackup :: "'w tuning_env \<Rightarrow> string \<Rightarrow> string \<Rightarrow> string \<Rightarrow> tuning_conf \<Rightarrow> ('w, unit) io" where
  "createBackup E ifName containerID backupPath conf =
     bind_io (get_link (te_netlink E) ifName) (\<lambda>link.
     bind_io (attempt (te_Stat E backupPath) (\<lambda>r.
       if r = Inl ErrNotExist then wrap_io ''failed to create backup directory'' (te_MkdirAll E backupPath) else ret ())) (\<lambda>_.
     bind_io (wrap_io (''failed to marshall data for '' @ ifName) (lift_res (te_Marshal E (backup_of conf link)))) (\<lambda>data.
     wrap_io (''failed to save file '' @ ifName @ ''.json'')
       (WriteFile (nl_files (te_netlink E)) (backup_path backupPath containerID ifName) data))))"

text \<open>One attribute is put back; an error is recorded and the others are still put back.\<close>

definition restore_one :: "string \<Rightarrow> bool \<Rightarrow> ('w, unit) io \<Rightarrow> ('w, error list) io" where
  "restore_one msg wanted m =
     (if wanted then attempt m (\<lambda>r. case r of Inl e \<Rightarrow> ret [Wrap msg e] | Inr _ \<Rightarrow> ret []) else ret [])"

text \<open>\<open>err.Error()\<close>; the texts of the errors of the environment are those of their class.\<close>

fun error_text :: "error \<Rightarrow> string" where
  "error_text (Errorf m) = m"
| "error_text (Wrap m e) = m @ '': '' @ error_text e"
| "error_text ErrNotExist = ''file does not exist''"
| "error_text ErrExist = ''file already exists''"
| "error_text ErrLinkNotFound = ''Link not found''"
| "error_text (IptablesError n b) = ''exit status '' @ utoa n"
| "error_text (EnvError n) = ''errno '' @ utoa n"
| "error_text (Panic m) = m"

definition join_errors :: "error list \<Rightarrow> error" where
  "join_errors es = Errorf (join ''; '' (map error_text es))"

definition restoreBackup :: "'w tuning_env \<Rightarrow> string \<Rightarrow> string \<Rightarrow> string \<Rightarrow> ('w, unit) io" where
  "restoreBackup E ifName containerID backupPath =
     (let N = te_netlink E; filePath = backup_path backupPath containerID ifName
      in attempt (te_Stat E filePath) (\<lambda>r.
         if r = Inl ErrNotExist then ret ()
         else bind_io (wrap_io (''failed to open file '' @ filePath) (ReadFile (nl_files N) filePath)) (\<lambda>file.
         case te_Unmarshal E file of
           Inl _ \<Rightarrow> ret ()
         | Inr config \<Rightarrow>
             attempt (nl_LinkByName N ifName) (\<lambda>r.
             case r of
               Inl _ \<Rightarrow> ret ()
             | Inr _ \<Rightarrow>
                 bind_io (restore_one ''failed to restore MTU'' (cr_Mtu config \<noteq> 0) (changeMtu N ifName (cr_Mtu config))) (\<lambda>e1.
                 bind_io (restore_one ''failed to restore MAC address'' (cr_Mac config \<noteq> '''') (changeMacAddr N ifName (cr_Mac config))) (\<lambda>e2.
                 bind_io (restore_one ''failed to restore promiscuous mode'' (cr_Promisc config \<noteq> None)
                     (changePromisc N ifName (the (cr_Promisc config)))) (\<lambda>e3.
                 if e1 @ e2 @ e3 \<noteq> [] then fail (join_errors (e1 @ e2 @ e3))
                 else wrap_io (''failed to remove file '' @ filePath) (te_Remove E filePath))))))))"

section \<open>The commands\<close>

text \<open>\<open>filepath.Clean(filepath.Join("/proc/sys", strings.Replace(key, ".", "/", -1)))\<close>\<close>

definition tuning_sysctl_file :: "string \<Rightarrow> string" where
  "tuning_sysctl_file key = path_Clean (path_Join ''/proc/sys'' (map (\<lambda>c. if c = CHR ''.'' then CHR ''/'' else c) key))"

definition set_net_sysctl :: "'w files \<Rightarrow> string \<times> string \<Rightarrow> ('w, unit) io" where
  "set_net_sysctl F kv =
     (if \<not> has_prefix (tuning_sysctl_file (fst kv)) ''/proc/sys/net/''
      then fail (Errorf (''invalid net sysctl key: '' @ fst kv))
      else WriteFile F (tuning_sysctl_file (fst kv)) (snd kv))"

definition sysctl_entries :: "'w tuning_env \<Rightarrow> tuning_conf \<Rightarrow> (string \<times> string) list" where
  "sysctl_entries E conf = (case tc_SysCtl conf of None \<Rightarrow> [] | Some kv \<Rightarrow> te_range E kv)"

text \<open>The part of \<open>cmdAdd\<close> that changes the link; it returns \<open>PrevResult\<close> as it is afterwards.\<close>

definition announce_v4 :: "'w netlink \<Rightarrow> string \<Rightarrow> ipconfig \<Rightarrow> ('w, unit) io" where
  "announce_v4 N ifName ipc =
     (if Version ipc = ''4'' then attempt (nl_GratuitousArp N (net_ip (Address ipc)) ifName) (\<lambda>_. ret ()) else ret ())"

definition tune_mac :: "'w tuning_env \<Rightarrow> tuning_conf \<Rightarrow> cni_result \<Rightarrow> string \<Rightarrow> ('w, cni_result option) io" where
  "tune_mac E conf result ifName =
     (if tc_Mac conf \<noteq> '''' then
        bind_io (changeMacAddr (te_netlink E) ifName (tc_Mac conf)) (\<lambda>_.
        bind_io (each_io (announce_v4 (te_netlink E) ifName) (IPs result)) (\<lambda>_.
        lift_res (updateResultsMacAddr (te_lib E) (PrevResult conf) ifName (tc_Mac conf))))
      else ret (PrevResult conf))"

definition tune_link :: "'w tuning_env \<Rightarrow> tuning_conf \<Rightarrow> cni_result \<Rightarrow> cmd_args \<Rightarrow> ('w, cni_result option) io" where
  "tune_link E conf result args =
     bind_io (if tc_Mac conf \<noteq> '''' \<or> tc_Mtu conf \<noteq> 0 \<or> tc_Promisc conf
              then createBackup E (IfName args) (ContainerID args) (tc_DataDir conf) conf else ret ()) (\<lambda>_.
     bind_io (tune_mac E conf result (IfName args)) (\<lambda>prev.
     bind_io (if tc_Promisc conf then changePromisc (te_netlink E) (IfName args) True else ret ()) (\<lambda>_.
     bind_io (if tc_Mtu conf \<noteq> 0 then changeMtu (te_netlink E) (IfName args) (tc_Mtu conf) else ret ()) (\<lambda>_.
     ret prev))))"

definition tune_inside :: "'w tuning_env \<Rightarrow> tuning_conf \<Rightarrow> cni_result \<Rightarrow> cmd_args \<Rightarrow> ('w, cni_result option) io" where
  "tune_inside E conf result args =
     bind_io (each_io (set_net_sysctl (nl_files (te_netlink E))) (sysctl_entries E conf)) (\<lambda>_.
     tune_link E conf result args)"

text \<open>The configuration with its previous result, which \<open>cmdAdd\<close> and \<open>cmdCheck\<close> require.\<close>

definition tuning_with_prev :: "'w tuning_env \<Rightarrow> cmd_args \<Rightarrow> (tuning_conf \<times> cni_result) res" where
  "tuning_with_prev E args =
     bind_res (tuning_parseConf E (StdinData args) (CniArgs args)) (\<lambda>conf.
       case RawPrevResult conf of
         None \<Rightarrow> Inl (Errorf ''Required prevResult missing'')
       | Some raw \<Rightarrow>
           bind_res (ParsePrevResult (te_lib E) (ConfVersion conf) raw) (\<lambda>prev.
           bind_res (NewResultFromResult (te_lib E) prev) (\<lambda>result.
           Inr (conf\<lparr>RawPrevResult := None, PrevResult := Some prev\<rparr>, result))))"

definition tuning_cmdAdd :: "'w tuning_env \<Rightarrow> cmd_args \<Rightarrow> ('w, unit) io" where
  "tuning_cmdAdd E args =
     bind_io (lift_res (tuning_with_prev E args)) (\<lambda>(conf, result).
     bind_io (WithNetNSPath (nl_os (te_netlink E)) (Netns args) (\<lambda>_. tune_inside E conf result args)) (\<lambda>prev.
     case prev of None \<Rightarrow> fail nil_deref | Some p \<Rightarrow> PrintResult (te_lib E) p (ConfVersion conf)))"

text \<open>DEL drops the error of \<open>WithNetNSPath\<close>, and with it those of \<open>restoreBackup\<close>.\<close>

definition tuning_cmdDel :: "'w tuning_env \<Rightarrow> cmd_args \<Rightarrow> ('w, unit) io" where
  "tuning_cmdDel E args =
     bind_io (lift_res (tuning_parseConf E (StdinData args) (CniArgs args))) (\<lambda>conf.
     attempt (WithNetNSPath (nl_os (te_netlink E)) (Netns args)
         (\<lambda>_. restoreBackup E (IfName args) (ContainerID args) (tc_DataDir conf))) (\<lambda>_. ret ()))"

definition check_net_sysctl :: "'w files \<Rightarrow> string \<times> string \<Rightarrow> ('w, unit) io" where
  "check_net_sysctl F kv =
     bind_io (ReadFile F (tuning_sysctl_file (fst kv))) (\<lambda>contents.
       let curValue = (if has_suffix contents [CHR 0x0A] then butlast contents else contents)
       in if snd kv \<noteq> curValue then fail (Errorf (''Error: Tuning configured value of '' @ tuning_sysctl_file (fst kv))) else ret ())"

definition check_link :: "'w netlink \<Rightarrow> tuning_conf \<Rightarrow> string \<Rightarrow> ('w, unit) io" where
  "check_link N conf ifName =
     attempt (nl_LinkByName N ifName) (\<lambda>r.
       case r of
         Inl _ \<Rightarrow> fail (Errorf (''Cannot find container link '' @ ifName))
       | Inr link \<Rightarrow>
           if tc_Mac conf \<noteq> '''' \<and> tc_Mac conf \<noteq> mac_string (lk_HardwareAddr link)
           then fail (Errorf (''Error: Tuning configured Ethernet of '' @ ifName))
           else if tc_Promisc conf \<noteq> (lk_Promisc link \<noteq> 0)
           then fail (Errorf (''Error: Tuning link '' @ ifName @ '' configured promisc''))
           else if tc_Mtu conf \<noteq> 0 \<and> tc_Mtu conf \<noteq> lk_MTU link
           then fail (Errorf (''Error: Tuning configured MTU of '' @ ifName))
           else ret ())"

definition tuning_cmdCheck :: "'w tuning_env \<Rightarrow> cmd_args \<Rightarrow> ('w, unit) io" where
  "tuning_cmdCheck E args =
     bind_io (lift_res (tuning_with_prev E args)) (\<lambda>(conf, _).
     WithNetNSPath (nl_os (te_netlink E)) (Netns args) (\<lambda>_.
       bind_io (each_io (check_net_sysctl (nl_files (te_netlink E))) (sysctl_entries E conf)) (\<lambda>_.
       check_link (te_netlink E) conf (IfName args))))"

end
