(* ===== verification/Tuning_Props.thy ===== *)
theory Tuning_Props
  imports Tuning Ipam_Iface
begin

text \<open>DEL of \<open>tuning\<close> puts back what ADD changed; what CHECK says after ADD; the files ADD may write.\<close>

section \<open>The kernel and the files\<close>

text \<open>
  \<open>attrs w n\<close> is the link of that name in the namespace of the running thread, \<open>files w p\<close> the contents of a file. A
  call that sets an attribute touches no file, and when it succeeds it changes the link to \<open>l'\<close>; it succeeds when
  \<open>ok\<close> holds.
\<close>

definition sets :: "('w \<Rightarrow> string \<Rightarrow> link option) \<Rightarrow> ('w \<Rightarrow> string \<Rightarrow> string option) \<Rightarrow> bool \<Rightarrow> string \<Rightarrow> link \<Rightarrow> ('w, unit) io \<Rightarrow> 'w \<Rightarrow> bool" where
  "sets attrs files ok n l' m w \<longleftrightarrow>
     (\<exists>r w'. m w = (r, w') \<and> files w' = files w \<and> (r = Inr () \<longrightarrow> attrs w' = (attrs w)(n \<mapsto> l')) \<and> (ok \<longrightarrow> r = Inr ()))"

text \<open>A call that reads.\<close>

definition reads :: "('w \<Rightarrow> string \<Rightarrow> link option) \<Rightarrow> ('w \<Rightarrow> string \<Rightarrow> string option) \<Rightarrow> 'a res \<Rightarrow> ('w, 'a) io \<Rightarrow> 'w \<Rightarrow> bool" where
  "reads attrs files r m w \<longleftrightarrow> (\<exists>w'. m w = (r, w') \<and> attrs w' = attrs w \<and> files w' = files w)"

text \<open>The kernel on a link that is there: it takes the sizes and addresses of \<open>mtu_ok\<close> and \<open>mac_ok\<close>.\<close>

definition link_store :: "'w netlink \<Rightarrow> ('w \<Rightarrow> string \<Rightarrow> link option) \<Rightarrow> ('w \<Rightarrow> string \<Rightarrow> string option) \<Rightarrow> (int \<Rightarrow> bool) \<Rightarrow> (byte list \<Rightarrow> bool) \<Rightarrow> bool" where
  "link_store N attrs files mtu_ok mac_ok \<longleftrightarrow>
     (\<forall>w n l. attrs w n = Some l \<longrightarrow>
        reads attrs files (Inr l) (nl_LinkByName N n) w
      \<and> (\<forall>m. sets attrs files (mtu_ok m) n (l\<lparr>lk_MTU := m\<rparr>) (nl_LinkSetMTU N l m) w)
      \<and> (\<forall>a. sets attrs files (mac_ok a) n (l\<lparr>lk_HardwareAddr := a\<rparr>) (nl_LinkSetHardwareAddr N l a) w)
      \<and> sets attrs files True n (l\<lparr>lk_Promisc := 1\<rparr>) (nl_SetPromiscOn N l) w
      \<and> sets attrs files True n (l\<lparr>lk_Promisc := 0\<rparr>) (nl_SetPromiscOff N l) w)
   \<and> (\<forall>w n l w'. nl_LinkByName N n w = (Inr l, w') \<longrightarrow> attrs w n = Some l)
   \<and> (\<forall>w a n. \<exists>r. reads attrs files r (nl_GratuitousArp N a n) w)"

text \<open>The files: one that is there can be read and removed; writing changes no other.\<close>

definition file_store :: "'w tuning_env \<Rightarrow> ('w \<Rightarrow> string \<Rightarrow> link option) \<Rightarrow> ('w \<Rightarrow> string \<Rightarrow> string option) \<Rightarrow> bool" where
  "file_store E attrs files \<longleftrightarrow>
     (\<forall>w p. \<exists>r. reads attrs files r (te_Stat E p) w \<and> (files w p \<noteq> None \<longrightarrow> r = Inr ()))
   \<and> (\<forall>w p s. files w p = Some s \<longrightarrow> reads attrs files (Inr s) (ReadFile (nl_files (te_netlink E)) p) w)
   \<and> (\<forall>w p s. files w p = Some s \<longrightarrow>
        (\<exists>w'. te_Remove E p w = (Inr (), w') \<and> attrs w' = attrs w \<and> files w' = (files w)(p := None)))
   \<and> (\<forall>w p. attrs (snd (te_MkdirAll E p w)) = attrs w)
   \<and> (\<forall>w p s w'. WriteFile (nl_files (te_netlink E)) p s w = (Inr (), w') \<longrightarrow> attrs w' = attrs w \<and> files w' = (files w)(p \<mapsto> s))"

text \<open>The file reads back as it was written (\<open>encoding/json\<close>).\<close>

definition backup_codec :: "'w tuning_env \<Rightarrow> bool" where
  "backup_codec E \<longleftrightarrow> (\<forall>c s. te_Marshal E c = Inr s \<longrightarrow> te_Unmarshal E s = Inr c)"

lemma link_storeD:
  assumes "link_store N attrs files mtu_ok mac_ok"
  shows "attrs w n = Some l \<Longrightarrow> reads attrs files (Inr l) (nl_LinkByName N n) w"
    "attrs w n = Some l \<Longrightarrow> sets attrs files (mtu_ok m) n (l\<lparr>lk_MTU := m\<rparr>) (nl_LinkSetMTU N l m) w"
    "attrs w n = Some l \<Longrightarrow> sets attrs files (mac_ok a) n (l\<lparr>lk_HardwareAddr := a\<rparr>) (nl_LinkSetHardwareAddr N l a) w"
    "attrs w n = Some l \<Longrightarrow> sets attrs files True n (l\<lparr>lk_Promisc := 1\<rparr>) (nl_SetPromiscOn N l) w"
    "attrs w n = Some l \<Longrightarrow> sets attrs files True n (l\<lparr>lk_Promisc := 0\<rparr>) (nl_SetPromiscOff N l) w"
    "nl_LinkByName N n w = (Inr l, w') \<Longrightarrow> attrs w n = Some l"
    "\<exists>r. reads attrs files r (nl_GratuitousArp N b n) w"
  using assms unfolding link_store_def by blast+

lemma file_storeD:
  assumes "file_store E attrs files"
  shows "\<exists>r. reads attrs files r (te_Stat E p) w \<and> (files w p \<noteq> None \<longrightarrow> r = Inr ())"
    "files w p = Some s \<Longrightarrow> reads attrs files (Inr s) (ReadFile (nl_files (te_netlink E)) p) w"
    "files w p = Some s \<Longrightarrow> \<exists>w'. te_Remove E p w = (Inr (), w') \<and> attrs w' = attrs w \<and> files w' = (files w)(p := None)"
    "attrs (snd (te_MkdirAll E p w)) = attrs w"
    "WriteFile (nl_files (te_netlink E)) p s w = (Inr (), w') \<Longrightarrow> attrs w' = attrs w \<and> files w' = (files w)(p \<mapsto> s)"
  using assms unfolding file_store_def by blast+

section \<open>Setting one attribute\<close>

lemma sets_bind:
  assumes "reads attrs files (Inr l) m w" "\<And>w'. attrs w' = attrs w \<Longrightarrow> files w' = files w \<Longrightarrow> sets attrs files ok n l' (f l) w'"
  shows "sets attrs files ok n l' (bind_io m f) w"
proof -
  obtain w1 where w1: "m w = (Inr l, w1)" "attrs w1 = attrs w" "files w1 = files w" using assms(1) by (auto simp: reads_def)
  have "bind_io m f w = f l w1" by (rule bind_io_ok) (rule w1(1))
  with assms(2) [OF w1(2,3)] show ?thesis by (simp add: sets_def w1(2,3))
qed

lemma reads_get_link:
  "link_store N attrs files mtu_ok mac_ok \<Longrightarrow> attrs w n = Some l \<Longrightarrow> reads attrs files (Inr l) (get_link N n) w"
  by (drule (1) link_storeD(1)) (auto simp: reads_def get_link_def wrap_io_def)

lemma sets_changeMtu:
  assumes "link_store N attrs files mtu_ok mac_ok" "attrs w n = Some l"
  shows "sets attrs files (mtu_ok m) n (l\<lparr>lk_MTU := m\<rparr>) (changeMtu N n m) w"
  unfolding changeMtu_def
  by (rule sets_bind [OF reads_get_link [OF assms]]) (rule link_storeD(2) [OF assms(1)], simp add: assms(2))

lemma sets_changePromisc:
  assumes "link_store N attrs files mtu_ok mac_ok" "attrs w n = Some l"
  shows "sets attrs files True n (l\<lparr>lk_Promisc := (if val then 1 else 0)\<rparr>) (changePromisc N n val) w"
  unfolding changePromisc_def
  by (rule sets_bind [OF reads_get_link [OF assms]]) (use link_storeD(4,5) [OF assms(1)] assms(2) in \<open>cases val; simp\<close>)

lemma sets_changeMacAddr:
  assumes "link_store N attrs files mtu_ok mac_ok" "attrs w n = Some l" "ParseMAC s = Inr a"
  shows "sets attrs files (mac_ok a) n (l\<lparr>lk_HardwareAddr := a\<rparr>) (changeMacAddr N n s) w"
proof -
  have "changeMacAddr N n s = bind_io (get_link N n) (\<lambda>link. nl_LinkSetHardwareAddr N link a)"
    by (rule ext) (simp add: changeMacAddr_def assms(3) lift_res_def bind_io_def wrap_io_def ret_def)
  moreover have "sets attrs files (mac_ok a) n (l\<lparr>lk_HardwareAddr := a\<rparr>) (bind_io (get_link N n) (\<lambda>link. nl_LinkSetHardwareAddr N link a)) w"
    by (rule sets_bind [OF reads_get_link [OF assms(1,2)]]) (rule link_storeD(3) [OF assms(1)], simp add: assms(2))
  ultimately show ?thesis by simp
qed

lemma changeMacAddr_bad: "ParseMAC s = Inl e \<Longrightarrow> \<exists>e'. changeMacAddr N n s w = (Inl e', w)"
  by (simp add: changeMacAddr_def lift_res_def bind_io_def wrap_io_def fail_def)

text \<open>One attribute is put back without an error.\<close>

lemma restore_one_sets:
  assumes "wanted \<Longrightarrow> sets attrs files True n l' m w" "attrs w n = Some l"
  shows "\<exists>w'. restore_one msg wanted m w = (Inr [], w') \<and> files w' = files w
    \<and> attrs w' = (attrs w)(n \<mapsto> (if wanted then l' else l))"
proof (cases wanted)
  case True
  with assms(1) obtain w' where "m w = (Inr (), w')" "files w' = files w" "attrs w' = (attrs w)(n \<mapsto> l')" by (auto simp: sets_def)
  then show ?thesis using True by (simp add: restore_one_def attempt_def ret_def)
next
  case False
  then show ?thesis using assms(2) by (simp add: restore_one_def ret_def fun_upd_idem)
qed

section \<open>The attributes as one interface\<close>

text \<open>
  What \<open>restoreBackup\<close> asks of each of the three operations: on a link that is there, an accepted value is set and
  nothing else is changed.
\<close>

locale link_attribute =
  fixes change :: "'w netlink \<Rightarrow> string \<Rightarrow> 'v \<Rightarrow> ('w, unit) io"
    and upd :: "'v \<Rightarrow> link \<Rightarrow> link"
    and accepted :: "(int \<Rightarrow> bool) \<Rightarrow> (byte list \<Rightarrow> bool) \<Rightarrow> 'v \<Rightarrow> bool"
  assumes change_sets: "link_store N attrs files mtu_ok mac_ok \<Longrightarrow> attrs w n = Some l \<Longrightarrow> accepted mtu_ok mac_ok v
    \<Longrightarrow> sets attrs files True n (upd v l) (change N n v) w"
begin

lemma puts_back:
  assumes "link_store N attrs files mtu_ok mac_ok" "attrs w n = Some l" "wanted \<Longrightarrow> accepted mtu_ok mac_ok v"
  shows "\<exists>w'. restore_one msg wanted (change N n v) w = (Inr [], w') \<and> files w' = files w
    \<and> attrs w' = (attrs w)(n \<mapsto> (if wanted then upd v l else l))"
  by (rule restore_one_sets) (use change_sets [OF assms(1,2)] assms(2,3) in blast)+

end

interpretation mtu: link_attribute changeMtu "\<lambda>m l. l\<lparr>lk_MTU := m\<rparr>" "\<lambda>mtu_ok mac_ok. mtu_ok"
  by unfold_locales (use sets_changeMtu in \<open>force simp: sets_def\<close>)

interpretation promisc: link_attribute changePromisc "\<lambda>b l. l\<lparr>lk_Promisc := (if b then 1 else 0)\<rparr>" "\<lambda>mtu_ok mac_ok b. True"
  by unfold_locales (rule sets_changePromisc)

interpretation mac: link_attribute "\<lambda>N n a. changeMacAddr N n (mac_string a)" "\<lambda>a l. l\<lparr>lk_HardwareAddr := a\<rparr>"
  "\<lambda>mtu_ok mac_ok a. mac_length (length a) \<and> mac_ok a"
  by unfold_locales (use sets_changeMacAddr [OF _ _ ParseMAC_string] in \<open>force simp: sets_def\<close>)

section \<open>DEL after ADD\<close>

text \<open>The link \<open>l2\<close> with the attributes that the configuration changes as they were in \<open>l\<close>.\<close>

definition restored_link :: "tuning_conf \<Rightarrow> link \<Rightarrow> link \<Rightarrow> link" where
  "restored_link conf l l2 = l2\<lparr>
     lk_MTU := (if tc_Mtu conf \<noteq> 0 \<and> lk_MTU l \<noteq> 0 then lk_MTU l else lk_MTU l2),
     lk_HardwareAddr := (if tc_Mac conf \<noteq> '''' then lk_HardwareAddr l else lk_HardwareAddr l2),
     lk_Promisc := (if tc_Promisc conf then (if lk_Promisc l \<noteq> 0 then 1 else 0) else lk_Promisc l2)\<rparr>"

lemma mac_string_nonempty: "mac_length (length hw) \<Longrightarrow> mac_string hw \<noteq> ''''"
  using length_mac_string [of hw] by (cases hw) (auto simp: mac_length_def)

lemma link_id [simp]: "(l :: link)\<lparr>lk_MTU := lk_MTU l\<rparr> = l" "l\<lparr>lk_HardwareAddr := lk_HardwareAddr l\<rparr> = l" "l\<lparr>lk_Promisc := lk_Promisc l\<rparr> = l"
  by simp_all

text \<open>\<open>restoreBackup\<close> with the file that was saved for the link \<open>l\<close>.\<close>

lemma restoreBackup_run:
  assumes K: "link_store (te_netlink E) attrs files mtu_ok mac_ok" and F: "file_store E attrs files"
    and l: "mac_length (length (lk_HardwareAddr l))" "mtu_ok (lk_MTU l)" "mac_ok (lk_HardwareAddr l)"
    and s: "files w (backup_path dir cid n) = Some s" "te_Unmarshal E s = Inr (backup_of conf l)"
    and l2: "attrs w n = Some l2"
  shows "\<exists>w3. restoreBackup E n cid dir w = (Inr (), w3) \<and> attrs w3 = (attrs w)(n \<mapsto> restored_link conf l l2)
    \<and> files w3 = (files w)(backup_path dir cid n := None)"
proof -
  let ?N = "te_netlink E" and ?p = "backup_path dir cid n" and ?c = "backup_of conf l"
  obtain wa where wa: "te_Stat E ?p w = (Inr (), wa)" "attrs wa = attrs w" "files wa = files w"
    using file_storeD(1) [OF F, of ?p w] s(1) by (auto simp: reads_def)
  obtain wb where wb: "ReadFile (nl_files ?N) ?p wa = (Inr s, wb)" "attrs wb = attrs w" "files wb = files w"
    using file_storeD(2) [OF F, of wa ?p s] wa s(1) by (auto simp: reads_def)
  obtain wc where wc: "nl_LinkByName ?N n wb = (Inr l2, wc)" "attrs wc = attrs w" "files wc = files w"
    using link_storeD(1) [OF K, of wb n l2] wb l2 by (auto simp: reads_def)
  let ?l3 = "if cr_Mtu ?c \<noteq> 0 then l2\<lparr>lk_MTU := cr_Mtu ?c\<rparr> else l2"
  have acc: "mtu_ok (cr_Mtu ?c)" if "cr_Mtu ?c \<noteq> 0" using that l(2) by (simp add: backup_of_def split: if_splits)
  obtain wd where wd: "restore_one ''failed to restore MTU'' (cr_Mtu ?c \<noteq> 0) (changeMtu ?N n (cr_Mtu ?c)) wc = (Inr [], wd)"
    "files wd = files w" "attrs wd = (attrs w)(n \<mapsto> ?l3)"
    using mtu.puts_back [OF K, where w = wc and l = l2 and n = n and v = "cr_Mtu ?c" and wanted = "cr_Mtu ?c \<noteq> 0"
        and msg = "''failed to restore MTU''"] acc wc l2 by auto
  let ?l4 = "if cr_Mac ?c \<noteq> '''' then ?l3\<lparr>lk_HardwareAddr := lk_HardwareAddr l\<rparr> else ?l3"
  have macstr: "cr_Mac ?c \<noteq> '''' \<Longrightarrow> cr_Mac ?c = mac_string (lk_HardwareAddr l)" by (simp add: backup_of_def split: if_splits)
  obtain we where we: "restore_one ''failed to restore MAC address'' (cr_Mac ?c \<noteq> '''') (changeMacAddr ?N n (cr_Mac ?c)) wd = (Inr [], we)"
    "files we = files w" "attrs we = (attrs w)(n \<mapsto> ?l4)"
    using mac.puts_back [OF K, where w = wd and l = ?l3 and n = n and v = "lk_HardwareAddr l" and wanted = "cr_Mac ?c \<noteq> ''''"
        and msg = "''failed to restore MAC address''"] macstr l(1,3) wd by (cases "cr_Mac ?c = ''''") (auto simp: restore_one_def)
  let ?l5 = "if cr_Promisc ?c \<noteq> None then ?l4\<lparr>lk_Promisc := (if the (cr_Promisc ?c) then 1 else 0)\<rparr> else ?l4"
  obtain wf where wf: "restore_one ''failed to restore promiscuous mode'' (cr_Promisc ?c \<noteq> None) (changePromisc ?N n (the (cr_Promisc ?c))) we = (Inr [], wf)"
    "files wf = files w" "attrs wf = (attrs w)(n \<mapsto> ?l5)"
    using promisc.puts_back [OF K, where w = we and l = ?l4 and n = n and v = "the (cr_Promisc ?c)" and wanted = "cr_Promisc ?c \<noteq> None"
        and msg = "''failed to restore promiscuous mode''"] we by force
  obtain wg where wg: "te_Remove E ?p wf = (Inr (), wg)" "attrs wg = (attrs w)(n \<mapsto> ?l5)" "files wg = (files w)(?p := None)"
    using file_storeD(3) [OF F, of wf ?p s] wf s(1) by auto
  have "restoreBackup E n cid dir w = (Inr (), wg)"
    by (simp add: restoreBackup_def Let_def attempt_def bind_io_def wrap_io_def wa(1) wb(1) s(2) wc(1) wd(1) we(1) wf(1) wg(1) del: not_None_eq)
  moreover have "?l5 = restored_link conf l l2"
    using mac_string_nonempty [OF l(1)] by (cases l2) (simp add: restored_link_def backup_of_def)
  ultimately show ?thesis using wg(2,3) by auto
qed

text \<open>\<open>createBackup\<close> saves the attributes of the link and changes none.\<close>

lemma createBackup_saves:
  assumes K: "link_store (te_netlink E) attrs files mtu_ok mac_ok" and F: "file_store E attrs files"
    and ok: "createBackup E n cid dir conf w = (Inr (), w1)" and l: "attrs w n = Some l"
  shows "\<exists>s. te_Marshal E (backup_of conf l) = Inr s \<and> files w1 (backup_path dir cid n) = Some s \<and> attrs w1 = attrs w"
proof -
  obtain wa where wa: "get_link (te_netlink E) n w = (Inr l, wa)" "attrs wa = attrs w"
    using reads_get_link [OF K l] by (auto simp: reads_def)
  from ok [unfolded createBackup_def] wa(1) obtain wb wc s where
    wb: "attempt (te_Stat E dir) (\<lambda>r. if r = Inl ErrNotExist then wrap_io ''failed to create backup directory'' (te_MkdirAll E dir)
        else ret ()) wa = (Inr (), wb)"
    and s: "wrap_io (''failed to marshall data for '' @ n) (lift_res (te_Marshal E (backup_of conf l))) wb = (Inr s, wc)"
    and wr: "wrap_io (''failed to save file '' @ n @ ''.json'') (WriteFile (nl_files (te_netlink E)) (backup_path dir cid n) s) wc = (Inr (), w1)"
    by (auto elim!: bind_io_InrE)
  have "attrs wb = attrs wa"
  proof -
    obtain r wx where st: "te_Stat E dir wa = (r, wx)" "attrs wx = attrs wa"
      using file_storeD(1) [OF F, of dir wa] by (auto simp: reads_def)
    then show ?thesis using wb file_storeD(4) [OF F, of dir wx]
      by (auto simp: attempt_def wrap_io_def ret_def split: sum.splits prod.splits if_splits)
  qed
  moreover from wrap_io_InrE [OF s] have "te_Marshal E (backup_of conf l) = Inr s" "wc = wb"
    by (auto simp: lift_res_def ret_def fail_def split: sum.splits)
  ultimately show ?thesis using file_storeD(5) [OF F wrap_io_InrE [OF wr]] wa(2) by simp
qed

text \<open>What follows the backup touches no file.\<close>

definition keeps :: "('w \<Rightarrow> string \<Rightarrow> link option) \<Rightarrow> ('w \<Rightarrow> string \<Rightarrow> string option) \<Rightarrow> string \<Rightarrow> ('w, 'a) io \<Rightarrow> bool" where
  "keeps attrs files n m \<longleftrightarrow> (\<forall>w. attrs w n \<noteq> None \<longrightarrow>
     files (snd (m w)) = files w \<and> (is_ok (fst (m w)) \<longrightarrow> attrs (snd (m w)) n \<noteq> None))"

named_theorems keeps_intros

lemma keeps_bind [keeps_intros]:
  assumes "keeps attrs files n m" "\<And>x. keeps attrs files n (f x)"
  shows "keeps attrs files n (bind_io m f)"
  unfolding keeps_def
proof (intro allI impI)
  fix w assume w: "attrs w n \<noteq> None"
  obtain r w' where m: "m w = (r, w')" by fastforce
  show "files (snd (bind_io m f w)) = files w \<and> (is_ok (fst (bind_io m f w)) \<longrightarrow> attrs (snd (bind_io m f w)) n \<noteq> None)"
    using assms(1) [unfolded keeps_def, rule_format, OF w] assms(2) [unfolded keeps_def]
    by (cases r) (simp_all add: bind_io_def m)
qed

lemma keeps_pure [keeps_intros]: "keeps attrs files n (ret x)" "keeps attrs files n (fail e)" "keeps attrs files n (lift_res r)"
  by (cases r; simp add: keeps_def ret_def fail_def lift_res_def)+

lemma keeps_if [keeps_intros]: "(b \<Longrightarrow> keeps attrs files n m) \<Longrightarrow> (\<not> b \<Longrightarrow> keeps attrs files n m') \<Longrightarrow> keeps attrs files n (if b then m else m')"
  by simp

lemma keeps_each [keeps_intros]: "(\<And>x. keeps attrs files n (f x)) \<Longrightarrow> keeps attrs files n (each_io f xs)"
  by (induction xs) (auto intro: keeps_intros)

lemma keeps_sets:
  assumes "\<And>w l. attrs w n = Some l \<Longrightarrow> \<exists>ok l'. sets attrs files ok n l' m w"
  shows "keeps attrs files n m"
  unfolding keeps_def
proof (intro allI impI)
  fix w assume "attrs w n \<noteq> None"
  then obtain l ok l' where "sets attrs files ok n l' m w" using assms by blast
  then show "files (snd (m w)) = files w \<and> (is_ok (fst (m w)) \<longrightarrow> attrs (snd (m w)) n \<noteq> None)"
    by (auto simp: sets_def is_ok_def split: sum.splits)
qed

lemma keeps_change:
  assumes "link_store N attrs files mtu_ok mac_ok"
  shows "keeps attrs files n (changeMtu N n m)" "keeps attrs files n (changePromisc N n b)" "keeps attrs files n (changeMacAddr N n s)"
proof -
  show "keeps attrs files n (changeMtu N n m)" "keeps attrs files n (changePromisc N n b)"
    using sets_changeMtu [OF assms] sets_changePromisc [OF assms] by (blast intro!: keeps_sets)+
  show "keeps attrs files n (changeMacAddr N n s)"
  proof (cases "ParseMAC s")
    case (Inl e)
    have "files (snd (changeMacAddr N n s w)) = files w \<and> \<not> is_ok (fst (changeMacAddr N n s w))" for w
      using changeMacAddr_bad [OF Inl, of N n w] by auto
    then show ?thesis by (simp add: keeps_def)
  next
    case (Inr a)
    then show ?thesis using sets_changeMacAddr [OF assms] by (blast intro!: keeps_sets)
  qed
qed

lemma keeps_announce:
  assumes "link_store N attrs files mtu_ok mac_ok"
  shows "keeps attrs files n (announce_v4 N n ipc)"
proof -
  have "\<exists>r'. reads attrs files r' (announce_v4 N n ipc) w" for w
    using link_storeD(7) [OF assms, of "net_ip (Address ipc)" n w]
    by (auto simp: announce_v4_def reads_def attempt_def ret_def split: sum.splits)
  then show ?thesis unfolding keeps_def reads_def by (metis snd_conv)
qed

lemma keeps_tune_mac: "link_store (te_netlink E) attrs files mtu_ok mac_ok \<Longrightarrow> keeps attrs files n (tune_mac E conf result n)"
  unfolding tune_mac_def by (intro keeps_intros keeps_change keeps_announce; assumption)

text \<open>
  C10: once ADD has saved the attributes, DEL puts them back: whether the rest of ADD succeeded or failed, and
  whatever was done to the link afterwards, as long as the file and the link are there \<open>restoreBackup\<close> succeeds, sets
  the configured attributes to the values from before ADD and no others, and removes the file.
\<close>

theorem tuning_restores:
  assumes "link_store (te_netlink E) attrs files mtu_ok mac_ok" "file_store E attrs files" "backup_codec E"
    and "attrs w (IfName args) = Some l" "mac_length (length (lk_HardwareAddr l))" "mtu_ok (lk_MTU l)" "mac_ok (lk_HardwareAddr l)"
    and "tc_Mac conf \<noteq> '''' \<or> tc_Mtu conf \<noteq> 0 \<or> tc_Promisc conf"
    and "createBackup E (IfName args) (ContainerID args) (tc_DataDir conf) conf w = (Inr (), w1)"
    and "files w2 (backup_path (tc_DataDir conf) (ContainerID args) (IfName args))
      = files (snd (tune_link E conf result args w)) (backup_path (tc_DataDir conf) (ContainerID args) (IfName args))"
    and "attrs w2 (IfName args) = Some l2"
  shows "\<exists>w3. restoreBackup E (IfName args) (ContainerID args) (tc_DataDir conf) w2 = (Inr (), w3)
    \<and> attrs w3 = (attrs w2)(IfName args \<mapsto> restored_link conf l l2)
    \<and> files w3 = (files w2)(backup_path (tc_DataDir conf) (ContainerID args) (IfName args) := None)"
proof -
  let ?p = "backup_path (tc_DataDir conf) (ContainerID args) (IfName args)"
  obtain s where s: "te_Marshal E (backup_of conf l) = Inr s" "files w1 ?p = Some s" "attrs w1 = attrs w"
    using createBackup_saves [OF assms(1,2,9,4)] by blast
  define rest where "rest = bind_io (tune_mac E conf result (IfName args)) (\<lambda>prev.
     bind_io (if tc_Promisc conf then changePromisc (te_netlink E) (IfName args) True else ret ()) (\<lambda>_.
     bind_io (if tc_Mtu conf \<noteq> 0 then changeMtu (te_netlink E) (IfName args) (tc_Mtu conf) else ret ()) (\<lambda>_. ret prev)))"
  have "keeps attrs files (IfName args) rest"
    unfolding rest_def by (intro keeps_intros keeps_change keeps_tune_mac assms(1); (rule assms(1))?)
  moreover have "tune_link E conf result args w = rest w1"
    unfolding tune_link_def rest_def using assms(8,9) by (subst bind_io_ok) auto
  ultimately have "files w2 ?p = Some s" using assms(4,10) s(2,3) by (simp add: keeps_def)
  moreover have "te_Unmarshal E s = Inr (backup_of conf l)" using assms(3) s(1) by (simp add: backup_codec_def)
  ultimately show ?thesis using restoreBackup_run [OF assms(1,2,5-7)] assms(11) by blast
qed

section \<open>CHECK after ADD\<close>

lemma announce_attrs:
  assumes "link_store N attrs files mtu_ok mac_ok"
  shows "attrs (snd (each_io (announce_v4 N n) ipcs w)) = attrs w"
proof (induction ipcs arbitrary: w)
  case (Cons ipc ipcs)
  have "\<exists>w1. announce_v4 N n ipc w = (Inr (), w1) \<and> attrs w1 = attrs w \<or> (\<exists>e. announce_v4 N n ipc w = (Inl e, w1) \<and> attrs w1 = attrs w)"
    using link_storeD(7) [OF assms, of "net_ip (Address ipc)" n w]
    by (auto simp: announce_v4_def reads_def attempt_def ret_def split: sum.splits)
  then show ?case using Cons.IH by (auto simp: bind_io_def)
qed (simp add: ret_def)

lemma sets_ok: "sets attrs files ok n l' m w \<Longrightarrow> m w = (Inr (), w') \<Longrightarrow> attrs w' n = Some l'"
  by (auto simp: sets_def)

lemma tune_mac_attrs:
  assumes K: "link_store (te_netlink E) attrs files mtu_ok mac_ok" and l: "attrs w n = Some l"
    and ok: "tune_mac E conf result n w = (Inr prev, w')"
  shows "if tc_Mac conf = '''' then attrs w' n = Some l
    else \<exists>a. ParseMAC (tc_Mac conf) = Inr a \<and> attrs w' n = Some (l\<lparr>lk_HardwareAddr := a\<rparr>)"
proof (cases "tc_Mac conf = ''''")
  case False
  with ok [unfolded tune_mac_def] obtain w1 w2 where w1: "changeMacAddr (te_netlink E) n (tc_Mac conf) w = (Inr (), w1)"
    and w2: "each_io (announce_v4 (te_netlink E) n) (IPs result) w1 = (Inr (), w2)"
    and "lift_res (updateResultsMacAddr (te_lib E) (PrevResult conf) n (tc_Mac conf)) w2 = (Inr prev, w')"
    by (auto elim!: bind_io_InrE)
  then have "w' = w2" by (auto simp: lift_res_def ret_def fail_def split: sum.splits)
  moreover have "attrs w2 = attrs w1" using announce_attrs [OF K, of n "IPs result" w1] w2 by simp
  moreover obtain a where a: "ParseMAC (tc_Mac conf) = Inr a"
    using w1 changeMacAddr_bad [of "tc_Mac conf" _ "te_netlink E" n w] by (cases "ParseMAC (tc_Mac conf)") auto
  moreover have "attrs w1 n = Some (l\<lparr>lk_HardwareAddr := a\<rparr>)"
    using sets_ok [OF sets_changeMacAddr [OF K l a] w1] .
  ultimately show ?thesis using False by simp
next
  case True
  then show ?thesis using ok l by (simp add: tune_mac_def ret_def)
qed

text \<open>The link after a successful ADD.\<close>

lemma tune_link_attrs:
  assumes K: "link_store (te_netlink E) attrs files mtu_ok mac_ok" and F: "file_store E attrs files"
    and l: "attrs w (IfName args) = Some l" and ok: "tune_link E conf result args w = (Inr prev, w')"
  shows "\<exists>l'. attrs w' (IfName args) = Some l'
    \<and> (tc_Mac conf \<noteq> '''' \<longrightarrow> ParseMAC (tc_Mac conf) = Inr (lk_HardwareAddr l'))
    \<and> lk_Promisc l' = (if tc_Promisc conf then 1 else lk_Promisc l)
    \<and> lk_MTU l' = (if tc_Mtu conf \<noteq> 0 then tc_Mtu conf else lk_MTU l)"
proof -
  let ?n = "IfName args" and ?N = "te_netlink E"
  from ok [unfolded tune_link_def] obtain w1 w2 w3 where
    w1: "(if tc_Mac conf \<noteq> '''' \<or> tc_Mtu conf \<noteq> 0 \<or> tc_Promisc conf
       then createBackup E ?n (ContainerID args) (tc_DataDir conf) conf else ret ()) w = (Inr (), w1)"
    and w2: "tune_mac E conf result ?n w1 = (Inr prev, w2)"
    and w3: "(if tc_Promisc conf then changePromisc ?N ?n True else ret ()) w2 = (Inr (), w3)"
    and w4: "(if tc_Mtu conf \<noteq> 0 then changeMtu ?N ?n (tc_Mtu conf) else ret ()) w3 = (Inr (), w')"
    by (auto elim!: bind_io_InrE simp: ret_def)
  have "attrs w1 = attrs w"
    using w1 createBackup_saves [OF K F _ l, of "ContainerID args" "tc_DataDir conf" conf w1] by (auto simp: ret_def split: if_splits)
  then have l1: "attrs w1 ?n = Some l" using l by simp
  obtain l2 where l2: "attrs w2 ?n = Some l2" "tc_Mac conf \<noteq> '''' \<longrightarrow> ParseMAC (tc_Mac conf) = Inr (lk_HardwareAddr l2)"
    "lk_Promisc l2 = lk_Promisc l" "lk_MTU l2 = lk_MTU l"
    using tune_mac_attrs [OF K l1 w2] by (fastforce split: if_splits)
  have l3: "attrs w3 ?n = Some (if tc_Promisc conf then l2\<lparr>lk_Promisc := 1\<rparr> else l2)"
    using w3 l2(1) sets_ok [OF sets_changePromisc [OF K l2(1), of True], of w3] by (simp add: ret_def split: if_splits)
  have "attrs w' ?n = Some (let l3 = (if tc_Promisc conf then l2\<lparr>lk_Promisc := 1\<rparr> else l2)
      in if tc_Mtu conf \<noteq> 0 then l3\<lparr>lk_MTU := tc_Mtu conf\<rparr> else l3)"
    using w4 l3 sets_ok [OF sets_changeMtu [OF K l3, of "tc_Mtu conf"], of w'] by (simp add: Let_def ret_def split: if_splits)
  then show ?thesis using l2 by (simp add: Let_def)
qed

text \<open>
  C29: CHECK right after a successful ADD accepts the link exactly when the configured address, if any, is written as
  the kernel prints it and the configuration asks for promiscuous mode wherever the link has it: CHECK compares texts,
  so an address with capital letters or with dashes, which ADD takes, is refused.
\<close>

theorem tuning_check_after_add:
  assumes "link_store (te_netlink E) attrs files mtu_ok mac_ok" "file_store E attrs files"
    and "attrs w (IfName args) = Some l" "tune_link E conf result args w = (Inr prev, w')"
  shows "fst (check_link (te_netlink E) conf (IfName args) w') = Inr () \<longleftrightarrow>
    (tc_Mac conf = '''' \<or> (\<exists>a. ParseMAC (tc_Mac conf) = Inr a \<and> tc_Mac conf = mac_string a)) \<and> (tc_Promisc conf \<or> lk_Promisc l = 0)"
proof -
  obtain l' where l': "attrs w' (IfName args) = Some l'"
    "tc_Mac conf \<noteq> '''' \<longrightarrow> ParseMAC (tc_Mac conf) = Inr (lk_HardwareAddr l')"
    "lk_Promisc l' = (if tc_Promisc conf then 1 else lk_Promisc l)"
    "lk_MTU l' = (if tc_Mtu conf \<noteq> 0 then tc_Mtu conf else lk_MTU l)"
    using tune_link_attrs [OF assms] by blast
  obtain w'' where w'': "nl_LinkByName (te_netlink E) (IfName args) w' = (Inr l', w'')"
    using link_storeD(1) [OF assms(1) l'(1)] by (auto simp: reads_def)
  have "fst (check_link (te_netlink E) conf (IfName args) w') = Inr () \<longleftrightarrow>
      \<not> (tc_Mac conf \<noteq> '''' \<and> tc_Mac conf \<noteq> mac_string (lk_HardwareAddr l')) \<and> tc_Promisc conf = (lk_Promisc l' \<noteq> 0)"
    using l'(4) by (simp add: check_link_def attempt_def w'' ret_def fail_def)
  then show ?thesis using l'(2,3) by auto
qed

section \<open>The files of the sysctls\<close>

lemma set_split_on: "x \<in> set (split_on sep s) \<Longrightarrow> c \<in> set x \<Longrightarrow> c \<in> set s"
proof (induction s arbitrary: x)
  case (Cons a s)
  then have IH: "y \<in> set (split_on sep s) \<Longrightarrow> c \<in> set y \<Longrightarrow> c \<in> set s" for y by blast
  show ?case
  proof (cases "split_on sep s")
    case Nil
    then show ?thesis using Cons.prems by (auto split: if_splits)
  next
    case C: (Cons v vs)
    then show ?thesis using Cons.prems IH [of x] IH [of v] by (auto split: if_splits)
  qed
qed simp

lemma set_clean_elems: "x \<in> set (clean_elems acc xs) \<Longrightarrow> x \<in> set acc \<or> x \<in> set xs"
proof (induction acc xs rule: clean_elems.induct)
  case (2 acc y xs)
  have "x \<in> set (tl acc) \<Longrightarrow> x \<in> set acc" by (cases acc) auto
  then show ?case using 2 by (auto split: if_splits)
qed simp

lemma set_join: "c \<in> set (join sep xs) \<Longrightarrow> c \<in> set sep \<or> (\<exists>x\<in>set xs. c \<in> set x)"
  by (induction sep xs rule: join.induct) auto

lemma set_path_Join: "c \<in> set (path_Join p n) \<Longrightarrow> c = CHR ''/'' \<or> c \<in> set p \<or> c \<in> set n"
  by (auto simp: path_Join_def dest!: set_join set_clean_elems set_split_on)

lemma set_path_Clean: "has_prefix p ''/'' \<Longrightarrow> c \<in> set (path_Clean p) \<Longrightarrow> c = CHR ''/'' \<or> c \<in> set p"
  by (auto simp: path_Clean_def dest!: set_join set_clean_elems set_split_on)

lemma sysctl_file_no_dot: "CHR ''.'' \<notin> set (tuning_sysctl_file key)"
proof
  let ?j = "path_Join ''/proc/sys'' (map (\<lambda>c. if c = CHR ''.'' then CHR ''/'' else c) key)"
  assume "CHR ''.'' \<in> set (tuning_sysctl_file key)"
  moreover have "has_prefix ?j ''/''" by (simp add: has_prefix_def path_Join_def)
  ultimately have "CHR ''.'' \<in> set ?j" unfolding tuning_sysctl_file_def using set_path_Clean by fastforce
  then show False by (auto dest!: set_path_Join split: if_splits)
qed

text \<open>
  C28: whatever keys the configuration has, the loop over the sysctls leaves every file alone whose path is not
  under \<open>/proc/sys/net/\<close>, and those it writes have no dot in their paths, so no ``..'' leads out of the directory; only
  the file of a key of the configuration is ever written.
\<close>

theorem tuning_sysctl_confined:
  assumes "\<And>p q s w. q \<noteq> p \<Longrightarrow> files (snd (WriteFile F p s w)) q = files w q"
    and "files (snd (each_io (set_net_sysctl F) kvs w)) q \<noteq> files w q"
  shows "has_prefix q ''/proc/sys/net/'' \<and> CHR ''.'' \<notin> set q \<and> q \<in> tuning_sysctl_file ` fst ` set kvs"
  using assms(2)
proof (induction kvs arbitrary: w)
  case (Cons kv kvs)
  show ?case
  proof (cases "files (snd (set_net_sysctl F kv w)) q = files w q")
    case True
    obtain r w1 where s: "set_net_sysctl F kv w = (r, w1)" by fastforce
    with True Cons.prems have "files (snd (each_io (set_net_sysctl F) kvs w1)) q \<noteq> files w1 q"
      by (cases r) (simp_all add: bind_io_def)
    from Cons.IH [OF this] show ?thesis by simp
  next
    case False
    then have "q = tuning_sysctl_file (fst kv) \<and> has_prefix q ''/proc/sys/net/''"
      using assms(1) [of q "tuning_sysctl_file (fst kv)" "snd kv" w] by (auto simp: set_net_sysctl_def fail_def split: if_splits)
    then show ?thesis using sysctl_file_no_dot by auto
  qed
qed (simp add: ret_def)

section \<open>Witnesses\<close>

text \<open>A namespace with one link, and files.\<close>

type_synonym demo_ns = "link \<times> (string \<Rightarrow> string option)"

definition demo_attrs :: "demo_ns \<Rightarrow> string \<Rightarrow> link option" where
  "demo_attrs w n = (if lk_Name (fst w) = n then Some (fst w) else None)"

definition demo_set :: "(link \<Rightarrow> link) \<Rightarrow> (demo_ns, unit) io" where
  "demo_set f w = (Inr (), (f (fst w), snd w))"

definition demo_link_kernel :: "demo_ns netlink" where
  "demo_link_kernel = (idle_kernel (\<lambda>_. 0) (\<lambda>_ w. w))\<lparr>
     nl_LinkByName := \<lambda>n w. (case demo_attrs w n of None \<Rightarrow> (Inl ErrLinkNotFound, w) | Some l \<Rightarrow> (Inr l, w)),
     nl_LinkSetMTU := \<lambda>l m. demo_set (\<lambda>l. l\<lparr>lk_MTU := m\<rparr>),
     nl_LinkSetHardwareAddr := \<lambda>l a. demo_set (\<lambda>l. l\<lparr>lk_HardwareAddr := a\<rparr>),
     nl_SetPromiscOn := \<lambda>l. demo_set (\<lambda>l. l\<lparr>lk_Promisc := 1\<rparr>),
     nl_SetPromiscOff := \<lambda>l. demo_set (\<lambda>l. l\<lparr>lk_Promisc := 0\<rparr>),
     nl_files := \<lparr>ReadFile = \<lambda>p w. (case snd w p of None \<Rightarrow> (Inl ErrNotExist, w) | Some s \<Rightarrow> (Inr s, w)),
       WriteFile = \<lambda>p s w. (Inr (), (fst w, (snd w)(p \<mapsto> s)))\<rparr>\<rparr>"

definition demo_eth0 :: link where
  "demo_eth0 = (new_link ''eth0'' Device)\<lparr>lk_MTU := 1500, lk_HardwareAddr := [2, 0, 0, 0, 0, 1]\<rparr>"

definition demo_tuning :: "string \<Rightarrow> tuning_conf" where
  "demo_tuning mac = \<lparr>ConfVersion = ''0.4.0'', ConfName = ''n'', ConfType = ''tuning'', ConfIPAM = '''', RawPrevResult = None,
     PrevResult = Some empty_result, tc_DataDir = tuning_defaultDataDir, tc_SysCtl = None, tc_Mac = mac, tc_Promisc = True, tc_Mtu = 1400,
     tc_RuntimeMac = '''', tc_Args = None\<rparr>"

definition demo_lib :: "'w cni_lib" where
  "demo_lib = \<lparr>ParsePrevResult = \<lambda>_ _. Inr empty_result, NewResultFromResult = Inr, PrintResult = \<lambda>_ _. ret ()\<rparr>"

definition demo_tenv :: "demo_ns tuning_env" where
  "demo_tenv = \<lparr>te_netlink = demo_link_kernel, te_lib = demo_lib, te_decode = \<lambda>_. Inl ErrNotExist, te_LoadArgs = Inr, te_range = id,
     te_Marshal = \<lambda>c. if c = backup_of (demo_tuning ''on'') demo_eth0 then Inr ''{}'' else Inl (Errorf ''unsupported''),
     te_Unmarshal = \<lambda>s. if s = ''{}'' then Inr (backup_of (demo_tuning ''on'') demo_eth0) else Inl (Errorf ''syntax''),
     te_Stat = \<lambda>p w. (if snd w p = None then (Inl ErrNotExist, w) else (Inr (), w)),
     te_MkdirAll = \<lambda>_. ret (), te_Remove = \<lambda>p w. (Inr (), (fst w, (snd w)(p := None)))\<rparr>"

definition demo_targs :: cmd_args where
  "demo_targs = \<lparr>ContainerID = ''c1'', Netns = ''/run/netns/c1'', IfName = ''eth0'', CniArgs = [], Path = [], StdinData = []\<rparr>"

lemma demo_link_store: "link_store (te_netlink demo_tenv) demo_attrs snd (\<lambda>_. True) (\<lambda>_. True)"
  unfolding link_store_def
  by (auto simp: demo_tenv_def demo_link_kernel_def idle_kernel_def demo_attrs_def demo_set_def reads_def sets_def ret_def fun_eq_iff
    split: if_splits)

lemma demo_file_store: "file_store demo_tenv demo_attrs snd"
  unfolding file_store_def
  by (auto simp: demo_tenv_def demo_link_kernel_def demo_attrs_def reads_def ret_def fun_eq_iff)

lemma demo_codec: "backup_codec demo_tenv"
  by (simp add: backup_codec_def demo_tenv_def)

lemma demo_createBackup:
  assumes "mac \<noteq> ''''"
  shows "createBackup demo_tenv ''eth0'' ''c1'' tuning_defaultDataDir (demo_tuning mac) (demo_eth0, Map.empty)
    = (Inr (), (demo_eth0, [backup_path tuning_defaultDataDir ''c1'' ''eth0'' \<mapsto> ''{}'']))"
proof -
  have "backup_of (demo_tuning mac) demo_eth0 = backup_of (demo_tuning ''on'') demo_eth0"
    using assms by (simp add: backup_of_def demo_tuning_def)
  then show ?thesis
    by (simp add: createBackup_def get_link_def demo_tenv_def demo_link_kernel_def demo_attrs_def io_defs lift_res_def
      demo_eth0_def new_link_def)
qed

theorem tuning_restores_witness:
  "\<exists>w3. restoreBackup demo_tenv ''eth0'' ''c1'' tuning_defaultDataDir (demo_eth0\<lparr>lk_MTU := 9000\<rparr>,
      snd (snd (tune_link demo_tenv (demo_tuning (mac_string [10, 0, 0, 0, 0, 7])) empty_result demo_targs (demo_eth0, Map.empty)))) = (Inr (), w3)
    \<and> demo_attrs w3 ''eth0'' = Some demo_eth0"
proof -
  let ?m = "mac_string [10, 0, 0, 0, 0, 7]"
  have m: "?m \<noteq> ''''" by (rule mac_string_nonempty) (simp add: mac_length_def)
  have a: "demo_attrs (demo_eth0, Map.empty) (IfName demo_targs) = Some demo_eth0"
    by (simp add: demo_attrs_def demo_targs_def demo_eth0_def new_link_def)
  have len: "mac_length (length (lk_HardwareAddr demo_eth0))" by (simp add: demo_eth0_def mac_length_def)
  have conf: "tc_Mac (demo_tuning ?m) \<noteq> '''' \<or> tc_Mtu (demo_tuning ?m) \<noteq> 0 \<or> tc_Promisc (demo_tuning ?m)" by (simp add: demo_tuning_def)
  have bk: "createBackup demo_tenv (IfName demo_targs) (ContainerID demo_targs) (tc_DataDir (demo_tuning ?m)) (demo_tuning ?m) (demo_eth0, Map.empty)
      = (Inr (), (demo_eth0, [backup_path tuning_defaultDataDir ''c1'' ''eth0'' \<mapsto> ''{}'']))"
    using demo_createBackup [OF m] by (simp add: demo_targs_def demo_tuning_def)
  let ?w2 = "(demo_eth0\<lparr>lk_MTU := 9000\<rparr>, snd (snd (tune_link demo_tenv (demo_tuning ?m) empty_result demo_targs (demo_eth0, Map.empty))))"
  have l2: "demo_attrs ?w2 (IfName demo_targs) = Some (demo_eth0\<lparr>lk_MTU := 9000\<rparr>)"
    by (simp add: demo_attrs_def demo_targs_def demo_eth0_def new_link_def)
  have f: "snd ?w2 p = snd (snd (tune_link demo_tenv (demo_tuning ?m) empty_result demo_targs (demo_eth0, Map.empty))) p" for p by simp
  have "restored_link (demo_tuning ?m) demo_eth0 (demo_eth0\<lparr>lk_MTU := 9000\<rparr>) = demo_eth0"
    by (simp add: restored_link_def demo_tuning_def demo_eth0_def new_link_def)
  with tuning_restores [OF demo_link_store demo_file_store demo_codec a len TrueI TrueI conf bk f l2] l2
  show ?thesis by (auto simp: demo_targs_def demo_tuning_def)
qed

lemma demo_upper_mac: "ParseMAC ''0A:00:00:00:00:07'' = Inr [10, 0, 0, 0, 0, 7]" "mac_string [10, 0, 0, 0, 0, 7] = ''0a:00:00:00:00:07''"
proof -
  let ?s = "''0A:00:00:00:00:07''"
  have six: "(6 :: nat) = Suc (Suc (Suc (Suc (Suc (Suc 0)))))" by simp
  have "mac_fields 6 (CHR '':'') ?s = Some [10, 0, 0, 0, 0, 7]"
    unfolding six by (simp add: xtoi2_def scan_number_def digit_val_def big_def)
  moreover have "length ?s = 17" "?s ! 2 = CHR '':''" by simp_all
  ultimately show "ParseMAC ?s = Inr [10, 0, 0, 0, 0, 7]"
    unfolding ParseMAC_def Let_def mac_length_def by simp
  show "mac_string [10, 0, 0, 0, 0, 7] = ''0a:00:00:00:00:07''"
    by (simp add: mac_string_def mac_byte_def digit_def char_of_def bit_Suc_0_iff)
qed

lemma demo_tuning_calls:
  assumes "lk_Name l = n"
  shows "changeMtu (te_netlink demo_tenv) n m (l, f) = (Inr (), (l\<lparr>lk_MTU := m\<rparr>, f))"
    "changePromisc (te_netlink demo_tenv) n True (l, f) = (Inr (), (l\<lparr>lk_Promisc := 1\<rparr>, f))"
    "changeMacAddr (te_netlink demo_tenv) n ''0A:00:00:00:00:07'' (l, f) = (Inr (), (l\<lparr>lk_HardwareAddr := [10, 0, 0, 0, 0, 7]\<rparr>, f))"
proof -
  have get: "get_link (te_netlink demo_tenv) n (l, f) = (Inr l, (l, f))"
    using assms by (simp add: get_link_def demo_tenv_def demo_link_kernel_def demo_attrs_def wrap_io_def)
  show "changeMtu (te_netlink demo_tenv) n m (l, f) = (Inr (), (l\<lparr>lk_MTU := m\<rparr>, f))"
    "changePromisc (te_netlink demo_tenv) n True (l, f) = (Inr (), (l\<lparr>lk_Promisc := 1\<rparr>, f))"
    by (simp_all add: changePromisc_def changeMtu_def bind_io_def get) (simp_all add: demo_tenv_def demo_link_kernel_def demo_set_def)
  show "changeMacAddr (te_netlink demo_tenv) n ''0A:00:00:00:00:07'' (l, f) = (Inr (), (l\<lparr>lk_HardwareAddr := [10, 0, 0, 0, 0, 7]\<rparr>, f))"
    unfolding changeMacAddr_def demo_upper_mac(1)
    by (simp add: bind_io_def wrap_io_def lift_res_def ret_def get) (simp add: demo_tenv_def demo_link_kernel_def demo_set_def)
qed

lemma demo_tune_mac:
  assumes "lk_Name l = n"
  shows "tune_mac demo_tenv (demo_tuning ''0A:00:00:00:00:07'') empty_result n (l, f)
    = (Inr (Some empty_result), (l\<lparr>lk_HardwareAddr := [10, 0, 0, 0, 0, 7]\<rparr>, f))"
  using demo_tuning_calls(3) [OF assms] unfolding tune_mac_def
  by (simp add: demo_tuning_def empty_result_def updateResultsMacAddr_def demo_tenv_def demo_lib_def bind_io_def ret_def lift_res_def)

theorem tuning_check_after_add_witness:
  "\<exists>prev w'. tune_link demo_tenv (demo_tuning ''0A:00:00:00:00:07'') empty_result demo_targs (demo_eth0, Map.empty) = (Inr prev, w')
    \<and> fst (check_link (te_netlink demo_tenv) (demo_tuning ''0A:00:00:00:00:07'') ''eth0'' w') \<noteq> Inr ()"
proof -
  let ?conf = "demo_tuning ''0A:00:00:00:00:07''"
  have a: "demo_attrs (demo_eth0, Map.empty) (IfName demo_targs) = Some demo_eth0"
    by (simp add: demo_attrs_def demo_targs_def demo_eth0_def new_link_def)
  have conf: "tc_Mac ?conf = ''0A:00:00:00:00:07''" "tc_Promisc ?conf" "tc_Mtu ?conf = 1400" "tc_DataDir ?conf = tuning_defaultDataDir"
    by (simp_all add: demo_tuning_def)
  note c = conf(1)
  have "createBackup demo_tenv ''eth0'' ''c1'' tuning_defaultDataDir ?conf (demo_eth0, Map.empty)
      = (Inr (), (demo_eth0, [backup_path tuning_defaultDataDir ''c1'' ''eth0'' \<mapsto> ''{}'']))" by (rule demo_createBackup) simp
  moreover have "lk_Name demo_eth0 = ''eth0''" by (simp add: demo_eth0_def new_link_def)
  ultimately obtain prev w' where ok: "tune_link demo_tenv ?conf empty_result demo_targs (demo_eth0, Map.empty) = (Inr prev, w')"
    by (simp add: tune_link_def bind_io_def demo_tuning_calls demo_targs_def demo_tune_mac ret_def conf)
  have "(\<exists>a. ParseMAC (tc_Mac ?conf) = Inr a \<and> tc_Mac ?conf = mac_string a) = False" by (simp add: c demo_upper_mac)
  with tuning_check_after_add [OF demo_link_store demo_file_store a ok] ok c show ?thesis by (auto simp: demo_targs_def)
qed

theorem tuning_sysctl_confined_witness:
  "let F = nl_files demo_link_kernel; q = ''/proc/sys/net/ipv4/tcp_ecn''
   in snd (snd (each_io (set_net_sysctl F) [(''net.ipv4.tcp_ecn'', ''1'')] (demo_eth0, Map.empty))) q = Some ''1''
    \<and> has_prefix q ''/proc/sys/net/'' \<and> CHR ''.'' \<notin> set q \<and> q \<in> tuning_sysctl_file ` fst ` set [(''net.ipv4.tcp_ecn'', ''1'')]"
proof -
  let ?F = "nl_files demo_link_kernel" and ?q = "''/proc/sys/net/ipv4/tcp_ecn''" and ?kvs = "[(''net.ipv4.tcp_ecn'', ''1'')]"
  have fl: "tuning_sysctl_file ''net.ipv4.tcp_ecn'' = ?q" "has_prefix ?q ''/proc/sys/net/''" by code_simp+
  have law: "q \<noteq> p \<Longrightarrow> snd (snd (WriteFile ?F p s w)) q = snd w q" for p q s and w :: demo_ns
    by (simp add: demo_link_kernel_def)
  have run: "snd (snd (each_io (set_net_sysctl ?F) ?kvs (demo_eth0, Map.empty))) ?q = Some ''1''"
    by (simp add: set_net_sysctl_def fl io_defs demo_link_kernel_def)
  then have "snd (snd (each_io (set_net_sysctl ?F) ?kvs (demo_eth0, Map.empty))) ?q \<noteq> snd (demo_eth0, Map.empty) ?q" by simp
  from tuning_sysctl_confined [where files = snd, OF law this] run show ?thesis unfolding Let_def by blast
qed

end
