(* ===== verification/Static_Ipam.thy ===== *)
theory Static_Ipam
  imports Alloc_Config Netlink Go_Cidr
begin

text \<open>
  \<open>plugins/ipam/static/main.go\<close>: the IPAM plugin that hands out the addresses of its configuration, with what the
  configuration is after loading and what CHECK looks at.
\<close>

section \<open>Configuration\<close>

record static_address =
  sa_Str :: string
  sa_Gateway :: ip
  sa_Address :: ipnet
  sa_Version :: string

record static_conf =
  sc_Name :: string
  sc_Type :: string
  sc_Routes :: "route list"
  sc_Addresses :: "static_address list"
  sc_DNS :: dns

record static_net =
  sn_Name :: string
  sn_CNIVersion :: string
  sn_IPAM :: "static_conf option"
  sn_RuntimeIPs :: "string list"
  sn_Args :: "string list option option"

text \<open>
  \<open>se_decode\<close> and \<open>se_netconf\<close> are the JSON decoder for the two types the plugin reads, \<open>se_LoadArgs\<close> is
  \<open>types.LoadArgs\<close>: the IP and the GATEWAY of \<open>CNI_ARGS\<close>, empty where they are missing.
\<close>

record 'w static_env =
  se_decode :: "string \<Rightarrow> static_net res"
  se_netconf :: "string \<Rightarrow> netconf res"
  se_LoadArgs :: "string \<Rightarrow> (string \<times> string) res"
  se_lib :: "'w cni_lib"

definition static_canonicalizeIP :: "ip \<Rightarrow> ip res" where
  "static_canonicalizeIP a =
     (if To4 a \<noteq> [] then Inr (To4 a)
      else if To16 a \<noteq> [] then Inr (To16 a)
      else Inl (Errorf ''IP not v4 nor v6''))"

definition nil_net :: ipnet where
  "nil_net = \<lparr>net_ip = [], net_mask = []\<rparr>"

text \<open>An address that is only a text so far.\<close>

definition text_address :: "string \<Rightarrow> static_address" where
  "text_address s = \<lparr>sa_Str = s, sa_Gateway = [], sa_Address = nil_net, sa_Version = ''''\<rparr>"

text \<open>The addresses in the IP variable of \<open>CNI_ARGS\<close>, a list separated by commas.\<close>

definition env_address :: "string \<Rightarrow> static_address res" where
  "env_address item =
     (case ParseCIDR (TrimSpace item) of
        None \<Rightarrow> Inl (Errorf (''invalid CIDR '' @ TrimSpace item))
      | Some (a, subnet) \<Rightarrow> Inr ((text_address (TrimSpace item))\<lparr>sa_Address := \<lparr>net_ip = a, net_mask = net_mask subnet\<rparr>\<rparr>))"

text \<open>\<open>n.IPAM\<close> is dereferenced wherever its addresses are read or set: a nil pointer panics.\<close>

definition deref_IPAM :: "static_net \<Rightarrow> static_conf res" where
  "deref_IPAM n = (case sn_IPAM n of None \<Rightarrow> Inl nil_deref | Some c \<Rightarrow> Inr c)"

definition set_addresses :: "static_net \<Rightarrow> static_conf \<Rightarrow> static_address list \<Rightarrow> static_net" where
  "set_addresses n c as = n\<lparr>sn_IPAM := Some (c\<lparr>sc_Addresses := as\<rparr>)\<rparr>"

text \<open>A loop that changes the configuration and stops at the first error.\<close>

fun fold_res :: "('a \<Rightarrow> 'b \<Rightarrow> 'b res) \<Rightarrow> 'a list \<Rightarrow> 'b \<Rightarrow> 'b res" where
  "fold_res f [] b = Inr b"
| "fold_res f (x # xs) b = bind_res (f x b) (fold_res f xs)"

definition import_address :: "string \<Rightarrow> static_net \<Rightarrow> static_net res" where
  "import_address item n =
     bind_res (env_address item) (\<lambda>a. bind_res (deref_IPAM n) (\<lambda>c. Inr (set_addresses n c (sc_Addresses c @ [a]))))"

text \<open>A gateway goes to the addresses whose network contains it.\<close>

definition import_gateway :: "string \<Rightarrow> static_net \<Rightarrow> static_net res" where
  "import_gateway item n =
     (let gwip = ParseIP (TrimSpace item)
      in if gwip = [] then Inl (Errorf (''invalid gateway address: '' @ item))
         else bind_res (deref_IPAM n) (\<lambda>c. Inr (set_addresses n c
           (map (\<lambda>a. if ipnet_contains (sa_Address a) gwip then a\<lparr>sa_Gateway := gwip\<rparr> else a) (sc_Addresses c)))))"

definition import_env :: "'w static_env \<Rightarrow> string \<Rightarrow> static_net \<Rightarrow> static_net res" where
  "import_env E envArgs n =
     (if envArgs = '''' then Inr n
      else bind_res (se_LoadArgs E envArgs) (\<lambda>(ip, gateway).
        bind_res (if ip = '''' then Inr n else fold_res import_address (split_on (CHR '','') ip) n) (\<lambda>n1.
        if gateway = '''' then Inr n1 else fold_res import_gateway (split_on (CHR '','') gateway) n1)))"

text \<open>The addresses of the arguments or of the runtime replace those there are.\<close>

definition import_list :: "string list \<Rightarrow> static_net \<Rightarrow> static_net res" where
  "import_list ips n =
     (if length ips = 0 then Inr n else bind_res (deref_IPAM n) (\<lambda>c. Inr (set_addresses n c (map text_address ips))))"

definition args_ips :: "static_net \<Rightarrow> string list" where
  "args_ips n = (case sn_Args n of Some (Some ips) \<Rightarrow> ips | _ \<Rightarrow> [])"

definition validate_address :: "nat \<Rightarrow> static_address \<Rightarrow> static_address res" where
  "validate_address i a =
     (case ParseCIDR (sa_Str a) of
        None \<Rightarrow> Inl (Errorf (''invalid CIDR '' @ sa_Str a))
      | Some (ip, addr) \<Rightarrow>
          (case static_canonicalizeIP ip of
             Inl e \<Rightarrow> Inl (Wrap (''invalid address '' @ utoa i) e)
           | Inr ip' \<Rightarrow> Inr (a\<lparr>sa_Address := \<lparr>net_ip = ip', net_mask = net_mask addr\<rparr>,
               sa_Version := (if To4 ip' \<noteq> [] then ''4'' else ''6'')\<rparr>)))"

definition count_version :: "string \<Rightarrow> static_address list \<Rightarrow> nat" where
  "count_version v as = length (filter (\<lambda>a. sa_Version a = v) as)"

definition static_LoadIPAMConfig :: "'w static_env \<Rightarrow> string \<Rightarrow> string \<Rightarrow> (static_conf \<times> string) res" where
  "static_LoadIPAMConfig E bytes envArgs =
     bind_res (se_decode E bytes) (\<lambda>n0.
     bind_res (import_env E envArgs n0) (\<lambda>n1.
     bind_res (import_list (args_ips n1) n1) (\<lambda>n2.
     bind_res (import_list (sn_RuntimeIPs n2) n2) (\<lambda>n.
       case sn_IPAM n of
         None \<Rightarrow> Inl (Errorf ''IPAM config missing 'ipam' key'')
       | Some c \<Rightarrow>
           bind_res (map_res (\<lambda>(i, a). validate_address i a) (enumerate 0 (sc_Addresses c))) (\<lambda>as.
           if (1 < count_version ''4'' as \<or> 1 < count_version ''6'' as) \<and> sn_CNIVersion n \<in> set SupportedVersions020
           then Inl (Errorf ''CNI version does not support more than 1 address per family'')
           else Inr (c\<lparr>sc_Addresses := as, sc_Name := sn_Name n\<rparr>, sn_CNIVersion n))))))"

section \<open>The commands\<close>

definition static_loadNetConf :: "'w static_env \<Rightarrow> string \<Rightarrow> (netconf \<times> string) res" where
  "static_loadNetConf E bytes =
     (case se_netconf E bytes of Inl e \<Rightarrow> Inl (Wrap ''failed to load netconf'' e) | Inr n \<Rightarrow> Inr (n, ConfVersion n))"

definition static_result :: "static_conf \<Rightarrow> cni_result" where
  "static_result c = empty_result\<lparr>DNS := sc_DNS c, Routes := sc_Routes c,
     IPs := map (\<lambda>v. \<lparr>Version = sa_Version v, Interface = None, Address = sa_Address v, IPGateway = sa_Gateway v\<rparr>) (sc_Addresses c)\<rparr>"

definition static_cmdAdd :: "'w static_env \<Rightarrow> cmd_args \<Rightarrow> ('w, unit) io" where
  "static_cmdAdd E args =
     bind_io (lift_res (static_LoadIPAMConfig E (StdinData args) (CniArgs args))) (\<lambda>(c, confVersion).
       PrintResult (se_lib E) (static_result c) confVersion)"

text \<open>The first address of the result that equals the configured one decides; without one nothing is wrong.\<close>

definition static_match :: "ipconfig list \<Rightarrow> static_address \<Rightarrow> bool" where
  "static_match ips a =
     (case find (\<lambda>c. ip_equal (net_ip (sa_Address a)) (net_ip (Address c))) ips of
        None \<Rightarrow> True
      | Some c \<Rightarrow> sa_Gateway a = [] \<or> ip_equal (sa_Gateway a) (IPGateway c))"

definition static_check :: "static_conf \<Rightarrow> cni_result \<Rightarrow> unit res" where
  "static_check c result =
     (if list_all (static_match (IPs result)) (sc_Addresses c) then Inr () else Inl (Errorf ''static: Failed to match addr''))"

definition static_cmdCheck :: "'w static_env \<Rightarrow> cmd_args \<Rightarrow> ('w, unit) io" where
  "static_cmdCheck E args = lift_res (
     bind_res (static_LoadIPAMConfig E (StdinData args) (CniArgs args)) (\<lambda>(c, _).
     bind_res (static_loadNetConf E (StdinData args)) (\<lambda>(n, _).
       case RawPrevResult n of
         None \<Rightarrow> Inl (Errorf ''Required prevResult missing'')
       | Some raw \<Rightarrow>
           bind_res (ParsePrevResult (se_lib E) (ConfVersion n) raw) (\<lambda>prev.
           bind_res (NewResultFromResult (se_lib E) prev) (\<lambda>result.
           static_check c result)))))"

definition static_cmdDel :: "'w static_env \<Rightarrow> cmd_args \<Rightarrow> ('w, unit) io" where
  "static_cmdDel E args = ret ()"

section \<open>Properties\<close>

text \<open>An address that was validated: the address of its text in canonical form, with its mask and its family.\<close>

definition address_ok :: "static_address \<Rightarrow> bool" where
  "address_ok a \<longleftrightarrow> (\<exists>ip n. ParseCIDR (sa_Str a) = Some (ip, n) \<and> ip_equal (net_ip (sa_Address a)) ip
     \<and> net_mask (sa_Address a) = net_mask n
     \<and> (length (net_ip (sa_Address a)) = 4 \<and> sa_Version a = ''4''
        \<or> length (net_ip (sa_Address a)) = 16 \<and> To4 (net_ip (sa_Address a)) = [] \<and> sa_Version a = ''6''))"

lemma static_canonicalizeIP_spec:
  assumes "static_canonicalizeIP a = Inr b"
  shows "ip_equal b a \<and> (length b = 4 \<and> To4 b \<noteq> [] \<or> length b = 16 \<and> To4 b = [])"
proof -
  have "length v4InV6Prefix = 12" by (simp add: v4InV6Prefix_def)
  then have "drop 12 a \<noteq> v4InV6Prefix" if "length a = 16"
    using that by (auto dest!: arg_cong [where f = length])
  then show ?thesis
    using assms by (auto simp: static_canonicalizeIP_def To4_def To16_def ip_equal_def split: if_splits)
qed

lemma validate_address_ok:
  assumes "validate_address i a = Inr b"
  shows "address_ok b \<and> sa_Str b = sa_Str a \<and> sa_Gateway b = sa_Gateway a"
proof -
  from assms obtain ip n ip' where p: "ParseCIDR (sa_Str a) = Some (ip, n)" "static_canonicalizeIP ip = Inr ip'"
    and b: "b = a\<lparr>sa_Address := \<lparr>net_ip = ip', net_mask = net_mask n\<rparr>, sa_Version := (if To4 ip' \<noteq> [] then ''4'' else ''6'')\<rparr>"
    by (auto simp: validate_address_def split: option.splits sum.splits)
  from static_canonicalizeIP_spec [OF p(2)] p(1) show ?thesis unfolding address_ok_def b by auto
qed

lemma validate_all:
  assumes "map_res (\<lambda>(i, a). validate_address i a) (enumerate k as) = Inr bs"
  shows "(\<forall>b\<in>set bs. address_ok b) \<and> map sa_Str bs = map sa_Str as"
  using assms
proof (induction as arbitrary: k bs)
  case (Cons a as)
  obtain b bs' where b: "validate_address k a = Inr b" "bs = b # bs'"
    "map_res (\<lambda>(i, a). validate_address i a) (enumerate (Suc k) as) = Inr bs'"
    using Cons.prems by (auto simp: bind_res_Inr elim!: map_res_ConsE)
  from Cons.IH [OF b(3)] validate_address_ok [OF b(1)] b(2) show ?case by simp
qed simp

lemma import_list_spec:
  assumes "import_list ips n = Inr n'"
  shows "sn_RuntimeIPs n' = sn_RuntimeIPs n \<and> sn_CNIVersion n' = sn_CNIVersion n
    \<and> (ips = [] \<longrightarrow> n' = n) \<and> (ips \<noteq> [] \<longrightarrow> (\<exists>c. sn_IPAM n' = Some c \<and> sc_Addresses c = map text_address ips))"
  using assms by (auto simp: import_list_def deref_IPAM_def set_addresses_def bind_res_Inr split: if_splits option.splits)

lemma fold_res_keeps:
  assumes "fold_res f xs b = Inr b'" "\<And>x b b'. f x b = Inr b' \<Longrightarrow> P b \<Longrightarrow> P b'" "P b"
  shows "P b'"
  using assms(1,3) by (induction xs arbitrary: b) (auto simp: bind_res_Inr dest: assms(2))

text \<open>The part of the configuration that the environment leaves alone.\<close>

definition same_frame :: "static_net \<Rightarrow> static_net \<Rightarrow> bool" where
  "same_frame n n' \<longleftrightarrow> sn_RuntimeIPs n' = sn_RuntimeIPs n \<and> sn_CNIVersion n' = sn_CNIVersion n \<and> sn_Args n' = sn_Args n"

lemma import_steps:
  "import_address x b = Inr b' \<Longrightarrow> same_frame n b \<Longrightarrow> same_frame n b'"
  "import_gateway x b = Inr b' \<Longrightarrow> same_frame n b \<Longrightarrow> same_frame n b'"
  by (auto simp: import_address_def import_gateway_def same_frame_def deref_IPAM_def set_addresses_def bind_res_Inr Let_def
    split: if_splits option.splits)

lemma import_env_spec:
  assumes "import_env E envArgs n = Inr n'"
  shows "sn_RuntimeIPs n' = sn_RuntimeIPs n \<and> sn_CNIVersion n' = sn_CNIVersion n \<and> sn_Args n' = sn_Args n"
proof -
  from assms obtain n1 where "n1 = n \<or> (\<exists>xs. fold_res import_address xs n = Inr n1)" "n' = n1 \<or> (\<exists>xs. fold_res import_gateway xs n1 = Inr n')"
    by (auto simp: import_env_def bind_res_Inr split: if_splits prod.splits)
  note st = this
  have n: "same_frame n n" by (simp add: same_frame_def)
  have n1: "same_frame n n1" using st(1)
  proof
    assume "\<exists>xs. fold_res import_address xs n = Inr n1"
    then obtain xs where "fold_res import_address xs n = Inr n1" ..
    from fold_res_keeps [where P = "same_frame n", OF this import_steps(1) n] show ?thesis .
  qed (simp add: n)
  have "same_frame n n'" using st(2)
  proof
    assume "\<exists>xs. fold_res import_gateway xs n1 = Inr n'"
    then obtain xs where "fold_res import_gateway xs n1 = Inr n'" ..
    from fold_res_keeps [where P = "same_frame n", OF this import_steps(2) n1] show ?thesis .
  qed (simp add: n1)
  then show ?thesis by (simp add: same_frame_def)
qed

text \<open>
  C30: a configuration that loads has only validated addresses, each the canonical address and the mask of its text;
  the addresses of the runtime replace those of the arguments, and these those of the file and of the environment; for
  a version of CNI before 0.3.0 there is at most one address of each family.
\<close>

theorem static_load_ok:
  assumes "static_LoadIPAMConfig E bytes envArgs = Inr (c, v)"
  shows "(\<forall>a\<in>set (sc_Addresses c). address_ok a)
    \<and> (v \<in> set SupportedVersions020 \<longrightarrow> count_version ''4'' (sc_Addresses c) \<le> 1 \<and> count_version ''6'' (sc_Addresses c) \<le> 1)
    \<and> (\<exists>n. se_decode E bytes = Inr n \<and> v = sn_CNIVersion n \<and>
        (if sn_RuntimeIPs n \<noteq> [] then map sa_Str (sc_Addresses c) = sn_RuntimeIPs n
         else args_ips n \<noteq> [] \<longrightarrow> map sa_Str (sc_Addresses c) = args_ips n))"
proof -
  from assms obtain n0 n1 n2 n c0 as where st: "se_decode E bytes = Inr n0" "import_env E envArgs n0 = Inr n1"
    "import_list (args_ips n1) n1 = Inr n2" "import_list (sn_RuntimeIPs n2) n2 = Inr n" "sn_IPAM n = Some c0"
    and as: "map_res (\<lambda>(i, a). validate_address i a) (enumerate 0 (sc_Addresses c0)) = Inr as"
    and ver: "\<not> ((1 < count_version ''4'' as \<or> 1 < count_version ''6'' as) \<and> sn_CNIVersion n \<in> set SupportedVersions020)"
    and c: "c = c0\<lparr>sc_Addresses := as, sc_Name := sn_Name n\<rparr>" "v = sn_CNIVersion n"
    by (auto simp: static_LoadIPAMConfig_def bind_res_Inr split: option.splits if_splits)
  note env = import_env_spec [OF st(2)] and l1 = import_list_spec [OF st(3)] and l2 = import_list_spec [OF st(4)]
  note val = validate_all [OF as]
  have strs: "map sa_Str as = map sa_Str (sc_Addresses c0)" using val by simp
  have txts: "map sa_Str (map text_address xs) = xs" for xs by (induction xs) (simp_all add: text_address_def)
  have args: "args_ips n1 = args_ips n0" using env by (simp add: args_ips_def)
  have "if sn_RuntimeIPs n0 \<noteq> [] then map sa_Str as = sn_RuntimeIPs n0 else args_ips n0 \<noteq> [] \<longrightarrow> map sa_Str as = args_ips n0"
    using l1 l2 env st(5) strs txts args by auto
  moreover have "v = sn_CNIVersion n0" using c(2) l1 l2 env by simp
  ultimately show ?thesis using st(1) val ver c by auto
qed


section \<open>Witnesses\<close>

definition demo_static :: "unit static_env" where
  "demo_static = \<lparr>se_decode = \<lambda>_. Inr \<lparr>sn_Name = ''n'', sn_CNIVersion = ''0.4.0'',
       sn_IPAM = Some \<lparr>sc_Name = '''', sc_Type = ''static'', sc_Routes = [], sc_Addresses = [text_address ''10.0.0.9/8''], sc_DNS = empty_dns\<rparr>,
       sn_RuntimeIPs = [''10.0.0.4/30''], sn_Args = None\<rparr>,
     se_netconf = \<lambda>_. Inl ErrNotExist, se_LoadArgs = \<lambda>_. Inr ('''', ''''),
     se_lib = \<lparr>ParsePrevResult = \<lambda>_ _. Inr empty_result, NewResultFromResult = Inr, PrintResult = \<lambda>_ _. ret ()\<rparr>\<rparr>"

definition demo_static_address :: static_address where
  "demo_static_address = \<lparr>sa_Str = ''10.0.0.4/30'', sa_Gateway = [], sa_Address = \<lparr>net_ip = [10, 0, 0, 4], net_mask = [255, 255, 255, 252]\<rparr>, sa_Version = ''4''\<rparr>"

lemma demo_static_load:
  "static_LoadIPAMConfig demo_static b '''' = Inr (\<lparr>sc_Name = ''n'', sc_Type = ''static'', sc_Routes = [], sc_Addresses = [demo_static_address], sc_DNS = empty_dns\<rparr>, ''0.4.0'')"
proof -
  have "validate_address 0 (text_address ''10.0.0.4/30'') = Inr demo_static_address"
    by (simp add: validate_address_def text_address_def demo_parse static_canonicalizeIP_def To4_def v4InV6Prefix_def demo_static_address_def)
  then show ?thesis
    by (simp add: static_LoadIPAMConfig_def demo_static_def import_env_def import_list_def args_ips_def deref_IPAM_def set_addresses_def
      count_version_def demo_static_address_def SupportedVersions020_def)
qed

theorem static_load_ok_witness:
  "\<exists>c. static_LoadIPAMConfig demo_static [] '''' = Inr (c, ''0.4.0'') \<and> (\<forall>a\<in>set (sc_Addresses c). address_ok a)
    \<and> sc_Addresses c \<noteq> []"
  using static_load_ok [OF demo_static_load, of "[]"] demo_static_load [of "[]"] by auto


end
