(* ===== verification/Bandwidth.thy ===== *)
theory Bandwidth
  imports Ipam_Iface Go_Mac
begin

text \<open>
  \<open>plugins/meta/bandwidth\<close> (\<open>main.go\<close>, \<open>ifb_creator.go\<close>): the plugin that limits the traffic of a container with
  token buckets, one on the host side of its veth pair and one on an extra device that the egress traffic is sent
  through. The two conversions to the units of the kernel, in floating point, are parameters.
\<close>

section \<open>Configuration\<close>

definition maxIfbDeviceLength :: nat where
  "maxIfbDeviceLength = 15"

definition ifbDevicePrefix :: string where
  "ifbDevicePrefix = ''bwp''"

record bandwidth_entry =
  IngressRate :: "64 word"
  IngressBurst :: "64 word"
  EgressRate :: "64 word"
  EgressBurst :: "64 word"

definition bw_isZero :: "bandwidth_entry \<Rightarrow> bool" where
  "bw_isZero bw \<longleftrightarrow> IngressBurst bw = 0 \<and> IngressRate bw = 0 \<and> EgressBurst bw = 0 \<and> EgressRate bw = 0"

record bandwidth_conf = netconf +
  bc_Runtime :: "bandwidth_entry option"
  bc_Entry :: "bandwidth_entry option"

text \<open>
  \<open>be_buffer\<close> and \<open>be_limit\<close> are the functions \<open>buffer\<close> and \<open>limit\<close> of the plugin, the latter at its one latency;
  \<open>be_sha\<close> is SHA-512.
\<close>

record 'w bandwidth_env =
  be_netlink :: "'w netlink"
  be_lib :: "'w cni_lib"
  be_decode :: "string \<Rightarrow> bandwidth_conf res"
  be_buffer :: "64 word \<Rightarrow> 32 word \<Rightarrow> 32 word"
  be_limit :: "64 word \<Rightarrow> 32 word \<Rightarrow> 32 word"
  be_sha :: "string \<Rightarrow> string"

definition getBandwidth :: "bandwidth_conf \<Rightarrow> bandwidth_entry option" where
  "getBandwidth conf = (if bc_Entry conf = None \<and> bc_Runtime conf \<noteq> None then bc_Runtime conf else bc_Entry conf)"

definition validateRateAndBurst :: "64 word \<Rightarrow> 64 word \<Rightarrow> unit res" where
  "validateRateAndBurst rate burst =
     (if burst < 0 \<or> rate < 0 then Inl (Errorf ''rate and burst must be a positive integer'')
      else if burst = 0 \<and> rate \<noteq> 0 then Inl (Errorf ''if rate is set, burst must also be set'')
      else if rate = 0 \<and> burst \<noteq> 0 then Inl (Errorf ''if burst is set, rate must also be set'')
      else if 0xffffffff \<le> burst div 8 then Inl (Errorf ''burst cannot be more than 4GB'')
      else Inr ())"

definition bandwidth_parseConfig :: "'w bandwidth_env \<Rightarrow> string \<Rightarrow> bandwidth_conf res" where
  "bandwidth_parseConfig E stdin =
     (case be_decode E stdin of
        Inl e \<Rightarrow> Inl (Wrap ''failed to parse network configuration'' e)
      | Inr conf \<Rightarrow>
          bind_res (case getBandwidth conf of
              None \<Rightarrow> Inr ()
            | Some bw \<Rightarrow> bind_res (validateRateAndBurst (IngressRate bw) (IngressBurst bw)) (\<lambda>_.
                         validateRateAndBurst (EgressRate bw) (EgressBurst bw))) (\<lambda>_.
          bind_res (parse_prev (be_lib E) conf) (\<lambda>(conf', _). Inr conf')))"

definition getIfbDeviceName :: "(string \<Rightarrow> string) \<Rightarrow> string \<Rightarrow> string \<Rightarrow> string option" where
  "getIfbDeviceName sha networkName containerId =
     MustFormatHashWithPrefix sha maxIfbDeviceLength ifbDevicePrefix (networkName @ containerId)"

text \<open>The call of a function that panics where the model has \<open>None\<close>.\<close>

definition ifb_name :: "'w bandwidth_env \<Rightarrow> bandwidth_conf \<Rightarrow> cmd_args \<Rightarrow> ('w, string) io" where
  "ifb_name E conf args =
     (case getIfbDeviceName (be_sha E) (ConfName conf) (ContainerID args) of
        None \<Rightarrow> fail (Panic ''invalid length'') | Some n \<Rightarrow> ret n)"

section \<open>ifb\_creator.go\<close>

definition CreateIfb :: "'w netlink \<Rightarrow> string \<Rightarrow> int \<Rightarrow> ('w, unit) io" where
  "CreateIfb N ifbDeviceName mtu =
     bind_io (wrap_io ''adding link'' (nl_LinkAdd N ((new_link ifbDeviceName Ifb)\<lparr>lk_Up := True, lk_MTU := mtu\<rparr>))) (\<lambda>_. ret ())"

definition TeardownIfb :: "'w netlink \<Rightarrow> string \<Rightarrow> ('w, unit) io" where
  "TeardownIfb N deviceName =
     attempt (DelLinkByNameAddr N deviceName) (\<lambda>r.
       case r of Inl e \<Rightarrow> if e = ErrLinkNotFound then ret () else fail e | Inr _ \<Rightarrow> ret ())"

definition MakeHandle :: "16 word \<Rightarrow> 16 word \<Rightarrow> 32 word" where
  "MakeHandle major minor = or (push_bit 16 (ucast major)) (ucast minor)"

definition HANDLE_ROOT :: "32 word" where "HANDLE_ROOT = 0xffffffff"
definition HANDLE_INGRESS :: "32 word" where "HANDLE_INGRESS = 0xfffffff1"
definition ETH_P_ALL :: "16 word" where "ETH_P_ALL = 3"

text \<open>The bucket for a rate and a burst in bits.\<close>

definition bytes_of :: "64 word \<Rightarrow> 64 word" where
  "bytes_of bits = bits div 8"

definition tbf_for :: "'w bandwidth_env \<Rightarrow> 64 word \<Rightarrow> 64 word \<Rightarrow> int \<Rightarrow> qdisc" where
  "tbf_for E rateInBits burstInBits linkIndex =
     Tbf \<lparr>qa_LinkIndex = linkIndex, qa_Handle = MakeHandle 1 0, qa_Parent = HANDLE_ROOT\<rparr>
       (be_limit E (bytes_of rateInBits) (ucast (bytes_of burstInBits)))
       (bytes_of rateInBits)
       (be_buffer E (bytes_of rateInBits) (ucast (bytes_of burstInBits)))"

definition createTBF :: "'w bandwidth_env \<Rightarrow> 64 word \<Rightarrow> 64 word \<Rightarrow> int \<Rightarrow> ('w, unit) io" where
  "createTBF E rateInBits burstInBits linkIndex =
     (if rateInBits \<le> 0 then fail (Errorf ''invalid rate'')
      else if burstInBits \<le> 0 then fail (Errorf ''invalid burst'')
      else wrap_io ''create qdisc'' (nl_QdiscAdd (be_netlink E) (tbf_for E rateInBits burstInBits linkIndex)))"

definition CreateIngressQdisc :: "'w bandwidth_env \<Rightarrow> 64 word \<Rightarrow> 64 word \<Rightarrow> string \<Rightarrow> ('w, unit) io" where
  "CreateIngressQdisc E rateInBits burstInBits hostDeviceName =
     bind_io (wrap_io ''get host device'' (nl_LinkByName (be_netlink E) hostDeviceName)) (\<lambda>hostDevice.
     createTBF E rateInBits burstInBits (lk_Index hostDevice))"

definition ingress_of :: "int \<Rightarrow> qdisc_attrs" where
  "ingress_of i = \<lparr>qa_LinkIndex = i, qa_Handle = MakeHandle 0xffff 0, qa_Parent = HANDLE_INGRESS\<rparr>"

definition redirect_filter :: "int \<Rightarrow> int \<Rightarrow> u32_filter" where
  "redirect_filter host ifb = \<lparr>uf_LinkIndex = host, uf_Parent = qa_Handle (ingress_of host), uf_Priority = 1, uf_Protocol = ETH_P_ALL,
     uf_ClassId = MakeHandle 1 1, uf_RedirIndex = ifb, uf_MirredIfindex = ifb\<rparr>"

definition CreateEgressQdisc :: "'w bandwidth_env \<Rightarrow> 64 word \<Rightarrow> 64 word \<Rightarrow> string \<Rightarrow> string \<Rightarrow> ('w, unit) io" where
  "CreateEgressQdisc E rateInBits burstInBits hostDeviceName ifbDeviceName =
     (let N = be_netlink E in
      bind_io (wrap_io ''get ifb device'' (nl_LinkByName N ifbDeviceName)) (\<lambda>ifbDevice.
      bind_io (wrap_io ''get host device'' (nl_LinkByName N hostDeviceName)) (\<lambda>hostDevice.
      bind_io (wrap_io ''create ingress qdisc'' (nl_QdiscAdd N (Ingress (ingress_of (lk_Index hostDevice))))) (\<lambda>_.
      bind_io (wrap_io ''add filter'' (nl_FilterAdd N (redirect_filter (lk_Index hostDevice) (lk_Index ifbDevice)))) (\<lambda>_.
      wrap_io ''create ifb qdisc'' (createTBF E rateInBits burstInBits (lk_Index ifbDevice)))))))"

section \<open>main.go\<close>

definition getMTU :: "'w netlink \<Rightarrow> string \<Rightarrow> ('w, int) io" where
  "getMTU N deviceName = bind_io (nl_LinkByName N deviceName) (\<lambda>link. ret (lk_MTU link))"

text \<open>The error of \<open>Do\<close> is dropped (the index is then 0), and \<open>GetVethPeerIfindex\<close> returns -1 with its error.\<close>

definition peer_index :: "'w netlink \<Rightarrow> string \<Rightarrow> netns \<Rightarrow> ('w, int) io" where
  "peer_index N containerIfName netns =
     attempt (ns_Do (nl_os N) netns (\<lambda>_. attempt (GetVethPeerIfindex N containerIfName) (\<lambda>r.
         ret (case r of Inl _ \<Rightarrow> - 1 | Inr (_, i) \<Rightarrow> i))))
       (\<lambda>r. ret (case r of Inl _ \<Rightarrow> 0 | Inr i \<Rightarrow> i))"

definition getHostInterface :: "'w netlink \<Rightarrow> iface list \<Rightarrow> string \<Rightarrow> netns \<Rightarrow> ('w, iface) io" where
  "getHostInterface N interfaces containerIfName netns =
     (if length interfaces = 0 then fail (Errorf ''no interfaces provided'')
      else bind_io (peer_index N containerIfName netns) (\<lambda>peerIndex.
        if peerIndex \<le> 0 then fail (Errorf (''container interface '' @ containerIfName @ '' has no veth peer''))
        else attempt (nl_LinkByIndex N peerIndex) (\<lambda>r.
          case r of
            Inl _ \<Rightarrow> fail (Errorf ''veth peer is not in host ns'')
          | Inr link \<Rightarrow>
              (case find (\<lambda>i. Sandbox i = '''' \<and> Name i = lk_Name link) interfaces of
                 None \<Rightarrow> fail (Errorf ''no veth peer of container interface found in host ns'')
               | Some i \<Rightarrow> ret i))))"

text \<open>The two halves of \<open>cmdAdd\<close>; the second returns the result with the new device.\<close>

definition add_ingress :: "'w bandwidth_env \<Rightarrow> bandwidth_entry \<Rightarrow> iface \<Rightarrow> ('w, unit) io" where
  "add_ingress E bw host =
     (if 0 < IngressRate bw \<and> 0 < IngressBurst bw then CreateIngressQdisc E (IngressRate bw) (IngressBurst bw) (Name host) else ret ())"

definition add_egress ::
  "'w bandwidth_env \<Rightarrow> bandwidth_conf \<Rightarrow> cmd_args \<Rightarrow> bandwidth_entry \<Rightarrow> iface \<Rightarrow> cni_result \<Rightarrow> ('w, cni_result) io" where
  "add_egress E conf args bw host result =
     (if 0 < EgressRate bw \<and> 0 < EgressBurst bw then
        bind_io (getMTU (be_netlink E) (Name host)) (\<lambda>mtu.
        bind_io (ifb_name E conf args) (\<lambda>ifb.
        bind_io (CreateIfb (be_netlink E) ifb mtu) (\<lambda>_.
        bind_io (nl_LinkByName (be_netlink E) ifb) (\<lambda>ifbDevice.
        bind_io (CreateEgressQdisc E (EgressRate bw) (EgressBurst bw) (Name host) ifb) (\<lambda>_.
        ret (result\<lparr>Interfaces := Interfaces result @
          [\<lparr>Name = ifb, Mac = mac_string (lk_HardwareAddr ifbDevice), Sandbox = ''''\<rparr>]\<rparr>))))))
      else ret result)"

definition with_container_ns :: "'w netlink \<Rightarrow> cmd_args \<Rightarrow> (netns \<Rightarrow> ('w, 'a) io) \<Rightarrow> ('w, 'a) io" where
  "with_container_ns N args f =
     bind_io (wrap_io ''failed to open netns'' (GetNS (nl_os N) (Netns args))) (\<lambda>netns.
       finally_io (f netns) (ns_Close (nl_os N) netns))"

text \<open>\<open>types.PrintResult\<close> dereferences its argument.\<close>

definition print_prev :: "'w cni_lib \<Rightarrow> cni_result option \<Rightarrow> string \<Rightarrow> ('w, unit) io" where
  "print_prev L r v = (case r of None \<Rightarrow> fail nil_deref | Some p \<Rightarrow> PrintResult L p v)"

definition bandwidth_cmdAdd :: "'w bandwidth_env \<Rightarrow> cmd_args \<Rightarrow> ('w, unit) io" where
  "bandwidth_cmdAdd E args =
     bind_io (lift_res (bandwidth_parseConfig E (StdinData args))) (\<lambda>conf.
       case getBandwidth conf of
         None \<Rightarrow> print_prev (be_lib E) (PrevResult conf) (ConfVersion conf)
       | Some bw \<Rightarrow>
           if bw_isZero bw then print_prev (be_lib E) (PrevResult conf) (ConfVersion conf)
           else (case PrevResult conf of
             None \<Rightarrow> fail (Errorf ''must be called as chained plugin'')
           | Some prev \<Rightarrow>
               bind_io (wrap_io ''could not convert result to current version'' (lift_res (NewResultFromResult (be_lib E) prev))) (\<lambda>result.
               with_container_ns (be_netlink E) args (\<lambda>netns.
                 bind_io (getHostInterface (be_netlink E) (Interfaces result) (IfName args) netns) (\<lambda>host.
                 bind_io (add_ingress E bw host) (\<lambda>_.
                 bind_io (add_egress E conf args bw host result) (\<lambda>result'.
                 PrintResult (be_lib E) result' (ConfVersion conf))))))))"

definition bandwidth_cmdDel :: "'w bandwidth_env \<Rightarrow> cmd_args \<Rightarrow> ('w, unit) io" where
  "bandwidth_cmdDel E args =
     bind_io (lift_res (bandwidth_parseConfig E (StdinData args))) (\<lambda>conf.
     bind_io (ifb_name E conf args) (\<lambda>ifb. TeardownIfb (be_netlink E) ifb))"

definition is_pfifo :: "qdisc \<Rightarrow> bool" where
  "is_pfifo q = (case q of PfifoFast _ \<Rightarrow> True | _ \<Rightarrow> False)"

definition SafeQdiscList :: "'w netlink \<Rightarrow> link \<Rightarrow> ('w, qdisc list) io" where
  "SafeQdiscList N link = bind_io (nl_QdiscList N link) (\<lambda>qdiscs. ret (filter (\<lambda>q. \<not> is_pfifo q) qdiscs))"

text \<open>The loop over the disciplines stops without an error at the first that is no token bucket.\<close>

fun check_tbfs :: "64 word \<Rightarrow> 32 word \<Rightarrow> 32 word \<Rightarrow> qdisc list \<Rightarrow> unit res" where
  "check_tbfs rate limit buffer [] = Inr ()"
| "check_tbfs rate limit buffer (q # qs) =
     (case q of
        Tbf a l r b \<Rightarrow>
          if r \<noteq> rate then Inl (Errorf ''Rate doesn't match'')
          else if l \<noteq> limit then Inl (Errorf ''Limit doesn't match'')
          else if b \<noteq> buffer then Inl (Errorf ''Buffer doesn't match'')
          else check_tbfs rate limit buffer qs
      | _ \<Rightarrow> Inr ())"

definition check_qdiscs :: "'w bandwidth_env \<Rightarrow> 64 word \<Rightarrow> 64 word \<Rightarrow> link \<Rightarrow> ('w, unit) io" where
  "check_qdiscs E rateInBits burstInBits link =
     bind_io (SafeQdiscList (be_netlink E) link) (\<lambda>qdiscs.
       if length qdiscs = 0 then fail (Errorf ''Failed to find qdisc'')
       else lift_res (check_tbfs (bytes_of rateInBits)
         (be_limit E (bytes_of rateInBits) (ucast (bytes_of burstInBits)))
         (be_buffer E (bytes_of rateInBits) (ucast (bytes_of burstInBits))) qdiscs))"

text \<open>A missing configuration of the bandwidth is a nil pointer, which \<open>cmdCheck\<close> dereferences.\<close>

definition bandwidth_cmdCheck :: "'w bandwidth_env \<Rightarrow> cmd_args \<Rightarrow> ('w, unit) io" where
  "bandwidth_cmdCheck E args =
     bind_io (lift_res (bandwidth_parseConfig E (StdinData args))) (\<lambda>bwConf.
       case PrevResult bwConf of
         None \<Rightarrow> fail (Errorf ''must be called as a chained plugin'')
       | Some prev \<Rightarrow>
           bind_io (wrap_io ''could not convert result to current version'' (lift_res (NewResultFromResult (be_lib E) prev))) (\<lambda>result.
           with_container_ns (be_netlink E) args (\<lambda>netns.
             bind_io (getHostInterface (be_netlink E) (Interfaces result) (IfName args) netns) (\<lambda>host.
             bind_io (nl_LinkByName (be_netlink E) (Name host)) (\<lambda>link.
             case getBandwidth bwConf of
               None \<Rightarrow> fail nil_deref
             | Some bw \<Rightarrow>
                 bind_io (if 0 < IngressRate bw \<and> 0 < IngressBurst bw
                          then check_qdiscs E (IngressRate bw) (IngressBurst bw) link else ret ()) (\<lambda>_.
                 if 0 < EgressRate bw \<and> 0 < EgressBurst bw then
                   bind_io (ifb_name E bwConf args) (\<lambda>ifb.
                   bind_io (wrap_io ''get ifb device'' (nl_LinkByName (be_netlink E) ifb)) (\<lambda>ifbDevice.
                   check_qdiscs E (EgressRate bw) (EgressBurst bw) ifbDevice))
                 else ret ()))))))"

section \<open>Properties\<close>

lemma parse_prev_bandwidth: "parse_prev L c = Inr (c', r) \<Longrightarrow> getBandwidth c' = getBandwidth c"
  by (auto simp: parse_prev_def getBandwidth_def split: option.splits sum.splits)

lemma validate_ok:
  assumes "validateRateAndBurst rate burst = Inr ()"
  shows "(rate = 0 \<longleftrightarrow> burst = 0) \<and> unat (ucast (bytes_of burst) :: 32 word) = unat (bytes_of burst)"
proof -
  have "burst div 8 < 0xffffffff" using assms by (auto simp: validateRateAndBurst_def not_le split: if_splits)
  then have "unat (bytes_of burst) < unat (0xffffffff :: 64 word)" by (simp add: bytes_of_def word_less_nat_alt del: unsigned_numeral)
  also have "unat (0xffffffff :: 64 word) = 4294967295" by simp
  finally have "unat (ucast (bytes_of burst) :: 32 word) = unat (bytes_of burst)"
    by (simp add: unsigned_ucast_eq take_bit_nat_eq_self)
  then show ?thesis using assms by (auto simp: validateRateAndBurst_def split: if_splits)
qed

text \<open>
  A configuration that is accepted has for each direction a rate and a burst or neither, and the burst in bytes
  is below 4 GB, so that the conversion to 32 bits loses nothing.
\<close>

theorem bandwidth_parse_ok:
  assumes "bandwidth_parseConfig E stdin = Inr conf" "getBandwidth conf = Some bw"
  shows "(IngressRate bw = 0 \<longleftrightarrow> IngressBurst bw = 0) \<and> (EgressRate bw = 0 \<longleftrightarrow> EgressBurst bw = 0)
    \<and> unat (ucast (bytes_of (IngressBurst bw)) :: 32 word) = unat (bytes_of (IngressBurst bw))
    \<and> unat (ucast (bytes_of (EgressBurst bw)) :: 32 word) = unat (bytes_of (EgressBurst bw))"
proof -
  from assms(1) obtain c r where c: "bind_res (case getBandwidth c of None \<Rightarrow> Inr ()
      | Some bw \<Rightarrow> bind_res (validateRateAndBurst (IngressRate bw) (IngressBurst bw)) (\<lambda>_.
                  validateRateAndBurst (EgressRate bw) (EgressBurst bw))) (\<lambda>_. parse_prev (be_lib E) c) = Inr (conf, r)"
    by (auto simp: bandwidth_parseConfig_def bind_res_Inr split: sum.splits)
  then have "getBandwidth c = getBandwidth conf" by (auto simp: bind_res_Inr dest!: parse_prev_bandwidth)
  with c assms(2) have "validateRateAndBurst (IngressRate bw) (IngressBurst bw) = Inr ()" "validateRateAndBurst (EgressRate bw) (EgressBurst bw) = Inr ()"
    by (auto simp: bind_res_Inr)
  from this [THEN validate_ok] show ?thesis by blast
qed

section \<open>What CHECK sees\<close>

definition is_tbf :: "qdisc \<Rightarrow> bool" where
  "is_tbf q = (case q of Tbf _ _ _ _ \<Rightarrow> True | _ \<Rightarrow> False)"

lemma is_tbf_simps [simp]: "is_tbf (Tbf a l r b)" "\<not> is_tbf (Ingress a)" "\<not> is_tbf (PfifoFast a)" "\<not> is_tbf (OtherQdisc a)"
  by (simp_all add: is_tbf_def)

text \<open>The bucket has the parameters of the one that ADD creates.\<close>

definition same_tbf :: "qdisc \<Rightarrow> qdisc \<Rightarrow> bool" where
  "same_tbf q q' \<longleftrightarrow> tbf_Rate q = tbf_Rate q' \<and> tbf_Limit q = tbf_Limit q' \<and> tbf_Buffer q = tbf_Buffer q'"

lemma check_tbfs_iff:
  "check_tbfs r l b qs = Inr () \<longleftrightarrow> (\<forall>q\<in>set (takeWhile is_tbf qs). tbf_Rate q = r \<and> tbf_Limit q = l \<and> tbf_Buffer q = b)"
proof (induction r l b qs rule: check_tbfs.induct)
  case (2 r l b q qs)
  then show ?case by (cases q) auto
qed simp

text \<open>
  C40: CHECK accepts the disciplines of a device exactly when there is one besides the default and every token
  bucket before the first discipline of another kind has the parameters of the bucket that ADD creates for the
  same configuration: the bucket of ADD alone is accepted, and so is a device whose bucket was replaced by a
  discipline of another kind.
\<close>

theorem bandwidth_check_qdiscs:
  assumes "nl_QdiscList (be_netlink E) link w = (Inr qs, w')"
  shows "fst (check_qdiscs E rate burst link w) = Inr () \<longleftrightarrow>
    (\<exists>q\<in>set qs. \<not> is_pfifo q) \<and> (\<forall>q\<in>set (takeWhile is_tbf (filter (\<lambda>q. \<not> is_pfifo q) qs)). same_tbf q (tbf_for E rate burst i))"
proof -
  let ?qs = "filter (\<lambda>q. \<not> is_pfifo q) qs"
  have "check_qdiscs E rate burst link w = (if length ?qs = 0 then fail (Errorf ''Failed to find qdisc'')
      else lift_res (check_tbfs (tbf_Rate (tbf_for E rate burst i)) (tbf_Limit (tbf_for E rate burst i)) (tbf_Buffer (tbf_for E rate burst i)) ?qs)) w'"
    by (simp add: check_qdiscs_def SafeQdiscList_def bind_io_def assms ret_def tbf_for_def)
  moreover have "fst (lift_res r v) = r" for r :: "unit res" and v :: 'a by (cases r) (simp_all add: lift_res_def ret_def fail_def)
  ultimately show ?thesis by (auto simp: check_tbfs_iff same_tbf_def fail_def filter_empty_conv)
qed

text \<open>
  Without a limit for the bandwidth ADD passes the previous result on, but no CHECK succeeds afterwards: it
  dereferences the missing configuration.
\<close>

theorem bandwidth_check_unlimited:
  assumes "bandwidth_parseConfig E (StdinData args) = Inr conf" "getBandwidth conf = None" "PrevResult conf = Some prev"
  shows "bandwidth_cmdAdd E args w = PrintResult (be_lib E) prev (ConfVersion conf) w \<and> fst (bandwidth_cmdCheck E args w) \<noteq> Inr ()"
proof
  show "bandwidth_cmdAdd E args w = PrintResult (be_lib E) prev (ConfVersion conf) w"
    by (simp add: bandwidth_cmdAdd_def assms lift_res_def bind_io_def ret_def print_prev_def)
  let ?N = "be_netlink E"
  define inside where "inside (result :: cni_result) netns = bind_io (getHostInterface ?N (Interfaces result) (IfName args) netns) (\<lambda>host.
             bind_io (nl_LinkByName ?N (Name host)) (\<lambda>link. (fail nil_deref :: ('a, unit) io)))" for result netns
  have never: "fst (bind_io m f v) \<noteq> Inr ()" if "\<And>x v. fst (f x v) \<noteq> Inr ()" for m :: "('a, 'b) io" and f :: "'b \<Rightarrow> ('a, unit) io" and v
    using that by (auto simp: bind_io_def split: sum.splits prod.splits)
  have "fst (inside r n v) \<noteq> Inr ()" for r n v
    unfolding inside_def by (auto simp: bind_io_def fail_def split: sum.splits prod.splits)
  then have "fst (with_container_ns ?N args (inside r) v) \<noteq> Inr ()" for r v
    unfolding with_container_ns_def by (auto simp: bind_io_def finally_io_def split: sum.splits prod.splits) (metis fst_conv)
  then have "fst (bind_io (wrap_io ''could not convert result to current version'' (lift_res (NewResultFromResult (be_lib E) prev)))
      (\<lambda>result. with_container_ns ?N args (inside result)) w) \<noteq> Inr ()"
    by (auto simp: bind_io_def split: sum.splits prod.splits)
  moreover have "bandwidth_cmdCheck E args w = bind_io (wrap_io ''could not convert result to current version'' (lift_res (NewResultFromResult (be_lib E) prev)))
      (\<lambda>result. with_container_ns ?N args (inside result)) w"
    unfolding bandwidth_cmdCheck_def inside_def by (simp add: assms lift_res_def bind_io_def [of "ret conf"] ret_def)
  ultimately show "fst (bandwidth_cmdCheck E args w) \<noteq> Inr ()" by simp
qed

section \<open>Witnesses\<close>

definition demo_bw_conf :: bandwidth_conf where
  "demo_bw_conf = \<lparr>ConfVersion = ''0.4.0'', ConfName = ''n'', ConfType = ''bandwidth'', ConfIPAM = '''', RawPrevResult = Some ''{}'',
     PrevResult = None, bc_Runtime = Some \<lparr>IngressRate = 8000, IngressBurst = 16000, EgressRate = 0, EgressBurst = 0\<rparr>, bc_Entry = None\<rparr>"

definition demo_bw :: "unit bandwidth_env" where
  "demo_bw = \<lparr>be_netlink = (idle_kernel (\<lambda>_. 0) (\<lambda>_ w. w))\<lparr>nl_QdiscList := \<lambda>l. ret [PfifoFast (ingress_of 1), OtherQdisc (ingress_of 1)]\<rparr>,
     be_lib = \<lparr>ParsePrevResult = \<lambda>_ _. Inr empty_result, NewResultFromResult = Inr, PrintResult = \<lambda>_ _. ret ()\<rparr>,
     be_decode = \<lambda>s. Inr (if s = '''' then demo_bw_conf else demo_bw_conf\<lparr>bc_Runtime := None\<rparr>),
     be_buffer = \<lambda>r b. b, be_limit = \<lambda>r b. b + ucast (r div 40), be_sha = \<lambda>s. replicate 128 (CHR ''0'')\<rparr>"

theorem bandwidth_parse_ok_witness:
  "\<exists>conf bw. bandwidth_parseConfig demo_bw '''' = Inr conf \<and> getBandwidth conf = Some bw \<and> IngressBurst bw = 16000
    \<and> unat (ucast (bytes_of (IngressBurst bw)) :: 32 word) = unat (bytes_of (IngressBurst bw))"
proof -
  have v: "validateRateAndBurst 8000 16000 = Inr ()" "validateRateAndBurst 0 0 = Inr ()" by code_simp+
  have p: "bandwidth_parseConfig demo_bw '''' = Inr (demo_bw_conf\<lparr>PrevResult := Some empty_result\<rparr>)"
    by (simp add: bandwidth_parseConfig_def demo_bw_def demo_bw_conf_def getBandwidth_def v parse_prev_def)
  moreover have g: "getBandwidth (demo_bw_conf\<lparr>PrevResult := Some empty_result\<rparr>) = Some \<lparr>IngressRate = 8000, IngressBurst = 16000, EgressRate = 0, EgressBurst = 0\<rparr>"
    by (simp add: getBandwidth_def demo_bw_conf_def)
  ultimately show ?thesis using bandwidth_parse_ok [OF p g] by (intro exI conjI) (assumption | simp)+
qed

theorem bandwidth_check_qdiscs_witness:
  "fst (check_qdiscs demo_bw 8000 16000 (new_link ''veth0'' Device) ()) = Inr ()"
proof -
  have l: "nl_QdiscList (be_netlink demo_bw) (new_link ''veth0'' Device) () = (Inr [PfifoFast (ingress_of 1), OtherQdisc (ingress_of 1)], ())"
    by (simp add: demo_bw_def ret_def)
  show ?thesis using bandwidth_check_qdiscs [OF l, of 8000 16000 1] by (simp add: is_pfifo_def)
qed

theorem bandwidth_check_unlimited_witness:
  "\<exists>args. fst (bandwidth_cmdAdd demo_bw args ()) = Inr () \<and> fst (bandwidth_cmdCheck demo_bw args ()) \<noteq> Inr ()"
proof -
  let ?args = "\<lparr>ContainerID = ''c1'', Netns = ''/run/netns/c1'', IfName = ''eth0'', CniArgs = [], Path = [], StdinData = ''{}''\<rparr>"
  let ?conf = "demo_bw_conf\<lparr>bc_Runtime := None, PrevResult := Some empty_result\<rparr>"
  have "bandwidth_parseConfig demo_bw (StdinData ?args) = Inr ?conf" "getBandwidth ?conf = None" "PrevResult ?conf = Some empty_result"
    by (simp_all add: bandwidth_parseConfig_def demo_bw_def demo_bw_conf_def getBandwidth_def parse_prev_def)
  from bandwidth_check_unlimited [OF this, of "()"] show ?thesis
    by (intro exI [of _ ?args]) (simp add: demo_bw_def ret_def)
qed

end
