(* ===== verification/Sbr.thy ===== *)
theory Sbr
  imports Ipam_Iface
begin

text \<open>
  \<open>plugins/meta/sbr/main.go\<close>: source based routing. ADD takes a routing table that nothing uses, adds a rule for
  each address of the container that leads to it, and moves the routes of the interface there; DEL removes the rules.
\<close>

section \<open>Configuration\<close>

definition firstTableID :: int where
  "firstTableID = 100"

text \<open>The plugin parses its previous result itself; \<open>ParsePrevResult\<close> of the library is \<open>version.NewResult\<close> here.\<close>

record sbr_conf =
  sp_CNIVersion :: string
  sp_RawPrevResult :: "string option"
  sp_PrevResult :: "cni_result option"

record 'w sbr_env =
  sp_netlink :: "'w netlink"
  sp_decode :: "string \<Rightarrow> sbr_conf res"
  sp_Marshal :: "string \<Rightarrow> string res"
  sp_lib :: "'w cni_lib"
  sp_NewLock :: "string \<Rightarrow> ('w, int) io"
  sp_Lock :: "int \<Rightarrow> ('w, unit) io"
  sp_Unlock :: "int \<Rightarrow> ('w, unit) io"

text \<open>The lock is not released when the work fails: the process ends.\<close>

definition withLockAndNetNS :: "'w sbr_env \<Rightarrow> string \<Rightarrow> (netns \<Rightarrow> ('w, unit) io) \<Rightarrow> ('w, unit) io" where
  "withLockAndNetNS E nspath toRun =
     bind_io (sp_NewLock E nspath) (\<lambda>lock.
     bind_io (sp_Lock E lock) (\<lambda>_.
     bind_io (WithNetNSPath (nl_os (sp_netlink E)) nspath toRun) (\<lambda>_.
     sp_Unlock E lock)))"

definition sbr_parseConfig :: "'w sbr_env \<Rightarrow> string \<Rightarrow> sbr_conf res" where
  "sbr_parseConfig E stdin =
     (case sp_decode E stdin of
        Inl e \<Rightarrow> Inl (Wrap ''failed to parse network configuration'' e)
      | Inr conf \<Rightarrow>
          (case sp_RawPrevResult conf of
             None \<Rightarrow> Inr conf
           | Some raw \<Rightarrow>
               (case sp_Marshal E raw of
                  Inl e \<Rightarrow> Inl (Wrap ''could not serialize prevResult'' e)
                | Inr resultBytes \<Rightarrow>
                    (case ParsePrevResult (sp_lib E) (sp_CNIVersion conf) resultBytes of
                       Inl e \<Rightarrow> Inl (Wrap ''could not parse prevResult'' e)
                     | Inr res \<Rightarrow>
                         (case NewResultFromResult (sp_lib E) res of
                            Inl e \<Rightarrow> Inl (Wrap ''could not convert result to current version'' e)
                          | Inr r \<Rightarrow> Inr (conf\<lparr>sp_RawPrevResult := None, sp_PrevResult := Some r\<rparr>))))))"

text \<open>An address belongs to the interface unless its index names another one.\<close>

definition ip_on_iface :: "string \<Rightarrow> iface list \<Rightarrow> ipconfig \<Rightarrow> bool" where
  "ip_on_iface ifc ifs c =
     (case Interface c of
        None \<Rightarrow> True
      | Some i \<Rightarrow> \<not> (0 \<le> i \<and> i < int (length ifs) \<and> Name (ifs ! nat i) \<noteq> ifc))"

definition getIPCfgs :: "string \<Rightarrow> cni_result \<Rightarrow> ipconfig list res" where
  "getIPCfgs ifc prevResult =
     (if length (IPs prevResult) = 0 then Inl (Errorf (''No IP addresses supplied on interface: '' @ ifc))
      else Inr (filter (ip_on_iface ifc (Interfaces prevResult)) (IPs prevResult)))"

section \<open>The rules and the routes\<close>

text \<open>The table is the first from 100 on that no rule and no route has.\<close>

definition table_used :: "nlrule list \<Rightarrow> nlroute list \<Rightarrow> int \<Rightarrow> bool" where
  "table_used rules routes table \<longleftrightarrow> list_ex (\<lambda>r. ru_Table r = table) rules \<or> list_ex (\<lambda>r. rt_Table r = table) routes"

lemma table_used_iff: "table_used rules routes t \<longleftrightarrow> t \<in> ru_Table ` set rules \<union> rt_Table ` set routes"
  by (auto simp: table_used_def list_ex_iff)

function next_table :: "nlrule list \<Rightarrow> nlroute list \<Rightarrow> int \<Rightarrow> int" where
  "next_table rules routes table = (if table_used rules routes table then next_table rules routes (table + 1) else table)"
  by auto

termination
proof (relation "measure (\<lambda>(rules, routes, t). card {u \<in> ru_Table ` set rules \<union> rt_Table ` set routes. t \<le> u})")
  fix rules :: "nlrule list" and routes :: "nlroute list" and t :: int
  let ?U = "\<lambda>s. {u \<in> ru_Table ` set rules \<union> rt_Table ` set routes. s \<le> u}"
  assume "table_used rules routes t"
  then have "t \<in> ?U t - ?U (t + 1)" "?U (t + 1) \<subseteq> ?U t" by (auto simp: table_used_iff)
  then have "?U (t + 1) \<subset> ?U t" by blast
  moreover have "finite (?U t)" by simp
  ultimately have "card (?U (t + 1)) < card (?U t)" by (rule psubset_card_mono [rotated])
  then show "((rules, routes, t + 1), (rules, routes, t)) \<in> measure (\<lambda>(rules, routes, t). card {u \<in> ru_Table ` set rules \<union> rt_Table ` set routes. t \<le> u})"
    by simp
qed simp

declare next_table.simps [simp del]

definition source_net :: "ipconfig \<Rightarrow> ipnet" where
  "source_net c = \<lparr>net_ip = net_ip (Address c), net_mask = (if Version c = ''4'' then CIDRMask 32 32 else CIDRMask 128 128)\<rparr>"

definition source_rule :: "int \<Rightarrow> ipconfig \<Rightarrow> nlrule" where
  "source_rule table c = NewRule\<lparr>ru_Table := table, ru_Src := Some (source_net c)\<rparr>"

definition default_dst :: "ipconfig \<Rightarrow> ipnet" where
  "default_dst c = (if Version c = ''4'' then \<lparr>net_ip = v4InV6Prefix @ [0, 0, 0, 0], net_mask = CIDRMask 0 32\<rparr>
     else \<lparr>net_ip = replicate 16 0, net_mask = CIDRMask 0 128\<rparr>)"

definition default_route :: "int \<Rightarrow> int \<Rightarrow> ipconfig \<Rightarrow> nlroute" where
  "default_route table linkIndex c = (new_route linkIndex (Some (default_dst c)) (IPGateway c))\<lparr>rt_Table := table\<rparr>"

definition sbr_source :: "'w netlink \<Rightarrow> int \<Rightarrow> int \<Rightarrow> ipconfig \<Rightarrow> ('w, unit) io" where
  "sbr_source N table linkIndex c =
     bind_io (wrap_io ''Failed to add rule'' (nl_RuleAdd N (source_rule table c))) (\<lambda>_.
     if IPGateway c \<noteq> [] then wrap_io ''Failed to add default route'' (nl_RouteAdd N (default_route table linkIndex c)) else ret ())"

definition move_route :: "'w netlink \<Rightarrow> int \<Rightarrow> nlroute \<Rightarrow> ('w, unit) io" where
  "move_route N table r =
     bind_io (wrap_io ''Failed to delete route'' (nl_RouteDel N r)) (\<lambda>_.
     wrap_io ''Failed to readd route'' (nl_RouteReplace N (r\<lparr>rt_Table := table, rt_Flags := 0\<rparr>)))"

definition doRoutes :: "'w netlink \<Rightarrow> ipconfig list \<Rightarrow> string \<Rightarrow> ('w, unit) io" where
  "doRoutes N ipCfgs ifc =
     bind_io (wrap_io ''Failed to list all rules'' (nl_RuleList N FAMILY_ALL)) (\<lambda>rules.
     bind_io (wrap_io ''Failed to list all routes'' (nl_RouteList N None FAMILY_ALL)) (\<lambda>routes.
     bind_io (wrap_io (''Cannot find network interface '' @ ifc) (nl_LinkByName N ifc)) (\<lambda>link.
     bind_io (each_io (sbr_source N (next_table rules routes firstTableID) (lk_Index link)) ipCfgs) (\<lambda>_.
     bind_io (wrap_io ''Unable to list routes'' (nl_RouteList N (Some link) FAMILY_ALL)) (\<lambda>moved.
     each_io (move_route N (next_table rules routes firstTableID)) moved)))))"

definition rule_of_addr :: "nladdr list \<Rightarrow> nlrule \<Rightarrow> bool" where
  "rule_of_addr addrs r =
     (case ru_Src r of None \<Rightarrow> False | Some src \<Rightarrow> list_ex (\<lambda>a. ip_equal (net_ip src) (net_ip (ad_IPNet a))) addrs)"

text \<open>The loop goes on after a failure and returns the last one.\<close>

fun tidy_loop :: "'w netlink \<Rightarrow> nladdr list \<Rightarrow> nlrule list \<Rightarrow> error option \<Rightarrow> ('w, unit) io" where
  "tidy_loop N addrs [] err = (case err of None \<Rightarrow> ret () | Some e \<Rightarrow> fail e)"
| "tidy_loop N addrs (r # rs) err =
     (if rule_of_addr addrs r then
        attempt (nl_RuleDel N r) (\<lambda>x. tidy_loop N addrs rs (case x of Inl e \<Rightarrow> Some (Wrap ''Failed to delete rule'' e) | Inr _ \<Rightarrow> err))
      else tidy_loop N addrs rs err)"

definition tidyRules :: "'w netlink \<Rightarrow> string \<Rightarrow> ('w, unit) io" where
  "tidyRules N ifc =
     bind_io (wrap_io ''Failed to list all rules to tidy'' (nl_RuleList N FAMILY_ALL)) (\<lambda>rules.
     bind_io (wrap_io (''Failed to get link '' @ ifc) (nl_LinkByName N ifc)) (\<lambda>link.
     bind_io (wrap_io ''Failed to list all addrs'' (nl_AddrList N link FAMILY_ALL)) (\<lambda>addrs.
     tidy_loop N addrs rules None)))"

section \<open>The commands\<close>

definition sbr_cmdAdd :: "'w sbr_env \<Rightarrow> cmd_args \<Rightarrow> ('w, unit) io" where
  "sbr_cmdAdd E args =
     bind_io (lift_res (sbr_parseConfig E (StdinData args))) (\<lambda>conf.
       case sp_PrevResult conf of
         None \<Rightarrow> fail (Errorf ''This plugin must be called as chained plugin'')
       | Some prev \<Rightarrow>
           bind_io (lift_res (getIPCfgs (IfName args) prev)) (\<lambda>ipCfgs.
           bind_io (withLockAndNetNS E (Netns args) (\<lambda>_. doRoutes (sp_netlink E) ipCfgs (IfName args))) (\<lambda>_.
           PrintResult (sp_lib E) prev (sp_CNIVersion conf))))"

definition sbr_cmdDel :: "'w sbr_env \<Rightarrow> cmd_args \<Rightarrow> ('w, unit) io" where
  "sbr_cmdDel E args =
     bind_io (lift_res (sbr_parseConfig E (StdinData args))) (\<lambda>_.
     withLockAndNetNS E (Netns args) (\<lambda>_. tidyRules (sp_netlink E) (IfName args)))"

definition sbr_cmdCheck :: "'w sbr_env \<Rightarrow> cmd_args \<Rightarrow> ('w, unit) io" where
  "sbr_cmdCheck E args = ret ()"

section \<open>The search for a table\<close>

text \<open>The search ends with the first table from the start on that neither a rule nor a listed route has.\<close>

lemma sbr_search:
  "s \<le> next_table rules routes s \<and> \<not> table_used rules routes (next_table rules routes s)
    \<and> (\<forall>u. s \<le> u \<and> u < next_table rules routes s \<longrightarrow> table_used rules routes u)"
proof (induction rules routes s rule: next_table.induct)
  case (1 rules routes s)
  show ?case
  proof (cases "table_used rules routes s")
    case True
    note IH = 1 [OF True]
    have "next_table rules routes s = next_table rules routes (s + 1)" by (subst next_table.simps) (simp add: True)
    moreover have "\<forall>u. s \<le> u \<and> u < next_table rules routes (s + 1) \<longrightarrow> table_used rules routes u"
      using IH True by (metis order_le_less zless_imp_add1_zle)
    ultimately show ?thesis using IH by auto
  next
    case False
    then have "next_table rules routes s = s" by (subst next_table.simps) simp
    then show ?thesis using False by auto
  qed
qed

section \<open>Rules and routes after the calls\<close>

definition RT_TABLE_MAIN :: int where
  "RT_TABLE_MAIN = 254"

text \<open>
  \<open>rules w\<close> and \<open>routes w\<close> are those of the namespace. The listing of the routes has the main table only
  (\<open>RouteListFiltered\<close> leaves out the others unless it filters on the table); a replacement may take the place of
  routes with the same destination in the same table.
\<close>

definition route_store :: "'w netlink \<Rightarrow> ('w \<Rightarrow> nlrule set) \<Rightarrow> ('w \<Rightarrow> nlroute set) \<Rightarrow> bool" where
  "route_store N rules routes \<longleftrightarrow>
     (\<forall>w rs w'. nl_RuleList N FAMILY_ALL w = (Inr rs, w') \<longrightarrow> set rs = rules w \<and> rules w' = rules w \<and> routes w' = routes w)
   \<and> (\<forall>lo w rs w'. nl_RouteList N lo FAMILY_ALL w = (Inr rs, w') \<longrightarrow>
        set rs = {r \<in> routes w. rt_Table r = RT_TABLE_MAIN \<and> (\<forall>l. lo = Some l \<longrightarrow> rt_LinkIndex r = lk_Index l)}
        \<and> rules w' = rules w \<and> routes w' = routes w)
   \<and> (\<forall>n w l w'. nl_LinkByName N n w = (Inr l, w') \<longrightarrow> rules w' = rules w \<and> routes w' = routes w)
   \<and> (\<forall>l w as w'. nl_AddrList N l FAMILY_ALL w = (Inr as, w') \<longrightarrow> rules w' = rules w)
   \<and> (\<forall>r w w'. nl_RuleAdd N r w = (Inr (), w') \<longrightarrow> rules w' = insert r (rules w) \<and> routes w' = routes w)
   \<and> (\<forall>r w w'. nl_RuleDel N r w = (Inr (), w') \<longrightarrow> rules w' = rules w - {r})
   \<and> (\<forall>r w w'. nl_RouteAdd N r w = (Inr (), w') \<longrightarrow> rules w' = rules w \<and> routes w' = insert r (routes w))
   \<and> (\<forall>r w w'. nl_RouteDel N r w = (Inr (), w') \<longrightarrow> rules w' = rules w \<and> routes w' = routes w - {r})
   \<and> (\<forall>r w w'. nl_RouteReplace N r w = (Inr (), w') \<longrightarrow> rules w' = rules w
        \<and> (\<exists>old. routes w' = insert r (routes w - old) \<and> (\<forall>x\<in>old. rt_Table x = rt_Table r \<and> rt_Dst x = rt_Dst r)))"

lemmas store_RuleList = route_store_def [THEN iffD1, THEN conjunct1, rule_format]
lemmas store_RouteList = route_store_def [THEN iffD1, THEN conjunct2, THEN conjunct1, rule_format]
lemmas store_LinkByName = route_store_def [THEN iffD1, THEN conjunct2, THEN conjunct2, THEN conjunct1, rule_format]
lemmas store_AddrList = route_store_def [THEN iffD1, THEN conjunct2, THEN conjunct2, THEN conjunct2, THEN conjunct1, rule_format]
lemmas store_RuleAdd = route_store_def [THEN iffD1, THEN conjunct2, THEN conjunct2, THEN conjunct2, THEN conjunct2, THEN conjunct1, rule_format]
lemmas store_RuleDel = route_store_def [THEN iffD1, THEN conjunct2, THEN conjunct2, THEN conjunct2, THEN conjunct2, THEN conjunct2, THEN conjunct1, rule_format]
lemmas store_RouteAdd = route_store_def [THEN iffD1, THEN conjunct2, THEN conjunct2, THEN conjunct2, THEN conjunct2, THEN conjunct2, THEN conjunct2, THEN conjunct1, rule_format]
lemmas store_RouteDel = route_store_def [THEN iffD1, THEN conjunct2, THEN conjunct2, THEN conjunct2, THEN conjunct2, THEN conjunct2, THEN conjunct2, THEN conjunct2, THEN conjunct1, rule_format]
lemmas store_RouteReplace = route_store_def [THEN iffD1, THEN conjunct2, THEN conjunct2, THEN conjunct2, THEN conjunct2, THEN conjunct2, THEN conjunct2, THEN conjunct2, THEN conjunct2, rule_format]

lemma route_storeD:
  assumes "route_store N rules routes"
  shows "nl_RuleList N FAMILY_ALL w = (Inr rs, w') \<Longrightarrow> set rs = rules w \<and> rules w' = rules w \<and> routes w' = routes w"
    "nl_RouteList N lo FAMILY_ALL w = (Inr rt, w') \<Longrightarrow>
      set rt = {r \<in> routes w. rt_Table r = RT_TABLE_MAIN \<and> (\<forall>l. lo = Some l \<longrightarrow> rt_LinkIndex r = lk_Index l)}
      \<and> rules w' = rules w \<and> routes w' = routes w"
    "nl_LinkByName N n w = (Inr l, w') \<Longrightarrow> rules w' = rules w \<and> routes w' = routes w"
    "nl_AddrList N l FAMILY_ALL w = (Inr as, w') \<Longrightarrow> rules w' = rules w"
    "nl_RuleAdd N ru w = (Inr (), w') \<Longrightarrow> rules w' = insert ru (rules w) \<and> routes w' = routes w"
    "nl_RuleDel N ru w = (Inr (), w') \<Longrightarrow> rules w' = rules w - {ru}"
    "nl_RouteAdd N r w = (Inr (), w') \<Longrightarrow> rules w' = rules w \<and> routes w' = insert r (routes w)"
    "nl_RouteDel N r w = (Inr (), w') \<Longrightarrow> rules w' = rules w \<and> routes w' = routes w - {r}"
    "nl_RouteReplace N r w = (Inr (), w') \<Longrightarrow> rules w' = rules w
      \<and> (\<exists>old. routes w' = insert r (routes w - old) \<and> (\<forall>x\<in>old. rt_Table x = rt_Table r \<and> rt_Dst x = rt_Dst r))"
proof -
  show "nl_RuleList N FAMILY_ALL w = (Inr rs, w') \<Longrightarrow> set rs = rules w \<and> rules w' = rules w \<and> routes w' = routes w"
    by (erule store_RuleList [OF assms])
  show "nl_RouteList N lo FAMILY_ALL w = (Inr rt, w') \<Longrightarrow>
      set rt = {r \<in> routes w. rt_Table r = RT_TABLE_MAIN \<and> (\<forall>l. lo = Some l \<longrightarrow> rt_LinkIndex r = lk_Index l)}
      \<and> rules w' = rules w \<and> routes w' = routes w"
    by (erule store_RouteList [OF assms])
  show "nl_LinkByName N n w = (Inr l, w') \<Longrightarrow> rules w' = rules w \<and> routes w' = routes w"
    by (erule store_LinkByName [OF assms])
  show "nl_AddrList N l FAMILY_ALL w = (Inr as, w') \<Longrightarrow> rules w' = rules w"
    by (erule store_AddrList [OF assms])
  show "nl_RuleAdd N ru w = (Inr (), w') \<Longrightarrow> rules w' = insert ru (rules w) \<and> routes w' = routes w"
    by (erule store_RuleAdd [OF assms])
  show "nl_RuleDel N ru w = (Inr (), w') \<Longrightarrow> rules w' = rules w - {ru}"
    by (erule store_RuleDel [OF assms])
  show "nl_RouteAdd N r w = (Inr (), w') \<Longrightarrow> rules w' = rules w \<and> routes w' = insert r (routes w)"
    by (erule store_RouteAdd [OF assms])
  show "nl_RouteDel N r w = (Inr (), w') \<Longrightarrow> rules w' = rules w \<and> routes w' = routes w - {r}"
    by (erule store_RouteDel [OF assms])
  show "nl_RouteReplace N r w = (Inr (), w') \<Longrightarrow> rules w' = rules w
      \<and> (\<exists>old. routes w' = insert r (routes w - old) \<and> (\<forall>x\<in>old. rt_Table x = rt_Table r \<and> rt_Dst x = rt_Dst r))"
    by (erule store_RouteReplace [OF assms])
qed

lemma sbr_sources:
  assumes S: "route_store N rules routes" and "each_io (sbr_source N t i) cs w = (Inr (), w')"
  shows "rules w' = rules w \<union> source_rule t ` set cs
    \<and> routes w' = routes w \<union> default_route t i ` {c \<in> set cs. IPGateway c \<noteq> []}"
  using assms(2)
proof (induction cs arbitrary: w)
  case (Cons c cs)
  then obtain w1 where w1: "sbr_source N t i c w = (Inr (), w1)" "each_io (sbr_source N t i) cs w1 = (Inr (), w')"
    by (auto elim: bind_io_InrE)
  from w1(1) obtain w0 where w0: "nl_RuleAdd N (source_rule t c) w = (Inr (), w0)"
    and w2: "(if IPGateway c \<noteq> [] then wrap_io ''Failed to add default route'' (nl_RouteAdd N (default_route t i c)) else ret ()) w0 = (Inr (), w1)"
    unfolding sbr_source_def by (auto elim!: bind_io_InrE dest: wrap_io_InrE)
  have "rules w1 = rules w0 \<and> routes w1 = (if IPGateway c \<noteq> [] then insert (default_route t i c) (routes w0) else routes w0)"
    using w2 route_storeD(7) [OF S, of "default_route t i c" w0 w1] by (auto simp: ret_def dest!: wrap_io_InrE split: if_splits)
  with route_storeD(5) [OF S w0] Cons.IH [OF w1(2)] show ?case by (auto split: if_splits)
qed (simp add: ret_def)

text \<open>Moving routes: the other tables lose exactly the routes moved, and each destination has a route in the table.\<close>

lemma move_routes:
  assumes S: "route_store N rules routes" and ms: "\<forall>m\<in>set ms. rt_Table m \<noteq> t \<and> rt_LinkIndex m = i"
    and run: "each_io (move_route N t) ms w = (Inr (), w')"
  shows "rules w' = rules w \<and> (\<forall>r. rt_Table r \<noteq> t \<longrightarrow> (r \<in> routes w' \<longleftrightarrow> r \<in> routes w \<and> r \<notin> set ms))
    \<and> (\<forall>d. (\<exists>x\<in>routes w \<union> set ms. (rt_Table x = t \<or> x \<in> set ms) \<and> rt_Dst x = d \<and> rt_LinkIndex x = i)
         \<longrightarrow> (\<exists>x\<in>routes w'. rt_Table x = t \<and> rt_Dst x = d \<and> rt_LinkIndex x = i))"
  using ms run
proof (induction ms arbitrary: w)
  case (Cons m ms)
  let ?m' = "m\<lparr>rt_Table := t, rt_Flags := 0\<rparr>"
  from Cons.prems(2) obtain w2 where w2: "move_route N t m w = (Inr (), w2)" "each_io (move_route N t) ms w2 = (Inr (), w')"
    by (auto elim: bind_io_InrE)
  from w2(1) obtain w1 where w1: "nl_RouteDel N m w = (Inr (), w1)" "nl_RouteReplace N ?m' w1 = (Inr (), w2)"
    unfolding move_route_def by (auto elim!: bind_io_InrE dest!: wrap_io_InrE)
  note del = route_storeD(8) [OF S w1(1)]
  from route_storeD(9) [OF S w1(2)] obtain old where old: "rules w2 = rules w1" "routes w2 = insert ?m' (routes w1 - old)"
    "\<forall>x\<in>old. rt_Table x = t \<and> rt_Dst x = rt_Dst m" by auto
  have mt: "rt_Table m \<noteq> t" "rt_LinkIndex m = i" using Cons.prems(1) by auto
  have IH: "rules w' = rules w2 \<and> (\<forall>r. rt_Table r \<noteq> t \<longrightarrow> (r \<in> routes w' \<longleftrightarrow> r \<in> routes w2 \<and> r \<notin> set ms))
    \<and> (\<forall>d. (\<exists>x\<in>routes w2 \<union> set ms. (rt_Table x = t \<or> x \<in> set ms) \<and> rt_Dst x = d \<and> rt_LinkIndex x = i)
         \<longrightarrow> (\<exists>x\<in>routes w'. rt_Table x = t \<and> rt_Dst x = d \<and> rt_LinkIndex x = i))"
    using Cons.IH [OF _ w2(2)] Cons.prems(1) by simp
  have other: "r \<in> routes w2 \<longleftrightarrow> r \<in> routes w \<and> r \<noteq> m" if "rt_Table r \<noteq> t" for r
  proof -
    have "r \<noteq> ?m'" "r \<notin> old" using that old(3) by auto
    then show ?thesis using old(2) del by auto
  qed
  have keep: "\<exists>x\<in>routes w2 \<union> set ms. (rt_Table x = t \<or> x \<in> set ms) \<and> rt_Dst x = d \<and> rt_LinkIndex x = i"
    if "x \<in> routes w \<union> set (m # ms)" "rt_Table x = t \<or> x \<in> set (m # ms)" "rt_Dst x = d" "rt_LinkIndex x = i" for x d
  proof (cases "x = m \<or> x \<in> old")
    case True
    then have "rt_Dst ?m' = d" using that(3) old(3) by auto
    then show ?thesis using old(2) mt by (intro bexI [of _ ?m']) auto
  next
    case False
    then show ?thesis using that old(2) del mt by (intro bexI [of _ x]) auto
  qed
  have "\<forall>r. rt_Table r \<noteq> t \<longrightarrow> (r \<in> routes w' \<longleftrightarrow> r \<in> routes w \<and> r \<notin> set (m # ms))" using IH other by auto
  moreover have "rules w' = rules w" using IH old(1) del by simp
  moreover have "\<forall>d. (\<exists>x\<in>routes w \<union> set (m # ms). (rt_Table x = t \<or> x \<in> set (m # ms)) \<and> rt_Dst x = d \<and> rt_LinkIndex x = i)
         \<longrightarrow> (\<exists>x\<in>routes w'. rt_Table x = t \<and> rt_Dst x = d \<and> rt_LinkIndex x = i)"
  proof (intro allI impI, elim bexE conjE)
    fix d x assume x: "x \<in> routes w \<union> set (m # ms)" "rt_Table x = t \<or> x \<in> set (m # ms)" "rt_Dst x = d" "rt_LinkIndex x = i"
    show "\<exists>x\<in>routes w'. rt_Table x = t \<and> rt_Dst x = d \<and> rt_LinkIndex x = i" using IH keep [OF x] by simp
  qed
  ultimately show ?case by simp
qed (auto simp: ret_def)

lemma sbr_moved:
  assumes "route_store N rules routes" "\<exists>r\<in>rules w. ru_Table r = RT_TABLE_MAIN" "doRoutes N cfgs ifc w = (Inr (), w')"
  shows "\<exists>table i. firstTableID \<le> table \<and> (\<forall>r\<in>rules w. ru_Table r \<noteq> table)
    \<and> rules w' = rules w \<union> source_rule table ` set cfgs
    \<and> (\<forall>r\<in>routes w'. rt_Table r = RT_TABLE_MAIN \<longrightarrow> rt_LinkIndex r \<noteq> i)
    \<and> (\<forall>r\<in>routes w. rt_Table r = RT_TABLE_MAIN \<and> rt_LinkIndex r = i
         \<longrightarrow> (\<exists>x\<in>routes w'. rt_Table x = table \<and> rt_Dst x = rt_Dst r \<and> rt_LinkIndex x = i))
    \<and> (\<forall>r. rt_Table r \<noteq> table \<and> rt_LinkIndex r \<noteq> i \<longrightarrow> (r \<in> routes w' \<longleftrightarrow> r \<in> routes w))"
proof -
  note S = assms(1)
  from assms(3) obtain ru rt wa w1 link wb wc wd moved where st: "nl_RuleList N FAMILY_ALL w = (Inr ru, wa)"
    "nl_RouteList N None FAMILY_ALL wa = (Inr rt, w1)" and link: "nl_LinkByName N ifc w1 = (Inr link, wb)"
    and src: "each_io (sbr_source N (next_table ru rt firstTableID) (lk_Index link)) cfgs wb = (Inr (), wc)"
    and lst: "nl_RouteList N (Some link) FAMILY_ALL wc = (Inr moved, wd)"
    and mv: "each_io (move_route N (next_table ru rt firstTableID)) moved wd = (Inr (), w')"
    unfolding doRoutes_def by (auto elim!: bind_io_InrE dest!: wrap_io_InrE)
  let ?t = "next_table ru rt firstTableID"
  from route_storeD(1) [OF S st(1)] route_storeD(2) [OF S st(2)]
  have ru: "set ru = rules w" and w1: "rules w1 = rules w" "routes w1 = routes w" by auto
  have t: "firstTableID \<le> ?t" "\<not> table_used ru rt ?t" using sbr_search [of firstTableID ru rt] by simp_all
  then have free: "\<forall>r\<in>rules w. ru_Table r \<noteq> ?t" unfolding table_used_iff ru by (metis UnI1 image_eqI)
  then have main: "?t \<noteq> RT_TABLE_MAIN" using assms(2) by auto
  let ?i = "lk_Index link"
  note src' = sbr_sources [OF S src] and link' = route_storeD(3) [OF S link] and lst' = route_storeD(2) [OF S lst]
  have ms: "\<forall>m\<in>set moved. rt_Table m \<noteq> ?t \<and> rt_LinkIndex m = ?i" using lst' main by auto
  note mv' = move_routes [OF S ms mv]
  have def: "rt_Table (default_route ?t ?i c) = ?t" for c by (simp add: default_route_def)
  have wd: "r \<in> routes wd \<longleftrightarrow> r \<in> routes w" if "rt_Table r \<noteq> ?t" for r
    using that lst' src' link' w1 def by auto
  have moved: "set moved = {r \<in> routes w. rt_Table r = RT_TABLE_MAIN \<and> rt_LinkIndex r = ?i}"
    using lst' src' link' w1 def main by auto
  have "rules w' = rules w \<union> source_rule ?t ` set cfgs" using mv' lst' src' link' w1 by simp
  moreover have "\<forall>r\<in>routes w'. rt_Table r = RT_TABLE_MAIN \<longrightarrow> rt_LinkIndex r \<noteq> ?i" using mv' moved wd main by auto
  moreover have "\<forall>r\<in>routes w. rt_Table r = RT_TABLE_MAIN \<and> rt_LinkIndex r = ?i
         \<longrightarrow> (\<exists>x\<in>routes w'. rt_Table x = ?t \<and> rt_Dst x = rt_Dst r \<and> rt_LinkIndex x = ?i)" using mv' moved by blast
  moreover have "\<forall>r. rt_Table r \<noteq> ?t \<and> rt_LinkIndex r \<noteq> ?i \<longrightarrow> (r \<in> routes w' \<longleftrightarrow> r \<in> routes w)" using mv' moved wd by auto
  ultimately show ?thesis using t(1) free by blast
qed

lemma sbr_moved_rules:
  assumes "route_store N rules routes" "\<exists>r\<in>rules w. ru_Table r = RT_TABLE_MAIN" "doRoutes N cfgs ifc w = (Inr (), w')"
  shows "\<exists>table. rules w' = rules w \<union> source_rule table ` set cfgs"
  using sbr_moved [OF assms] by blast


section \<open>DEL after ADD\<close>

lemma tidy_loop_rules:
  assumes S: "route_store N rules routes" and "tidy_loop N addrs rs err w = (Inr (), w')"
  shows "rules w' = rules w - {r \<in> set rs. rule_of_addr addrs r} \<and> err = None"
  using assms(2)
proof (induction rs arbitrary: w err)
  case Nil
  then show ?case by (auto simp: ret_def fail_def split: option.splits)
next
  case (Cons r rs)
  show ?case
  proof (cases "rule_of_addr addrs r")
    case False
    then show ?thesis using Cons by auto
  next
    case True
    obtain x w1 where d: "nl_RuleDel N r w = (x, w1)" by fastforce
    have "tidy_loop N addrs rs (case x of Inl e \<Rightarrow> Some (Wrap ''Failed to delete rule'' e) | Inr _ \<Rightarrow> err) w1 = (Inr (), w')"
      using Cons.prems True d by (cases x) (auto simp: attempt_def split: if_splits)
    from Cons.IH [OF this] obtain u where "x = Inr u" "err = None" "rules w' = rules w1 - {r \<in> set rs. rule_of_addr addrs r}"
      by (cases x) auto
    moreover from this d have "rules w1 = rules w - {r}" using route_storeD(6) [OF S, of r w w1] by simp
    ultimately show ?thesis using True by auto
  qed
qed

lemma source_rule_of_addr:
  "ip_equal (net_ip (Address c)) (net_ip (ad_IPNet a)) \<Longrightarrow> a \<in> set addrs \<Longrightarrow> rule_of_addr addrs (source_rule t c)"
  by (auto simp: rule_of_addr_def source_rule_def source_net_def list_ex_iff)


section \<open>Witnesses\<close>

type_synonym demo_sbr_tables = "nlrule list \<times> nlroute list"

definition demo_sbr :: "demo_sbr_tables netlink" where
  "demo_sbr = (idle_kernel (\<lambda>_. 0) (\<lambda>_ w. w))\<lparr>
     nl_RuleList := \<lambda>f w. (Inr (fst w), w),
     nl_RouteList := \<lambda>lo f w. (Inr (filter (\<lambda>r. rt_Table r = RT_TABLE_MAIN \<and> (case lo of None \<Rightarrow> True | Some l \<Rightarrow> rt_LinkIndex r = lk_Index l)) (snd w)), w),
     nl_AddrList := \<lambda>l f. ret [\<lparr>ad_IPNet = \<lparr>net_ip = [10, 1, 0, 5], net_mask = [255, 255, 255, 0]\<rparr>, ad_Flags = 0\<rparr>],
     nl_RuleAdd := \<lambda>r w. (Inr (), (r # fst w, snd w)), nl_RuleDel := \<lambda>r w. (Inr (), (removeAll r (fst w), snd w)),
     nl_RouteAdd := \<lambda>r w. (Inr (), (fst w, r # snd w)), nl_RouteDel := \<lambda>r w. (Inr (), (fst w, removeAll r (snd w))),
     nl_RouteReplace := \<lambda>r w. (Inr (), (fst w, r # snd w))\<rparr>"

lemma demo_route_store: "route_store demo_sbr (\<lambda>w. set (fst w)) (\<lambda>w. set (snd w))"
  unfolding route_store_def by (auto simp: demo_sbr_def idle_kernel_def ret_def split: option.splits)

definition demo_source :: ipconfig where
  "demo_source = \<lparr>Version = ''4'', Interface = None, Address = \<lparr>net_ip = [10, 1, 0, 5], net_mask = [255, 255, 255, 0]\<rparr>, IPGateway = [10, 1, 0, 1]\<rparr>"

definition demo_tables0 :: demo_sbr_tables where
  "demo_tables0 = ([NewRule\<lparr>ru_Table := RT_TABLE_MAIN\<rparr>],
     [(new_route 1 (Some \<lparr>net_ip = [10, 1, 0, 0], net_mask = [255, 255, 255, 0]\<rparr>) [])\<lparr>rt_Table := RT_TABLE_MAIN\<rparr>])"

lemma demo_doRoutes: "\<exists>w1. doRoutes demo_sbr [demo_source] ''eth0'' demo_tables0 = (Inr (), w1)"
proof -
  have "next_table [NewRule\<lparr>ru_Table := RT_TABLE_MAIN\<rparr>] rt 100 = 100"
    if "rt = [(new_route 1 d [])\<lparr>rt_Table := RT_TABLE_MAIN\<rparr>]" for rt d
    by (subst next_table.simps) (simp add: that table_used_def NewRule_def RT_TABLE_MAIN_def new_route_def)
  then show ?thesis
    by (simp add: doRoutes_def demo_sbr_def demo_tables0_def io_defs firstTableID_def idle_kernel_def sbr_source_def move_route_def
      default_route_def new_route_def RT_TABLE_MAIN_def)
qed



end
