(* ===== verification/Spec2Isabelle.thy ===== *)
theory Spec2Isabelle
  imports Range_Props Portmap_Props Firewall_Props Vrf Village_Props Dhcp_Props Village_Cluster Village_Ipam_Main Controller_Props Dhcp_Daemon_Props Tuning_Props Static_Ipam Bandwidth Sbr
begin

text \<open>
  A model of \<open>village-net\<close>: a set of CNI plugins in Go, most of them those of the CNI project, with a main plugin
  (\<open>village\<close>), an address plugin (\<open>village-ipam\<close>) and a node daemon (the controller) of its own.

  The program. A container runtime calls a plugin with ADD, CHECK or DEL, the arguments of the container and a
  network configuration. The main plugin \<open>village\<close> runs an IPAM plugin (\<open>host-local\<close>, \<open>dhcp\<close>, \<open>static\<close>,
  \<open>village-ipam\<close>), which gives the addresses, splits the result, and makes the interfaces of the container with two
  controllers, one for a bridge and one for macvlan. Chained plugins then work on the result of the one before:
  \<open>portmap\<close>, \<open>firewall\<close>, \<open>tuning\<close>, \<open>bandwidth\<close>, \<open>sbr\<close>, \<open>vrf\<close>. They share \<open>pkg/ip\<close>, \<open>pkg/ns\<close>,
  \<open>pkg/ipam\<close> and \<open>pkg/utils\<close>. The controller publishes the network of its node in etcd and adds the routes to the
  other nodes.

  The style of the model. A Go function is a function with the same name (with the prefix of its plugin where names
  collide, as in \<open>vrf_cmdAdd\<close>), its early returns are the branches of the definition. An error is a value of the
  type \<open>error\<close>, a fallible function returns a sum; a run-time panic is an error that no \<open>if err != nil\<close> catches. What
  the code calls and this repository does not contain (the kernel through netlink, iptables, the bus of firewalld,
  the file system, the API server, etcd, JSON, the DHCP packets, clocks) is a record of operations on an environment of
  any type; a theorem that needs a law of such a call assumes it by name (\<open>os_ok\<close>, \<open>link_store\<close>, \<open>route_store\<close>,
  \<open>clock_ok\<close> and the like), and its witness gives an environment that has it. Words have the width of the code where
  it computes with them; Go's \<open>int\<close> is an unbounded integer where the values of the code stay small.

  The theories, from the ground up.

  \<^item> \<open>Prelude\<close>: errors, results, calls on an environment, the monad of the handlers with its rules.
  \<^item> Standard library: \<open>Go_Net\<close>, \<open>Go_Text\<close>, \<open>Go_Mac\<close> (addresses, masks, numbers, their texts), with \<open>Go_Roundtrip\<close>
    (parsing reads back what is printed), \<open>Go_Masks\<close> and \<open>Go_Cidr\<close> (the networks of masks are intervals).
  \<^item> \<open>Cni_Types\<close>, \<open>Cni_Rpc\<close>: the data plugins exchange, the call of a daemon over a socket.
  \<^item> Shared packages: \<open>Ip_Cidr\<close> (\<open>pkg/ip/cidr.go\<close>), \<open>Utils\<close> and \<open>Sysctl\<close> (\<open>pkg/utils\<close>), \<open>Ns\<close> (\<open>pkg/ns\<close>: a function
    run in a namespace leaves the caller's threads in theirs), \<open>Netlink\<close> (the kernel), \<open>Ip_Link\<close> (links, routes,
    waiting for addresses, forwarding, masquerading of \<open>pkg/ip\<close>), \<open>Ipam_Iface\<close> (\<open>pkg/ipam\<close>).
  \<^item> \<open>host-local\<close>: \<open>Alloc_Range\<close>, \<open>Alloc_RangeSet\<close>, \<open>Alloc_Iter\<close>, \<open>Alloc_Get\<close> (ranges, sets of ranges, the cursor, the
    allocator), \<open>Store_Spec\<close> (the store interface as the locale \<open>reservations\<close>), \<open>Disk_Store\<close> and \<open>Fake_Store\<close> (its two
    implementations, with interpretations), \<open>Alloc_Config\<close>, \<open>Host_Local\<close> (the commands), \<open>Alloc_Props\<close> and
    \<open>Range_Props\<close>: an allocated address is free, in a range and no gateway; the order is round-robin; when
    nothing is free the search ends with an error, but for the starting point from which it never ends; a failed ADD leaves nothing reserved; CHECK and DEL after ADD.
  \<^item> \<open>static\<close>: \<open>Static_Ipam\<close>. \<open>dhcp\<close>: \<open>Dhcp_Options\<close>, \<open>Dhcp_Client\<close>, \<open>Dhcp_Lease\<close> (the lease machine as a step
    relation), \<open>Dhcp_Daemon\<close> (the daemon as a step relation over goroutines and calls) with \<open>Dhcp_Props\<close> and
    \<open>Dhcp_Daemon_Props\<close>: the lease is rebound and given up only when it is time, and it is given up when no server
    answers; the table of the daemon is sound however the goroutines interleave.
  \<^item> \<open>village-ipam\<close>: \<open>Village_Ipam\<close> (the ConfigMap of the addresses), \<open>Village_Ipam_Main\<close> (the plugin and the stub in
    the daemon), \<open>Village_Ipam_Props\<close>, \<open>Village_Cluster\<close>: clients that run at the same time, under the optimistic
    locking of the API server, never hold the same address.
  \<^item> \<open>village\<close>: \<open>Village_Conf\<close>, \<open>Bridge\<close>, \<open>Bridge_Ctrl\<close>, \<open>Bridge_Props\<close> (\<open>pkg/bridge\<close>), \<open>Macvlan\<close> (\<open>pkg/macvlan\<close>),
    \<open>Village\<close>, \<open>Village_Props\<close>: an ADD that fails releases its addresses, the split of the result loses nothing.
  \<^item> Chained plugins: \<open>Portmap_Chain\<close>, \<open>Portmap\<close>, \<open>Portmap_Props\<close>; \<open>Firewall\<close>, \<open>Firewall_Spec\<close> (the contract of a
    backend as the locale \<open>firewall_backend\<close>, interpreted on iptables and on firewalld), \<open>Firewall_Props\<close>; \<open>Tuning\<close>,
    \<open>Tuning_Props\<close> (DEL restores the attributes; the locale \<open>link_attribute\<close>); \<open>Bandwidth\<close>; \<open>Sbr\<close>; \<open>Vrf\<close>.
  \<^item> \<open>Controller\<close>, \<open>Controller_Props\<close>: \<open>pkg/node\<close> and \<open>pkg/controller\<close>, and the routes of a node while it runs.

  Loops, bounds, fuel. Loops over slices are structural recursion. The search of the allocator, the search of
  \<open>village-ipam\<close> and the wait for addresses to settle are partial functions with \<open>None\<close> for a run that does not end, and
  theorems say when they end. The search for a routing table of \<open>sbr\<close> and the text loops are total, with their measures.
  An exchange with a DHCP server is tried at most five times. The watch of the controller is the list of batches
  it delivers before the daemon is stopped. The order in which Go runs through a map is a parameter.

  Concurrency. The lease machine and the daemon are step relations, in which a goroutine or a call makes one step at a
  time; acquiring a lease is one step of the daemon. The host-local store is used under its lock, so a command runs on it
  alone. The clients of \<open>village-ipam\<close> interleave at every read and every write of the ConfigMap.

  Not modelled. The floating-point conversions of \<open>bandwidth\<close> to the ticks of the kernel and the jitter of the DHCP
  client are parameters. Log output, file modes, and the exact text of messages beyond what the code looks at are left
  out. The sample plugin, the test utilities, the main functions that only register handlers, the constructors of the
  Kubernetes and etcd clients and everything vendored or generated are no part of the model.
\<close>

end
